(* ===== verification/Table.thy ===== *)
theory Table
  imports Prelude
begin

text \<open>
  The database tables of \<open>portal/internal/dbstore/models.go\<close> as lists of rows, and the
  statements the stores issue against them through GORM: insert with
  \<open>ON CONFLICT DO NOTHING\<close>, upsert on a key, update and delete with a condition, and
  ordered selects.  The list order is the order in which the engine happens to return rows;
  \<open>ORDER BY\<close> is a stable sort on top of it.  The locale \<open>unique_table\<close> is the contract of
  a store whose inserts are decided by a unique key, and \<open>add_all\<close> what a loop of such inserts
  in one transaction does.
\<close>

definition unique_by :: "('r \<Rightarrow> 'k) \<Rightarrow> 'r list \<Rightarrow> bool" where
  "unique_by key rows \<longleftrightarrow> distinct (map key rows)"

text \<open>\<open>INSERT ... ON CONFLICT DO NOTHING\<close> and the number of affected rows (as a flag).\<close>

definition insert_nothing :: "('r \<Rightarrow> 'k) \<Rightarrow> 'r \<Rightarrow> 'r list \<Rightarrow> 'r list \<times> bool" where
  "insert_nothing key r rows =
     (if key r \<in> key ` set rows then (rows, False) else (rows @ [r], True))"

text \<open>\<open>INSERT ... ON CONFLICT (key) DO UPDATE\<close>.\<close>

definition upsert :: "('r \<Rightarrow> 'k) \<Rightarrow> ('r \<Rightarrow> 'r) \<Rightarrow> 'r \<Rightarrow> 'r list \<Rightarrow> 'r list" where
  "upsert key upd r rows =
     (if key r \<in> key ` set rows then map (\<lambda>x. if key x = key r then upd x else x) rows
      else rows @ [r])"

definition delete_where :: "('r \<Rightarrow> bool) \<Rightarrow> 'r list \<Rightarrow> nat \<times> 'r list" where
  "delete_where p rows = (length (filter p rows), filter (\<lambda>r. \<not> p r) rows)"

definition update_where :: "('r \<Rightarrow> bool) \<Rightarrow> ('r \<Rightarrow> 'r) \<Rightarrow> 'r list \<Rightarrow> nat \<times> 'r list" where
  "update_where p f rows = (length (filter p rows), map (\<lambda>r. if p r then f r else r) rows)"

text \<open>\<open>LIMIT\<close> and \<open>OFFSET\<close> as GORM issues them: a value that is not positive is left out.\<close>

definition page_of :: "int \<Rightarrow> int \<Rightarrow> 'r list \<Rightarrow> 'r list" where
  "page_of offset limit rows =
     (let rest = (if offset > 0 then drop (nat offset) rows else rows)
      in if limit > 0 then take (nat limit) rest else rest)"

text \<open>
  \<open>LIKE\<close>: \<open>%\<close> stands for any text, \<open>_\<close> for one character.  (No escape character, as in
  SQLite, the default engine.)
\<close>

fun sql_like :: "string \<Rightarrow> string \<Rightarrow> bool" where
  "sql_like [] t \<longleftrightarrow> t = []"
| "sql_like (c # cs) t \<longleftrightarrow>
     (if c = CHR ''%'' then list_ex (sql_like cs) (suffixes t)
      else (case t of [] \<Rightarrow> False | x # xs \<Rightarrow> (c = CHR ''_'' \<or> c = x) \<and> sql_like cs xs))"

definition like_contains :: "string \<Rightarrow> string \<Rightarrow> bool" where
  "like_contains s t \<longleftrightarrow> sql_like (CHR ''%'' # s @ [CHR ''%'']) t"


subsection \<open>Lemmas\<close>

lemma unique_by_Nil [simp]: "unique_by key []"
  by (simp add: unique_by_def)

lemma unique_by_insert_nothing:
  "unique_by key rows \<Longrightarrow> unique_by key (fst (insert_nothing key r rows))"
  by (auto simp: unique_by_def insert_nothing_def)

lemma unique_by_filter: "unique_by key rows \<Longrightarrow> unique_by key (filter p rows)"
  by (auto simp: unique_by_def distinct_map inj_on_def)

lemma map_key_update:
  "(\<And>x. key (f x) = key x) \<Longrightarrow> map key (map (\<lambda>x. if p x then f x else x) rows) = map key rows"
  by simp

lemma unique_by_upsert:
  "(\<And>x. key (upd x) = key x) \<Longrightarrow> unique_by key rows \<Longrightarrow> unique_by key (upsert key upd r rows)"
  by (auto simp: unique_by_def upsert_def comp_def if_distrib [of key] cong: if_cong)

text \<open>GORM's \<open>Save\<close> of a row whose primary key is set: every column is written.\<close>

definition save_row :: "('r \<Rightarrow> 'k) \<Rightarrow> 'r \<Rightarrow> 'r list \<Rightarrow> 'r list" where
  "save_row key row tbl = upsert key (\<lambda>_. row) row tbl"

lemma save_row_Cons:
  "save_row key row (r # tbl) =
     (if key r = key row then row # map (\<lambda>x. if key x = key row then row else x) tbl
      else r # save_row key row tbl)"
  by (auto simp: save_row_def upsert_def)

lemma find_save_row:
  "find (\<lambda>r. key r = k) (save_row key row tbl) =
     (if key row = k then Some row else find (\<lambda>r. key r = k) tbl)"
proof (induction tbl)
  case Nil
  then show ?case by (simp add: save_row_def upsert_def)
next
  case (Cons r tbl)
  have "find (\<lambda>r. key r = k) (map (\<lambda>x. if key x = key row then row else x) tbl) = find (\<lambda>r. key r = k) tbl"
    if "key row \<noteq> k" using that by (induction tbl) auto
  with Cons show ?case by (auto simp: save_row_Cons)
qed

lemma unique_save_row: "unique_by key tbl \<Longrightarrow> unique_by key (save_row key row tbl)"
proof -
  have "map key (map (\<lambda>x. if key x = key row then row else x) tbl) = map key tbl" by simp
  then show "unique_by key tbl \<Longrightarrow> unique_by key (save_row key row tbl)"
    by (auto simp: save_row_def upsert_def unique_by_def simp del: map_map)
qed

lemma unique_by_update_where:
  "(\<And>x. key (f x) = key x) \<Longrightarrow> unique_by key rows \<Longrightarrow> unique_by key (snd (update_where p f rows))"
  by (auto simp: unique_by_def update_where_def comp_def if_distrib [of key] cong: if_cong)

lemma update_where_keys:
  "(\<And>x. key (f x) = key x) \<Longrightarrow> map key (snd (update_where p f rows)) = map key rows"
  by (simp add: update_where_def)

lemma unique_by_eq:
  "unique_by key rows \<Longrightarrow> r \<in> set rows \<Longrightarrow> r' \<in> set rows \<Longrightarrow> key r = key r' \<Longrightarrow> r = r'"
  by (auto simp: unique_by_def distinct_map dest: inj_onD)

lemma find_unique:
  assumes "unique_by key rows" "r \<in> set rows" "key r = k"
  shows "find (\<lambda>x. key x = k) rows = Some r"
  using assms
proof (induction rows)
  case Nil
  then show ?case by simp
next
  case (Cons x xs)
  then show ?case by (auto simp: unique_by_def)
qed

lemma find_SomeD: "find p rows = Some r \<Longrightarrow> r \<in> set rows \<and> p r"
  by (auto simp: find_Some_iff)

lemma find_map_update:
  assumes "\<And>x. p (f x) = p x"
  shows "find p (map (\<lambda>x. if q x then f x else x) rows) =
    map_option (\<lambda>x. if q x then f x else x) (find p rows)"
  by (induction rows) (auto simp: assms)

lemma find_append: "find p (xs @ ys) = (case find p xs of None \<Rightarrow> find p ys | Some x \<Rightarrow> Some x)"
  by (induction xs) auto

lemma find_key_None: "find (\<lambda>r. key r = k) rows = None \<longleftrightarrow> k \<notin> key ` set rows"
  unfolding find_None_iff by blast

lemma find_upsert:
  assumes "\<And>r. key (upd r) = key r"
  shows "find (\<lambda>r. key r = k) (upsert key upd row tbl) =
    (if key row = k then (case find (\<lambda>r. key r = k) tbl of None \<Rightarrow> Some row | Some r \<Rightarrow> Some (upd r))
     else find (\<lambda>r. key r = k) tbl)"
proof (cases "key row \<in> key ` set tbl")
  case True
  have "find (\<lambda>r. key r = k) (map (\<lambda>x. if key x = key row then upd x else x) tbl) =
      map_option (\<lambda>x. if key x = key row then upd x else x) (find (\<lambda>r. key r = k) tbl)"
    by (induction tbl) (auto simp: assms)
  moreover have "find (\<lambda>r. key r = key row) tbl \<noteq> None" using True by (auto simp: find_None_iff)
  ultimately show ?thesis
    using True by (auto simp: upsert_def split: option.split dest: find_SomeD)
next
  case False
  then have "find (\<lambda>r. key r = key row) tbl = None"
    by (simp add: find_key_None)
  with False show ?thesis by (auto simp: upsert_def find_append split: option.split)
qed

lemma like_percent_any: "sql_like [CHR ''%''] t"
  by (auto simp: list_ex_iff intro!: bexI [of _ "[]"])

lemma sql_like_literal:
  assumes "CHR ''%'' \<notin> set s" "CHR ''_'' \<notin> set s"
  shows "sql_like (s @ [CHR ''%'']) t \<longleftrightarrow> has_prefix t s"
  using assms
proof (induction s arbitrary: t)
  case Nil
  then show ?case using like_percent_any [of t] by (simp add: has_prefix_def)
next
  case (Cons c cs)
  then show ?case by (cases t) (auto simp: has_prefix_def)
qed

text \<open>Without wild cards in it, a search is a substring match.\<close>

lemma like_contains_literal:
  "CHR ''%'' \<notin> set s \<Longrightarrow> CHR ''_'' \<notin> set s \<Longrightarrow> like_contains s t \<longleftrightarrow> contains t s"
  by (simp add: like_contains_def contains_def list_ex_iff sql_like_literal)

lemma page_of_all: "page_of 0 0 rows = rows"
  by (simp add: page_of_def)

lemma set_page_of: "set (page_of off lim rows) \<subseteq> set rows"
  by (auto simp: page_of_def Let_def dest: in_set_takeD in_set_dropD)

text \<open>Consecutive pages put together give the table back.\<close>

lemma concat_pages:
  assumes "0 < n"
  shows "concat (map (\<lambda>i. page_of (int (i * n)) (int n) rows) [0..<k]) = take (k * n) rows"
proof (induction k)
  case 0
  then show ?case by simp
next
  case (Suc k)
  have "page_of (int (k * n)) (int n) rows = take n (drop (k * n) rows)"
    using assms by (cases "k = 0") (auto simp: page_of_def simp flip: of_nat_mult)
  then show ?case
    using Suc.IH by (simp add: take_add add.commute [of n])
qed


subsection \<open>Stores decided by a unique key\<close>

locale unique_table =
  fixes inv :: "'s \<Rightarrow> bool"
    and keys :: "'s \<Rightarrow> 'k list"
    and key :: "'r \<Rightarrow> 'k"
    and add :: "'r \<Rightarrow> 's \<Rightarrow> 's \<times> bool"
  assumes add_inv: "inv s \<Longrightarrow> inv (fst (add r s))"
    and add_keys: "inv s \<Longrightarrow>
      keys (fst (add r s)) = keys s @ (if key r \<in> set (keys s) then [] else [key r])"
    and add_flag: "inv s \<Longrightarrow> snd (add r s) \<longleftrightarrow> key r \<notin> set (keys s)"
begin

fun add_all :: "'r list \<Rightarrow> 's \<Rightarrow> 's \<times> 'r list" where
  "add_all [] s = (s, [])"
| "add_all (r # rs) s =
     (let (s', ok) = add r s; (s'', added) = add_all rs s'
      in (s'', if ok then r # added else added))"

lemma add_twice: "inv s \<Longrightarrow> \<not> snd (add r (fst (add r s)))"
  using add_flag [of "fst (add r s)" r] add_keys [of s r] add_inv [of s r] by auto

lemma add_all_inv: "inv s \<Longrightarrow> inv (fst (add_all rs s))"
  by (induction rs arbitrary: s) (auto simp: case_prod_beta Let_def add_inv)

lemma keys_add_all: "inv s \<Longrightarrow> keys (fst (add_all rs s)) = keys s @ map key (snd (add_all rs s))"
proof (induction rs arbitrary: s)
  case Nil
  then show ?case by simp
next
  case (Cons r rs)
  show ?case
    using Cons.IH [OF add_inv [OF Cons.prems], of r] add_keys [OF Cons.prems, of r]
      add_flag [OF Cons.prems, of r]
    by (auto simp: case_prod_beta Let_def)
qed

lemma add_all_covers: "inv s \<Longrightarrow> key ` set rs \<subseteq> set (keys (fst (add_all rs s)))"
proof (induction rs arbitrary: s)
  case Nil
  then show ?case by simp
next
  case (Cons r rs)
  have "key r \<in> set (keys (fst (add r s)))" using Cons.prems by (simp add: add_keys)
  then show ?case
    using Cons.IH [OF add_inv [OF Cons.prems], of r]
      keys_add_all [OF add_inv [OF Cons.prems], of rs r]
    by (auto simp: case_prod_beta Let_def)
qed

lemma add_all_unique:
  "inv s \<Longrightarrow> distinct (keys s) \<Longrightarrow> distinct (keys (fst (add_all rs s)))"
proof (induction rs arbitrary: s)
  case Nil
  then show ?case by simp
next
  case (Cons r rs)
  then have "distinct (keys (fst (add r s)))" by (simp add: add_keys)
  with Cons show ?case by (simp add: case_prod_beta Let_def add_inv)
qed

text \<open>The rows reported as added are new, offered, and pairwise different.\<close>

lemma add_all_new:
  assumes "inv s" "distinct (keys s)"
  shows "distinct (map key (snd (add_all rs s)))"
    and "set (map key (snd (add_all rs s))) \<inter> set (keys s) = {}"
  using add_all_unique [OF assms, of rs] by (simp_all add: keys_add_all [OF assms(1)]) auto

lemma add_all_offered: "set (snd (add_all rs s)) \<subseteq> set rs"
proof (induction rs arbitrary: s)
  case Nil
  then show ?case by simp
next
  case (Cons r rs)
  then show ?case
    using Cons.IH [of "fst (add r s)"] by (auto simp: case_prod_beta Let_def)
qed

lemma add_all_skip:
  "inv s \<Longrightarrow> key ` set rs \<subseteq> set (keys s) \<Longrightarrow> snd (add_all rs s) = []"
proof (induction rs arbitrary: s)
  case Nil
  then show ?case by simp
next
  case (Cons r rs)
  then show ?case
    using add_flag [OF Cons.prems(1), of r] Cons.IH [OF add_inv [OF Cons.prems(1)], of r]
    by (auto simp: case_prod_beta Let_def add_keys)
qed

end

text \<open>A bare table with \<open>insert_nothing\<close> meets the contract.\<close>

lemma insert_nothing_unique_table:
  "unique_table (\<lambda>_. True) (map key) key (insert_nothing key)"
  by unfold_locales (auto simp: insert_nothing_def)

end
