(* ===== verification/CappedStore.thy ===== *)
theory CappedStore
  imports Prelude
begin

text \<open>
  The eviction scheme the portal's three in-memory stores share (failure counters and used
  states in \<open>ratelimit.go\<close>, proceed tokens in \<open>auth_proceed.go\<close>): when a store is full, dead
  entries are dropped first; when it is still full the entries are sorted by age and the oldest
  are deleted until 90 percent of the capacity is left.  The locale \<open>capped_store\<close> states
  what an implementation promises, and proves once that a store that makes room before
  it inserts never exceeds its capacity.
\<close>

subsection \<open>The deletion loop\<close>

text \<open>
  \<open>for i := 0; i < len(all) && len(m) > target; i++ { delete(m, all[i].k) }\<close>, over the keys
  of \<open>all\<close>.
\<close>

fun evict_loop :: "nat \<Rightarrow> 'k list \<Rightarrow> ('k \<times> 'v) list \<Rightarrow> ('k \<times> 'v) list" where
  "evict_loop target [] es = es"
| "evict_loop target (k # ks) es =
     (if length es > target then evict_loop target ks (AList.delete k es) else es)"

definition evict_oldest :: "('v \<Rightarrow> time) \<Rightarrow> nat \<Rightarrow> ('k \<times> 'v) list \<Rightarrow> ('k \<times> 'v) list" where
  "evict_oldest age target es =
     evict_loop target (map fst (sort_key (\<lambda>e. age (snd e)) es)) es"

lemma length_delete:
  "distinct (map fst es) \<Longrightarrow> k \<in> fst ` set es \<Longrightarrow> length (AList.delete k es) = length es - 1"
proof (induction es)
  case Nil
  then show ?case by simp
next
  case (Cons e es)
  show ?case
  proof (cases "fst e = k")
    case True
    with Cons.prems have "k \<notin> fst ` set es" by auto
    then have "AList.delete k es = es" by (rule delete_id)
    with True show ?thesis by (cases e) simp
  next
    case False
    with Cons.prems have "k \<in> fst ` set es" by auto
    then have "es \<noteq> []" by auto
    with False Cons.IH Cons.prems \<open>k \<in> fst ` set es\<close> show ?thesis
      by (cases e) (auto simp: Suc_diff_le Suc_leI)
  qed
qed

lemma length_update:
  "length (AList.update k v es) = (if k \<in> fst ` set es then length es else Suc (length es))"
  by (induction es) auto

lemma delete_filter: "AList.delete k es = filter (\<lambda>e. fst e \<noteq> k) es"
  by (auto simp: AList.delete_eq case_prod_beta intro!: filter_cong)

lemma evict_loop_filter:
  assumes "distinct (map fst es)" "distinct ks" "set ks \<subseteq> fst ` set es"
  shows "evict_loop target ks es = filter (\<lambda>e. fst e \<notin> set (take (length es - target) ks)) es"
  using assms
proof (induction ks arbitrary: es)
  case Nil
  then show ?case by simp
next
  case (Cons k ks)
  show ?case
  proof (cases "length es > target")
    case False
    then show ?thesis by simp
  next
    case True
    let ?es = "AList.delete k es"
    have len: "length ?es = length es - 1"
      using Cons.prems by (intro length_delete) auto
    have dist: "distinct (map fst ?es)"
      using Cons.prems(1) by (simp add: distinct_delete)
    have "set (map fst ?es) = set (map fst es) - {k}"
      by (simp add: delete_keys)
    then have sub: "set ks \<subseteq> fst ` set ?es"
      using Cons.prems by auto
    have "evict_loop target ks ?es =
        filter (\<lambda>e. fst e \<notin> set (take (length ?es - target) ks)) ?es"
      using Cons.prems dist sub by (intro Cons.IH) auto
    moreover have "take (length es - target) (k # ks) = k # take (length ?es - target) ks"
    proof -
      have "length es - target = Suc (length ?es - target)"
        using True len by simp
      then show ?thesis by simp
    qed
    ultimately show ?thesis
      using True by (auto simp: delete_filter intro!: filter_cong)
  qed
qed

lemma sort_key_keys:
  "distinct (map fst es) \<Longrightarrow> distinct (map fst (sort_key f es))"
  "fst ` set (sort_key f es) = fst ` set es"
  by (simp_all add: distinct_map)

lemma evict_oldest_filter:
  "distinct (map fst es) \<Longrightarrow> evict_oldest age target es =
     filter (\<lambda>e. fst e \<notin> fst ` set (take (length es - target) (sort_key (\<lambda>e. age (snd e)) es))) es"
  unfolding evict_oldest_def
  by (subst evict_loop_filter) (auto simp: sort_key_keys take_map)

lemma evict_oldest_subset: "distinct (map fst es) \<Longrightarrow> set (evict_oldest age target es) \<subseteq> set es"
  by (auto simp: evict_oldest_filter)

lemma evict_oldest_distinct:
  "distinct (map fst es) \<Longrightarrow> distinct (map fst (evict_oldest age target es))"
  by (simp add: evict_oldest_filter distinct_map inj_on_def)

text \<open>What is left is the tail of the sorted entries.\<close>

lemma evict_oldest_set:
  assumes "distinct (map fst es)"
  shows "set (evict_oldest age target es) =
    set (drop (length es - target) (sort_key (\<lambda>e. age (snd e)) es))"
proof -
  let ?s = "sort_key (\<lambda>e. age (snd e)) es" and ?n = "length es - target"
  have split: "set es = set (take ?n ?s) \<union> set (drop ?n ?s)"
    by (metis append_take_drop_id set_append set_sort)
  have "distinct (map fst (take ?n ?s @ drop ?n ?s))"
    using assms by (simp only: append_take_drop_id sort_key_keys)
  then have "fst ` set (take ?n ?s) \<inter> fst ` set (drop ?n ?s) = {}"
    by (simp only: map_append distinct_append set_map)
  then show ?thesis
    using split by (auto simp: evict_oldest_filter [OF assms])
qed

lemma evict_oldest_length:
  assumes "distinct (map fst es)"
  shows "length (evict_oldest age target es) = min (length es) target"
proof -
  let ?s = "sort_key (\<lambda>e. age (snd e)) es" and ?n = "length es - target"
  have "distinct (evict_oldest age target es)" and "distinct (drop ?n ?s)"
    using assms evict_oldest_distinct [OF assms] sort_key_keys(1) [OF assms]
    by (auto simp: distinct_map)
  then have "length (evict_oldest age target es) = length (drop ?n ?s)"
    using evict_oldest_set [OF assms] by (metis distinct_card)
  then show ?thesis by simp
qed

text \<open>Every evicted entry is at least as old as every entry that stays.\<close>

lemma evict_oldest_age:
  assumes "distinct (map fst es)"
    and "x \<in> set es" "x \<notin> set (evict_oldest age target es)"
    and "y \<in> set (evict_oldest age target es)"
  shows "age (snd x) \<le> age (snd y)"
proof -
  let ?s = "sort_key (\<lambda>e. age (snd e)) es" and ?n = "length es - target"
  have "sorted (map (\<lambda>e. age (snd e)) (take ?n ?s @ drop ?n ?s))"
    by simp
  then have "\<forall>a\<in>set (take ?n ?s). \<forall>b\<in>set (drop ?n ?s). age (snd a) \<le> age (snd b)"
    by (simp only: map_append sorted_append) simp
  moreover have "x \<in> set (take ?n ?s)"
    using assms(2,3) evict_oldest_set [OF assms(1)]
    by (metis Un_iff append_take_drop_id set_append set_sort)
  ultimately show ?thesis
    using assms(4) evict_oldest_set [OF assms(1)] by auto
qed


subsection \<open>The contract of a capped store\<close>

locale capped_store =
  fixes room :: "time \<Rightarrow> ('k \<times> 'v) list \<Rightarrow> ('k \<times> 'v) list"
    and cap :: nat
  assumes room_keys: "distinct (map fst es) \<Longrightarrow> fst ` set (room t es) \<subseteq> fst ` set es"
    and room_distinct: "distinct (map fst es) \<Longrightarrow> distinct (map fst (room t es))"
    and room_below: "distinct (map fst es) \<Longrightarrow> length (room t es) < cap"
begin

definition wf :: "('k \<times> 'v) list \<Rightarrow> bool" where
  "wf es \<longleftrightarrow> distinct (map fst es) \<and> length es \<le> cap"

lemma wf_update:
  assumes "wf es" and "k \<in> fst ` set es \<or> length es < cap"
  shows "wf (AList.update k v es)"
  using assms by (auto simp: wf_def length_update distinct_update)

lemma wf_room: "wf es \<Longrightarrow> wf (room t es) \<and> length (room t es) < cap"
  using room_below [of es t] room_distinct [of es t] by (auto simp: wf_def)

lemma wf_put:
  assumes "wf es"
  shows "wf (AList.update k v (if k \<in> fst ` set es \<or> length es < cap then es else room t es))"
  using assms wf_room by (auto intro!: wf_update)

lemma wf_put_always:
  assumes "wf es"
  shows "wf (AList.update k v (if length es < cap then es else room t es))"
  using assms wf_room by (auto intro!: wf_update)

lemma wf_filter: "wf es \<Longrightarrow> wf (filter p es)"
  by (auto simp: wf_def distinct_map inj_on_def intro: le_trans [OF length_filter_le])

lemma wf_delete: "wf es \<Longrightarrow> wf (AList.delete k es)"
  by (simp add: delete_filter wf_filter)

lemma wf_Nil: "wf []"
  by (simp add: wf_def)

end

text \<open>Pruning with a predicate and then evicting to a target below the capacity is such a store.\<close>

definition prune_then_evict ::
  "('v \<Rightarrow> time) \<Rightarrow> nat \<Rightarrow> nat \<Rightarrow> (time \<Rightarrow> ('k \<times> 'v) list \<Rightarrow> ('k \<times> 'v) list) \<Rightarrow>
   time \<Rightarrow> ('k \<times> 'v) list \<Rightarrow> ('k \<times> 'v) list" where
  "prune_then_evict age cap target prune t es =
     (let live = prune t es
      in if length live < cap then live else evict_oldest age target live)"

lemma prune_then_evict_capped:
  fixes prune :: "time \<Rightarrow> ('k \<times> 'v) list \<Rightarrow> ('k \<times> 'v) list"
  assumes keys: "\<And>t es. fst ` set (prune t es) \<subseteq> fst ` set es"
    and dist: "\<And>t es. distinct (map fst es) \<Longrightarrow> distinct (map fst (prune t es))"
    and target: "target < cap"
  shows "capped_store (prune_then_evict age cap target prune) cap"
proof
  fix t :: time and es :: "('k \<times> 'v) list"
  assume d: "distinct (map fst es)"
  note d' = dist [OF d, of t]
  show "fst ` set (prune_then_evict age cap target prune t es) \<subseteq> fst ` set es"
    using keys [of t es] evict_oldest_subset [OF d', of age target]
    by (auto simp: prune_then_evict_def Let_def)
  show "distinct (map fst (prune_then_evict age cap target prune t es))"
    using d' evict_oldest_distinct [OF d'] by (simp add: prune_then_evict_def Let_def)
  show "length (prune_then_evict age cap target prune t es) < cap"
    using target evict_oldest_length [OF d'] by (simp add: prune_then_evict_def Let_def)
qed

text \<open>An entry that survives the pruning is lost only to entries that expire later.\<close>

lemma prune_then_evict_kept:
  assumes "distinct (map fst (prune t es))"
    and "x \<in> set (prune t es)" "x \<notin> set (prune_then_evict age cap target prune t es)"
    and "target < cap"
  shows "length (prune_then_evict age cap target prune t es) = target"
    and "y \<in> set (prune_then_evict age cap target prune t es) \<Longrightarrow> age (snd x) \<le> age (snd y)"
proof -
  from assms(2,3) have full: "\<not> length (prune t es) < cap"
    by (auto simp: prune_then_evict_def Let_def split: if_splits)
  then show "length (prune_then_evict age cap target prune t es) = target"
    using assms(4) evict_oldest_length [OF assms(1)] by (simp add: prune_then_evict_def Let_def)
  show "y \<in> set (prune_then_evict age cap target prune t es) \<Longrightarrow> age (snd x) \<le> age (snd y)"
    using full assms(2,3) evict_oldest_age [OF assms(1,2)]
    by (simp add: prune_then_evict_def Let_def)
qed

end
