(* ===== verification/IpBan.thy ===== *)
theory IpBan
  imports Table CappedStore
begin

text \<open>
  \<open>portal/store_ipban.go\<close> and the ban history of \<open>portal/store_policy.go\<close>.

  The active cooldowns are rows of the table \<open>ip_ban\<close>, shared by every instance of the portal;
  each instance has a cache of them (\<open>ipBanList\<close>).  An operation takes the table and the
  instance's own cache.  A flag \<open>flt\<close> says that the database statement fails; the
  readings of the clock within one call are one instant \<open>now\<close>.
\<close>

record ipBanRow =
  ib_ip :: string
  ib_until :: time
  ib_updated :: time

record ipBanList =
  bl_cache :: "(string \<times> time) list"
  bl_refreshed :: time
  bl_truncated :: bool

definition banCacheTTL :: duration where "banCacheTTL = 2 * second"
definition maxCachedBans :: nat where "maxCachedBans = 50000"

text \<open>\<open>PermanentBanUntil\<close> is 2125-01-01, and everything after 2100-01-01 counts as permanent.\<close>

definition PermanentBanUntil :: time where "PermanentBanUntil = 4891363200 * second"

definition IsPermanent :: "time \<Rightarrow> bool" where
  "IsPermanent t \<longleftrightarrow> after t (4102444800 * second)"

definition refresh :: "bool \<Rightarrow> time \<Rightarrow> ipBanRow list \<Rightarrow> ipBanList \<Rightarrow> ipBanList" where
  "refresh flt now tbl b =
     (if flt then b
      else (let rows = take maxCachedBans
                  (sort_key (\<lambda>r. - ib_until r) (filter (\<lambda>r. after (ib_until r) now) tbl));
                cache = fold (\<lambda>r. AList.update (ib_ip r) (ib_until r)) rows []
            in b\<lparr>bl_cache := cache, bl_refreshed := now,
                 bl_truncated := (length rows \<ge> maxCachedBans)\<rparr>))"

definition newIPBanList :: "bool \<Rightarrow> time \<Rightarrow> ipBanRow list \<Rightarrow> ipBanList" where
  "newIPBanList flt now tbl =
     refresh flt now tbl \<lparr>bl_cache = [], bl_refreshed = zero_time, bl_truncated = False\<rparr>"

definition refreshIfStale :: "bool \<Rightarrow> time \<Rightarrow> ipBanRow list \<Rightarrow> ipBanList \<Rightarrow> ipBanList" where
  "refreshIfStale flt now tbl b =
     (if time_sub now (bl_refreshed b) > banCacheTTL then refresh flt now tbl b else b)"

definition ban ::
  "bool \<Rightarrow> time \<Rightarrow> string \<Rightarrow> duration \<Rightarrow> ipBanRow list \<times> ipBanList \<Rightarrow> ipBanRow list \<times> ipBanList" where
  "ban flt now ip d st =
     (case st of (tbl, b) \<Rightarrow>
       if ip = [] then (tbl, b)
       else (let until = now + d;
                 tbl' = (if flt then tbl
                         else upsert ib_ip
                                (\<lambda>r. r\<lparr>ib_until := (if ib_until r > until then ib_until r else until),
                                       ib_updated := now\<rparr>)
                                \<lparr>ib_ip = ip, ib_until = until, ib_updated = now\<rparr> tbl);
                 cache = (case map_of (bl_cache b) ip of
                            None \<Rightarrow> AList.update ip until (bl_cache b)
                          | Some prev \<Rightarrow> if after until prev then AList.update ip until (bl_cache b)
                                         else bl_cache b)
             in (tbl', b\<lparr>bl_cache := cache\<rparr>)))"

definition expiryOf :: "bool \<Rightarrow> time \<Rightarrow> string \<Rightarrow> ipBanRow list \<Rightarrow> ipBanList \<Rightarrow> time option \<times> ipBanList" where
  "expiryOf flt now ip tbl b =
     (let b' = refreshIfStale flt now tbl b
      in case map_of (bl_cache b') ip of
           None \<Rightarrow> (None, b')
         | Some exp \<Rightarrow>
             if after now exp then (None, b'\<lparr>bl_cache := AList.delete ip (bl_cache b')\<rparr>)
             else (Some exp, b'))"

definition isBanned :: "bool \<Rightarrow> time \<Rightarrow> string \<Rightarrow> ipBanRow list \<Rightarrow> ipBanList \<Rightarrow> bool \<times> ipBanList" where
  "isBanned flt now ip tbl b =
     (case expiryOf flt now ip tbl b of (r, b') \<Rightarrow> (r \<noteq> None, b'))"

definition unban :: "bool \<Rightarrow> string \<Rightarrow> ipBanRow list \<times> ipBanList \<Rightarrow> bool \<times> ipBanRow list \<times> ipBanList" where
  "unban flt ip st =
     (case st of (tbl, b) \<Rightarrow>
       (let (n, tbl') = (if flt then (0, tbl) else delete_where (\<lambda>r. ib_ip r = ip) tbl);
            cached = (map_of (bl_cache b) ip \<noteq> None)
        in (n > 0 \<or> cached, tbl', b\<lparr>bl_cache := AList.delete ip (bl_cache b)\<rparr>)))"

text \<open>\<open>fltCount\<close> is the failure of the count, \<open>fltDelete\<close> the one of the delete.\<close>

definition unbanAll ::
  "bool \<Rightarrow> bool \<Rightarrow> time \<Rightarrow> ipBanRow list \<times> ipBanList \<Rightarrow> nat \<times> ipBanRow list \<times> ipBanList" where
  "unbanAll fltCount fltDelete now st =
     (case st of (tbl, b) \<Rightarrow>
       (let n = (if fltCount then 0 else length (filter (\<lambda>r. after (ib_until r) now) tbl))
        in if fltDelete then (0, tbl, b)
           else (n, [], b\<lparr>bl_cache := [], bl_refreshed := now\<rparr>)))"

record banSnapshot =
  bs_ip :: string
  bs_expires :: int

definition ban_snapshot :: "bool \<Rightarrow> time \<Rightarrow> ipBanRow list \<Rightarrow> banSnapshot list" where
  "ban_snapshot flt now tbl =
     (if flt then []
      else sort_key bs_expires
             (map (\<lambda>r. \<lparr>bs_ip = ib_ip r, bs_expires = unix (ib_until r)\<rparr>)
               (take maxCachedBans
                 (sort_key ib_until (filter (\<lambda>r. after (ib_until r) now) tbl)))))"

text \<open>One tick of \<open>gcLoop\<close>.\<close>

definition ban_gc :: "bool \<Rightarrow> bool \<Rightarrow> time \<Rightarrow> ipBanRow list \<times> ipBanList \<Rightarrow> ipBanRow list \<times> ipBanList" where
  "ban_gc fltSweep fltRefresh now st =
     (case st of (tbl, b) \<Rightarrow>
       (let tbl' = (if fltSweep then tbl else snd (delete_where (\<lambda>r. \<not> after (ib_until r) now) tbl))
        in (tbl', refresh fltRefresh now tbl' b)))"


subsection \<open>The cache as a view of the table\<close>

abbreviation wf_bans :: "ipBanRow list \<Rightarrow> bool" where
  "wf_bans \<equiv> unique_by ib_ip"

definition until_of :: "ipBanRow list \<Rightarrow> string \<Rightarrow> time option" where
  "until_of tbl ip = map_option ib_until (find (\<lambda>r. ib_ip r = ip) tbl)"

lemma fold_update_rows:
  "map_of (fold (\<lambda>r. AList.update (f r) (g r)) rows acc) k =
     (case map_of (rev (map (\<lambda>r. (f r, g r)) rows)) k of None \<Rightarrow> map_of acc k | Some v \<Rightarrow> Some v)"
  by (induction rows arbitrary: acc)
    (auto simp: update_conv' map_add_def split: option.splits)

lemma map_of_unique_rows:
  assumes "distinct (map f rows)"
  shows "map_of (fold (\<lambda>r. AList.update (f r) (g r)) rows []) k = Some v \<longleftrightarrow>
    (\<exists>r\<in>set rows. f r = k \<and> g r = v)"
proof -
  let ?ps = "rev (map (\<lambda>r. (f r, g r)) rows)"
  have "distinct (map fst ?ps)"
    using assms by (simp add: comp_def flip: rev_map)
  then have "map_of ?ps k = Some v \<longleftrightarrow> (k, v) \<in> set ?ps"
    by (rule map_of_eq_Some_iff)
  then show ?thesis
    by (auto simp: fold_update_rows split: option.splits)
qed

lemma until_of_Some:
  "wf_bans tbl \<Longrightarrow> until_of tbl ip = Some u \<longleftrightarrow> (\<exists>r\<in>set tbl. ib_ip r = ip \<and> ib_until r = u)"
  by (auto simp: until_of_def find_unique dest!: find_SomeD)

text \<open>
  When the active bans fit under the cap, a successful refresh makes the cache exactly the
  active part of the table.
\<close>

lemma refresh_exact:
  assumes "wf_bans tbl"
    and "length (filter (\<lambda>r. after (ib_until r) now) tbl) \<le> maxCachedBans"
  shows "map_of (bl_cache (refresh False now tbl b)) ip =
    (case until_of tbl ip of None \<Rightarrow> None | Some u \<Rightarrow> if after u now then Some u else None)"
proof -
  let ?rows = "sort_key (\<lambda>r. - ib_until r) (filter (\<lambda>r. after (ib_until r) now) tbl)"
  have all: "take maxCachedBans ?rows = ?rows" using assms(2) by simp
  have "distinct (map ib_ip (filter (\<lambda>r. after (ib_until r) now) tbl))"
    using unique_by_filter [OF assms(1)] by (simp add: unique_by_def)
  then have "distinct (map ib_ip ?rows)"
    by (simp add: distinct_map)
  then have "map_of (bl_cache (refresh False now tbl b)) ip = Some v \<longleftrightarrow>
      (\<exists>r\<in>set tbl. ib_ip r = ip \<and> ib_until r = v \<and> after v now)" for v
    by (auto simp: refresh_def Let_def all map_of_unique_rows)
  then have iff: "map_of (bl_cache (refresh False now tbl b)) ip = Some v \<longleftrightarrow>
      until_of tbl ip = Some v \<and> after v now" for v
    using until_of_Some [OF assms(1)] by blast
  show ?thesis
  proof (cases "map_of (bl_cache (refresh False now tbl b)) ip")
    case None
    then show ?thesis using iff by (auto split: option.splits)
  next
    case (Some v)
    then show ?thesis using iff [of v] by simp
  qed
qed

lemma refresh_refreshed [simp]: "bl_refreshed (refresh False now tbl b) = now"
  by (simp add: refresh_def Let_def)

lemma refresh_fault [simp]: "refresh True now tbl b = b"
  by (simp add: refresh_def)

lemma ban_table_unique: "wf_bans tbl \<Longrightarrow> wf_bans (fst (ban flt now ip d (tbl, b)))"
  by (auto simp: ban_def Let_def intro!: unique_by_upsert)

text \<open>A ban is recorded in the table and only ever moves an expiry forward.\<close>

lemma find_upsert_same:
  assumes "unique_by key rows" "\<And>x. key (upd x) = key x"
  shows "find (\<lambda>x. key x = key r) (upsert key upd r rows) =
    Some (case find (\<lambda>x. key x = key r) rows of None \<Rightarrow> r | Some x \<Rightarrow> upd x)"
proof (cases "find (\<lambda>x. key x = key r) rows")
  case None
  then have "key r \<notin> key ` set rows"
    by (auto simp: find_None_iff)
  with None show ?thesis by (simp add: upsert_def find_append)
next
  case (Some x)
  then have x: "x \<in> set rows" "key x = key r"
    by (auto dest!: find_SomeD)
  then have "key r \<in> key ` set rows" by (metis imageI)
  with Some x(2) show ?thesis
    by (simp add: upsert_def find_map_update assms(2))
qed

lemma find_upsert_other:
  assumes "\<And>x. key (upd x) = key x" "k \<noteq> key r"
  shows "find (\<lambda>x. key x = k) (upsert key upd r rows) = find (\<lambda>x. key x = k) rows"
proof -
  have "map_option (\<lambda>x. if key x = key r then upd x else x) (find (\<lambda>x. key x = k) rows) =
      find (\<lambda>x. key x = k) rows"
    using assms(2) by (cases "find (\<lambda>x. key x = k) rows") (auto dest: find_SomeD)
  then show ?thesis
    using assms by (auto simp: upsert_def find_map_update find_append split: option.splits)
qed

lemma ban_until:
  assumes "wf_bans tbl" "ip \<noteq> []"
  shows "until_of (fst (ban False now ip d (tbl, b))) ip =
    Some (case until_of tbl ip of None \<Rightarrow> now + d | Some u \<Rightarrow> max u (now + d))"
  using assms find_upsert_same [of ib_ip tbl
      "\<lambda>r. r\<lparr>ib_until := (if ib_until r > now + d then ib_until r else now + d), ib_updated := now\<rparr>"
      "\<lparr>ib_ip = ip, ib_until = now + d, ib_updated = now\<rparr>"]
  by (auto simp: ban_def until_of_def Let_def max_def split: option.splits)

lemma ban_until_other:
  assumes "ip' \<noteq> ip"
  shows "until_of (fst (ban flt now ip d (tbl, b))) ip' = until_of tbl ip'"
  using assms find_upsert_other [of ib_ip
      "\<lambda>r. r\<lparr>ib_until := (if ib_until r > now + d then ib_until r else now + d), ib_updated := now\<rparr>"
      ip' "\<lparr>ib_ip = ip, ib_until = now + d, ib_updated = now\<rparr>" tbl]
  by (auto simp: ban_def until_of_def Let_def)

lemma ban_cache:
  "ip \<noteq> [] \<Longrightarrow> map_of (bl_cache (snd (ban flt now ip d (tbl, b)))) ip =
     Some (case map_of (bl_cache b) ip of None \<Rightarrow> now + d | Some u \<Rightarrow> max u (now + d))"
  by (auto simp: ban_def Let_def update_conv' after_def max_def split: option.splits)

lemma ban_refreshed [simp]: "bl_refreshed (snd (ban flt now ip d (tbl, b))) = bl_refreshed b"
  by (simp add: ban_def Let_def)

lemma expiryOf_fresh:
  "\<not> time_sub now (bl_refreshed b) > banCacheTTL \<Longrightarrow>
     fst (expiryOf flt now ip tbl b) =
       (case map_of (bl_cache b) ip of None \<Rightarrow> None | Some u \<Rightarrow> if after now u then None else Some u)"
  by (simp add: expiryOf_def refreshIfStale_def split: option.splits)

lemma isBanned_expiryOf:
  "fst (isBanned flt now ip tbl b) \<longleftrightarrow> fst (expiryOf flt now ip tbl b) \<noteq> None"
  by (simp add: isBanned_def case_prod_beta)

lemma unban_gone:
  "until_of (fst (snd (unban False ip (tbl, b)))) ip = None"
  "map_of (bl_cache (snd (snd (unban flt ip (tbl, b))))) ip = None"
  by (auto simp: unban_def until_of_def delete_where_def find_None_iff Let_def delete_conv'
      split: prod.splits)


section \<open>The ban history\<close>

text \<open>The table \<open>ban_history\<close>: how many cooldowns an address has had.\<close>

record banHistoryRow =
  bh_ip :: string
  bh_count :: int
  bh_updated :: time

definition bh_get :: "bool \<Rightarrow> string \<Rightarrow> banHistoryRow list \<Rightarrow> int" where
  "bh_get flt ip tbl =
     (if ip = [] then 0
      else if flt then 0
      else (case find (\<lambda>r. bh_ip r = ip) tbl of None \<Rightarrow> 0 | Some r \<Rightarrow> bh_count r))"

definition bh_increment ::
  "bool \<Rightarrow> bool \<Rightarrow> time \<Rightarrow> string \<Rightarrow> banHistoryRow list \<Rightarrow> int \<times> banHistoryRow list" where
  "bh_increment fltUpsert fltGet now ip tbl =
     (if ip = [] then (0, tbl)
      else if fltUpsert then (0, tbl)
      else (let tbl' = upsert bh_ip (\<lambda>r. r\<lparr>bh_count := bh_count r + 1, bh_updated := now\<rparr>)
                         \<lparr>bh_ip = ip, bh_count = 1, bh_updated = now\<rparr> tbl
            in (bh_get fltGet ip tbl', tbl')))"

definition bh_reset :: "bool \<Rightarrow> string \<Rightarrow> banHistoryRow list \<Rightarrow> banHistoryRow list" where
  "bh_reset flt ip tbl =
     (if ip = [] then tbl
      else if flt then tbl else snd (delete_where (\<lambda>r. bh_ip r = ip) tbl))"

definition bh_resetAll :: "bool \<Rightarrow> banHistoryRow list \<Rightarrow> nat \<times> banHistoryRow list" where
  "bh_resetAll flt tbl = (if flt then (0, tbl) else (length tbl, []))"

definition bh_snapshot :: "bool \<Rightarrow> banHistoryRow list \<Rightarrow> (string \<times> int) list" where
  "bh_snapshot flt tbl =
     (if flt then [] else fold (\<lambda>r. AList.update (bh_ip r) (bh_count r)) tbl [])"

lemma bh_increment_unique:
  "unique_by bh_ip tbl \<Longrightarrow> unique_by bh_ip (snd (bh_increment f g now ip tbl))"
  by (auto simp: bh_increment_def Let_def intro!: unique_by_upsert)

lemma bh_increment_counts:
  assumes "unique_by bh_ip tbl" "ip \<noteq> []"
  shows "fst (bh_increment False False now ip tbl) = bh_get False ip tbl + 1"
    and "bh_get False ip (snd (bh_increment False False now ip tbl)) = bh_get False ip tbl + 1"
  using assms find_upsert_same [of bh_ip tbl "\<lambda>r. r\<lparr>bh_count := bh_count r + 1, bh_updated := now\<rparr>"
      "\<lparr>bh_ip = ip, bh_count = 1, bh_updated = now\<rparr>"]
  by (auto simp: bh_increment_def bh_get_def Let_def split: option.splits)

lemma bh_increment_other:
  assumes "ip' \<noteq> ip"
  shows "bh_get False ip' (snd (bh_increment f g now ip tbl)) = bh_get False ip' tbl"
  using assms find_upsert_other [of bh_ip "\<lambda>r. r\<lparr>bh_count := bh_count r + 1, bh_updated := now\<rparr>"
      ip' "\<lparr>bh_ip = ip, bh_count = 1, bh_updated = now\<rparr>" tbl]
  by (auto simp: bh_increment_def bh_get_def Let_def)

lemma bh_reset_get: "bh_get False ip (bh_reset False ip tbl) = 0"
  by (auto simp: bh_get_def bh_reset_def delete_where_def split: option.splits dest: find_SomeD)

end
