(* ===== verification/IKuaiPolicy.thy ===== *)
theory IKuaiPolicy
  imports Table IpBan
begin

text \<open>
  \<open>portal/ikuai_policy.go\<close> and the policy store of \<open>portal/store_policy.go\<close>: the bandwidth and
  session limits an authenticated device gets, per sign-in method.  The store reads from a
  cache that is replaced as a whole; the table is written by \<open>Set\<close>.
\<close>

section \<open>Policies\<close>

type_synonym IKuaiAuthProfile = string

definition IKuaiProfileSSO :: IKuaiAuthProfile where "IKuaiProfileSSO = ''sso''"
definition IKuaiProfileDuo :: IKuaiAuthProfile where "IKuaiProfileDuo = ''duo''"
definition IKuaiProfileGuest :: IKuaiAuthProfile where "IKuaiProfileGuest = ''guest''"

lemmas profile_defs = IKuaiProfileSSO_def IKuaiProfileDuo_def IKuaiProfileGuest_def

definition allIKuaiProfiles :: "IKuaiAuthProfile list" where
  "allIKuaiProfiles = [IKuaiProfileSSO, IKuaiProfileDuo, IKuaiProfileGuest]"

record IKuaiPolicy =
  p_upload :: int
  p_download :: int
  p_timeout :: int
  p_comment :: string

definition zero_policy :: IKuaiPolicy where
  "zero_policy = \<lparr>p_upload = 0, p_download = 0, p_timeout = 0, p_comment = []\<rparr>"

definition parseIKuaiProfile :: "string \<Rightarrow> IKuaiAuthProfile option" where
  "parseIKuaiProfile s =
     (let p = to_lower (trim_space s)
      in if p = IKuaiProfileSSO then Some IKuaiProfileSSO
         else if p = IKuaiProfileDuo then Some IKuaiProfileDuo
         else if p = IKuaiProfileGuest then Some IKuaiProfileGuest
         else None)"

definition ikuaiProfileLabel :: "IKuaiAuthProfile \<Rightarrow> string" where
  "ikuaiProfileLabel p =
     (if p = IKuaiProfileSSO then ''SSO member''
      else if p = IKuaiProfileDuo then ''Duo member''
      else if p = IKuaiProfileGuest then ''guest_code''
      else p)"

text \<open>The error message, or \<open>None\<close> for a valid policy.\<close>

definition validateIKuaiPolicy :: "IKuaiPolicy \<Rightarrow> string option" where
  "validateIKuaiPolicy p =
     (if p_upload p < 0 \<or> p_download p < 0 \<or> p_timeout p < 0 then Some ''negative_value''
      else if length (trim_space (p_comment p)) > 128 then Some ''comment_too_long''
      else None)"

definition normalizeIKuaiPolicy :: "IKuaiPolicy \<Rightarrow> IKuaiPolicy" where
  "normalizeIKuaiPolicy p = p\<lparr>p_comment := trim_space (p_comment p)\<rparr>"

definition normalizeIKuaiPolicyForProfile :: "IKuaiAuthProfile \<Rightarrow> IKuaiPolicy \<Rightarrow> IKuaiPolicy" where
  "normalizeIKuaiPolicyForProfile profile p =
     (let p' = normalizeIKuaiPolicy p
      in if profile = IKuaiProfileGuest then p'\<lparr>p_timeout := 0\<rparr> else p')"

text \<open>A map of policies, keyed by profile.\<close>

type_synonym policyMap = "(IKuaiAuthProfile \<times> IKuaiPolicy) list"

definition clonePolicyMap :: "policyMap \<Rightarrow> policyMap" where
  "clonePolicyMap m = map (\<lambda>e. (fst e, normalizeIKuaiPolicyForProfile (fst e) (snd e))) m"

text \<open>Reading a missing key of a Go map gives the zero value.\<close>

definition policy_at :: "policyMap \<Rightarrow> IKuaiAuthProfile \<Rightarrow> IKuaiPolicy" where
  "policy_at m k = (case map_of m k of None \<Rightarrow> zero_policy | Some p \<Rightarrow> p)"


section \<open>The store\<close>

record policyRow =
  pr_profile :: string
  pr_upload :: int
  pr_download :: int
  pr_timeout :: int
  pr_comment :: string
  pr_updated :: time

record IKuaiPolicyStore =
  st_defaults :: policyMap
  st_cache :: policyMap

definition policy_row :: "time \<Rightarrow> IKuaiAuthProfile \<Rightarrow> IKuaiPolicy \<Rightarrow> policyRow" where
  "policy_row now profile p =
     \<lparr>pr_profile = profile, pr_upload = p_upload p, pr_download = p_download p,
      pr_timeout = p_timeout p, pr_comment = p_comment p, pr_updated = now\<rparr>"

definition row_policy :: "policyRow \<Rightarrow> IKuaiPolicy" where
  "row_policy r = \<lparr>p_upload = pr_upload r, p_download = pr_download r,
                   p_timeout = pr_timeout r, p_comment = pr_comment r\<rparr>"

text \<open>The columns an upsert assigns.\<close>

definition set_row :: "time \<Rightarrow> IKuaiPolicy \<Rightarrow> policyRow \<Rightarrow> policyRow" where
  "set_row now p r = r\<lparr>pr_upload := p_upload p, pr_download := p_download p,
     pr_timeout := p_timeout p, pr_comment := p_comment p, pr_updated := now\<rparr>"

text \<open>One multi-row insert with \<open>ON CONFLICT DO NOTHING\<close>; \<open>False\<close> when the statement fails.\<close>

definition seedMissing :: "bool \<Rightarrow> time \<Rightarrow> policyMap \<Rightarrow> policyRow list \<Rightarrow> bool \<times> policyRow list" where
  "seedMissing flt now defaults tbl =
     (if flt then (False, tbl)
      else (True, fold (\<lambda>profile t. fst (insert_nothing pr_profile
              (policy_row now profile (normalizeIKuaiPolicyForProfile profile (policy_at defaults profile))) t))
            allIKuaiProfiles tbl))"

definition Refresh :: "bool \<Rightarrow> policyRow list \<Rightarrow> IKuaiPolicyStore \<Rightarrow> bool \<times> IKuaiPolicyStore" where
  "Refresh flt tbl s =
     (if flt then (False, s)
      else (True, s\<lparr>st_cache := fold (\<lambda>r. AList.update (pr_profile r) (row_policy r)) tbl []\<rparr>))"

definition newIKuaiPolicyStore ::
  "bool \<Rightarrow> bool \<Rightarrow> time \<Rightarrow> policyMap \<Rightarrow> policyRow list \<Rightarrow> IKuaiPolicyStore option \<times> policyRow list" where
  "newIKuaiPolicyStore fltSeed fltLoad now defaults tbl =
     (case seedMissing fltSeed now defaults tbl of (seeded, tbl') \<Rightarrow>
       if \<not> seeded then (None, tbl')
       else (case Refresh fltLoad tbl' \<lparr>st_defaults = defaults, st_cache = []\<rparr> of (ok, s) \<Rightarrow>
          (if ok then Some s else None, tbl')))"

definition policy_get :: "IKuaiAuthProfile \<Rightarrow> IKuaiPolicyStore \<Rightarrow> IKuaiPolicy" where
  "policy_get profile s =
     (case map_of (st_cache s) profile of
        Some p \<Rightarrow> p
      | None \<Rightarrow> policy_at (st_defaults s) profile)"

text \<open>A failed reload after the save is only logged, and the cache keeps the previous values.\<close>

definition policy_set ::
  "bool \<Rightarrow> bool \<Rightarrow> time \<Rightarrow> IKuaiAuthProfile \<Rightarrow> IKuaiPolicy \<Rightarrow> policyRow list \<times> IKuaiPolicyStore \<Rightarrow>
   string option \<times> policyRow list \<times> IKuaiPolicyStore" where
  "policy_set fltSave fltReload now profile p st =
     (case st of (tbl, s) \<Rightarrow>
       if parseIKuaiProfile profile = None then (Some ''invalid_profile'', tbl, s)
       else (case validateIKuaiPolicy p of
          Some err \<Rightarrow> (Some err, tbl, s)
        | None \<Rightarrow>
            if fltSave then (Some ''iKuai policy: save'', tbl, s)
            else (let p' = normalizeIKuaiPolicyForProfile profile p;
                      row = policy_row now profile p';
                      tbl' = upsert pr_profile (set_row now p') row tbl
                  in (None, tbl', snd (Refresh fltReload tbl' s)))))"

record IKuaiPolicyRow =
  v_profile :: string
  v_label :: string
  v_policy :: IKuaiPolicy

definition policy_list :: "IKuaiPolicyStore \<Rightarrow> IKuaiPolicyRow list" where
  "policy_list s =
     map (\<lambda>profile. \<lparr>v_profile = profile, v_label = ikuaiProfileLabel profile,
                     v_policy = policy_get profile s\<rparr>) allIKuaiProfiles"


subsection \<open>What the store keeps\<close>

lemma normalize_idem:
  "normalizeIKuaiPolicyForProfile k (normalizeIKuaiPolicyForProfile k p) =
     normalizeIKuaiPolicyForProfile k p"
  by (simp add: normalizeIKuaiPolicyForProfile_def normalizeIKuaiPolicy_def Let_def)

lemma validate_normalized:
  "validateIKuaiPolicy p = None \<Longrightarrow> validateIKuaiPolicy (normalizeIKuaiPolicyForProfile k p) = None"
  by (auto simp: validateIKuaiPolicy_def normalizeIKuaiPolicyForProfile_def normalizeIKuaiPolicy_def
      Let_def split: if_splits)

lemma parseIKuaiProfile_all: "parseIKuaiProfile s = Some k \<Longrightarrow> k \<in> set allIKuaiProfiles"
  by (auto simp: parseIKuaiProfile_def allIKuaiProfiles_def Let_def split: if_splits)

lemma row_policy_row [simp]: "row_policy (policy_row now k p) = p"
  by (simp add: row_policy_def policy_row_def)

lemma policy_row_profile [simp]: "pr_profile (policy_row now k p) = k"
  by (simp add: policy_row_def)

lemma policy_row_timeout: "pr_timeout (policy_row now k p) = p_timeout p"
  by (simp add: policy_row_def)

text \<open>The table never gives the guest profile a session limit of its own.\<close>

definition wf_policies :: "policyRow list \<Rightarrow> bool" where
  "wf_policies tbl \<longleftrightarrow> unique_by pr_profile tbl \<and>
     (\<forall>r\<in>set tbl. pr_profile r = IKuaiProfileGuest \<longrightarrow> pr_timeout r = 0)"

lemma guest_timeout_normalized:
  "p_timeout (normalizeIKuaiPolicyForProfile IKuaiProfileGuest p) = 0"
  by (simp add: normalizeIKuaiPolicyForProfile_def Let_def)

lemma wf_seed_one:
  "wf_policies tbl \<Longrightarrow>
   wf_policies (fst (insert_nothing pr_profile
     (policy_row now k (normalizeIKuaiPolicyForProfile k p)) tbl))"
  using unique_by_insert_nothing [of pr_profile tbl
      "policy_row now k (normalizeIKuaiPolicyForProfile k p)"]
  by (auto simp: wf_policies_def insert_nothing_def policy_row_timeout guest_timeout_normalized)

lemma wf_seedMissing: "wf_policies tbl \<Longrightarrow> wf_policies (snd (seedMissing flt now d tbl))"
  by (auto simp: seedMissing_def allIKuaiProfiles_def intro!: wf_seed_one)

lemma set_row_simps [simp]:
  "pr_profile (set_row now p r) = pr_profile r"
  "row_policy (set_row now p r) = p"
  "pr_timeout (set_row now p r) = p_timeout p"
  by (simp_all add: set_row_def row_policy_def)

lemma wf_policies_upsert:
  "wf_policies tbl \<Longrightarrow>
   wf_policies (upsert pr_profile (set_row now (normalizeIKuaiPolicyForProfile k p))
     (policy_row now k (normalizeIKuaiPolicyForProfile k p)) tbl)"
  using unique_by_upsert [of pr_profile "set_row now (normalizeIKuaiPolicyForProfile k p)" tbl
      "policy_row now k (normalizeIKuaiPolicyForProfile k p)"]
  by (auto simp: wf_policies_def upsert_def policy_row_timeout guest_timeout_normalized)

lemma wf_policy_set: "wf_policies tbl \<Longrightarrow> wf_policies (fst (snd (policy_set f g now k p (tbl, s))))"
  by (simp add: policy_set_def Let_def wf_policies_upsert split: option.splits)

lemma Refresh_get:
  assumes "unique_by pr_profile tbl"
  shows "map_of (st_cache (snd (Refresh False tbl s))) k =
    map_option row_policy (find (\<lambda>r. pr_profile r = k) tbl)"
proof -
  have "map_of (st_cache (snd (Refresh False tbl s))) k = Some v \<longleftrightarrow>
      (\<exists>r\<in>set tbl. pr_profile r = k \<and> row_policy r = v)" for v
    using assms by (simp add: Refresh_def map_of_unique_rows unique_by_def)
  then have iff: "map_of (st_cache (snd (Refresh False tbl s))) k = Some v \<longleftrightarrow>
      map_option row_policy (find (\<lambda>r. pr_profile r = k) tbl) = Some v" for v
    using find_unique [OF assms] by (auto dest!: find_SomeD)
  then show ?thesis
    by (metis not_None_eq)
qed

lemma Refresh_defaults [simp]: "st_defaults (snd (Refresh flt tbl s)) = st_defaults s"
  by (simp add: Refresh_def)

end
