(* ===== verification/Config.thy ===== *)
theory Config
  imports IKuaiPolicy
begin

text \<open>
  \<open>portal/config.go\<close>: the configuration record, the predicates over it the handlers branch on,
  and the parsers of its fields.  Reading the process environment is not modelled; the
  validation of a brand color and the splitting of lists are.
\<close>

section \<open>The configuration record\<close>

record Config =
  TenantID :: string
  ClientID :: string
  ClientSecret :: string
  IKuaiAppKey :: string
  IKuaiWebAuthURL :: string
  IKuaiReleaseType :: string
  IKuaiPolicyDefaults :: policyMap
  SessionSecret :: string
  PublicURL :: string
  ListenAddr :: string
  TrustProxy :: bool
  DataDir :: string
  BrandName :: string
  BrandColor :: string
  BrandLogoURL :: string
  IKuaiIPKeys :: "string list"
  IKuaiMACKeys :: "string list"
  DuoIKey :: string
  DuoSKey :: string
  DuoClientID :: string
  DuoClientSecret :: string
  DuoAPIHost :: string
  AllowedEmailDomains :: "string list"
  AdminEmails :: "string list"
  AdminGroupIDs :: "string list"
  AuthEmailFailsShort :: int
  AuthEmailWindowShort :: duration
  AuthEmailFailsLong :: int
  AuthEmailWindowLong :: duration
  GuestCodeMacFails :: int
  GuestCodeMacWindow :: duration
  IPFailsLimit :: int
  IPFailsWindow :: duration
  IPBanDuration :: duration
  IPBanEscalateAt :: int
  AuthProceedTTL :: duration
  EventLogRetention :: duration
  LocalAdminEnabled :: bool
  LocalAdminAllowedFrom :: string
  TLSMode :: string
  TLSDomain :: string
  TLSListenAddr :: string
  TLSRedirectHTTP :: bool
  ACMEEnabled :: bool
  ACMEEmail :: string
  ACMEStaging :: bool

record BootstrapConfig =
  b_ListenAddr :: string
  b_SessionSecret :: string
  b_EncryptionKey :: string
  b_DataDir :: string
  b_DBDSN :: string
  b_DBMaxOpenConns :: int
  b_TrustProxy :: bool

definition applyBootstrap :: "BootstrapConfig \<Rightarrow> Config \<Rightarrow> Config" where
  "applyBootstrap b cfg =
     cfg\<lparr>ListenAddr := b_ListenAddr b, SessionSecret := b_SessionSecret b,
         DataDir := b_DataDir b, TrustProxy := b_TrustProxy b\<rparr>"

definition IsDuoEnabled :: "Config \<Rightarrow> bool" where
  "IsDuoEnabled c \<longleftrightarrow>
     DuoIKey c \<noteq> [] \<and> DuoSKey c \<noteq> [] \<and> DuoClientID c \<noteq> [] \<and> DuoClientSecret c \<noteq> [] \<and>
     DuoAPIHost c \<noteq> []"

definition IsAdminEnabled :: "Config \<Rightarrow> bool" where
  "IsAdminEnabled c \<longleftrightarrow> AdminEmails c \<noteq> [] \<or> AdminGroupIDs c \<noteq> []"

definition IsAdminEmail :: "string \<Rightarrow> Config \<Rightarrow> bool" where
  "IsAdminEmail upn c \<longleftrightarrow>
     list_ex (\<lambda>a. to_lower (trim_space a) = to_lower (trim_space upn)) (AdminEmails c)"

definition Issuer :: "Config \<Rightarrow> string" where
  "Issuer c = ''https://login.microsoftonline.com/'' @ TenantID c @ ''/v2.0''"

definition RedirectURL :: "Config \<Rightarrow> string" where
  "RedirectURL c = PublicURL c @ ''/auth/callback''"


section \<open>Parsers of single fields\<close>

definition in_range :: "char \<Rightarrow> char \<Rightarrow> char \<Rightarrow> bool" where
  "in_range lo hi c \<longleftrightarrow> (of_char lo :: nat) \<le> of_char c \<and> (of_char c :: nat) \<le> of_char hi"

definition is_digit :: "char \<Rightarrow> bool" where "is_digit c \<longleftrightarrow> in_range CHR ''0'' CHR ''9'' c"

definition isHexColor :: "string \<Rightarrow> bool" where
  "isHexColor s =
     (if length s < 4 \<or> hd s \<noteq> CHR ''#'' then False
      else (let rest = tl s
            in if \<not> (length rest = 3 \<or> length rest = 6 \<or> length rest = 8) then False
               else list_all (\<lambda>c. is_digit c \<or> in_range CHR ''a'' CHR ''f'' c \<or>
                                  in_range CHR ''A'' CHR ''F'' c) rest))"

definition sanitizeBrandColor :: "string \<Rightarrow> string \<Rightarrow> string" where
  "sanitizeBrandColor raw fallback =
     (let s = trim_space raw
      in if s = [] then fallback else if \<not> isHexColor s then fallback else s)"

definition splitCSV :: "string \<Rightarrow> string list" where
  "splitCSV s =
     (if s = [] then []
      else filter (\<lambda>p. p \<noteq> []) (map trim_space (split_on CHR '','' s)))"

text \<open>\<open>envOrBool\<close> on the value of the variable; \<open>None\<close> stands for the fatal exit.\<close>

definition envOrBool :: "string \<Rightarrow> bool \<Rightarrow> bool option" where
  "envOrBool raw fallback =
     (let v = trim_space (to_lower raw)
      in if v = [] then Some fallback
         else if v \<in> {''1'', ''true'', ''yes'', ''on''} then Some True
         else if v \<in> {''0'', ''false'', ''no'', ''off''} then Some False
         else None)"

definition envOrInt :: "string \<Rightarrow> int \<Rightarrow> int option" where
  "envOrInt raw fallback = (if raw = [] then Some fallback else atoi raw)"

definition envOrNonNegativeInt :: "string \<Rightarrow> int \<Rightarrow> int option" where
  "envOrNonNegativeInt raw fallback =
     (case envOrInt raw fallback of None \<Rightarrow> None | Some n \<Rightarrow> if n < 0 then None else Some n)"


subsection \<open>Lemmas\<close>

text \<open>Whatever an administrator stores, the color that reaches the style sheet is a hex color.\<close>

lemma sanitizeBrandColor_safe:
  "isHexColor fallback \<Longrightarrow> isHexColor (sanitizeBrandColor raw fallback)"
  by (simp add: sanitizeBrandColor_def Let_def)

lemma isHexColor_no_syntax:
  assumes "isHexColor s" "c \<in> set (tl s)"
  shows "c \<notin> set ''; {}():<>/''"
proof -
  have "is_digit c \<or> in_range CHR ''a'' CHR ''f'' c \<or> in_range CHR ''A'' CHR ''F'' c"
    using assms by (auto simp: isHexColor_def Let_def list_all_iff split: if_splits)
  then show ?thesis
    by (auto simp: is_digit_def in_range_def)
qed

lemma splitCSV_entries:
  "p \<in> set (splitCSV s) \<Longrightarrow> p \<noteq> [] \<and> trim_space p = p"
  by (auto simp: splitCSV_def split: if_splits)

lemma no_sep_split: "p \<in> set (split_on c s) \<Longrightarrow> c \<notin> set p"
proof (induction s arbitrary: p)
  case Nil
  then show ?case by simp
next
  case (Cons x xs)
  then show ?case by (auto split: if_splits list.splits)
qed

lemma set_trim_space: "set (trim_space s) \<subseteq> set s"
proof
  fix x
  assume "x \<in> set (trim_space s)"
  then have "x \<in> set (dropWhile is_space (rev (dropWhile is_space s)))"
    by (simp add: trim_space_def trim_left_def trim_right_def)
  then show "x \<in> set s"
    by (auto dest!: set_dropWhileD)
qed

lemma splitCSV_no_comma: "p \<in> set (splitCSV s) \<Longrightarrow> CHR '','' \<notin> set p"
  by (auto simp: splitCSV_def split: if_splits dest: no_sep_split set_trim_space [THEN subsetD])

lemma split_join:
  "ps \<noteq> [] \<Longrightarrow> (\<And>p. p \<in> set ps \<Longrightarrow> c \<notin> set p) \<Longrightarrow> split_on c (join [c] ps) = ps"
proof (induction ps)
  case Nil
  then show ?case by simp
next
  case (Cons p ps)
  then show ?case
    by (cases ps) (auto simp: split_on_no_sep split_on_append)
qed

text \<open>Joining the entries of a list and splitting them again gives the same list.\<close>

lemma splitCSV_join:
  assumes "\<And>p. p \<in> set ps \<Longrightarrow> p \<noteq> [] \<and> trim_space p = p \<and> CHR '','' \<notin> set p"
  shows "splitCSV (join '','' ps) = ps"
proof (cases ps)
  case Nil
  then show ?thesis by (simp add: splitCSV_def)
next
  case (Cons p qs)
  then have ne: "ps \<noteq> []" by simp
  have "split_on CHR '','' (join '','' ps) = ps"
    using ne assms by (intro split_join) auto
  moreover have "join '','' ps \<noteq> []"
    using Cons assms [of p] by (cases qs) auto
  moreover have "map trim_space ps = ps"
    using assms by (intro map_idI) auto
  ultimately show ?thesis
    using assms by (auto simp: splitCSV_def filter_id_conv)
qed

lemma splitCSV_idem: "splitCSV (join '','' (splitCSV s)) = splitCSV s"
  using splitCSV_entries splitCSV_no_comma by (intro splitCSV_join) blast

lemma IsAdminEmail_fold:
  "IsAdminEmail (trim_space (to_lower upn)) c = IsAdminEmail upn c"
  by (simp add: IsAdminEmail_def trim_space_to_lower)

end
