(* ===== verification/GuestCode.thy ===== *)
theory GuestCode
  imports Config
begin

text \<open>
  The guest codes: the domain model and the random generation of \<open>portal/admin.go\<close>, the tables
  and their save hooks of \<open>portal/internal/dbstore/models.go\<close>, and the store of
  \<open>portal/store_guestcode.go\<close>.  A code is redeemed by \<open>Validate\<close>, one transaction under a
  lock; a store operation takes the tables and, where a statement can fail, flags that say so.
  How concurrent redemptions interleave is in \<open>GuestCodeRace\<close>.
\<close>

section \<open>The domain model\<close>

record CodeUse =
  cu_at :: time
  cu_mac :: string
  cu_ip :: string
  cu_upn :: string

record GuestCode =
  c_code :: string
  c_created :: time
  c_expires :: time
  c_duration :: int
  c_max :: int
  c_note :: string
  c_uses :: "CodeUse list"

definition IsExpired :: "time \<Rightarrow> GuestCode \<Rightarrow> bool" where
  "IsExpired now c = (if is_zero (c_expires c) then False else after now (c_expires c))"

definition IsExhausted :: "GuestCode \<Rightarrow> bool" where
  "IsExhausted c \<longleftrightarrow> c_max c > 0 \<and> int (length (c_uses c)) \<ge> c_max c"

definition UseCount :: "GuestCode \<Rightarrow> nat" where "UseCount c = length (c_uses c)"

definition Status :: "time \<Rightarrow> GuestCode \<Rightarrow> string" where
  "Status now c =
     (if IsExpired now c then ''expired''
      else if length (c_uses c) > 0 then ''used''
      else ''unused'')"

definition IsActive :: "time \<Rightarrow> GuestCode \<Rightarrow> bool" where
  "IsActive now c \<longleftrightarrow> \<not> IsExpired now c \<and> \<not> IsExhausted c"

text \<open>
  \<open>draw i\<close> is the result of the \<open>i\<close>-th \<open>rand.Int\<close>, an index below the bound it is given, or
  \<open>None\<close> when the random source fails.
\<close>

definition code_alphabet :: "string \<Rightarrow> string" where
  "code_alphabet codeType =
     (if codeType = ''alpha'' then ''abcdefghijklmnopqrstuvwxyz''
      else if codeType = ''alphanumeric'' then ''abcdefghijklmnopqrstuvwxyz0123456789''
      else ''0123456789'')"

definition code_length :: "int \<Rightarrow> int" where
  "code_length n = (let n = (if n < 4 then 4 else n) in if n > 64 then 64 else n)"

fun draw_code :: "(nat \<Rightarrow> nat \<Rightarrow> nat option) \<Rightarrow> string \<Rightarrow> nat \<Rightarrow> nat \<Rightarrow> string option" where
  "draw_code draw alphabet i 0 = Some []"
| "draw_code draw alphabet i (Suc n) =
     (case draw i (length alphabet) of
        None \<Rightarrow> None
      | Some k \<Rightarrow> map_option (\<lambda>cs. alphabet ! k # cs) (draw_code draw alphabet (Suc i) n))"

definition generateCode :: "(nat \<Rightarrow> nat \<Rightarrow> nat option) \<Rightarrow> string \<Rightarrow> int \<Rightarrow> string option" where
  "generateCode draw codeType n = draw_code draw (code_alphabet codeType) 0 (nat (code_length n))"


section \<open>The tables\<close>

record gcRow =
  r_code :: string
  r_lower :: string
  r_created :: time
  r_expires :: "time option"
  r_duration :: int
  r_max :: int
  r_note :: string

record useRow =
  u_id :: int
  u_code :: string
  u_at :: time
  u_mac :: string
  u_ip :: string
  u_upn :: string

record gcDB =
  db_codes :: "gcRow list"
  db_uses :: "useRow list"
  db_next :: int

definition normalizeCode :: "string \<Rightarrow> string" where
  "normalizeCode code = to_lower (trim_space code)"

text \<open>The \<open>BeforeSave\<close> hooks GORM runs on every inserted row.\<close>

definition code_before_save :: "time \<Rightarrow> gcRow \<Rightarrow> gcRow" where
  "code_before_save now g =
     (let g' = g\<lparr>r_lower := normalizeCode (r_code g)\<rparr>
      in if is_zero (r_created g') then g'\<lparr>r_created := now\<rparr> else g')"

definition use_before_save :: "time \<Rightarrow> useRow \<Rightarrow> useRow" where
  "use_before_save now u = (if is_zero (u_at u) then u\<lparr>u_at := now\<rparr> else u)"

definition uses_of :: "string \<Rightarrow> gcDB \<Rightarrow> useRow list" where
  "uses_of code db = filter (\<lambda>u. u_code u = code) (db_uses db)"

definition toDomainUse :: "useRow \<Rightarrow> CodeUse" where
  "toDomainUse u = \<lparr>cu_at = u_at u, cu_mac = u_mac u, cu_ip = u_ip u, cu_upn = u_upn u\<rparr>"

definition toDomainCode :: "gcRow \<Rightarrow> useRow list \<Rightarrow> GuestCode" where
  "toDomainCode row uses =
     \<lparr>c_code = r_code row, c_created = r_created row,
      c_expires = (case r_expires row of None \<Rightarrow> zero_time | Some t \<Rightarrow> t),
      c_duration = r_duration row, c_max = r_max row, c_note = r_note row,
      c_uses = map toDomainUse uses\<rparr>"

definition toRow :: "GuestCode \<Rightarrow> gcRow" where
  "toRow c =
     \<lparr>r_code = c_code c, r_lower = normalizeCode (c_code c), r_created = c_created c,
      r_expires = (if is_zero (c_expires c) then None else Some (c_expires c)),
      r_duration = c_duration c, r_max = c_max c, r_note = c_note c\<rparr>"


section \<open>Queries\<close>

text \<open>\<open>ORDER BY created_at DESC, code ASC\<close>.\<close>

definition codes_order :: "gcRow list \<Rightarrow> gcRow list" where
  "codes_order = sort_key (\<lambda>r. (- r_created r, r_code r))"

text \<open>The history of one code, from rows fetched with \<open>ORDER BY at ASC\<close>.\<close>

definition history_in :: "useRow list \<Rightarrow> gcRow \<Rightarrow> useRow list" where
  "history_in uses row = filter (\<lambda>u. u_code u = r_code row) uses"

definition List_codes :: "bool \<Rightarrow> bool \<Rightarrow> gcDB \<Rightarrow> GuestCode list" where
  "List_codes fltCodes fltUses db =
     (if fltCodes then []
      else (let rows = codes_order (db_codes db);
                uses = (if fltUses then [] else sort_key u_at (db_uses db))
            in sort_key (\<lambda>c. (- c_created c, c_code c))
                 (map (\<lambda>r. toDomainCode r (history_in uses r)) rows)))"

definition exhausted_row :: "gcDB \<Rightarrow> gcRow \<Rightarrow> bool" where
  "exhausted_row db r \<longleftrightarrow> r_max r > 0 \<and> r_max r \<le> int (length (uses_of (r_code r) db))"

definition expired_row :: "time \<Rightarrow> gcRow \<Rightarrow> bool" where
  "expired_row now r \<longleftrightarrow> (case r_expires r of None \<Rightarrow> False | Some t \<Rightarrow> before t now)"

definition codeStatusWhere :: "string \<Rightarrow> time \<Rightarrow> gcDB \<Rightarrow> gcRow \<Rightarrow> bool" where
  "codeStatusWhere status now db r \<longleftrightarrow>
     (if status = ''expired'' then expired_row now r
      else if status = ''used'' then \<not> expired_row now r \<and> exhausted_row db r
      else if status = ''unused'' then \<not> expired_row now r \<and> \<not> exhausted_row db r
      else True)"

record CodeQuery =
  q_search :: string
  q_status :: string
  q_offset :: int
  q_limit :: int

definition applyCodeQuery :: "time \<Rightarrow> CodeQuery \<Rightarrow> gcDB \<Rightarrow> gcRow \<Rightarrow> bool" where
  "applyCodeQuery now f db r \<longleftrightarrow>
     (let search = trim_space (q_search f)
      in search = [] \<or> like_contains (to_lower search) (r_lower r) \<or>
         like_contains (to_lower search) (to_lower (r_note r))) \<and>
     codeStatusWhere (q_status f) now db r"

definition Page_codes ::
  "bool \<Rightarrow> bool \<Rightarrow> bool \<Rightarrow> time \<Rightarrow> CodeQuery \<Rightarrow> gcDB \<Rightarrow> GuestCode list \<times> nat" where
  "Page_codes fltCount fltRows fltUses now f db =
     (let matching = filter (applyCodeQuery now f db) (db_codes db);
          n = length matching
      in if fltCount then ([], 0)
         else if n = 0 then ([], 0)
         else if fltRows then ([], n)
         else (let rows = page_of (q_offset f) (q_limit f) (codes_order matching);
                   keys = map r_code rows;
                   uses = (if fltUses then []
                           else sort_key u_at (filter (\<lambda>u. u_code u \<in> set keys) (db_uses db)))
               in (map (\<lambda>r. toDomainCode r (history_in uses r)) rows, n)))"

definition ActiveCount :: "bool \<Rightarrow> time \<Rightarrow> gcDB \<Rightarrow> nat" where
  "ActiveCount flt now db =
     (if flt then 0 else length (filter (codeStatusWhere ''unused'' now db) (db_codes db)))"

definition Get_code :: "bool \<Rightarrow> bool \<Rightarrow> string \<Rightarrow> gcDB \<Rightarrow> GuestCode option" where
  "Get_code fltRow fltUses code db =
     (let k = normalizeCode code
      in if k = [] then None
         else if fltRow then None
         else (case find (\<lambda>r. r_lower r = k) (db_codes db) of
              None \<Rightarrow> None
            | Some row \<Rightarrow> Some (toDomainCode row
                (if fltUses then [] else sort_key u_at (uses_of (r_code row) db)))))"

text \<open>
  \<open>Stats\<close>: total, used, unused, expired.  The third count is a difference, clamped at zero.
\<close>

definition Stats :: "bool \<Rightarrow> bool \<Rightarrow> bool \<Rightarrow> time \<Rightarrow> gcDB \<Rightarrow> int \<times> int \<times> int \<times> int" where
  "Stats fltTotal fltExpired fltUsed now db =
     (let total = (if fltTotal then 0 else int (length (db_codes db)));
          expired = (if fltExpired then 0 else int (length (filter (expired_row now) (db_codes db))));
          used = (if fltUsed then 0
                  else int (length (filter (\<lambda>r. \<not> expired_row now r \<and> exhausted_row db r) (db_codes db))));
          unused = total - expired - used
      in (total, used, if unused < 0 then 0 else unused, expired))"


section \<open>Writes\<close>

text \<open>Rows of uses inserted in one statement get consecutive identifiers.\<close>

fun add_uses :: "time \<Rightarrow> useRow list \<Rightarrow> gcDB \<Rightarrow> gcDB" where
  "add_uses now [] db = db"
| "add_uses now (u # us) db =
     add_uses now us
       (db\<lparr>db_uses := db_uses db @ [(use_before_save now u)\<lparr>u_id := db_next db\<rparr>],
           db_next := db_next db + 1\<rparr>)"

text \<open>
  \<open>insertCode\<close> inside a transaction: \<open>None\<close> is a failed statement (\<open>fltCode\<close> the insert of the
  code, \<open>fltUses\<close> the one of its history); the flag says whether a row was inserted.
\<close>

definition insertCode :: "bool \<Rightarrow> bool \<Rightarrow> time \<Rightarrow> GuestCode \<Rightarrow> gcDB \<Rightarrow> (gcDB \<times> bool) option" where
  "insertCode fltCode fltUses now c db =
     (if fltCode then None
      else (let row = code_before_save now (toRow c)
            in if r_code row \<in> r_code ` set (db_codes db) \<or> r_lower row \<in> r_lower ` set (db_codes db)
               then Some (db, False)
               else (let db' = db\<lparr>db_codes := db_codes db @ [row]\<rparr>
                     in if c_uses c = [] then Some (db', True)
                        else if fltUses then None
                        else Some (add_uses now
                           (map (\<lambda>u. \<lparr>u_id = 0, u_code = r_code row, u_at = cu_at u, u_mac = cu_mac u,
                                        u_ip = cu_ip u, u_upn = cu_upn u\<rparr>) (c_uses c)) db', True))))"

definition Add_code :: "bool \<Rightarrow> bool \<Rightarrow> bool \<Rightarrow> time \<Rightarrow> GuestCode \<Rightarrow> gcDB \<Rightarrow> bool \<times> gcDB" where
  "Add_code fltCode fltUses fltCommit now c db =
     (if normalizeCode (c_code c) = [] then (False, db)
      else (case insertCode fltCode fltUses now c db of
          None \<Rightarrow> (False, db)
        | Some (db', ok) \<Rightarrow> if fltCommit then (False, db) else (ok, db')))"

text \<open>The loop of \<open>AddMany\<close>; \<open>flt i\<close> fails the statement of the \<open>i\<close>-th code.\<close>

fun add_loop ::
  "(nat \<Rightarrow> bool) \<Rightarrow> time \<Rightarrow> nat \<Rightarrow> string list \<Rightarrow> string list \<Rightarrow> GuestCode list \<Rightarrow> gcDB \<Rightarrow>
   (gcDB \<times> string list) option" where
  "add_loop flt now i seen added [] db = Some (db, added)"
| "add_loop flt now i seen added (c # cs) db =
     (let k = normalizeCode (c_code c)
      in if k = [] \<or> k \<in> set seen then add_loop flt now (Suc i) seen added cs db
         else (case insertCode (flt i) (flt i) now c db of
             None \<Rightarrow> None
           | Some (db', ok) \<Rightarrow>
               add_loop flt now (Suc i) (k # seen) (if ok then added @ [c_code c] else added) cs db'))"

definition AddMany ::
  "(nat \<Rightarrow> bool) \<Rightarrow> bool \<Rightarrow> time \<Rightarrow> GuestCode list \<Rightarrow> gcDB \<Rightarrow> string list \<times> gcDB" where
  "AddMany flt fltCommit now codes db =
     (case add_loop flt now 0 [] [] codes db of
        None \<Rightarrow> ([], db)
      | Some (db', added) \<Rightarrow> if fltCommit then ([], db) else (added, db'))"

text \<open>Deleting codes deletes their history: the foreign key is \<open>ON DELETE CASCADE\<close>.\<close>

definition delete_codes :: "(gcRow \<Rightarrow> bool) \<Rightarrow> gcDB \<Rightarrow> nat \<times> gcDB" where
  "delete_codes p db =
     (let gone = map r_code (filter p (db_codes db))
      in (length gone,
          db\<lparr>db_codes := filter (\<lambda>r. \<not> p r) (db_codes db),
             db_uses := filter (\<lambda>u. u_code u \<notin> set gone) (db_uses db)\<rparr>))"

definition Delete_code :: "bool \<Rightarrow> string \<Rightarrow> gcDB \<Rightarrow> bool \<times> gcDB" where
  "Delete_code flt code db =
     (let k = normalizeCode code
      in if k = [] then (False, db)
         else if flt then (False, db)
         else (let (n, db') = delete_codes (\<lambda>r. r_lower r = k) db in (n > 0, db')))"

definition DeleteMany :: "bool \<Rightarrow> string list \<Rightarrow> gcDB \<Rightarrow> nat \<times> gcDB" where
  "DeleteMany flt codes db =
     (let keys = filter (\<lambda>k. k \<noteq> []) (map normalizeCode codes)
      in if keys = [] then (0, db)
         else if flt then (0, db)
         else delete_codes (\<lambda>r. r_lower r \<in> set keys) db)"

definition DeleteInactive :: "bool \<Rightarrow> time \<Rightarrow> gcDB \<Rightarrow> nat \<times> gcDB" where
  "DeleteInactive flt now db =
     (if flt then (0, db)
      else delete_codes (\<lambda>r. expired_row now r \<or> exhausted_row db r) db)"

definition Edit :: "bool \<Rightarrow> string \<Rightarrow> time \<Rightarrow> int \<Rightarrow> int \<Rightarrow> string \<Rightarrow> gcDB \<Rightarrow> bool \<times> gcDB" where
  "Edit flt code expiresAt durationMin maxUses note db =
     (let k = normalizeCode code
      in if k = [] then (False, db)
         else if flt then (False, db)
         else (let (n, rows) = update_where (\<lambda>r. r_lower r = k)
                     (\<lambda>r. r\<lparr>r_duration := durationMin, r_max := maxUses, r_note := note,
                            r_expires := (if is_zero expiresAt then None else Some expiresAt)\<rparr>)
                     (db_codes db)
               in (n > 0, db\<lparr>db_codes := rows\<rparr>)))"


section \<open>Redemption\<close>

datatype gc_error = ErrRecordNotFound | ErrCodeUnusable | ErrDB

datatype gc_stmt = SelectCode | CountUses | InsertUse | SelectUses | CommitTx

text \<open>The body of the transaction; \<open>flt\<close> says which of its statements fail.\<close>

definition validate_tx ::
  "(gc_stmt \<Rightarrow> bool) \<Rightarrow> time \<Rightarrow> string \<Rightarrow> string \<Rightarrow> string \<Rightarrow> string \<Rightarrow> gcDB \<Rightarrow>
   gc_error + (GuestCode \<times> gcDB)" where
  "validate_tx flt now k mac ip guestUPN db =
     (if flt SelectCode then Inl ErrDB
      else (case find (\<lambda>r. r_lower r = k) (db_codes db) of
          None \<Rightarrow> Inl ErrRecordNotFound
        | Some row \<Rightarrow>
            if (case r_expires row of None \<Rightarrow> False | Some t \<Rightarrow> after now t) then Inl ErrCodeUnusable
            else if flt CountUses then Inl ErrDB
            else (let used = int (length (uses_of (r_code row) db))
                  in if r_max row > 0 \<and> used \<ge> r_max row then Inl ErrCodeUnusable
                     else if flt InsertUse then Inl ErrDB
                     else (let db' = add_uses now
                                 [\<lparr>u_id = 0, u_code = r_code row, u_at = now, u_mac = mac, u_ip = ip,
                                   u_upn = guestUPN\<rparr>] db
                           in if flt SelectUses then Inl ErrDB
                              else Inr (toDomainCode row (sort_key u_at (uses_of (r_code row) db')), db')))))"

definition Validate ::
  "(gc_stmt \<Rightarrow> bool) \<Rightarrow> time \<Rightarrow> string \<Rightarrow> string \<Rightarrow> string \<Rightarrow> string \<Rightarrow> gcDB \<Rightarrow>
   GuestCode option \<times> gcDB" where
  "Validate flt now code mac ip guestUPN db =
     (let k = normalizeCode code
      in if k = [] then (None, db)
         else (case validate_tx flt now k mac ip guestUPN db of
             Inl err \<Rightarrow> (None, db)
           | Inr (c, db') \<Rightarrow> if flt CommitTx then (None, db) else (Some c, db')))"


section \<open>Well-formed tables\<close>

text \<open>
  Every row carries the lookup key of its code and no two share it; an expiry is stored only
  when there is one; every use belongs to a code and has an identifier of its own.
\<close>

definition wf_gc :: "gcDB \<Rightarrow> bool" where
  "wf_gc db \<longleftrightarrow> unique_by r_lower (db_codes db) \<and>
     (\<forall>r\<in>set (db_codes db). r_lower r = normalizeCode (r_code r) \<and> r_lower r \<noteq> [] \<and>
        r_expires r \<noteq> Some zero_time) \<and>
     (\<forall>u\<in>set (db_uses db). u_code u \<in> r_code ` set (db_codes db) \<and> u_id u < db_next db) \<and>
     distinct (map u_id (db_uses db))"

lemma wf_gcI:
  assumes "unique_by r_lower (db_codes db)"
    and "\<And>r. r \<in> set (db_codes db) \<Longrightarrow>
      r_lower r = normalizeCode (r_code r) \<and> r_lower r \<noteq> [] \<and> r_expires r \<noteq> Some zero_time"
    and "\<And>u. u \<in> set (db_uses db) \<Longrightarrow> u_code u \<in> r_code ` set (db_codes db) \<and> u_id u < db_next db"
    and "distinct (map u_id (db_uses db))"
  shows "wf_gc db"
  using assms unfolding wf_gc_def by blast

lemma wf_gcD:
  assumes "wf_gc db"
  shows "unique_by r_lower (db_codes db)"
    and "r \<in> set (db_codes db) \<Longrightarrow> r_lower r = normalizeCode (r_code r)"
    and "r \<in> set (db_codes db) \<Longrightarrow> r_lower r \<noteq> []"
    and "r \<in> set (db_codes db) \<Longrightarrow> r_expires r \<noteq> Some zero_time"
    and "u \<in> set (db_uses db) \<Longrightarrow> u_code u \<in> r_code ` set (db_codes db)"
    and "u \<in> set (db_uses db) \<Longrightarrow> u_id u < db_next db"
    and "distinct (map u_id (db_uses db))"
  using assms unfolding wf_gc_def by blast+

lemma normalizeCode_idem [simp]: "normalizeCode (normalizeCode c) = normalizeCode c"
  by (simp add: normalizeCode_def trim_space_to_lower)

lemma row_unique_code:
  assumes "wf_gc db" "r \<in> set (db_codes db)" "r' \<in> set (db_codes db)" "r_code r = r_code r'"
  shows "r = r'"
proof (rule unique_by_eq [OF wf_gcD(1) [OF assms(1)] assms(2,3)])
  show "r_lower r = r_lower r'"
    using wf_gcD(2) [OF assms(1)] assms(2-4) by metis
qed

lemma add_uses_codes [simp]: "db_codes (add_uses now us db) = db_codes db"
  by (induction us arbitrary: db) simp_all

lemma use_before_save_simps [simp]:
  "u_code (use_before_save now u) = u_code u"
  "u_id (use_before_save now u) = u_id u"
  by (simp_all add: use_before_save_def)

lemma wf_add_uses:
  "wf_gc db \<Longrightarrow> u_code ` set us \<subseteq> r_code ` set (db_codes db) \<Longrightarrow> wf_gc (add_uses now us db)"
proof (induction us arbitrary: db)
  case Nil
  then show ?case by simp
next
  case (Cons u us)
  let ?db = "db\<lparr>db_uses := db_uses db @ [(use_before_save now u)\<lparr>u_id := db_next db\<rparr>],
                db_next := db_next db + 1\<rparr>"
  have "wf_gc ?db"
    using Cons.prems wf_gcD [OF Cons.prems(1)]
    by (intro wf_gcI) (auto, force+)
  with Cons show ?case by simp
qed

lemma code_before_save_simps [simp]:
  "r_code (code_before_save now g) = r_code g"
  "r_lower (code_before_save now g) = normalizeCode (r_code g)"
  "r_expires (code_before_save now g) = r_expires g"
  "r_max (code_before_save now g) = r_max g"
  by (simp_all add: code_before_save_def Let_def)

lemma toRow_simps [simp]:
  "r_code (toRow c) = c_code c"
  "r_expires (toRow c) = (if c_expires c = zero_time then None else Some (c_expires c))"
  by (simp_all add: toRow_def is_zero_def)

text \<open>Whether a code is inserted is decided by its lookup key alone.\<close>

definition code_keys :: "gcDB \<Rightarrow> string list" where
  "code_keys db = map r_lower (db_codes db)"

lemma insert_conflict:
  assumes "wf_gc db"
  shows "c_code c \<in> r_code ` set (db_codes db) \<or> normalizeCode (c_code c) \<in> r_lower ` set (db_codes db)
    \<longleftrightarrow> normalizeCode (c_code c) \<in> set (code_keys db)"
  using wf_gcD(2) [OF assms] by (force simp: code_keys_def)

lemma insertCode_eq:
  assumes "wf_gc db"
  shows "insertCode False False now c db =
    (if normalizeCode (c_code c) \<in> set (code_keys db) then Some (db, False)
     else Some (add_uses now
        (map (\<lambda>u. \<lparr>u_id = 0, u_code = c_code c, u_at = cu_at u, u_mac = cu_mac u,
                     u_ip = cu_ip u, u_upn = cu_upn u\<rparr>) (c_uses c))
        (db\<lparr>db_codes := db_codes db @ [code_before_save now (toRow c)]\<rparr>), True))"
  using insert_conflict [OF assms, of c] by (auto simp: insertCode_def Let_def)

lemma wf_insert_row:
  assumes "wf_gc db" "normalizeCode (c_code c) \<notin> set (code_keys db)" "normalizeCode (c_code c) \<noteq> []"
  shows "wf_gc (db\<lparr>db_codes := db_codes db @ [code_before_save now (toRow c)]\<rparr>)"
  using assms wf_gcD [OF assms(1)]
  by (intro wf_gcI) (auto simp: unique_by_def code_keys_def split: if_splits)

lemma wf_insertCode:
  assumes "wf_gc db" "normalizeCode (c_code c) \<noteq> []"
    and "insertCode fltCode fltUses now c db = Some (db', ok)"
  shows "wf_gc db'"
proof (cases "normalizeCode (c_code c) \<in> set (code_keys db)")
  case True
  then show ?thesis
    using assms insert_conflict [OF assms(1), of c]
    by (auto simp: insertCode_def Let_def split: if_splits)
next
  case False
  then show ?thesis
    using assms insert_conflict [OF assms(1), of c] wf_insert_row [OF assms(1) False assms(2), of now]
    by (auto simp: insertCode_def Let_def split: if_splits intro!: wf_add_uses)
qed


subsection \<open>Every write keeps the tables well-formed\<close>

lemma wf_delete_codes:
  assumes "wf_gc db"
  shows "wf_gc (snd (delete_codes p db))"
proof (rule wf_gcI)
  let ?db = "snd (delete_codes p db)"
  show "unique_by r_lower (db_codes ?db)"
    using wf_gcD(1) [OF assms] by (simp add: delete_codes_def Let_def unique_by_filter)
  show "r_lower r = normalizeCode (r_code r) \<and> r_lower r \<noteq> [] \<and> r_expires r \<noteq> Some zero_time"
    if "r \<in> set (db_codes ?db)" for r
    using that wf_gcD(2-4) [OF assms, of r] by (simp add: delete_codes_def Let_def)
  show "u_code u \<in> r_code ` set (db_codes ?db) \<and> u_id u < db_next ?db" if "u \<in> set (db_uses ?db)" for u
    using that wf_gcD(5,6) [OF assms, of u] by (auto simp: delete_codes_def Let_def)
  show "distinct (map u_id (db_uses ?db))"
    using wf_gcD(7) [OF assms] by (auto simp: delete_codes_def Let_def distinct_map inj_on_def)
qed

lemma wf_Delete_code: "wf_gc db \<Longrightarrow> wf_gc (snd (Delete_code flt code db))"
  using wf_delete_codes by (simp add: Delete_code_def Let_def case_prod_beta)

lemma wf_DeleteMany: "wf_gc db \<Longrightarrow> wf_gc (snd (DeleteMany flt codes db))"
  by (simp add: DeleteMany_def Let_def wf_delete_codes)

lemma wf_DeleteInactive: "wf_gc db \<Longrightarrow> wf_gc (snd (DeleteInactive flt now db))"
  by (simp add: DeleteInactive_def wf_delete_codes)

lemma wf_Edit:
  assumes "wf_gc db"
  shows "wf_gc (snd (Edit flt code expiresAt durationMin maxUses note db))"
proof -
  let ?f = "\<lambda>r. r\<lparr>r_duration := durationMin, r_max := maxUses, r_note := note,
                 r_expires := (if is_zero expiresAt then None else Some expiresAt)\<rparr>"
  let ?p = "\<lambda>r. r_lower r = normalizeCode code"
  let ?db = "db\<lparr>db_codes := snd (update_where ?p ?f (db_codes db))\<rparr>"
  have "wf_gc ?db"
  proof (rule wf_gcI)
    show "unique_by r_lower (db_codes ?db)"
      using wf_gcD(1) [OF assms] by (simp add: unique_by_update_where)
    have codes: "r_code ` set (db_codes ?db) = r_code ` set (db_codes db)"
      using update_where_keys [of r_code ?f ?p "db_codes db"] by (simp flip: set_map)
    show "r_lower r = normalizeCode (r_code r) \<and> r_lower r \<noteq> [] \<and> r_expires r \<noteq> Some zero_time"
    if "r \<in> set (db_codes ?db)" for r
      using that wf_gcD(2-4) [OF assms] by (auto simp: update_where_def is_zero_def split: if_splits)
    show "u_code u \<in> r_code ` set (db_codes ?db) \<and> u_id u < db_next ?db"
      if "u \<in> set (db_uses ?db)" for u
      using that wf_gcD(5,6) [OF assms] codes by simp
    show "distinct (map u_id (db_uses ?db))" using wf_gcD(7) [OF assms] by simp
  qed
  then show ?thesis
    using assms by (simp add: Edit_def Let_def case_prod_beta)
qed

lemma wf_Add_code: "wf_gc db \<Longrightarrow> wf_gc (snd (Add_code f g h now c db))"
  by (auto simp: Add_code_def split: option.splits intro: wf_insertCode)

lemma wf_add_loop:
  "wf_gc db \<Longrightarrow> add_loop flt now i seen added cs db = Some (db', added') \<Longrightarrow> wf_gc db'"
proof (induction cs arbitrary: i seen added db)
  case Nil
  then show ?case by simp
next
  case (Cons c cs)
  show ?case
  proof (cases "normalizeCode (c_code c) = [] \<or> normalizeCode (c_code c) \<in> set seen")
    case True
    with Cons show ?thesis by (auto simp: Let_def)
  next
    case False
    with Cons.prems obtain db1 ok where ins: "insertCode (flt i) (flt i) now c db = Some (db1, ok)"
      by (auto simp: Let_def split: option.splits)
    with False Cons.prems have "wf_gc db1" by (auto intro: wf_insertCode)
    with ins False Cons show ?thesis by (auto simp: Let_def)
  qed
qed

lemma wf_AddMany: "wf_gc db \<Longrightarrow> wf_gc (snd (AddMany flt fc now cs db))"
  by (auto simp: AddMany_def split: option.splits intro: wf_add_loop)

lemma wf_Validate: 
  assumes "wf_gc db"
  shows "wf_gc (snd (Validate flt now code mac ip upn db))"
proof -
  have "wf_gc db'" if "validate_tx flt now k mac ip upn db = Inr (c, db')" for k c db'
  proof -
    from that obtain row where row: "find (\<lambda>r. r_lower r = k) (db_codes db) = Some row"
      by (auto simp: validate_tx_def split: if_splits option.splits)
    have "db' = add_uses now [\<lparr>u_id = 0, u_code = r_code row, u_at = now, u_mac = mac, u_ip = ip,
        u_upn = upn\<rparr>] db"
      using that row by (auto simp: validate_tx_def Let_def split: if_splits)
    moreover have "r_code row \<in> r_code ` set (db_codes db)"
      using find_SomeD [OF row] by blast
    ultimately show ?thesis
      using wf_add_uses [OF assms, of "[\<lparr>u_id = 0, u_code = r_code row, u_at = now, u_mac = mac,
        u_ip = ip, u_upn = upn\<rparr>]"] by simp
  qed
  then show ?thesis
    using assms by (auto simp: Validate_def Let_def split: sum.splits)
qed


subsection \<open>Adding codes\<close>

text \<open>An insert that meets no fault, as an operation of a table with a unique key.\<close>

definition insert_ok :: "time \<Rightarrow> GuestCode \<Rightarrow> gcDB \<Rightarrow> gcDB \<times> bool" where
  "insert_ok now c db =
     (if normalizeCode (c_code c) = [] then (db, False)
      else (case insertCode False False now c db of None \<Rightarrow> (db, False) | Some x \<Rightarrow> x))"

text \<open>
  An empty lookup key counts as taken, so the keys of the store are the stored keys and the
  empty one.
\<close>

interpretation gct: unique_table wf_gc "\<lambda>db. [] # code_keys db" "\<lambda>c. normalizeCode (c_code c)"
  "insert_ok now" for now
proof
  fix db c
  assume wf: "wf_gc db"
  show "wf_gc (fst (insert_ok now c db))"
    using wf wf_insertCode [OF wf, of c False False now]
    by (auto simp: insert_ok_def insertCode_eq split: option.splits)
  show "[] # code_keys (fst (insert_ok now c db)) = ([] # code_keys db) @
      (if normalizeCode (c_code c) \<in> set ([] # code_keys db) then [] else [normalizeCode (c_code c)])"
    using wf by (auto simp: insert_ok_def insertCode_eq) (auto simp: code_keys_def)
  show "snd (insert_ok now c db) \<longleftrightarrow> normalizeCode (c_code c) \<notin> set ([] # code_keys db)"
    using wf by (auto simp: insert_ok_def insertCode_eq)
qed

lemma insert_ok_seen:
  assumes "wf_gc db" "normalizeCode (c_code c) \<in> set ([] # code_keys db)"
  shows "insert_ok now c db = (db, False)"
  using assms by (auto simp: insert_ok_def insertCode_eq)

text \<open>Without faults the loop of \<open>AddMany\<close> is that operation, offered every code in turn.\<close>

lemma add_loop_all:
  assumes "wf_gc db" "set seen \<subseteq> set (code_keys db)"
  shows "add_loop (\<lambda>_. False) now i seen added cs db =
    (case gct.add_all now cs db of (db', new) \<Rightarrow> Some (db', added @ map c_code new))"
  using assms
proof (induction cs arbitrary: i seen added db)
  case Nil
  then show ?case by simp
next
  case (Cons c cs)
  let ?k = "normalizeCode (c_code c)"
  show ?case
  proof (cases "?k = [] \<or> ?k \<in> set seen")
    case True
    with Cons.prems have "insert_ok now c db = (db, False)"
      by (intro insert_ok_seen) auto
    with True Cons show ?thesis by (simp add: Let_def case_prod_beta)
  next
    case False
    have ok: "insertCode False False now c db = Some (insert_ok now c db)"
      using False Cons.prems(1) by (simp add: insert_ok_def insertCode_eq)
    have "set (?k # seen) \<subseteq> set (code_keys (fst (insert_ok now c db)))"
      using gct.add_keys [OF Cons.prems(1), of now c] Cons.prems(2) False by (auto split: if_splits)
    then have "add_loop (\<lambda>_. False) now (Suc i) (?k # seen) added' cs (fst (insert_ok now c db)) =
      (case gct.add_all now cs (fst (insert_ok now c db)) of (db', new) \<Rightarrow> Some (db', added' @ map c_code new))"
      for added'
      by (intro Cons.IH gct.add_inv Cons.prems(1))
    with False ok show ?thesis
      by (simp add: Let_def case_prod_beta)
  qed
qed

lemma AddMany_all:
  "wf_gc db \<Longrightarrow> AddMany (\<lambda>_. False) False now cs db =
     (map c_code (snd (gct.add_all now cs db)), fst (gct.add_all now cs db))"
  by (simp add: AddMany_def add_loop_all case_prod_beta)

text \<open>A failed batch leaves nothing behind and reports nothing.\<close>

lemma AddMany_fault:
  "AddMany flt True now cs db = ([], db)"
  "add_loop flt now 0 [] [] cs db = None \<Longrightarrow> AddMany flt fc now cs db = ([], db)"
  by (auto simp: AddMany_def split: option.splits)


subsection \<open>Redeeming a code\<close>

definition redeemable :: "time \<Rightarrow> gcDB \<Rightarrow> gcRow \<Rightarrow> bool" where
  "redeemable now db r \<longleftrightarrow>
     (case r_expires r of None \<Rightarrow> True | Some t \<Rightarrow> now \<le> t) \<and>
     (r_max r > 0 \<longrightarrow> int (length (uses_of (r_code r) db)) < r_max r)"

definition new_use :: "time \<Rightarrow> string \<Rightarrow> string \<Rightarrow> string \<Rightarrow> string \<Rightarrow> useRow" where
  "new_use now code mac ip upn =
     \<lparr>u_id = 0, u_code = code, u_at = now, u_mac = mac, u_ip = ip, u_upn = upn\<rparr>"

lemma validate_tx_ok:
  "validate_tx (\<lambda>_. False) now k mac ip upn db =
    (case find (\<lambda>r. r_lower r = k) (db_codes db) of
       None \<Rightarrow> Inl ErrRecordNotFound
     | Some row \<Rightarrow>
         if redeemable now db row
         then (let db' = add_uses now [new_use now (r_code row) mac ip upn] db
               in Inr (toDomainCode row (sort_key u_at (uses_of (r_code row) db')), db'))
         else Inl ErrCodeUnusable)"
  by (auto simp: validate_tx_def redeemable_def new_use_def after_def Let_def split: option.splits)

text \<open>With faults it either does what it does without, or fails with a database error.\<close>

lemma validate_tx_faults:
  "validate_tx flt now k mac ip upn db = validate_tx (\<lambda>_. False) now k mac ip upn db \<or>
   validate_tx flt now k mac ip upn db = Inl ErrDB"
  by (auto simp: validate_tx_def Let_def split: option.splits)

lemma validate_tx_Inr:
  assumes "validate_tx flt now k mac ip upn db = Inr (c, db')"
  obtains row where "find (\<lambda>r. r_lower r = k) (db_codes db) = Some row" "redeemable now db row"
    "db' = add_uses now [new_use now (r_code row) mac ip upn] db"
    "c = toDomainCode row (sort_key u_at (uses_of (r_code row) db'))"
proof -
  have "validate_tx (\<lambda>_. False) now k mac ip upn db = Inr (c, db')"
    using assms validate_tx_faults [of flt now k mac ip upn db] by auto
  then show thesis
    using that by (auto simp: validate_tx_ok Let_def split: option.splits if_splits)
qed

lemma uses_of_add:
  "uses_of code (add_uses now [new_use now c mac ip upn] db) = uses_of code db @
     (if c = code then [(use_before_save now (new_use now c mac ip upn))\<lparr>u_id := db_next db\<rparr>] else [])"
  by (simp add: uses_of_def new_use_def)

lemma Validate_None:
  "fst (Validate flt now code mac ip upn db) = None \<Longrightarrow> snd (Validate flt now code mac ip upn db) = db"
  by (auto simp: Validate_def Let_def split: sum.splits if_splits)

lemma Validate_Some:
  assumes "Validate flt now code mac ip upn db = (Some c, db')"
  obtains row where "find (\<lambda>r. r_lower r = normalizeCode code) (db_codes db) = Some row"
    "redeemable now db row"
    "db' = add_uses now [new_use now (r_code row) mac ip upn] db"
    "c = toDomainCode row (sort_key u_at (uses_of (r_code row) db'))"
  using assms by (auto simp: Validate_def Let_def split: sum.splits if_splits elim!: validate_tx_Inr)

lemma Validate_codes: "db_codes (snd (Validate flt now code mac ip upn db)) = db_codes db"
  by (auto simp: Validate_def Let_def split: sum.splits elim!: validate_tx_Inr)

text \<open>How many uses the code with a given key has.\<close>

definition used_up :: "string \<Rightarrow> gcDB \<Rightarrow> nat" where
  "used_up k db = (case find (\<lambda>r. r_lower r = k) (db_codes db) of
     None \<Rightarrow> 0 | Some row \<Rightarrow> length (uses_of (r_code row) db))"

lemma used_up_Validate:
  assumes "wf_gc db" "find (\<lambda>r. r_lower r = k) (db_codes db) \<noteq> None"
  shows "used_up k (snd (Validate flt now code mac ip upn db)) = used_up k db +
    (if fst (Validate flt now code mac ip upn db) \<noteq> None \<and> normalizeCode code = k then 1 else 0)"
proof (cases "Validate flt now code mac ip upn db")
  case (Pair r db')
  show ?thesis
  proof (cases r)
    case None
    with Pair Validate_None [of flt now code mac ip upn db] show ?thesis by simp
  next
    case (Some c)
    from assms(2) obtain rk where rk: "find (\<lambda>r. r_lower r = k) (db_codes db) = Some rk" by auto
    from Pair Some obtain row where
      row: "find (\<lambda>r. r_lower r = normalizeCode code) (db_codes db) = Some row" and
      db': "db' = add_uses now [new_use now (r_code row) mac ip upn] db"
      by (auto elim: Validate_Some)
    have rows: "row \<in> set (db_codes db)" "r_lower row = normalizeCode code"
        "rk \<in> set (db_codes db)" "r_lower rk = k"
      using find_SomeD [OF row] find_SomeD [OF rk] by blast+
    have "r_code row = r_code rk \<longleftrightarrow> normalizeCode code = k"
    proof
      assume "r_code row = r_code rk"
      then have "row = rk" by (rule row_unique_code [OF assms(1) rows(1,3)])
      with rows show "normalizeCode code = k" by metis
    next
      assume "normalizeCode code = k"
      with row rk show "r_code row = r_code rk" by simp
    qed
    with Pair Some rk show ?thesis
      by (simp add: used_up_def db' uses_of_add del: add_uses.simps)
  qed
qed

lemma Validate_bounded:
  assumes "wf_gc db" "find (\<lambda>r. r_lower r = k) (db_codes db) = Some row" "r_max row > 0"
    and "int (used_up k db) \<le> r_max row"
  shows "int (used_up k (snd (Validate flt now code mac ip upn db))) \<le> r_max row"
proof (cases "fst (Validate flt now code mac ip upn db) \<noteq> None \<and> normalizeCode code = k")
  case True
  then obtain c db' where "Validate flt now code mac ip upn db = (Some c, db')"
    by (metis not_None_eq prod.collapse)
  then have "redeemable now db row"
    using True assms(2) by (auto elim: Validate_Some)
  then have "int (used_up k db) < r_max row"
    using assms(2,3) by (simp add: redeemable_def used_up_def)
  then show ?thesis
    using used_up_Validate [OF assms(1), of k] assms(2) by simp
next
  case False
  then show ?thesis
    using used_up_Validate [OF assms(1), of k flt now code mac ip upn] assms(2,4) by auto
qed


subsection \<open>Many redemptions in a row\<close>

record redemption =
  rd_flt :: "gc_stmt \<Rightarrow> bool"
  rd_now :: time
  rd_code :: string
  rd_mac :: string
  rd_ip :: string
  rd_upn :: string

definition redeem_one :: "redemption \<Rightarrow> gcDB \<Rightarrow> GuestCode option \<times> gcDB" where
  "redeem_one q db = Validate (rd_flt q) (rd_now q) (rd_code q) (rd_mac q) (rd_ip q) (rd_upn q) db"

fun redeem_run :: "redemption list \<Rightarrow> gcDB \<Rightarrow> GuestCode option list \<times> gcDB" where
  "redeem_run [] db = ([], db)"
| "redeem_run (q # qs) db =
     (let (r, db') = redeem_one q db; (rs, db'') = redeem_run qs db' in (r # rs, db''))"

text \<open>How many of the requests for a key succeed.\<close>

definition successes :: "string \<Rightarrow> redemption list \<Rightarrow> gcDB \<Rightarrow> nat" where
  "successes k qs db =
     length (filter (\<lambda>(q, r). normalizeCode (rd_code q) = k \<and> r \<noteq> None)
       (zip qs (fst (redeem_run qs db))))"

lemma successes_Cons:
  "successes k (q # qs) db =
     (if normalizeCode (rd_code q) = k \<and> fst (redeem_one q db) \<noteq> None then 1 else 0) +
     successes k qs (snd (redeem_one q db))"
  by (simp add: successes_def case_prod_beta Let_def)

lemma redeem_one_props:
  assumes "wf_gc db"
  shows "wf_gc (snd (redeem_one q db))" "db_codes (snd (redeem_one q db)) = db_codes db"
  using assms by (simp_all add: redeem_one_def wf_Validate Validate_codes)

lemma redeem_run_used:
  assumes "wf_gc db" "find (\<lambda>r. r_lower r = k) (db_codes db) = Some row"
  shows "used_up k (snd (redeem_run qs db)) = used_up k db + successes k qs db"
  using assms
proof (induction qs arbitrary: db)
  case Nil
  then show ?case by (simp add: successes_def)
next
  case (Cons q qs)
  have "used_up k (snd (redeem_one q db)) = used_up k db +
      (if fst (redeem_one q db) \<noteq> None \<and> normalizeCode (rd_code q) = k then 1 else 0)"
    using Cons.prems unfolding redeem_one_def by (intro used_up_Validate) auto
  then show ?case
    using Cons.IH [of "snd (redeem_one q db)"] Cons.prems redeem_one_props [OF Cons.prems(1), of q]
    by (simp add: successes_Cons case_prod_beta Let_def)
qed

lemma redeem_run_bounded:
  assumes "wf_gc db" "find (\<lambda>r. r_lower r = k) (db_codes db) = Some row" "r_max row > 0"
    and "int (used_up k db) \<le> r_max row"
  shows "int (used_up k (snd (redeem_run qs db))) \<le> r_max row"
  using assms
proof (induction qs arbitrary: db)
  case Nil
  then show ?case by simp
next
  case (Cons q qs)
  have "int (used_up k (snd (redeem_one q db))) \<le> r_max row"
    using Cons.prems unfolding redeem_one_def by (intro Validate_bounded) auto
  then show ?case
    using Cons.IH [of "snd (redeem_one q db)"] Cons.prems redeem_one_props [OF Cons.prems(1), of q]
    by (simp add: case_prod_beta Let_def)
qed

text \<open>A request for the code that meets no fault and comes before the expiry.\<close>

definition timely :: "string \<Rightarrow> gcRow \<Rightarrow> redemption \<Rightarrow> bool" where
  "timely k row q \<longleftrightarrow> rd_flt q = (\<lambda>_. False) \<and> normalizeCode (rd_code q) = k \<and>
     (case r_expires row of None \<Rightarrow> True | Some t \<Rightarrow> rd_now q \<le> t)"

lemma redeem_timely:
  assumes "wf_gc db" "find (\<lambda>r. r_lower r = k) (db_codes db) = Some row" "timely k row q"
  shows "fst (redeem_one q db) \<noteq> None \<longleftrightarrow> (r_max row > 0 \<longrightarrow> int (used_up k db) < r_max row)"
proof -
  have "k \<noteq> []" using find_SomeD [OF assms(2)] wf_gcD(3) [OF assms(1)] by auto
  with assms(2,3) show ?thesis
    by (auto simp: redeem_one_def Validate_def Let_def validate_tx_ok timely_def used_up_def
        redeemable_def split: if_splits)
qed

lemma successes_timely:
  assumes "wf_gc db" "find (\<lambda>r. r_lower r = k) (db_codes db) = Some row"
    and "\<forall>q\<in>set qs. timely k row q" and "r_max row > 0" "int (used_up k db) \<le> r_max row"
  shows "int (successes k qs db) = min (int (length qs)) (r_max row - int (used_up k db))"
  using assms
proof (induction qs arbitrary: db)
  case Nil
  then show ?case by (simp add: successes_def)
next
  case (Cons q qs)
  let ?db = "snd (redeem_one q db)"
  have step: "fst (redeem_one q db) \<noteq> None \<longleftrightarrow> int (used_up k db) < r_max row"
    using redeem_timely [of db k row q] Cons.prems by simp
  have used: "used_up k ?db = used_up k db +
      (if fst (redeem_one q db) \<noteq> None \<and> normalizeCode (rd_code q) = k then 1 else 0)"
    using Cons.prems(1,2) unfolding redeem_one_def by (intro used_up_Validate) auto
  have key: "normalizeCode (rd_code q) = k" using Cons.prems(3) by (simp add: timely_def)
  have "int (successes k qs ?db) = min (int (length qs)) (r_max row - int (used_up k ?db))"
    using Cons.prems used step key redeem_one_props [OF Cons.prems(1), of q]
    by (intro Cons.IH) auto
  then show ?case
    using used step key Cons.prems(5) by (auto simp: successes_Cons)
qed

end
