(* ===== verification/GuestCodeReports.thy ===== *)
theory GuestCodeReports
  imports GuestCode
begin

text \<open>
  What the administrator sees of the guest codes, and the properties of the guest-code store:
  the counts of \<open>Stats\<close> and \<open>ActiveCount\<close>, the pages of \<open>Page\<close>, the clean-up of
  \<open>DeleteInactive\<close>, and redemption.
\<close>

section \<open>Rows and the domain predicates\<close>

lemma domain_expired:
  assumes "r_expires r \<noteq> Some zero_time"
  shows "IsExpired now (toDomainCode r us) = expired_row now r"
  using assms
  by (auto simp: IsExpired_def toDomainCode_def expired_row_def is_zero_def after_def before_def
      split: option.splits)

lemma domain_exhausted:
  "length us = length (uses_of (r_code r) db) \<Longrightarrow> IsExhausted (toDomainCode r us) = exhausted_row db r"
  by (auto simp: IsExhausted_def toDomainCode_def exhausted_row_def)

lemma domain_active:
  assumes "wf_gc db" "r \<in> set (db_codes db)" "length us = length (uses_of (r_code r) db)"
  shows "IsActive now (toDomainCode r us) \<longleftrightarrow> codeStatusWhere ''unused'' now db r"
  using assms wf_gcD(4) [OF assms(1,2)]
  by (simp add: IsActive_def domain_expired domain_exhausted codeStatusWhere_def)

lemma redeemable_active:
  "redeemable now db r \<longleftrightarrow> \<not> expired_row now r \<and> \<not> exhausted_row db r"
  by (auto simp: redeemable_def expired_row_def exhausted_row_def before_def split: option.splits)

text \<open>Three conditions that partition the rows partition the count.\<close>

lemma partition_count:
  assumes "\<And>r. r \<in> set rs \<Longrightarrow> (P r \<or> Q r \<or> R r) \<and> \<not> (P r \<and> Q r) \<and> \<not> (P r \<and> R r) \<and> \<not> (Q r \<and> R r)"
  shows "length rs = length (filter P rs) + length (filter Q rs) + length (filter R rs)"
  using assms
proof (induction rs)
  case Nil
  then show ?case by simp
next
  case (Cons r rs)
  then have "length rs = length (filter P rs) + length (filter Q rs) + length (filter R rs)" by auto
  with Cons.prems [of r] show ?case by auto
qed

lemma status_partition:
  "length (db_codes db) =
     length (filter (codeStatusWhere ''expired'' now db) (db_codes db)) +
     length (filter (codeStatusWhere ''used'' now db) (db_codes db)) +
     length (filter (codeStatusWhere ''unused'' now db) (db_codes db))"
  by (rule partition_count) (auto simp: codeStatusWhere_def)

lemma Stats_ok:
  "Stats False False False now db =
     (int (length (db_codes db)),
      int (length (filter (codeStatusWhere ''used'' now db) (db_codes db))),
      int (length (filter (codeStatusWhere ''unused'' now db) (db_codes db))),
      int (length (filter (codeStatusWhere ''expired'' now db) (db_codes db))))"
proof -
  have "filter (codeStatusWhere ''expired'' now db) rs = filter (expired_row now) rs"
    "filter (codeStatusWhere ''used'' now db) rs =
      filter (\<lambda>r. \<not> expired_row now r \<and> exhausted_row db r) rs" for rs
    by (auto simp: codeStatusWhere_def intro!: filter_cong)
  then show ?thesis
    using status_partition [of db now] by (simp add: Stats_def Let_def)
qed

lemma codes_order_set [simp]: "set (codes_order rs) = set rs" "length (codes_order rs) = length rs"
  by (simp_all add: codes_order_def)

lemma history_length:
  "length (history_in (sort_key u_at (db_uses db)) r) = length (uses_of (r_code r) db)"
  by (simp add: history_in_def uses_of_def filter_sort)

lemma history_page:
  assumes "r \<in> set rows"
  shows "history_in (sort_key u_at (filter (\<lambda>u. u_code u \<in> set (map r_code rows)) uses)) r =
    sort_key u_at (filter (\<lambda>u. u_code u = r_code r) uses)"
proof -
  have "filter (\<lambda>u. u_code u = r_code r) (filter (\<lambda>u. u_code u \<in> set (map r_code rows)) uses) =
      filter (\<lambda>u. u_code u = r_code r) uses"
    using assms by (auto intro!: filter_cong)
  then show ?thesis by (simp add: history_in_def filter_sort del: filter_filter)
qed

text \<open>The domain view of a row with its whole history, oldest use first.\<close>

definition full_view :: "gcDB \<Rightarrow> gcRow \<Rightarrow> GuestCode" where
  "full_view db r = toDomainCode r (sort_key u_at (uses_of (r_code r) db))"

lemma Page_codes_ok:
  "Page_codes False False False now f db =
    (let matching = filter (applyCodeQuery now f db) (db_codes db)
     in if matching = [] then ([], 0)
        else (map (full_view db) (page_of (q_offset f) (q_limit f) (codes_order matching)),
              length matching))"
proof -
  have view: "toDomainCode r (history_in (sort_key u_at
        (filter (\<lambda>u. u_code u \<in> set (map r_code rows)) (db_uses db))) r) = full_view db r"
    if "r \<in> set rows" for r rows
    using history_page [OF that] by (simp add: full_view_def uses_of_def)
  show ?thesis
    by (simp add: Page_codes_def Let_def view [simplified] cong: map_cong)
qed

lemma List_codes_ok:
  "List_codes False False db = map (full_view db) (codes_order (db_codes db))"
proof -
  have view: "toDomainCode r (history_in (sort_key u_at (db_uses db)) r) = full_view db r" for r
    by (simp add: full_view_def history_in_def uses_of_def filter_sort)
  have key: "sort_key (\<lambda>c. (- c_created c, c_code c)) (map (full_view db) rs) =
      map (full_view db) (codes_order rs)" for rs
    by (simp add: codes_order_def sort_key_map full_view_def toDomainCode_def)
  show ?thesis
    by (simp add: List_codes_def Let_def view key) (simp add: codes_order_def)
qed



section \<open>Runs of the store\<close>

datatype gc_op =
    OpAdd bool bool bool time GuestCode
  | OpAddMany "nat \<Rightarrow> bool" bool time "GuestCode list"
  | OpDelete bool string
  | OpDeleteMany bool "string list"
  | OpDeleteInactive bool time
  | OpEdit bool string time int int string
  | OpValidate redemption

fun gc_step :: "gc_op \<Rightarrow> gcDB \<Rightarrow> gcDB" where
  "gc_step (OpAdd f g h now c) db = snd (Add_code f g h now c db)"
| "gc_step (OpAddMany f h now cs) db = snd (AddMany f h now cs db)"
| "gc_step (OpDelete f code) db = snd (Delete_code f code db)"
| "gc_step (OpDeleteMany f codes) db = snd (DeleteMany f codes db)"
| "gc_step (OpDeleteInactive f now) db = snd (DeleteInactive f now db)"
| "gc_step (OpEdit f code expiresAt d m note) db = snd (Edit f code expiresAt d m note db)"
| "gc_step (OpValidate q) db = snd (redeem_one q db)"

definition gc_run :: "gc_op list \<Rightarrow> gcDB \<Rightarrow> gcDB" where
  "gc_run ops db = fold gc_step ops db"

definition empty_gcDB :: gcDB where
  "empty_gcDB = \<lparr>db_codes = [], db_uses = [], db_next = 1\<rparr>"

lemma wf_empty_gcDB: "wf_gc empty_gcDB"
  by (simp add: wf_gc_def empty_gcDB_def)

lemmas wf_gc_ops = wf_Add_code wf_AddMany wf_Delete_code wf_DeleteMany wf_DeleteInactive wf_Edit
  redeem_one_props(1)

lemma wf_gc_step: "wf_gc db \<Longrightarrow> wf_gc (gc_step op db)"
  by (cases op) (simp_all add: wf_gc_ops)

interpretation gc_runs: preserved gc_step wf_gc
  by unfold_locales (rule wf_gc_step)

lemma wf_gc_run: "wf_gc db \<Longrightarrow> wf_gc (gc_run ops db)"
  unfolding gc_run_def by (rule gc_runs.run_inv)

lemma add_loop_faults:
  "add_loop flt now i seen added cs db = None \<or>
   add_loop flt now i seen added cs db = add_loop (\<lambda>_. False) now i seen added cs db"
proof (induction cs arbitrary: i seen added db)
  case Nil
  then show ?case by simp
next
  case (Cons c cs)
  have ins: "insertCode (flt i) (flt i) now c db = None \<or>
      insertCode (flt i) (flt i) now c db = insertCode False False now c db"
    by (simp add: insertCode_def Let_def)
  show ?case
  proof (cases "normalizeCode (c_code c) = [] \<or> normalizeCode (c_code c) \<in> set seen")
    case True
    then show ?thesis using Cons.IH by (simp add: Let_def)
  next
    case False
    show ?thesis
    proof (cases "insertCode (flt i) (flt i) now c db")
      case None
      with False show ?thesis by (simp add: Let_def)
    next
      case (Some x)
      with ins have "insertCode False False now c db = Some x" by simp
      with False Some Cons.IH [of "Suc i" "normalizeCode (c_code c) # seen"
          "if snd x then added @ [c_code c] else added" "fst x"]
      show ?thesis by (simp add: Let_def case_prod_beta)
    qed
  qed
qed

text \<open>A row found under a key is the only one with it, and keeps being found.\<close>

lemma find_key_iff:
  assumes "wf_gc db"
  shows "find (\<lambda>r. r_lower r = k) (db_codes db) = Some row \<longleftrightarrow> row \<in> set (db_codes db) \<and> r_lower row = k"
proof
  assume "find (\<lambda>r. r_lower r = k) (db_codes db) = Some row"
  then show "row \<in> set (db_codes db) \<and> r_lower row = k" by (rule find_SomeD)
next
  assume "row \<in> set (db_codes db) \<and> r_lower row = k"
  then show "find (\<lambda>r. r_lower r = k) (db_codes db) = Some row"
    by (intro find_unique [OF wf_gcD(1) [OF assms]]) auto
qed

lemma delete_codes_uses:
  assumes "wf_gc db" "r \<in> set (db_codes db)" "\<not> p r"
  shows "uses_of (r_code r) (snd (delete_codes p db)) = uses_of (r_code r) db"
proof -
  have "r_code r \<notin> set (map r_code (filter p (db_codes db)))"
  proof
    assume "r_code r \<in> set (map r_code (filter p (db_codes db)))"
    then obtain x where "x \<in> set (db_codes db)" "p x" "r_code x = r_code r" by auto
    with row_unique_code [OF assms(1), of x r] assms(2,3) show False by simp
  qed
  then show ?thesis
    unfolding uses_of_def delete_codes_def Let_def by (simp del: set_map) (metis (mono_tags, lifting) filter_cong)
qed


text \<open>\<open>Validate\<close> without faults, as a function of the row it finds.\<close>

lemma Validate_library:
  assumes "wf_gc db"
  shows "Validate (\<lambda>_. False) now code mac ip upn db =
      (case find (\<lambda>r. r_lower r = normalizeCode code) (db_codes db) of
         None \<Rightarrow> (None, db)
       | Some row \<Rightarrow>
           if redeemable now db row
           then (let db' = add_uses now [new_use now (r_code row) mac ip upn] db
                 in (Some (full_view db' row), db'))
           else (None, db))"
proof -
  have "find (\<lambda>r. r_lower r = []) (db_codes db) = None"
    using wf_gcD(3) [OF assms] by (auto simp: find_None_iff)
  then show ?thesis
    by (auto simp: Validate_def Let_def validate_tx_ok full_view_def split: option.splits
        simp del: add_uses.simps)
qed


section \<open>Properties\<close>

text \<open>
  A concrete store for the witnesses: a code with two uses allowed and one use recorded, an
  expired one, and one without limits.
\<close>

definition demo_gcDB :: gcDB where
  "demo_gcDB = \<lparr>db_codes =
      [\<lparr>r_code = ''AB12'', r_lower = ''ab12'', r_created = 10, r_expires = None, r_duration = 60,
        r_max = 2, r_note = ''x''\<rparr>,
       \<lparr>r_code = ''old'', r_lower = ''old'', r_created = 5, r_expires = Some 20, r_duration = 60,
        r_max = 0, r_note = []\<rparr>,
       \<lparr>r_code = ''free'', r_lower = ''free'', r_created = 7, r_expires = None, r_duration = 0,
        r_max = 0, r_note = []\<rparr>],
     db_uses = [\<lparr>u_id = 1, u_code = ''AB12'', u_at = 30, u_mac = ''m'', u_ip = ''i'', u_upn = ''g''\<rparr>],
     db_next = 2\<rparr>"

lemma wf_demo_gcDB: "wf_gc demo_gcDB"
  by code_simp

text \<open>Requests racing for one code.  Of any number of redemption requests for a code with
  a limit, made before it expires and meeting no database fault, exactly as many succeed as
  the code has uses left, or all of them when there are fewer.\<close>

theorem redemptions_exact:
  assumes "wf_gc db" and "find (\<lambda>r. r_lower r = k) (db_codes db) = Some row"
    and "r_max row > 0" and "int (used_up k db) \<le> r_max row"
    and "\<forall>q\<in>set qs. timely k row q"
  shows "int (successes k qs db) = min (int (length qs)) (r_max row - int (used_up k db))"
  using successes_timely [OF assms(1,2,5,3,4)] .

definition demo_request :: "time \<Rightarrow> redemption" where
  "demo_request t = \<lparr>rd_flt = (\<lambda>_. False), rd_now = t, rd_code = '' aB12'', rd_mac = ''m'',
     rd_ip = ''i'', rd_upn = ''g''\<rparr>"

theorem redemptions_exact_witness:
  "int (successes ''ab12'' [demo_request 40, demo_request 41, demo_request 42] demo_gcDB) =
     min 3 (r_max (hd (db_codes demo_gcDB)) - int (used_up ''ab12'' demo_gcDB))"
proof -
  have "\<forall>q\<in>set [demo_request 40, demo_request 41, demo_request 42].
      timely ''ab12'' (hd (db_codes demo_gcDB)) q"
    by (simp add: demo_request_def timely_def demo_gcDB_def normalizeCode_def) code_simp
  moreover have "find (\<lambda>r. r_lower r = ''ab12'') (db_codes demo_gcDB) = Some (hd (db_codes demo_gcDB))"
    by code_simp
  moreover have "r_max (hd (db_codes demo_gcDB)) > 0"
    "int (used_up ''ab12'' demo_gcDB) \<le> r_max (hd (db_codes demo_gcDB))"
    by code_simp+
  ultimately show ?thesis
    using redemptions_exact [OF wf_demo_gcDB, of "''ab12''" "hd (db_codes demo_gcDB)"
        "[demo_request 40, demo_request 41, demo_request 42]"] by simp
qed

text \<open>Redemption.  On every branch \<open>Validate\<close> does what it promises: for a code that is
  stored, not expired and not used up it records exactly one use, with the given device, and
  returns the code with its whole history; otherwise it returns nothing and changes nothing.
  A failing statement can only turn the first outcome into the second.\<close>

theorem Validate_spec:
  assumes "wf_gc db"
  shows "Validate (\<lambda>_. False) now code mac ip upn db =
      (case find (\<lambda>r. r_lower r = normalizeCode code) (db_codes db) of
         None \<Rightarrow> (None, db)
       | Some row \<Rightarrow>
           if redeemable now db row
           then (let db' = add_uses now [new_use now (r_code row) mac ip upn] db
                 in (Some (full_view db' row), db'))
           else (None, db)) \<and>
    Validate flt now code mac ip upn db \<in> {Validate (\<lambda>_. False) now code mac ip upn db, (None, db)}"
  using Validate_library [OF assms, of now code mac ip upn]
    validate_tx_faults [of flt now "normalizeCode code" mac ip upn db]
  by (auto simp: Validate_def Let_def split: sum.splits simp del: add_uses.simps)

theorem Validate_spec_witness:
  "Validate (\<lambda>s. s = CommitTx) 40 ''ab12 '' ''m2'' ''i2'' ''g2'' demo_gcDB \<in>
     {Validate (\<lambda>_. False) 40 ''ab12 '' ''m2'' ''i2'' ''g2'' demo_gcDB, (None, demo_gcDB)}"
  using Validate_spec [OF wf_demo_gcDB] by blast

text \<open>Every sequence of store operations, starting from the empty tables and with
  arbitrary database faults, keeps the tables well-formed: unique lookup keys that
  match the codes, no use without its code, unique use identifiers.\<close>

theorem store_wellformed: "wf_gc (gc_run ops empty_gcDB)"
  by (rule wf_gc_run [OF wf_empty_gcDB])

text \<open>
  A batch insert.  Without a database fault the reported codes are exactly those that were stored:
  new, pairwise different as lookup keys, offered by the caller; every offered code that is not blank
  is in the table afterwards, and nothing else was added.  When any statement fails nothing is stored
  and nothing is reported.
\<close>

lemma AddMany_exact:
  assumes "wf_gc db"
  shows "(let (added, db') = AddMany (\<lambda>_. False) False now cs db
      in distinct (map normalizeCode added) \<and>
         set (map normalizeCode added) \<inter> set (code_keys db) = {} \<and>
         set added \<subseteq> c_code ` set cs \<and>
         code_keys db' = code_keys db @ map normalizeCode added \<and>
         (\<forall>c\<in>set cs. normalizeCode (c_code c) \<noteq> [] \<longrightarrow>
            normalizeCode (c_code c) \<in> set (code_keys db'))) \<and>
    AddMany flt fc now cs db \<in> {AddMany (\<lambda>_. False) False now cs db, ([], db)}"
proof
  have dist: "distinct ([] # code_keys db)"
    using wf_gcD(1) [OF assms] wf_gcD(3) [OF assms] by (force simp: code_keys_def unique_by_def)
  note new = gct.add_all_new [OF assms dist, of now cs]
    and keys = gct.keys_add_all [OF assms, of now cs]
    and covers = gct.add_all_covers [OF assms, of cs now]
    and offered = gct.add_all_offered [of now cs db]
  have "\<forall>c\<in>set cs. normalizeCode (c_code c) \<noteq> [] \<longrightarrow>
      normalizeCode (c_code c) \<in> set (code_keys (fst (gct.add_all now cs db)))"
    using covers by auto
  then show "let (added, db') = AddMany (\<lambda>_. False) False now cs db
      in distinct (map normalizeCode added) \<and>
         set (map normalizeCode added) \<inter> set (code_keys db) = {} \<and>
         set added \<subseteq> c_code ` set cs \<and>
         code_keys db' = code_keys db @ map normalizeCode added \<and>
         (\<forall>c\<in>set cs. normalizeCode (c_code c) \<noteq> [] \<longrightarrow>
            normalizeCode (c_code c) \<in> set (code_keys db'))"
    using new keys offered by (auto simp: AddMany_all [OF assms] comp_def)
  show "AddMany flt fc now cs db \<in> {AddMany (\<lambda>_. False) False now cs db, ([], db)}"
    using add_loop_faults [of flt now 0 "[]" "[]" cs db] by (auto simp: AddMany_def split: option.splits)
qed

text \<open>Cleaning up.  \<open>DeleteInactive\<close> keeps exactly the codes a guest could still redeem at
  that moment, in their order and with their whole history, and reports how many it removed.\<close>

theorem DeleteInactive_exact:
  assumes "wf_gc db"
  shows "db_codes (snd (DeleteInactive False now db)) = filter (redeemable now db) (db_codes db) \<and>
    fst (DeleteInactive False now db) + length (db_codes (snd (DeleteInactive False now db))) =
      length (db_codes db) \<and>
    (\<forall>r\<in>set (db_codes (snd (DeleteInactive False now db))).
       full_view (snd (DeleteInactive False now db)) r = full_view db r)"
proof -
  let ?p = "\<lambda>r. expired_row now r \<or> exhausted_row db r"
  have keep: "(\<lambda>r. \<not> ?p r) = redeemable now db"
    by (rule ext) (simp add: redeemable_active)
  have codes: "db_codes (snd (DeleteInactive False now db)) = filter (redeemable now db) (db_codes db)"
    by (simp add: DeleteInactive_def delete_codes_def Let_def flip: keep)
  moreover have "fst (DeleteInactive False now db) = length (filter ?p (db_codes db))"
    by (simp add: DeleteInactive_def delete_codes_def Let_def)
  moreover have "uses_of (r_code r) (snd (DeleteInactive False now db)) = uses_of (r_code r) db"
    if "r \<in> set (db_codes db)" "redeemable now db r" for r
    using that delete_codes_uses [OF assms that(1), of ?p] by (simp add: DeleteInactive_def redeemable_active)
  ultimately show ?thesis
    using sum_length_filter_compl [of ?p "db_codes db", unfolded keep] by (auto simp: full_view_def)
qed

theorem DeleteInactive_exact_witness:
  "map r_code (db_codes (snd (DeleteInactive False 40 demo_gcDB))) = [''AB12'', ''free'']"
proof -
  have "map r_code (filter (redeemable 40 demo_gcDB) (db_codes demo_gcDB)) = [''AB12'', ''free'']"
    by code_simp
  then show ?thesis using DeleteInactive_exact [OF wf_demo_gcDB, of 40] by simp
qed

text \<open>The counters of the admin header.  They add up to the number of codes, no clamping
  is needed, and the \<open>unused\<close> counter, the dashboard's active count and the number of codes the
  domain predicate calls active are the same number.\<close>

theorem Stats_consistent:
  assumes "wf_gc db"
  shows "(let (total, used, unused, expired) = Stats False False False now db
      in total = int (length (db_codes db)) \<and> total = used + unused + expired \<and>
         unused = int (ActiveCount False now db) \<and>
         unused = int (length (filter (IsActive now) (List_codes False False db))))"
proof -
  have "length (filter (IsActive now) (List_codes False False db)) =
      length (filter (\<lambda>r. IsActive now (full_view db r)) (codes_order (db_codes db)))"
    by (simp add: List_codes_ok filter_map comp_def)
  also have "\<dots> = length (filter (\<lambda>r. IsActive now (full_view db r)) (db_codes db))"
    by (simp add: codes_order_def filter_sort)
  also have "filter (\<lambda>r. IsActive now (full_view db r)) (db_codes db) =
      filter (codeStatusWhere ''unused'' now db) (db_codes db)"
    using domain_active [OF assms] by (auto simp: full_view_def intro!: filter_cong)
  finally show ?thesis
    using status_partition [of db now] by (simp add: Stats_ok ActiveCount_def)
qed

theorem Stats_consistent_witness: "Stats False False False 40 demo_gcDB = (3, 0, 2, 1)"
proof -
  have "ActiveCount False 40 demo_gcDB = 2" by code_simp
  then show ?thesis
    using Stats_consistent [OF wf_demo_gcDB, of 40] by (simp add: Stats_ok) code_simp
qed

text \<open>Paging.  Reading the admin table page by page shows every code that matches the
  filter exactly once, newest first, each with its whole history, and the total
  reported with a page is the number of matching codes.\<close>

theorem Page_covers:
  assumes "0 < n" and "length (filter (applyCodeQuery now f db) (db_codes db)) \<le> k * n"
  shows "concat (map (\<lambda>i. fst (Page_codes False False False now
            (f\<lparr>q_offset := int (i * n), q_limit := int n\<rparr>) db)) [0..<k]) =
      map (full_view db) (codes_order (filter (applyCodeQuery now f db) (db_codes db))) \<and>
    snd (Page_codes False False False now f db) =
      length (filter (applyCodeQuery now f db) (db_codes db))"
proof
  let ?m = "filter (applyCodeQuery now f db) (db_codes db)"
  have query: "applyCodeQuery now (f\<lparr>q_offset := a, q_limit := b\<rparr>) db = applyCodeQuery now f db" for a b
    by (rule ext) (simp add: applyCodeQuery_def)
  have page: "fst (Page_codes False False False now (f\<lparr>q_offset := int (i * n), q_limit := int n\<rparr>) db) =
      map (full_view db) (page_of (int (i * n)) (int n) (codes_order ?m))" for i
    by (simp add: Page_codes_ok query Let_def page_of_def codes_order_def)
  have "concat (map (\<lambda>i. map (full_view db) (page_of (int (i * n)) (int n) (codes_order ?m))) [0..<k]) =
      map (full_view db) (concat (map (\<lambda>i. page_of (int (i * n)) (int n) (codes_order ?m)) [0..<k]))"
    by (simp add: map_concat comp_def)
  also have "\<dots> = map (full_view db) (codes_order ?m)"
    using assms(2) by (simp only: concat_pages [OF assms(1)]) simp
  finally show "concat (map (\<lambda>i. fst (Page_codes False False False now
            (f\<lparr>q_offset := int (i * n), q_limit := int n\<rparr>) db)) [0..<k]) =
      map (full_view db) (codes_order ?m)"
    by (simp only: page)
  show "snd (Page_codes False False False now f db) = length ?m"
    by (simp add: Page_codes_ok Let_def)
qed

theorem Page_covers_witness:
  "concat (map (\<lambda>i. map c_code (fst (Page_codes False False False 40
      (\<lparr>q_search = [], q_status = ''unused'', q_offset = int (i * 1), q_limit = int 1\<rparr>) demo_gcDB))) [0..<2]) =
   [''AB12'', ''free'']"
proof -
  let ?f = "\<lparr>q_search = [], q_status = ''unused'', q_offset = 0, q_limit = 0\<rparr>"
  have "length (filter (applyCodeQuery 40 ?f demo_gcDB) (db_codes demo_gcDB)) \<le> 2 * 1"
    by code_simp
  from Page_covers [OF _ this] have
    "concat (map (\<lambda>i. fst (Page_codes False False False 40
            (?f\<lparr>q_offset := int (i * 1), q_limit := int 1\<rparr>) demo_gcDB)) [0..<2]) =
      map (full_view demo_gcDB) (codes_order (filter (applyCodeQuery 40 ?f demo_gcDB) (db_codes demo_gcDB)))"
    by simp
  then have "map c_code (concat (map (\<lambda>i. fst (Page_codes False False False 40
            (?f\<lparr>q_offset := int (i * 1), q_limit := int 1\<rparr>) demo_gcDB)) [0..<2])) =
      map c_code (map (full_view demo_gcDB)
        (codes_order (filter (applyCodeQuery 40 ?f demo_gcDB) (db_codes demo_gcDB))))"
    by simp
  also have "\<dots> = [''AB12'', ''free'']" by code_simp
  finally show ?thesis by (simp add: map_concat comp_def)
qed

text \<open>
  Whatever length is asked for, a generated code has between 4 and 64 characters of the chosen
  alphabet, and it is its own lookup key.
\<close>

lemma generateCode_wellformed:
  assumes "\<And>i m k. draw i m = Some k \<Longrightarrow> k < m" and "generateCode draw codeType n = Some code"
  shows "int (length code) = max 4 (min 64 n) \<and> set code \<subseteq> set (code_alphabet codeType) \<and>
    normalizeCode code = code"
proof -
  have alpha: "code_alphabet codeType \<noteq> []" by (simp add: code_alphabet_def)
  have "length cs = m \<and> set cs \<subseteq> set (code_alphabet codeType)"
    if "draw_code draw (code_alphabet codeType) i m = Some cs" for i m cs
    using that
  proof (induction m arbitrary: i cs)
    case 0
    then show ?case by simp
  next
    case (Suc m)
    then obtain k rest where k: "draw i (length (code_alphabet codeType)) = Some k"
      and rest: "draw_code draw (code_alphabet codeType) (Suc i) m = Some rest"
      and cs: "cs = code_alphabet codeType ! k # rest"
      by (auto split: option.splits)
    from assms(1) [OF k] have "code_alphabet codeType ! k \<in> set (code_alphabet codeType)"
      by (rule nth_mem)
    with Suc.IH [OF rest] cs show ?case by simp
  qed
  then have len: "length code = nat (code_length n)" and chars: "set code \<subseteq> set (code_alphabet codeType)"
    using assms(2) by (auto simp: generateCode_def)
  have "list_all (\<lambda>c. lower_char c = c \<and> \<not> is_space c) ''abcdefghijklmnopqrstuvwxyz0123456789''"
    by code_simp
  moreover have "set (code_alphabet codeType) \<subseteq> set ''abcdefghijklmnopqrstuvwxyz0123456789''"
    by (auto simp: code_alphabet_def)
  ultimately have plain: "\<forall>c\<in>set (code_alphabet codeType). lower_char c = c \<and> \<not> is_space c"
    unfolding list_all_iff by blast
  have "to_lower code = code"
    unfolding to_lower_def using chars plain by (intro map_idI) auto
  moreover have "trim_space code = code"
  proof -
    have "dropWhile is_space xs = xs" if "set xs \<subseteq> set (code_alphabet codeType)" for xs
      using that plain by (cases xs) auto
    then show ?thesis using chars by (simp add: trim_space_def trim_left_def trim_right_def)
  qed
  moreover have "int (nat (code_length n)) = max 4 (min 64 n)" by (simp add: code_length_def Let_def)
  ultimately show ?thesis using len chars by (simp add: normalizeCode_def)
qed

text \<open>The two notions of a used code.  The status a code shows in the admin table and the
  status filter of the same table disagree exactly on the codes with some but not all of their
  uses consumed: shown as used, listed as unused.\<close>

theorem status_filter_differs:
  assumes "wf_gc db" and "r \<in> set (db_codes db)" and "s \<in> {''expired'', ''used'', ''unused''}"
  shows "codeStatusWhere s now db r \<noteq> (Status now (full_view db r) = s) \<longleftrightarrow>
    s \<noteq> ''expired'' \<and> redeemable now db r \<and> uses_of (r_code r) db \<noteq> []"
proof -
  have exp: "IsExpired now (full_view db r) = expired_row now r"
    using wf_gcD(4) [OF assms(1,2)] by (simp add: full_view_def domain_expired)
  have uses: "length (c_uses (full_view db r)) = length (uses_of (r_code r) db)"
    by (simp add: full_view_def toDomainCode_def)
  have some: "exhausted_row db r \<Longrightarrow> uses_of (r_code r) db \<noteq> []"
    by (auto simp: exhausted_row_def)
  show ?thesis
    using assms(3) some by (auto simp: codeStatusWhere_def Status_def exp uses redeemable_active)
qed

theorem status_filter_differs_witness:
  "Status 40 (full_view demo_gcDB (hd (db_codes demo_gcDB))) = ''used'' \<and>
   codeStatusWhere ''unused'' 40 demo_gcDB (hd (db_codes demo_gcDB))"
proof -
  have "redeemable 40 demo_gcDB (hd (db_codes demo_gcDB)) \<and>
      uses_of (r_code (hd (db_codes demo_gcDB))) demo_gcDB \<noteq> []"
    by code_simp
  moreover have "hd (db_codes demo_gcDB) \<in> set (db_codes demo_gcDB)"
    by (simp add: demo_gcDB_def)
  moreover have "\<not> codeStatusWhere ''used'' 40 demo_gcDB (hd (db_codes demo_gcDB))"
    "codeStatusWhere ''unused'' 40 demo_gcDB (hd (db_codes demo_gcDB))"
    by code_simp+
  ultimately show ?thesis
    using status_filter_differs [OF wf_demo_gcDB, of "hd (db_codes demo_gcDB)" "''used''" 40] by simp
qed

end
