(* ===== verification/GuestCodeRace.thy ===== *)
theory GuestCodeRace
  imports GuestCodeReports
begin

text \<open>
  Redemptions that run at the same time.  \<open>GuestCodeStore.Validate\<close> is a transaction of four
  statements; several of them, from one process or from several instances of the portal, make
  progress in any order.  What keeps them apart is the clause \<open>rowLock\<close> asks for
  (\<open>SELECT ... FOR UPDATE\<close> on MySQL and PostgreSQL) and, on SQLite, the connection pool of one
  connection that \<open>tune\<close> sets up.  The theory gives the transactions as a step relation
  and proves that what is committed is always the outcome of running the successful
  redemptions one after the other.

  The database is read committed: a statement sees the committed rows and those its own
  transaction has written; a row lock is held until the transaction ends.
\<close>

section \<open>The transaction as a sequence of statements\<close>

datatype driver = DriverSQLite | DriverMySQL | DriverPostgres

text \<open>Whether the first statement locks the row it reads.\<close>

definition rowLock :: "driver \<Rightarrow> bool" where
  "rowLock d = (if d = DriverSQLite then False else True)"

text \<open>The size \<open>tune\<close> gives the pool; \<open>opt\<close> is \<open>Options.MaxOpenConns\<close>.\<close>

definition maxOpenConns :: "driver \<Rightarrow> int \<Rightarrow> int" where
  "maxOpenConns d opt = (if d = DriverSQLite then 1 else if opt \<le> 0 then 25 else opt)"

datatype pc =
    Ready
  | Locked gcRow
  | Counted gcRow
  | Inserted gcRow
  | Finished bool

fun held :: "pc \<Rightarrow> gcRow option" where
  "held (Locked r) = Some r"
| "held (Counted r) = Some r"
| "held (Inserted r) = Some r"
| "held Ready = None"
| "held (Finished b) = None"

record race =
  ra_db :: gcDB
  ra_pcs :: "pc list"

text \<open>
  Whether a transaction that reads \<open>row\<close> can start: a connection is free, and with the lock
  clause nobody holds the row.
\<close>

definition admits :: "driver \<Rightarrow> int \<Rightarrow> gcRow \<Rightarrow> race \<Rightarrow> bool" where
  "admits d opt row s \<longleftrightarrow>
     int (length (filter (\<lambda>p. held p \<noteq> None) (ra_pcs s))) < maxOpenConns d opt \<and>
     (rowLock d \<longrightarrow> list_all (\<lambda>p. case held p of None \<Rightarrow> True | Some r \<Rightarrow> r_code r \<noteq> r_code row) (ra_pcs s))"

definition set_pc :: "nat \<Rightarrow> pc \<Rightarrow> race \<Rightarrow> race" where
  "set_pc i p s = s\<lparr>ra_pcs := (ra_pcs s)[i := p]\<rparr>"

definition commit_use :: "redemption \<Rightarrow> gcRow \<Rightarrow> gcDB \<Rightarrow> gcDB" where
  "commit_use q row db =
     add_uses (rd_now q) [new_use (rd_now q) (r_code row) (rd_mac q) (rd_ip q) (rd_upn q)] db"

text \<open>One statement of one transaction; \<open>abort\<close> is a failed statement or commit.\<close>

inductive race_step :: "driver \<Rightarrow> int \<Rightarrow> redemption list \<Rightarrow> race \<Rightarrow> race \<Rightarrow> bool"
  for d :: driver and opt :: int and reqs :: "redemption list" where
  miss: "i < length reqs \<Longrightarrow> ra_pcs s ! i = Ready \<Longrightarrow>
    find (\<lambda>r. r_lower r = normalizeCode (rd_code (reqs ! i))) (db_codes (ra_db s)) = None \<Longrightarrow>
    race_step d opt reqs s (set_pc i (Finished False) s)"
| lock: "i < length reqs \<Longrightarrow> ra_pcs s ! i = Ready \<Longrightarrow>
    find (\<lambda>r. r_lower r = normalizeCode (rd_code (reqs ! i))) (db_codes (ra_db s)) = Some row \<Longrightarrow>
    admits d opt row s \<Longrightarrow>
    race_step d opt reqs s (set_pc i (Locked row) s)"
| count: "i < length reqs \<Longrightarrow> ra_pcs s ! i = Locked row \<Longrightarrow>
    redeemable (rd_now (reqs ! i)) (ra_db s) row \<Longrightarrow>
    race_step d opt reqs s (set_pc i (Counted row) s)"
| unusable: "i < length reqs \<Longrightarrow> ra_pcs s ! i = Locked row \<Longrightarrow>
    \<not> redeemable (rd_now (reqs ! i)) (ra_db s) row \<Longrightarrow>
    race_step d opt reqs s (set_pc i (Finished False) s)"
| insert: "i < length reqs \<Longrightarrow> ra_pcs s ! i = Counted row \<Longrightarrow>
    race_step d opt reqs s (set_pc i (Inserted row) s)"
| commit: "i < length reqs \<Longrightarrow> ra_pcs s ! i = Inserted row \<Longrightarrow>
    race_step d opt reqs s
      (set_pc i (Finished True) (s\<lparr>ra_db := commit_use (reqs ! i) row (ra_db s)\<rparr>))"
| abort: "i < length reqs \<Longrightarrow> held (ra_pcs s ! i) \<noteq> None \<Longrightarrow>
    race_step d opt reqs s (set_pc i (Finished False) s)"

definition race_init :: "gcDB \<Rightarrow> redemption list \<Rightarrow> race" where
  "race_init db reqs = \<lparr>ra_db = db, ra_pcs = replicate (length reqs) Ready\<rparr>"

inductive race_reach :: "driver \<Rightarrow> int \<Rightarrow> redemption list \<Rightarrow> gcDB \<Rightarrow> race \<Rightarrow> bool"
  for d :: driver and opt :: int and reqs :: "redemption list" and db0 :: gcDB where
  start: "race_reach d opt reqs db0 (race_init db0 reqs)"
| step: "race_reach d opt reqs db0 s \<Longrightarrow> race_step d opt reqs s s' \<Longrightarrow> race_reach d opt reqs db0 s'"

inductive_cases race_stepE: "race_step d opt reqs s s'"


section \<open>Mutual exclusion\<close>

definition exclusive :: "pc list \<Rightarrow> bool" where
  "exclusive ps \<longleftrightarrow> (\<forall>i<length ps. \<forall>j<length ps. \<forall>r r'.
     i \<noteq> j \<and> held (ps ! i) = Some r \<and> held (ps ! j) = Some r' \<longrightarrow> r_code r \<noteq> r_code r')"

lemma exclusive_init: "exclusive (replicate n Ready)"
  by (simp add: exclusive_def)

text \<open>A step that keeps or drops what a transaction holds preserves exclusion.\<close>

lemma exclusive_keep:
  assumes "exclusive ps" "held p = None \<or> held p = held (ps ! i)"
  shows "exclusive (ps[i := p])"
proof (cases "i < length ps")
  case True
  have keep: "held (ps ! a) = Some r" if "held (ps[i := p] ! a) = Some r" for a r
    using that assms(2) True by (auto simp: nth_list_update split: if_splits)
  show ?thesis
    using assms(1) unfolding exclusive_def by (metis keep length_list_update)
next
  case False
  then show ?thesis using assms(1) by (simp add: list_update_beyond)
qed

lemma no_holder:
  assumes "\<not> int (length (filter (\<lambda>p. held p \<noteq> None) ps)) \<ge> 1" "j < length ps"
  shows "held (ps ! j) = None"
proof -
  from assms(1) have "filter (\<lambda>p. held p \<noteq> None) ps = []" by (cases "filter (\<lambda>p. held p \<noteq> None) ps") auto
  with assms(2) show ?thesis by (simp add: filter_empty_conv)
qed

lemma admits_free:
  assumes "admits d opt row s" "j < length (ra_pcs s)" "held (ra_pcs s ! j) = Some r"
  shows "r_code r \<noteq> r_code row"
proof (cases "d = DriverSQLite")
  case True
  with assms(1) have "\<not> int (length (filter (\<lambda>p. held p \<noteq> None) (ra_pcs s))) \<ge> 1"
    by (simp add: admits_def maxOpenConns_def)
  from no_holder [OF this assms(2)] assms(3) show ?thesis by simp
next
  case False
  with assms(1) have "list_all (\<lambda>p. case held p of None \<Rightarrow> True | Some r \<Rightarrow> r_code r \<noteq> r_code row) (ra_pcs s)"
    by (simp add: admits_def rowLock_def)
  with assms(2,3) show ?thesis by (force simp: list_all_length)
qed

lemma exclusive_lock:
  assumes "exclusive (ra_pcs s)" "admits d opt row s"
  shows "exclusive ((ra_pcs s)[i := Locked row])"
  unfolding exclusive_def
proof (intro allI impI)
  fix a b r r'
  assume a: "a < length ((ra_pcs s)[i := Locked row])" and b: "b < length ((ra_pcs s)[i := Locked row])"
  assume asm: "a \<noteq> b \<and> held ((ra_pcs s)[i := Locked row] ! a) = Some r \<and>
    held ((ra_pcs s)[i := Locked row] ! b) = Some r'"
  show "r_code r \<noteq> r_code r'"
  proof (cases "a = i \<or> b = i")
    case True
    with a b asm admits_free [OF assms(2)] show ?thesis
      by (auto simp: nth_list_update split: if_splits) metis
  next
    case False
    with a b asm assms(1) show ?thesis
      unfolding exclusive_def by (auto simp: nth_list_update)
  qed
qed


section \<open>The committed state is a sequential outcome\<close>

text \<open>The request as a call of \<open>Validate\<close> that meets no fault.\<close>

definition clean :: "redemption \<Rightarrow> redemption" where
  "clean q = q\<lparr>rd_flt := (\<lambda>_. False)\<rparr>"

text \<open>\<open>ts\<close> lists the successful requests in the order in which they committed.\<close>

definition race_inv :: "redemption list \<Rightarrow> gcDB \<Rightarrow> nat list \<Rightarrow> race \<Rightarrow> bool" where
  "race_inv reqs db0 ts s \<longleftrightarrow>
     length (ra_pcs s) = length reqs \<and> wf_gc (ra_db s) \<and> db_codes (ra_db s) = db_codes db0 \<and>
     exclusive (ra_pcs s) \<and>
     (\<forall>i<length reqs. \<forall>row. held (ra_pcs s ! i) = Some row \<longrightarrow>
        find (\<lambda>r. r_lower r = normalizeCode (rd_code (reqs ! i))) (db_codes db0) = Some row) \<and>
     (\<forall>i<length reqs. \<forall>row. ra_pcs s ! i \<in> {Counted row, Inserted row} \<longrightarrow>
        redeemable (rd_now (reqs ! i)) (ra_db s) row) \<and>
     distinct ts \<and> (\<forall>i<length reqs. i \<in> set ts \<longleftrightarrow> ra_pcs s ! i = Finished True) \<and>
     set ts \<subseteq> {..<length reqs} \<and>
     ra_db s = snd (redeem_run (map (\<lambda>i. clean (reqs ! i)) ts) db0) \<and>
     list_all (\<lambda>r. r \<noteq> None) (fst (redeem_run (map (\<lambda>i. clean (reqs ! i)) ts) db0))"

lemma race_invD:
  assumes "race_inv reqs db0 ts s"
  shows "length (ra_pcs s) = length reqs" "wf_gc (ra_db s)" "db_codes (ra_db s) = db_codes db0"
    "exclusive (ra_pcs s)"
    "i < length reqs \<Longrightarrow> held (ra_pcs s ! i) = Some row \<Longrightarrow>
       find (\<lambda>r. r_lower r = normalizeCode (rd_code (reqs ! i))) (db_codes db0) = Some row"
    "i < length reqs \<Longrightarrow> ra_pcs s ! i \<in> {Counted row, Inserted row} \<Longrightarrow>
       redeemable (rd_now (reqs ! i)) (ra_db s) row"
    "distinct ts" "i < length reqs \<Longrightarrow> i \<in> set ts \<longleftrightarrow> ra_pcs s ! i = Finished True"
    "set ts \<subseteq> {..<length reqs}"
    "ra_db s = snd (redeem_run (map (\<lambda>i. clean (reqs ! i)) ts) db0)"
    "list_all (\<lambda>r. r \<noteq> None) (fst (redeem_run (map (\<lambda>i. clean (reqs ! i)) ts) db0))"
  using assms unfolding race_inv_def by blast+

lemma redeem_run_snoc:
  "redeem_run (qs @ [q]) db =
     (fst (redeem_run qs db) @ [fst (redeem_one q (snd (redeem_run qs db)))],
      snd (redeem_one q (snd (redeem_run qs db))))"
  by (induction qs arbitrary: db) (simp_all add: case_prod_beta Let_def)

lemma redeem_clean:
  assumes "wf_gc db" "find (\<lambda>r. r_lower r = normalizeCode (rd_code q)) (db_codes db) = Some row"
    and "redeemable (rd_now q) db row"
  shows "redeem_one (clean q) db = (Some (full_view (commit_use q row db) row), commit_use q row db)"
  using Validate_library [OF assms(1), of "rd_now q" "rd_code q" "rd_mac q" "rd_ip q" "rd_upn q"] assms(2,3)
  by (simp add: redeem_one_def clean_def commit_use_def Let_def del: add_uses.simps)

lemma commit_other:
  assumes "r_code r \<noteq> r_code row"
  shows "redeemable t (commit_use q row db) r = redeemable t db r"
  using assms by (simp add: redeemable_def commit_use_def uses_of_add del: add_uses.simps)

lemma race_inv_init: "wf_gc db0 \<Longrightarrow> race_inv reqs db0 [] (race_init db0 reqs)"
  by (simp add: race_inv_def race_init_def exclusive_init)

text \<open>Every step but a commit moves one transaction and leaves the database alone.\<close>

lemma race_inv_move:
  assumes inv: "race_inv reqs db0 ts s" and i: "i < length reqs"
    and p: "p \<noteq> Finished True" "ra_pcs s ! i \<noteq> Finished True"
    and excl: "exclusive ((ra_pcs s)[i := p])"
    and held: "\<And>row. held p = Some row \<Longrightarrow>
      find (\<lambda>r. r_lower r = normalizeCode (rd_code (reqs ! i))) (db_codes db0) = Some row"
    and ok: "\<And>row. p \<in> {Counted row, Inserted row} \<Longrightarrow> redeemable (rd_now (reqs ! i)) (ra_db s) row"
  shows "race_inv reqs db0 ts (set_pc i p s)"
proof -
  note I = race_invD [OF inv]
  have nth: "(ra_pcs s)[i := p] ! j = (if i = j then p else ra_pcs s ! j)" if "j < length reqs" for j
    using i I(1) by (simp add: nth_list_update)
  show ?thesis
    unfolding race_inv_def
  proof (intro conjI)
    show "\<forall>j<length reqs. \<forall>row. held (ra_pcs (set_pc i p s) ! j) = Some row \<longrightarrow>
        find (\<lambda>r. r_lower r = normalizeCode (rd_code (reqs ! j))) (db_codes db0) = Some row"
      using held I(5) by (simp add: set_pc_def nth)
    show "\<forall>j<length reqs. \<forall>row. ra_pcs (set_pc i p s) ! j \<in> {Counted row, Inserted row} \<longrightarrow>
        redeemable (rd_now (reqs ! j)) (ra_db (set_pc i p s)) row"
      using ok I(6) by (simp add: set_pc_def nth)
    show "\<forall>j<length reqs. j \<in> set ts \<longleftrightarrow> ra_pcs (set_pc i p s) ! j = Finished True"
      using I(8) p by (auto simp: set_pc_def nth)
    show "ra_db (set_pc i p s) = snd (redeem_run (map (\<lambda>i. clean (reqs ! i)) ts) db0)"
      using I(10) by (simp add: set_pc_def)
    show "list_all (\<lambda>r. r \<noteq> None) (fst (redeem_run (map (\<lambda>i. clean (reqs ! i)) ts) db0))"
      by (rule I(11))
  qed (use I(1-4) I(7) I(9) excl in \<open>simp_all add: set_pc_def\<close>)
qed

lemma race_inv_commit:
  assumes inv: "race_inv reqs db0 ts s" and i: "i < length reqs" and pc: "ra_pcs s ! i = Inserted row"
  shows "race_inv reqs db0 (ts @ [i])
    (set_pc i (Finished True) (s\<lparr>ra_db := commit_use (reqs ! i) row (ra_db s)\<rparr>))"
proof -
  note I = race_invD [OF inv]
  let ?s = "set_pc i (Finished True) (s\<lparr>ra_db := commit_use (reqs ! i) row (ra_db s)\<rparr>)"
  have row: "find (\<lambda>r. r_lower r = normalizeCode (rd_code (reqs ! i))) (db_codes (ra_db s)) = Some row"
    using I(5) [OF i, of row] pc I(3) by simp
  have ok: "redeemable (rd_now (reqs ! i)) (ra_db s) row"
    using I(6) [OF i, of row] pc by simp
  note run = redeem_clean [OF I(2) row ok]
  have nth: "(ra_pcs s)[i := p] ! j = (if i = j then p else ra_pcs s ! j)" if "j < length reqs" for j p
    using i I(1) by (simp add: nth_list_update)
  have other: "redeemable (rd_now (reqs ! j)) (ra_db ?s) r"
    if "j < length reqs" "ra_pcs ?s ! j \<in> {Counted r, Inserted r}" for j r
  proof -
    have "j \<noteq> i" and pj: "ra_pcs s ! j \<in> {Counted r, Inserted r}"
      using that by (auto simp: set_pc_def nth split: if_splits)
    then have "r_code r \<noteq> r_code row"
      using I(1,4) that(1) i pc unfolding exclusive_def by (metis held.simps(2,3) insert_iff singletonD)
    then show ?thesis using I(6) [OF that(1) pj] by (simp add: set_pc_def commit_other)
  qed
  show ?thesis
    unfolding race_inv_def
  proof (intro conjI)
    show "wf_gc (ra_db ?s)"
      using redeem_one_props(1) [OF I(2), of "clean (reqs ! i)"] run by (simp add: set_pc_def)
    show "db_codes (ra_db ?s) = db_codes db0"
      using I(3) by (simp add: set_pc_def commit_use_def del: add_uses.simps)
    show "exclusive (ra_pcs ?s)"
      using exclusive_keep [OF I(4), of "Finished True" i] by (simp add: set_pc_def)
    show "\<forall>j<length reqs. \<forall>r. held (ra_pcs ?s ! j) = Some r \<longrightarrow>
        find (\<lambda>r. r_lower r = normalizeCode (rd_code (reqs ! j))) (db_codes db0) = Some r"
      using I(5) by (simp add: set_pc_def nth)
    show "\<forall>j<length reqs. \<forall>r. ra_pcs ?s ! j \<in> {Counted r, Inserted r} \<longrightarrow>
        redeemable (rd_now (reqs ! j)) (ra_db ?s) r"
      using other by blast
    show "\<forall>j<length reqs. j \<in> set (ts @ [i]) \<longleftrightarrow> ra_pcs ?s ! j = Finished True"
      using I(8) by (auto simp: set_pc_def nth)
    show "ra_db ?s = snd (redeem_run (map (\<lambda>i. clean (reqs ! i)) (ts @ [i])) db0)"
      using run by (simp add: redeem_run_snoc set_pc_def flip: I(10))
    show "list_all (\<lambda>r. r \<noteq> None) (fst (redeem_run (map (\<lambda>i. clean (reqs ! i)) (ts @ [i])) db0))"
      using run I(11) by (simp add: redeem_run_snoc flip: I(10))
    show "distinct (ts @ [i])" using I(7) I(8) [OF i] pc by simp
  qed (use I(1) I(9) i in \<open>auto simp: set_pc_def\<close>)
qed

lemma race_inv_step:
  assumes "race_inv reqs db0 ts s" "race_step d opt reqs s s'"
  shows "\<exists>ts'. race_inv reqs db0 ts' s'"
  using assms(2)
proof cases
  case (miss i)
  have "race_inv reqs db0 ts s'"
    unfolding miss(1) using assms(1) miss
    by (intro race_inv_move) (auto dest: race_invD(4-6) simp: race_invD(3) intro!: exclusive_keep)
  then show ?thesis ..
next
  case (lock i row)
  have "race_inv reqs db0 ts s'"
    unfolding lock(1) using assms(1) lock
    by (intro race_inv_move) (auto dest: race_invD(4) simp: race_invD(3) intro: exclusive_lock)
  then show ?thesis ..
next
  case (count i row)
  have "race_inv reqs db0 ts s'"
    unfolding count(1) using assms(1) count
    by (intro race_inv_move) (auto dest: race_invD(4-6) simp: race_invD(3) intro!: exclusive_keep)
  then show ?thesis ..
next
  case (unusable i row)
  have "race_inv reqs db0 ts s'"
    unfolding unusable(1) using assms(1) unusable
    by (intro race_inv_move) (auto dest: race_invD(4-6) simp: race_invD(3) intro!: exclusive_keep)
  then show ?thesis ..
next
  case (insert i row)
  have "race_inv reqs db0 ts s'"
    unfolding insert(1) using assms(1) insert
    by (intro race_inv_move) (auto dest: race_invD(4-6) simp: race_invD(3) intro!: exclusive_keep)
  then show ?thesis ..
next
  case (commit i row)
  then show ?thesis using race_inv_commit [OF assms(1)] by blast
next
  case (abort i)
  have "race_inv reqs db0 ts s'"
    unfolding abort(1) using assms(1) abort
    by (intro race_inv_move) (auto dest: race_invD(4-6) simp: race_invD(3) intro!: exclusive_keep)
  then show ?thesis ..
qed

lemma race_reach_inv:
  assumes "race_reach d opt reqs db0 s" "wf_gc db0"
  shows "\<exists>ts. race_inv reqs db0 ts s"
  using assms
proof induction
  case start
  then show ?case using race_inv_init by blast
next
  case (step s s')
  then show ?case using race_inv_step by blast
qed

section \<open>Properties\<close>

lemma finished_count:
  assumes "race_inv reqs db0 ts s"
  shows "set ts = {i. i < length reqs \<and> ra_pcs s ! i = Finished True}"
  using race_invD(8,9) [OF assms] by auto

lemma all_succeed:
  "list_all (\<lambda>r. r \<noteq> None) (fst (redeem_run qs db)) \<Longrightarrow>
     successes k qs db = length (filter (\<lambda>q. normalizeCode (rd_code q) = k) qs)"
proof (induction qs arbitrary: db)
  case Nil
  then show ?case by (simp add: successes_def)
next
  case (Cons q qs)
  then show ?case by (simp add: successes_Cons case_prod_beta Let_def)
qed

lemma clean_code [simp]: "rd_code (clean q) = rd_code q"
  by (simp add: clean_def)

text \<open>C5: Concurrent redemptions are serializable.  Whatever the driver, the pool size and the
  interleaving of the statements of the transactions, including transactions that fail
  anywhere, the committed tables are the result of running the successful requests one after
  the other, and in that sequence every one of them succeeds.\<close>

theorem race_serializable:
  assumes "wf_gc db0" and "race_reach d opt reqs db0 s"
  shows "\<exists>ts. distinct ts \<and> set ts = {i. i < length reqs \<and> ra_pcs s ! i = Finished True} \<and>
    ra_db s = snd (redeem_run (map (\<lambda>i. clean (reqs ! i)) ts) db0) \<and>
    list_all (\<lambda>r. r \<noteq> None) (fst (redeem_run (map (\<lambda>i. clean (reqs ! i)) ts) db0))"
proof -
  obtain ts where inv: "race_inv reqs db0 ts s" using race_reach_inv [OF assms(2,1)] ..
  with finished_count [OF inv] race_invD(7,10,11) [OF inv] show ?thesis by blast
qed

text \<open>A code is never redeemed more often than its limit allows, by any number of requests
  racing for it on any number of instances: the requests that end successfully plus the uses
  already recorded are within the limit.\<close>

theorem race_bounded:
  assumes "wf_gc db0" and "race_reach d opt reqs db0 s"
    and "find (\<lambda>r. r_lower r = k) (db_codes db0) = Some row"
    and "r_max row > 0" and "int (used_up k db0) \<le> r_max row"
  shows "int (used_up k db0) + int (card {i. i < length reqs \<and> ra_pcs s ! i = Finished True \<and>
      normalizeCode (rd_code (reqs ! i)) = k}) \<le> r_max row"
proof -
  obtain ts where inv: "race_inv reqs db0 ts s" using race_reach_inv [OF assms(2,1)] ..
  let ?qs = "map (\<lambda>i. clean (reqs ! i)) ts"
  have "successes k ?qs db0 = length (filter (\<lambda>q. normalizeCode (rd_code q) = k) ?qs)"
    using race_invD(11) [OF inv] by (rule all_succeed)
  also have "\<dots> = card {i. i < length reqs \<and> ra_pcs s ! i = Finished True \<and>
      normalizeCode (rd_code (reqs ! i)) = k}"
    using race_invD(7) [OF inv] finished_count [OF inv]
    by (simp add: filter_map comp_def flip: distinct_card)
  finally show ?thesis
    using redeem_run_used [OF assms(1,3), of ?qs] redeem_run_bounded [OF assms(1,3-5), of ?qs] by simp
qed

section \<open>Progress\<close>

text \<open>How far a transaction has come; where its next statement takes it when the database answers.\<close>

fun rank :: "pc \<Rightarrow> nat" where
  "rank Ready = 0"
| "rank (Locked r) = 1"
| "rank (Counted r) = 2"
| "rank (Inserted r) = 3"
| "rank (Finished b) = 4"

fun next_pc :: "redemption \<Rightarrow> gcDB \<Rightarrow> pc \<Rightarrow> pc" where
  "next_pc q db Ready =
     (case find (\<lambda>r. r_lower r = normalizeCode (rd_code q)) (db_codes db) of None \<Rightarrow> Finished False | Some row \<Rightarrow> Locked row)"
| "next_pc q db (Locked row) = (if redeemable (rd_now q) db row then Counted row else Finished False)"
| "next_pc q db (Counted row) = Inserted row"
| "next_pc q db (Inserted row) = Finished True"
| "next_pc q db (Finished b) = Finished b"

definition progress :: "race \<Rightarrow> nat" where
  "progress s = sum_list (map rank (ra_pcs s))"

lemma rank_le: "rank p \<le> 4" by (cases p) auto

lemma progress_le: "progress s \<le> 4 * length (ra_pcs s)"
  using sum_list_mono [of "ra_pcs s" rank "\<lambda>_. 4"] rank_le by (simp add: progress_def sum_list_triv mult.commute)

lemma progress_set_pc:
  assumes "i < length (ra_pcs s)" "rank (ra_pcs s ! i) < rank p"
  shows "progress s < progress (set_pc i p s)"
proof -
  have "sum_list (map rank ((ra_pcs s)[i := p])) + rank (ra_pcs s ! i) = sum_list (map rank (ra_pcs s)) + rank p"
    using assms(1) sum_list_update [of i "map rank (ra_pcs s)" "rank p"] member_le_sum_list [of "map rank (ra_pcs s) ! i" "map rank (ra_pcs s)"]
    by (simp add: map_update)
  with assms(2) show ?thesis by (simp add: progress_def set_pc_def)
qed

lemma race_step_progress:
  assumes "race_step d opt reqs s s'" "length (ra_pcs s) = length reqs"
  shows "progress s < progress s' \<and> length (ra_pcs s') = length reqs"
  using assms
proof (cases rule: race_step.cases)
  case (abort i)
  then have "rank (ra_pcs s ! i) < rank (Finished False)" by (cases "ra_pcs s ! i") auto
  with abort assms(2) progress_set_pc [of i s] show ?thesis by (simp add: set_pc_def)
next
  case (commit i row)
  with assms(2) progress_set_pc [of i "s\<lparr>ra_db := commit_use (reqs ! i) row (ra_db s)\<rparr>" "Finished True"] show ?thesis
    by (simp add: set_pc_def progress_def)
qed (use assms(2) progress_set_pc in \<open>auto simp: set_pc_def\<close>)

lemma race_steps_progress:
  "(race_step d opt reqs ^^ k) s s' \<Longrightarrow> length (ra_pcs s) = length reqs \<Longrightarrow>
     progress s + k \<le> progress s' \<and> length (ra_pcs s') = length reqs"
proof (induction k arbitrary: s')
  case (Suc k)
  then obtain mid where "(race_step d opt reqs ^^ k) s mid" "race_step d opt reqs mid s'" by (auto elim: relpowp_Suc_E)
  with Suc.IH [of mid] Suc.prems(2) race_step_progress [of d opt reqs mid s'] show ?case by auto
qed simp

text \<open>When a transaction is at work, its next statement is possible; when none is, any of the others can start.\<close>

lemma race_not_stuck:
  assumes "i < length reqs" "held (ra_pcs s ! i) \<noteq> None \<or> (ra_pcs s ! i = Ready \<and> list_all (\<lambda>p. held p = None) (ra_pcs s))"
  shows "\<exists>s'. race_step d opt reqs s s' \<and> ra_pcs s' = (ra_pcs s)[i := next_pc (reqs ! i) (ra_db s) (ra_pcs s ! i)]"
proof (cases "ra_pcs s ! i")
  case Ready
  with assms(2) have free: "filter (\<lambda>p. held p \<noteq> None) (ra_pcs s) = []" by (auto simp: list_all_iff filter_empty_conv)
  have "0 < maxOpenConns d opt" by (simp add: maxOpenConns_def)
  then have "admits d opt row s" for row
    using free assms(2) Ready by (auto simp: admits_def list_all_iff)
  then show ?thesis
    using Ready race_step.miss [OF assms(1)] race_step.lock [OF assms(1)]
    by (cases "find (\<lambda>r. r_lower r = normalizeCode (rd_code (reqs ! i))) (db_codes (ra_db s))") (fastforce simp: set_pc_def)+
next
  case (Locked row)
  then show ?thesis
    using race_step.count [OF assms(1) Locked] race_step.unusable [OF assms(1) Locked]
    by (cases "redeemable (rd_now (reqs ! i)) (ra_db s) row") (fastforce simp: set_pc_def)+
next
  case (Counted row)
  then show ?thesis using race_step.insert [OF assms(1) Counted] by (fastforce simp: set_pc_def)
next
  case (Inserted row)
  then show ?thesis using race_step.commit [OF assms(1) Inserted] by (fastforce simp: set_pc_def)
next
  case (Finished b)
  with assms(2) show ?thesis by simp
qed

text \<open>C11: Every race ends.  However many redemptions run at the same time, on whatever driver and pool, in
  whatever order and with whatever failures, they execute at most four statements each; and they never
  block one another for good: while one is not finished, some unfinished one can take the very next step
  of its transaction without a failure.\<close>

theorem race_ends:
  assumes "(race_step d opt reqs ^^ k) (race_init db0 reqs) s"
  shows "k \<le> 4 * length reqs \<and>
    ((\<exists>i<length reqs. \<forall>b. ra_pcs s ! i \<noteq> Finished b) \<longrightarrow>
     (\<exists>i<length reqs. \<exists>s'. (\<forall>b. ra_pcs s ! i \<noteq> Finished b) \<and> race_step d opt reqs s s' \<and>
        ra_pcs s' = (ra_pcs s)[i := next_pc (reqs ! i) (ra_db s) (ra_pcs s ! i)]))"
proof
  have len: "length (ra_pcs (race_init db0 reqs)) = length reqs" by (simp add: race_init_def)
  from race_steps_progress [OF assms len] have s: "k \<le> progress s" "length (ra_pcs s) = length reqs" by auto
  with progress_le [of s] show "k \<le> 4 * length reqs" by simp
  show "(\<exists>i<length reqs. \<forall>b. ra_pcs s ! i \<noteq> Finished b) \<longrightarrow>
     (\<exists>i<length reqs. \<exists>s'. (\<forall>b. ra_pcs s ! i \<noteq> Finished b) \<and> race_step d opt reqs s s' \<and>
        ra_pcs s' = (ra_pcs s)[i := next_pc (reqs ! i) (ra_db s) (ra_pcs s ! i)])"
  proof
    assume "\<exists>i<length reqs. \<forall>b. ra_pcs s ! i \<noteq> Finished b"
    then obtain i where i: "i < length reqs" "\<forall>b. ra_pcs s ! i \<noteq> Finished b" by blast
    show "\<exists>i<length reqs. \<exists>s'. (\<forall>b. ra_pcs s ! i \<noteq> Finished b) \<and> race_step d opt reqs s s' \<and>
        ra_pcs s' = (ra_pcs s)[i := next_pc (reqs ! i) (ra_db s) (ra_pcs s ! i)]"
    proof (cases "list_all (\<lambda>p. held p = None) (ra_pcs s)")
      case True
      with i s(2) have "held (ra_pcs s ! i) = None" by (simp add: list_all_length)
      with i(2) have "ra_pcs s ! i = Ready" by (cases "ra_pcs s ! i") auto
      with race_not_stuck [OF i(1)] True i show ?thesis by blast
    next
      case False
      then obtain j where "j < length reqs" "held (ra_pcs s ! j) \<noteq> None" using s(2) by (auto simp: list_all_length)
      with race_not_stuck [of j reqs s d opt] show ?thesis by (metis held.simps(5))
    qed
  qed
qed

text \<open>
  A run for the witnesses: two devices redeem the last use of a code; the second one waits for
  the row and finds the code used up.
\<close>

definition race_requests :: "redemption list" where
  "race_requests = [demo_request 40, demo_request 41]"

definition race_row :: gcRow where "race_row = hd (db_codes demo_gcDB)"

definition race_1 :: race where "race_1 = set_pc 0 (Locked race_row) (race_init demo_gcDB race_requests)"
definition race_2 :: race where "race_2 = set_pc 0 (Inserted race_row) (set_pc 0 (Counted race_row) race_1)"
definition race_3 :: race where
  "race_3 = set_pc 0 (Finished True)
     (race_2\<lparr>ra_db := commit_use (race_requests ! 0) race_row (ra_db race_2)\<rparr>)"
definition race_4 :: race where
  "race_4 = set_pc 1 (Finished False) (set_pc 1 (Locked race_row) race_3)"

lemma race_demo: "race_reach DriverMySQL 0 race_requests demo_gcDB race_4"
proof -
  let ?R = "race_reach DriverMySQL 0 race_requests demo_gcDB"
  have len: "0 < length race_requests" "1 < length race_requests" by (simp_all add: race_requests_def)
  note lock = race_step.lock [where row = race_row] and count = race_step.count [where row = race_row]
    and insert = race_step.insert [where row = race_row]
    and commit = race_step.commit [where row = race_row]
    and unusable = race_step.unusable [where row = race_row]
  have "?R (race_init demo_gcDB race_requests)" by (rule race_reach.start)
  moreover have "race_step DriverMySQL 0 race_requests (race_init demo_gcDB race_requests) race_1"
    unfolding race_1_def by (rule lock [OF len(1)]) code_simp+
  ultimately have "?R race_1" by (rule race_reach.step)
  moreover have "race_step DriverMySQL 0 race_requests race_1 (set_pc 0 (Counted race_row) race_1)"
    by (rule count [OF len(1)]) code_simp+
  ultimately have "?R (set_pc 0 (Counted race_row) race_1)" by (rule race_reach.step)
  moreover have "race_step DriverMySQL 0 race_requests (set_pc 0 (Counted race_row) race_1) race_2"
    unfolding race_2_def by (rule insert [OF len(1)]) code_simp+
  ultimately have "?R race_2" by (rule race_reach.step)
  moreover have "race_step DriverMySQL 0 race_requests race_2 race_3"
    unfolding race_3_def by (rule commit [OF len(1)]) code_simp+
  ultimately have "?R race_3" by (rule race_reach.step)
  moreover have "race_step DriverMySQL 0 race_requests race_3 (set_pc 1 (Locked race_row) race_3)"
    by (rule lock [OF len(2)]) code_simp+
  ultimately have "?R (set_pc 1 (Locked race_row) race_3)" by (rule race_reach.step)
  moreover have "race_step DriverMySQL 0 race_requests (set_pc 1 (Locked race_row) race_3) race_4"
    unfolding race_4_def by (rule unusable [OF len(2)]) code_simp+
  ultimately show ?thesis by (rule race_reach.step)
qed

theorem race_serializable_witness:
  "\<exists>ts. distinct ts \<and> set ts = {i. i < 2 \<and> ra_pcs race_4 ! i = Finished True} \<and>
    ra_db race_4 = snd (redeem_run (map (\<lambda>i. clean (race_requests ! i)) ts) demo_gcDB)"
  using race_serializable [OF wf_demo_gcDB race_demo] by (auto simp: race_requests_def numeral_2_eq_2)

theorem race_bounded_witness:
  "card {i. i < 2 \<and> ra_pcs race_4 ! i = Finished True \<and>
     normalizeCode (rd_code (race_requests ! i)) = ''ab12''} \<le> 1"
proof -
  have "find (\<lambda>r. r_lower r = ''ab12'') (db_codes demo_gcDB) = Some race_row"
    "r_max race_row = 2" "int (used_up ''ab12'' demo_gcDB) = 1" "length race_requests = 2"
    by code_simp+
  then show ?thesis
    using race_bounded [OF wf_demo_gcDB race_demo, of "''ab12''" race_row] by simp
qed

lemma race_reach_steps: "race_reach d opt reqs db0 s \<Longrightarrow> \<exists>k. (race_step d opt reqs ^^ k) (race_init db0 reqs) s"
proof (induction rule: race_reach.induct)
  case start
  show ?case by (intro exI [of _ 0]) simp
next
  case (step s s')
  then show ?case by (blast intro: relpowp_Suc_I)
qed

theorem race_ends_witness:
  "\<exists>k\<le>8. (race_step DriverMySQL 0 race_requests ^^ k) (race_init demo_gcDB race_requests) race_4"
proof -
  obtain k where k: "(race_step DriverMySQL 0 race_requests ^^ k) (race_init demo_gcDB race_requests) race_4"
    using race_reach_steps [OF race_demo] ..
  moreover have "length race_requests = 2" by (simp add: race_requests_def)
  ultimately show ?thesis using race_ends [OF k] by auto
qed

end
