(* ===== verification/Codec.thy ===== *)
theory Codec
  imports Config
begin

text \<open>
  The encodings the portal puts data through: hexadecimal (\<open>encoding/hex\<close>), unpadded URL-safe
  base64 (\<open>encoding/base64\<close>), query escaping (\<open>net/url\<close>) and the flat JSON objects of the
  cookies (\<open>encoding/json\<close>).  Each comes with its round trip.  The hash functions stay
  parameters of the definitions that use them.
\<close>

abbreviation byte :: "char \<Rightarrow> nat" where "byte \<equiv> of_char"

lemma byte_less [simp]: "byte c < 256"
  by (metis of_char_mod_256 mod_less_divisor zero_less_numeral)

lemma char_byte [simp]: "char_of (byte c) = c"
  by simp


section \<open>Hexadecimal\<close>

definition hex_digit :: "nat \<Rightarrow> char" where
  "hex_digit n = (if n < 10 then char_of (48 + n) else char_of (87 + n))"

definition hex_val :: "char \<Rightarrow> nat option" where
  "hex_val c = (let n = byte c in
     if 48 \<le> n \<and> n \<le> 57 then Some (n - 48)
     else if 97 \<le> n \<and> n \<le> 102 then Some (n - 87)
     else if 65 \<le> n \<and> n \<le> 70 then Some (n - 55)
     else None)"

definition hex_byte :: "(nat \<Rightarrow> char) \<Rightarrow> char \<Rightarrow> string" where
  "hex_byte digit c = [digit (byte c div 16), digit (byte c mod 16)]"

definition hex_encode :: "string \<Rightarrow> string" where
  "hex_encode s = concat (map (hex_byte hex_digit) s)"

fun hex_decode :: "string \<Rightarrow> string option" where
  "hex_decode [] = Some []"
| "hex_decode [c] = None"
| "hex_decode (a # b # rest) =
     (case (hex_val a, hex_val b, hex_decode rest) of
        (Some h, Some l, Some s) \<Rightarrow> Some (char_of (16 * h + l) # s)
      | _ \<Rightarrow> None)"

lemma hex_val_digit [simp]: "n < 16 \<Longrightarrow> hex_val (hex_digit n) = Some n"
  by (simp add: hex_val_def hex_digit_def Let_def)

lemma byte_split: "char_of (16 * (byte c div 16) + byte c mod 16) = c"
  by (simp add: mult.commute [of 16])

lemma byte_div_less: "byte c div 16 < 16"
  using byte_less [of c] by (simp add: less_mult_imp_div_less)

lemma hex_roundtrip: "hex_decode (hex_encode s) = Some s"
  by (induction s) (simp_all add: hex_encode_def hex_byte_def byte_div_less byte_split)

lemma length_hex_encode [simp]: "length (hex_encode s) = 2 * length s"
  by (induction s) (simp_all add: hex_encode_def hex_byte_def)

lemma hex_encode_chars:
  assumes "c \<in> set (hex_encode s)"
  shows "is_digit c \<or> in_range CHR ''a'' CHR ''f'' c"
proof -
  from assms obtain n where "c = hex_digit n" "n < 16"
    by (auto simp: hex_encode_def hex_byte_def intro: byte_div_less)
  then show ?thesis by (auto simp: hex_digit_def is_digit_def in_range_def)
qed


section \<open>Base64\<close>

definition b64_char :: "nat \<Rightarrow> char" where
  "b64_char n =
     (if n < 26 then char_of (65 + n) else if n < 52 then char_of (71 + n)
      else if n < 62 then char_of (n - 4) else if n = 62 then CHR ''-'' else CHR ''_'')"

definition b64_val :: "char \<Rightarrow> nat option" where
  "b64_val c = (let n = byte c in
     if 65 \<le> n \<and> n \<le> 90 then Some (n - 65)
     else if 97 \<le> n \<and> n \<le> 122 then Some (n - 71)
     else if 48 \<le> n \<and> n \<le> 57 then Some (n + 4)
     else if c = CHR ''-'' then Some 62
     else if c = CHR ''_'' then Some 63
     else None)"

fun b64_groups :: "nat list \<Rightarrow> nat list" where
  "b64_groups [] = []"
| "b64_groups [a] = [a div 4, (a mod 4) * 16]"
| "b64_groups [a, b] = [a div 4, (a mod 4) * 16 + b div 16, (b mod 16) * 4]"
| "b64_groups (a # b # c # rest) =
     a div 4 # ((a mod 4) * 16 + b div 16) # ((b mod 16) * 4 + c div 64) # c mod 64 # b64_groups rest"

fun b64_ungroup :: "nat list \<Rightarrow> nat list option" where
  "b64_ungroup [] = Some []"
| "b64_ungroup [w] = None"
| "b64_ungroup [w, x] = Some [w * 4 + x div 16]"
| "b64_ungroup [w, x, y] = Some [w * 4 + x div 16, (x mod 16) * 16 + y div 4]"
| "b64_ungroup (w # x # y # z # rest) =
     (case b64_ungroup rest of None \<Rightarrow> None
      | Some r \<Rightarrow> Some ((w * 4 + x div 16) # ((x mod 16) * 16 + y div 4) # ((y mod 4) * 64 + z) # r))"

text \<open>\<open>RawURLEncoding\<close>; the decoder skips line ends.\<close>

definition b64_encode :: "string \<Rightarrow> string" where
  "b64_encode s = map b64_char (b64_groups (map byte s))"

definition b64_decode :: "string \<Rightarrow> string option" where
  "b64_decode s =
     (case those (map b64_val (filter (\<lambda>c. byte c \<noteq> 10 \<and> byte c \<noteq> 13) s)) of
        None \<Rightarrow> None
      | Some vs \<Rightarrow> map_option (map char_of) (b64_ungroup vs))"

lemma b64_val_char [simp]: "n < 64 \<Longrightarrow> b64_val (b64_char n) = Some n"
  by (auto simp: b64_val_def b64_char_def Let_def)

lemma b64_char_plain: "n < 64 \<Longrightarrow> byte (b64_char n) \<noteq> 10 \<and> byte (b64_char n) \<noteq> 13 \<and> b64_char n \<noteq> CHR ''.''"
  by (auto simp: b64_char_def simp flip: of_char_eq_iff [where 'a = nat])

lemma b64_groups_less: "\<forall>n\<in>set ns. n < 256 \<Longrightarrow> \<forall>g\<in>set (b64_groups ns). g < 64"
  by (induction ns rule: b64_groups.induct) (auto; presburger)+

lemma b64_ungroup_groups: "\<forall>n\<in>set ns. n < 256 \<Longrightarrow> b64_ungroup (b64_groups ns) = Some ns"
  by (induction ns rule: b64_groups.induct) (auto; presburger)+

lemma those_map: "(\<And>x. x \<in> set xs \<Longrightarrow> f (g x) = Some x) \<Longrightarrow> those (map f (map g xs)) = Some xs"
  by (induction xs) auto

lemma b64_roundtrip: "b64_decode (b64_encode s) = Some s"
proof -
  let ?g = "b64_groups (map byte s)"
  have less: "\<forall>g\<in>set ?g. g < 64" by (rule b64_groups_less) auto
  then have "filter (\<lambda>c. byte c \<noteq> 10 \<and> byte c \<noteq> 13) (map b64_char ?g) = map b64_char ?g"
    using b64_char_plain by (auto simp: filter_id_conv)
  moreover have "those (map b64_val (map b64_char ?g)) = Some ?g"
    using less by (intro those_map) auto
  moreover have "b64_ungroup ?g = Some (map byte s)"
    by (rule b64_ungroup_groups) auto
  ultimately show ?thesis
    by (simp add: b64_decode_def b64_encode_def comp_def)
qed

lemma b64_no_dot: "CHR ''.'' \<notin> set (b64_encode s)"
proof -
  have "\<forall>g\<in>set (b64_groups (map byte s)). g < 64" by (rule b64_groups_less) auto
  then show ?thesis using b64_char_plain by (force simp: b64_encode_def)
qed


section \<open>Query escaping\<close>

definition upper_hex_digit :: "nat \<Rightarrow> char" where
  "upper_hex_digit n = (if n < 10 then char_of (48 + n) else char_of (55 + n))"

definition unreserved :: "char \<Rightarrow> bool" where
  "unreserved c \<longleftrightarrow> is_digit c \<or> in_range CHR ''a'' CHR ''z'' c \<or> in_range CHR ''A'' CHR ''Z'' c \<or>
     c = CHR ''-'' \<or> c = CHR ''_'' \<or> c = CHR ''.'' \<or> c = CHR ''~''"

definition escape_char :: "char \<Rightarrow> string" where
  "escape_char c =
     (if unreserved c then [c] else if c = CHR '' '' then ''+''
      else CHR ''%'' # hex_byte upper_hex_digit c)"

definition query_escape :: "string \<Rightarrow> string" where
  "query_escape s = concat (map escape_char s)"

fun query_unescape :: "string \<Rightarrow> string option" where
  "query_unescape [] = Some []"
| "query_unescape (c # cs) =
     (if c = CHR ''%'' then
        (case cs of a # b # rest \<Rightarrow>
           (case (hex_val a, hex_val b, query_unescape rest) of
              (Some h, Some l, Some s) \<Rightarrow> Some (char_of (16 * h + l) # s)
            | _ \<Rightarrow> None)
         | _ \<Rightarrow> None)
      else if c = CHR ''+'' then map_option (Cons CHR '' '') (query_unescape cs)
      else map_option (Cons c) (query_unescape cs))"

lemma hex_val_upper [simp]: "n < 16 \<Longrightarrow> hex_val (upper_hex_digit n) = Some n"
  by (simp add: hex_val_def upper_hex_digit_def Let_def)

lemma unescape_char:
  "query_unescape (escape_char c @ s) = map_option (Cons c) (query_unescape s)"
proof (cases "unreserved c")
  case True
  then have "c \<noteq> CHR ''%''" "c \<noteq> CHR ''+''"
    by (auto simp: unreserved_def is_digit_def in_range_def)
  with True show ?thesis by (simp add: escape_char_def)
next
  case False
  then show ?thesis
    by (cases "query_unescape s") (simp_all add: escape_char_def hex_byte_def byte_div_less byte_split)
qed

lemma query_roundtrip: "query_unescape (query_escape s) = Some s"
  by (induction s) (simp_all add: query_escape_def unescape_char)

text \<open>An escaped value holds no character with a meaning in a query or in a header.\<close>

lemma escape_plain:
  assumes "c \<in> set (query_escape s)"
  shows "unreserved c \<or> c = CHR ''%'' \<or> c = CHR ''+''"
proof -
  have "unreserved (upper_hex_digit n)" if "n < 16" for n
    using that by (auto simp: upper_hex_digit_def unreserved_def is_digit_def in_range_def)
  then show ?thesis
    using assms by (auto simp: query_escape_def escape_char_def hex_byte_def byte_div_less split: if_splits)
qed

lemma escape_no_delim:
  "c \<in> set (query_escape s) \<Longrightarrow> c \<noteq> CHR ''&'' \<and> c \<noteq> CHR ''='' \<and> c \<noteq> CHR ''#'' \<and> c \<noteq> CHR ''?''"
  using escape_plain [of c s] by (auto simp: unreserved_def is_digit_def in_range_def)


section \<open>Runes\<close>

text \<open>The bytes of the first code point of UTF-8 text; an invalid byte counts as one of its own.\<close>

definition cont :: "nat \<Rightarrow> nat \<Rightarrow> char \<Rightarrow> bool" where
  "cont lo hi c \<longleftrightarrow> lo \<le> byte c \<and> byte c \<le> hi"

definition rune_width :: "string \<Rightarrow> nat" where
  "rune_width s =
     (case s of
        a # b # rest \<Rightarrow>
          if cont 194 223 a \<and> cont 128 191 b then 2
          else if (byte a = 224 \<and> cont 160 191 b \<or> byte a = 237 \<and> cont 128 159 b \<or>
                   (cont 225 236 a \<or> cont 238 239 a) \<and> cont 128 191 b) \<and>
                  (case rest of c # _ \<Rightarrow> cont 128 191 c | [] \<Rightarrow> False) then 3
          else if (byte a = 240 \<and> cont 144 191 b \<or> cont 241 243 a \<and> cont 128 191 b \<or>
                   byte a = 244 \<and> cont 128 143 b) \<and>
                  (case rest of c # d # _ \<Rightarrow> cont 128 191 c \<and> cont 128 191 d | _ \<Rightarrow> False) then 4
          else 1
      | _ \<Rightarrow> 1)"

text \<open>The first rune, encoded again: a byte that starts none becomes the replacement character.\<close>

definition first_rune :: "string \<Rightarrow> string" where
  "first_rune s =
     (case s of
        [] \<Rightarrow> []
      | c # _ \<Rightarrow>
          if byte c < 128 then [c]
          else if rune_width s = 1 then [CHR 0xEF, CHR 0xBF, CHR 0xBD]
          else take (rune_width s) s)"

text \<open>\<open>[]rune(s)\<close>, and its length.\<close>

function runes :: "string \<Rightarrow> string list" where
  "runes [] = []"
| "runes (c # cs) = first_rune (c # cs) # runes (drop (rune_width (c # cs) - 1) cs)"
  by pat_completeness auto
termination by (relation "measure length") auto

definition rune_count :: "string \<Rightarrow> nat" where
  "rune_count s = length (runes s)"

text \<open>The last \<open>n\<close> runes.\<close>

definition tail_n :: "string \<Rightarrow> nat \<Rightarrow> string" where
  "tail_n s n = (let r = runes s in if length r \<le> n then s else concat (drop (length r - n) r))"

lemma rune_width_ascii: "byte c < 128 \<Longrightarrow> rune_width (c # cs) = 1"
  by (auto simp: rune_width_def cont_def split: list.split)

lemma runes_ascii: "list_all (\<lambda>c. byte c < 128) s \<Longrightarrow> runes s = map (\<lambda>c. [c]) s"
  by (induction s) (simp_all add: rune_width_ascii first_rune_def)

lemma tail_n_ascii: "list_all (\<lambda>c. byte c < 128) s \<Longrightarrow> tail_n s n = drop (length s - n) s"
  by (simp add: tail_n_def runes_ascii drop_map Let_def)

end
