(* ===== verification/Json.thy ===== *)
theory Json
  imports Codec
begin

text \<open>
  The part of \<open>encoding/json\<close> the signed cookies use: flat objects whose values are strings and
  integers.  \<open>json_print\<close> is \<open>Marshal\<close> on such an object, \<open>json_parse\<close> the reader behind
  \<open>Unmarshal\<close>; the fields of an object are matched to the fields of a structure without regard
  to case, the last one counts, and unknown ones are ignored.  Text is ASCII: bytes above 127
  are copied.
\<close>

datatype jval = JStr string | JInt int

type_synonym json = "(string \<times> jval) list"


section \<open>Printing\<close>

text \<open>\<open>Marshal\<close> escapes quotes, backslashes, control characters and the characters of HTML.\<close>

definition json_escape :: "char \<Rightarrow> string" where
  "json_escape c =
     (if c = CHR 0x22 then [CHR 0x5C, CHR 0x22]
      else if c = CHR 0x5C then [CHR 0x5C, CHR 0x5C]
      else if c = CHR 0x08 then [CHR 0x5C, CHR ''b'']
      else if c = CHR 0x0C then [CHR 0x5C, CHR ''f'']
      else if c = CHR 0x0A then [CHR 0x5C, CHR ''n'']
      else if c = CHR 0x0D then [CHR 0x5C, CHR ''r'']
      else if c = CHR 0x09 then [CHR 0x5C, CHR ''t'']
      else if byte c < 32 \<or> c = CHR ''<'' \<or> c = CHR ''>'' \<or> c = CHR ''&''
      then [CHR 0x5C, CHR ''u'', CHR ''0'', CHR ''0''] @ hex_byte hex_digit c
      else [c])"

definition json_quote :: "string \<Rightarrow> string" where
  "json_quote s = CHR 0x22 # concat (map json_escape s) @ [CHR 0x22]"

fun json_val :: "jval \<Rightarrow> string" where
  "json_val (JStr s) = json_quote s"
| "json_val (JInt i) = itoa i"

definition json_member :: "string \<times> jval \<Rightarrow> string" where
  "json_member m = json_quote (fst m) @ CHR '':'' # json_val (snd m)"

definition json_print :: "json \<Rightarrow> string" where
  "json_print ms = CHR ''{'' # join '','' (map json_member ms) @ ''}''"


section \<open>Parsing\<close>

definition json_space :: "char \<Rightarrow> bool" where
  "json_space c \<longleftrightarrow> c = CHR '' '' \<or> c = CHR 0x09 \<or> c = CHR 0x0A \<or> c = CHR 0x0D"

definition skip_ws :: "string \<Rightarrow> string" where
  "skip_ws = dropWhile json_space"

definition simple_escape :: "char \<Rightarrow> char option" where
  "simple_escape e =
     (if e = CHR 0x22 \<or> e = CHR 0x5C \<or> e = CHR ''/'' then Some e
      else if e = CHR ''b'' then Some (CHR 0x08)
      else if e = CHR ''f'' then Some (CHR 0x0C)
      else if e = CHR ''n'' then Some (CHR 0x0A)
      else if e = CHR ''r'' then Some (CHR 0x0D)
      else if e = CHR ''t'' then Some (CHR 0x09)
      else None)"

text \<open>Four hexadecimal digits; code points above 127 are outside the model.\<close>

fun unicode_escape :: "string \<Rightarrow> (char \<times> string) option" where
  "unicode_escape (a # b # c # d # rest) =
     (case (hex_val a, hex_val b, hex_val c, hex_val d) of
        (Some a, Some b, Some c, Some d) \<Rightarrow>
          (let n = 4096 * a + 256 * b + 16 * c + d
           in if n < 128 then Some (char_of n, rest) else None)
      | _ \<Rightarrow> None)"
| "unicode_escape s = None"

lemma unicode_escape_length: "unicode_escape s = Some (c, rest) \<Longrightarrow> length rest < length s"
  by (induction s rule: unicode_escape.induct) (auto simp: Let_def split: option.splits if_splits)

text \<open>The rest of a string after its opening quote.\<close>

function json_str :: "string \<Rightarrow> (string \<times> string) option" where
  "json_str s =
     (case s of
        [] \<Rightarrow> None
      | c # cs \<Rightarrow>
          if c = CHR 0x22 then Some ([], cs)
          else if c = CHR 0x5C then
            (case cs of
               [] \<Rightarrow> None
             | e # rest \<Rightarrow>
                 if e = CHR ''u'' then
                   (case unicode_escape rest of
                      None \<Rightarrow> None
                    | Some (x, rest') \<Rightarrow>
                        if length rest' < length rest
                        then map_option (\<lambda>(t, r). (x # t, r)) (json_str rest') else None)
                 else
                   (case simple_escape e of
                      None \<Rightarrow> None
                    | Some x \<Rightarrow> map_option (\<lambda>(t, r). (x # t, r)) (json_str rest)))
          else if byte c < 32 then None
          else map_option (\<lambda>(t, r). (c # t, r)) (json_str cs))"
  by pat_completeness auto
termination by (relation "measure length") auto

declare json_str.simps [simp del]

definition digits_prefix :: "string \<Rightarrow> string" where
  "digits_prefix s = takeWhile is_digit s"

text \<open>An integer: an optional minus sign and digits (no fraction, no exponent).\<close>

definition json_int :: "string \<Rightarrow> (int \<times> string) option" where
  "json_int s =
     (let (neg, t) = (case s of [] \<Rightarrow> (False, s) | c # cs \<Rightarrow> if c = CHR ''-'' then (True, cs) else (False, s));
          ds = digits_prefix t
      in if ds = [] \<or> (length ds > 1 \<and> hd ds = CHR ''0'') then None
         else (case digits_val 0 ds of
             None \<Rightarrow> None
           | Some n \<Rightarrow> (let i = (if neg then - int n else int n)
                        in if in_int64 i then Some (i, drop (length ds) t) else None)))"

fun json_value :: "string \<Rightarrow> (jval \<times> string) option" where
  "json_value [] = None"
| "json_value (c # cs) =
     (if c = CHR 0x22 then map_option (\<lambda>(t, r). (JStr t, r)) (json_str cs)
      else map_option (\<lambda>(i, r). (JInt i, r)) (json_int (c # cs)))"

text \<open>A member up to and including its value.\<close>

definition json_one :: "string \<Rightarrow> ((string \<times> jval) \<times> string) option" where
  "json_one s =
     (case skip_ws s of
        [] \<Rightarrow> None
      | c # cs \<Rightarrow>
          if c \<noteq> CHR 0x22 then None
          else (case json_str cs of
              None \<Rightarrow> None
            | Some (k, r) \<Rightarrow>
                (case skip_ws r of
                   [] \<Rightarrow> None
                 | d # ds \<Rightarrow>
                     if d \<noteq> CHR '':'' then None
                     else map_option (\<lambda>(v, r'). ((k, v), r')) (json_value (skip_ws ds)))))"

text \<open>The members of a non-empty object; the fuel bounds their number.\<close>

fun json_members :: "nat \<Rightarrow> string \<Rightarrow> (json \<times> string) option" where
  "json_members 0 s = None"
| "json_members (Suc n) s =
     (case json_one s of
        None \<Rightarrow> None
      | Some (m, r) \<Rightarrow>
          (case skip_ws r of
             [] \<Rightarrow> None
           | c # cs \<Rightarrow>
               if c = CHR ''}'' then Some ([m], cs)
               else if c = CHR '','' then map_option (\<lambda>(ms, r'). (m # ms, r')) (json_members n cs)
               else None))"

definition json_parse :: "string \<Rightarrow> json option" where
  "json_parse s =
     (case skip_ws s of
        [] \<Rightarrow> None
      | c # cs \<Rightarrow>
          if c \<noteq> CHR ''{'' then None
          else if (case skip_ws cs of [] \<Rightarrow> False | d # ds \<Rightarrow> d = CHR ''}'' \<and> skip_ws ds = []) then Some []
          else (case json_members (length s) cs of
              None \<Rightarrow> None
            | Some (ms, r) \<Rightarrow> if skip_ws r = [] then Some ms else None))"


section \<open>The round trip\<close>

lemma json_str_plain:
  "c \<noteq> CHR 0x22 \<Longrightarrow> c \<noteq> CHR 0x5C \<Longrightarrow> \<not> byte c < 32 \<Longrightarrow>
     json_str (c # s) = map_option (\<lambda>(t, r). (c # t, r)) (json_str s)"
  by (subst json_str.simps) simp

lemma json_str_simple:
  "e \<noteq> CHR ''u'' \<Longrightarrow> simple_escape e = Some c \<Longrightarrow>
     json_str (CHR 0x5C # e # s) = map_option (\<lambda>(t, r). (c # t, r)) (json_str s)"
  by (subst json_str.simps) simp

lemma json_str_unicode:
  "unicode_escape (u @ s) = Some (c, s) \<Longrightarrow> u \<noteq> [] \<Longrightarrow>
     json_str (CHR 0x5C # CHR ''u'' # u @ s) = map_option (\<lambda>(t, r). (c # t, r)) (json_str s)"
  by (subst json_str.simps) simp

lemma unicode_escape_byte:
  "byte c < 128 \<Longrightarrow> unicode_escape ([CHR ''0'', CHR ''0''] @ hex_byte hex_digit c @ s) = Some (c, s)"
  by (simp add: hex_byte_def byte_div_less hex_val_def [of "CHR ''0''"] byte_split Let_def)

lemma json_str_escape:
  "json_str (json_escape c @ s) = map_option (\<lambda>(t, r). (c # t, r)) (json_str s)"
proof (cases "c \<in> {CHR 0x22, CHR 0x5C, CHR 0x08, CHR 0x0C, CHR 0x0A, CHR 0x0D, CHR 0x09}")
  case True
  then show ?thesis
    by (auto simp: json_escape_def json_str_simple simple_escape_def)
next
  case False
  show ?thesis
  proof (cases "byte c < 32 \<or> c = CHR ''<'' \<or> c = CHR ''>'' \<or> c = CHR ''&''")
    case True
    then have "byte c < 128" by auto
    then have "unicode_escape (([CHR ''0'', CHR ''0''] @ hex_byte hex_digit c) @ s) = Some (c, s)"
      using unicode_escape_byte by simp
    from json_str_unicode [OF this] False True show ?thesis
      by (simp add: json_escape_def)
  next
    case plain: False
    with False show ?thesis by (simp add: json_escape_def json_str_plain)
  qed
qed

lemma json_str_end: "json_str (CHR 0x22 # s) = Some ([], s)"
  by (subst json_str.simps) simp

lemma json_str_quote: "json_str (concat (map json_escape t) @ CHR 0x22 # s) = Some (t, s)"
  by (induction t) (simp_all add: json_str_end json_str_escape)

text \<open>Decimal numbers.\<close>

lemma digit_val_char [simp]: "d < 10 \<Longrightarrow> digit_val (digit_char d) = Some d"
  by (simp add: digit_val_def digit_char_def Let_def)

lemma is_digit_char [simp]: "d < 10 \<Longrightarrow> is_digit (digit_char d)"
  by (simp add: is_digit_def in_range_def digit_char_def)

lemma digits_val_append:
  "digits_val acc (s @ t) = (case digits_val acc s of None \<Rightarrow> None | Some n \<Rightarrow> digits_val n t)"
  by (induction s arbitrary: acc) (auto split: option.splits)

lemma digits_val_nat_digits: "digits_val 0 (nat_digits n) = Some n"
proof (induction n rule: nat_digits.induct)
  case (1 n)
  show ?case
  proof (cases "n < 10")
    case True
    then show ?thesis by (simp add: nat_digits.simps [of n])
  next
    case False
    with 1 show ?thesis by (simp add: nat_digits.simps [of n] digits_val_append)
  qed
qed

lemma nat_digits_digits: "c \<in> set (nat_digits n) \<Longrightarrow> is_digit c"
proof (induction n rule: nat_digits.induct)
  case (1 n)
  then show ?case
    by (cases "n < 10") (auto simp: nat_digits.simps [of n])
qed

lemma nat_digits_not_Nil [simp]: "nat_digits n \<noteq> []"
  by (simp add: nat_digits.simps [of n])

lemma nat_digits_hd: "length (nat_digits n) > 1 \<Longrightarrow> hd (nat_digits n) \<noteq> CHR ''0''"
proof (induction n rule: nat_digits.induct)
  case (1 n)
  then have n: "\<not> n < 10" by (auto simp: nat_digits.simps [of n] split: if_splits)
  then have split: "nat_digits n = nat_digits (n div 10) @ [digit_char (n mod 10)]"
    by (simp add: nat_digits.simps [of n])
  show ?case
  proof (cases "n div 10 < 10")
    case True
    moreover have "n div 10 \<noteq> 0" using n by simp
    ultimately show ?thesis
      by (auto simp: split nat_digits.simps [of "n div 10"] digit_char_def
          simp flip: of_char_eq_iff [where 'a = nat])
  next
    case False
    then have "length (nat_digits (n div 10)) > 1"
      by (simp add: nat_digits.simps [of "n div 10"])
    with 1 n split show ?thesis by simp
  qed
qed

lemma digits_prefix_append:
  "s = [] \<or> \<not> is_digit (hd s) \<Longrightarrow> digits_prefix (nat_digits n @ s) = nat_digits n"
  unfolding digits_prefix_def
  by (cases s) (auto simp: takeWhile_append2 nat_digits_digits)

lemma json_int_itoa:
  assumes "in_int64 i" and "s = [] \<or> \<not> is_digit (hd s)"
  shows "json_int (itoa i @ s) = Some (i, s)"
proof -
  have minus: "hd (nat_digits n) \<noteq> CHR ''-''" for n
    using nat_digits_digits [of "hd (nat_digits n)" n] by (auto simp: is_digit_def in_range_def)
  have cons: "\<exists>c cs. nat_digits n = c # cs \<and> c \<noteq> CHR ''-''" for n
    using minus [of n] nat_digits_not_Nil [of n] by (cases "nat_digits n") auto
  show ?thesis
  proof (cases "i < 0")
    case True
    with assms nat_digits_hd [of "nat (- i)"] show ?thesis
      by (auto simp: json_int_def itoa_def digits_prefix_append digits_val_nat_digits Let_def)
  next
    case False
    obtain c cs where c: "nat_digits (nat i) = c # cs" "c \<noteq> CHR ''-''" using cons by blast
    have "json_int (c # cs @ s) = Some (i, s)"
      using assms nat_digits_hd [of "nat i"] digits_prefix_append [OF assms(2), of "nat i"]
        digits_val_nat_digits [of "nat i"] c False
      by (auto simp: json_int_def Let_def)
    with c False show ?thesis by (simp add: itoa_def)
  qed
qed

text \<open>Values, members, objects.\<close>

fun jval_ok :: "jval \<Rightarrow> bool" where
  "jval_ok (JStr s) \<longleftrightarrow> True"
| "jval_ok (JInt i) \<longleftrightarrow> in_int64 i"

lemma skip_ws_Cons [simp]: "\<not> json_space c \<Longrightarrow> skip_ws (c # s) = c # s"
  by (simp add: skip_ws_def)

lemma json_space_simps [simp]:
  "\<not> json_space (CHR 0x22)" "\<not> json_space CHR '':''" "\<not> json_space CHR '',''"
  "\<not> json_space CHR ''{''" "\<not> json_space CHR ''}''" "\<not> json_space CHR ''-''"
  by (simp_all add: json_space_def)

lemma digit_not_space: "is_digit c \<Longrightarrow> \<not> json_space c \<and> c \<noteq> CHR 0x22"
  by (auto simp: json_space_def is_digit_def in_range_def)

lemma itoa_head: "\<exists>c cs. itoa i = c # cs \<and> \<not> json_space c \<and> c \<noteq> CHR 0x22"
proof -
  have "\<exists>c cs. nat_digits n = c # cs \<and> \<not> json_space c \<and> c \<noteq> CHR 0x22" for n
    using nat_digits_digits [of "hd (nat_digits n)" n] digit_not_space nat_digits_not_Nil [of n]
    by (cases "nat_digits n") auto
  then show ?thesis by (simp add: itoa_def)
qed

lemma skip_ws_val: "skip_ws (json_val v @ s) = json_val v @ s"
proof (cases v)
  case (JStr t)
  then show ?thesis by (simp add: json_quote_def)
next
  case (JInt i)
  then show ?thesis using itoa_head [of i] by auto
qed

lemma json_value_val:
  assumes "jval_ok v" "s = [] \<or> \<not> is_digit (hd s)"
  shows "json_value (json_val v @ s) = Some (v, s)"
proof (cases v)
  case (JStr t)
  then show ?thesis by (simp add: json_quote_def json_str_quote)
next
  case (JInt i)
  with assms json_int_itoa [of i s] itoa_head [of i] show ?thesis by auto
qed

lemma json_one_member:
  assumes "jval_ok (snd m)" "s = [] \<or> \<not> is_digit (hd s)"
  shows "json_one (json_member m @ s) = Some (m, s)"
proof -
  have "json_str (concat (map json_escape (fst m)) @ CHR 0x22 # CHR '':'' # json_val (snd m) @ s) =
      Some (fst m, CHR '':'' # json_val (snd m) @ s)"
    by (rule json_str_quote)
  then show ?thesis
    by (simp add: json_one_def json_member_def json_quote_def skip_ws_val json_value_val [OF assms])
qed

lemma delim_not_digit [simp]: "\<not> is_digit CHR '',''" "\<not> is_digit CHR ''}''"
  by (simp_all add: is_digit_def in_range_def)

lemma json_members_join:
  "ms \<noteq> [] \<Longrightarrow> length ms \<le> n \<Longrightarrow> list_all (\<lambda>m. jval_ok (snd m)) ms \<Longrightarrow>
     json_members n (join '','' (map json_member ms) @ ''}'') = Some (ms, [])"
proof (induction ms arbitrary: n)
  case Nil
  then show ?case by simp
next
  case (Cons m ms)
  then obtain n' where n: "n = Suc n'" by (cases n) auto
  show ?case
  proof (cases ms)
    case Nil
    with Cons.prems n show ?thesis by (simp add: json_one_member)
  next
    case (Cons m' ms')
    then have "json_members n' (join '','' (map json_member ms) @ ''}'') = Some (ms, [])"
      using Cons.IH [of n'] Cons.prems n by simp
    with Cons Cons.prems n show ?thesis by (simp add: json_one_member)
  qed
qed

lemma join_length: "ms \<noteq> [] \<Longrightarrow> length ms \<le> length (join '','' (map json_member ms) @ ''}'')"
proof (induction ms)
  case Nil
  then show ?case by simp
next
  case (Cons m ms)
  then show ?case by (cases ms) auto
qed

lemma join_head: "ms \<noteq> [] \<Longrightarrow> \<exists>r. join '','' (map json_member ms) = CHR 0x22 # r"
proof (cases ms)
  case (Cons m ms')
  then show ?thesis by (cases ms') (auto simp: json_member_def json_quote_def)
qed simp

theorem json_roundtrip:
  assumes "list_all (\<lambda>m. jval_ok (snd m)) ms"
  shows "json_parse (json_print ms) = Some ms"
proof (cases "ms = []")
  case True
  then show ?thesis by (simp add: json_parse_def json_print_def skip_ws_def)
next
  case False
  then obtain r where r: "join '','' (map json_member ms) = CHR 0x22 # r" using join_head by blast
  have "length ms \<le> length (json_print ms)"
    using join_length [OF False] by (simp add: json_print_def)
  then have "json_members (length (json_print ms)) (join '','' (map json_member ms) @ ''}'') = Some (ms, [])"
    using False assms by (intro json_members_join)
  then show ?thesis
    using r by (simp add: json_parse_def json_print_def) (simp add: skip_ws_def)
qed


section \<open>Structure fields\<close>

text \<open>
  Field matching of \<open>Unmarshal\<close>: the members that name a field, the last of them counts, and a
  member of the wrong type is an error.
\<close>

definition field_members :: "string \<Rightarrow> json \<Rightarrow> jval list" where
  "field_members name ms = map snd (filter (\<lambda>m. equal_fold (fst m) name) ms)"

definition str_field :: "string \<Rightarrow> json \<Rightarrow> string option" where
  "str_field name ms =
     (let vs = field_members name ms
      in if list_ex (\<lambda>v. case v of JStr s \<Rightarrow> False | JInt i \<Rightarrow> True) vs then None
         else Some (case vs of [] \<Rightarrow> [] | _ \<Rightarrow> (case last vs of JStr s \<Rightarrow> s | JInt i \<Rightarrow> [])))"

definition int_field :: "string \<Rightarrow> json \<Rightarrow> int option" where
  "int_field name ms =
     (let vs = field_members name ms
      in if list_ex (\<lambda>v. case v of JStr s \<Rightarrow> True | JInt i \<Rightarrow> False) vs then None
         else Some (case vs of [] \<Rightarrow> 0 | _ \<Rightarrow> (case last vs of JStr s \<Rightarrow> 0 | JInt i \<Rightarrow> i)))"

text \<open>A string field that is left out when empty.\<close>

definition omit_str :: "string \<Rightarrow> string \<Rightarrow> json" where
  "omit_str name s = (if s = [] then [] else [(name, JStr s)])"

end
