(* ===== verification/Session.thy ===== *)
theory Session
  imports Json
begin

text \<open>
  \<open>portal/session.go\<close>: the two signed cookies, \<open>kz_wifi_sess\<close> for a visitor's sign-in and
  \<open>kz_admin_sess\<close> for an administrator.  The keyed hash (HMAC-SHA256) is the parameter \<open>hmac\<close>,
  the bytes of the random source are the values \<open>rnd i\<close>, one per call of \<open>randomHex\<close>.
\<close>

section \<open>Sessions\<close>

definition sessionCookieName :: string where "sessionCookieName = ''kz_wifi_sess''"
definition adminCookieName :: string where "adminCookieName = ''kz_admin_sess''"
definition sessionTTL :: duration where "sessionTTL = 15 * minute"
definition adminSessionTTL :: duration where "adminSessionTTL = hour"

record Session =
  s_UserIP :: string
  s_MAC :: string
  s_State :: string
  s_Nonce :: string
  s_Exp :: int
  s_Lang :: string
  s_Email :: string
  s_Purpose :: string

record AdminSession =
  a_UPN :: string
  a_Exp :: int

text \<open>\<open>None\<close> when the random source fails.\<close>

definition randomHex :: "string option \<Rightarrow> string option" where
  "randomHex bytes = map_option hex_encode bytes"

definition newSession ::
  "(nat \<Rightarrow> string option) \<Rightarrow> time \<Rightarrow> string \<Rightarrow> string \<Rightarrow> string \<Rightarrow> Session option" where
  "newSession rnd now userIP mac lang =
     (case randomHex (rnd 0) of
        None \<Rightarrow> None
      | Some state \<Rightarrow>
          (case randomHex (rnd 1) of
             None \<Rightarrow> None
           | Some nonce \<Rightarrow> Some
               \<lparr>s_UserIP = userIP, s_MAC = mac, s_State = state, s_Nonce = nonce,
                s_Exp = unix (now + sessionTTL), s_Lang = lang, s_Email = [], s_Purpose = ''wifi''\<rparr>))"

definition newAdminPreloginSession ::
  "(nat \<Rightarrow> string option) \<Rightarrow> time \<Rightarrow> string \<Rightarrow> Session option" where
  "newAdminPreloginSession rnd now lang =
     (case randomHex (rnd 0) of
        None \<Rightarrow> None
      | Some state \<Rightarrow>
          (case randomHex (rnd 1) of
             None \<Rightarrow> None
           | Some nonce \<Rightarrow> Some
               \<lparr>s_UserIP = [], s_MAC = [], s_State = state, s_Nonce = nonce,
                s_Exp = unix (now + sessionTTL), s_Lang = lang, s_Email = [], s_Purpose = ''admin''\<rparr>))"


section \<open>Marshalling\<close>

definition session_json :: "Session \<Rightarrow> json" where
  "session_json s =
     omit_str ''user_ip'' (s_UserIP s) @ omit_str ''mac'' (s_MAC s) @
     [(''state'', JStr (s_State s)), (''nonce'', JStr (s_Nonce s)), (''exp'', JInt (s_Exp s))] @
     omit_str ''lang'' (s_Lang s) @ omit_str ''email'' (s_Email s) @ omit_str ''purpose'' (s_Purpose s)"

definition json_session :: "json \<Rightarrow> Session option" where
  "json_session ms =
     (case (str_field ''user_ip'' ms, str_field ''mac'' ms, str_field ''state'' ms,
            str_field ''nonce'' ms, int_field ''exp'' ms, str_field ''lang'' ms,
            str_field ''email'' ms, str_field ''purpose'' ms) of
        (Some ip, Some mac, Some st, Some nonce, Some e, Some lang, Some email, Some purpose) \<Rightarrow>
          Some \<lparr>s_UserIP = ip, s_MAC = mac, s_State = st, s_Nonce = nonce, s_Exp = e,
                s_Lang = lang, s_Email = email, s_Purpose = purpose\<rparr>
      | _ \<Rightarrow> None)"

definition admin_json :: "AdminSession \<Rightarrow> json" where
  "admin_json s = [(''upn'', JStr (a_UPN s)), (''exp'', JInt (a_Exp s))]"

definition json_admin :: "json \<Rightarrow> AdminSession option" where
  "json_admin ms =
     (case (str_field ''upn'' ms, int_field ''exp'' ms) of
        (Some upn, Some e) \<Rightarrow> Some \<lparr>a_UPN = upn, a_Exp = e\<rparr>
      | _ \<Rightarrow> None)"


section \<open>Cookies\<close>

datatype sameSite = SameSiteLax | SameSiteStrict

record cookie =
  ck_name :: string
  ck_value :: string
  ck_path :: string
  ck_httponly :: bool
  ck_secure :: bool
  ck_samesite :: sameSite
  ck_maxage :: int

definition sign :: "(string \<Rightarrow> string \<Rightarrow> string) \<Rightarrow> string \<Rightarrow> string \<Rightarrow> string" where
  "sign hmac secret data = hex_encode (hmac secret data)"

definition signed_value :: "(string \<Rightarrow> string \<Rightarrow> string) \<Rightarrow> string \<Rightarrow> json \<Rightarrow> string" where
  "signed_value hmac secret ms =
     (let payload = b64_encode (json_print ms)
      in payload @ CHR ''.'' # sign hmac secret payload)"

definition sessionCookie :: "(string \<Rightarrow> string \<Rightarrow> string) \<Rightarrow> string \<Rightarrow> Session \<Rightarrow> bool \<Rightarrow> cookie" where
  "sessionCookie hmac secret s secure =
     \<lparr>ck_name = sessionCookieName, ck_value = signed_value hmac secret (session_json s),
      ck_path = ''/'', ck_httponly = True, ck_secure = secure, ck_samesite = SameSiteLax,
      ck_maxage = sessionTTL div second\<rparr>"

definition clearedSessionCookie :: "bool \<Rightarrow> cookie" where
  "clearedSessionCookie secure =
     \<lparr>ck_name = sessionCookieName, ck_value = [], ck_path = ''/'', ck_httponly = True,
      ck_secure = secure, ck_samesite = SameSiteLax, ck_maxage = -1\<rparr>"

definition adminCookie :: "(string \<Rightarrow> string \<Rightarrow> string) \<Rightarrow> string \<Rightarrow> AdminSession \<Rightarrow> bool \<Rightarrow> cookie" where
  "adminCookie hmac secret s secure =
     \<lparr>ck_name = adminCookieName, ck_value = signed_value hmac secret (admin_json s),
      ck_path = ''/'', ck_httponly = True, ck_secure = secure, ck_samesite = SameSiteStrict,
      ck_maxage = adminSessionTTL div second\<rparr>"

definition clearedAdminCookie :: "bool \<Rightarrow> cookie" where
  "clearedAdminCookie secure =
     \<lparr>ck_name = adminCookieName, ck_value = [], ck_path = ''/'', ck_httponly = True,
      ck_secure = secure, ck_samesite = SameSiteStrict, ck_maxage = -1\<rparr>"

text \<open>The checks both readers make: two parts, the signature, the encoding, the object.\<close>

definition open_value :: "(string \<Rightarrow> string \<Rightarrow> string) \<Rightarrow> string \<Rightarrow> string \<Rightarrow> string + json" where
  "open_value hmac secret value =
     (case split_on CHR ''.'' value of
        [payload, sig] \<Rightarrow>
          if sign hmac secret payload \<noteq> sig then Inl ''bad signature''
          else (case b64_decode payload of
              None \<Rightarrow> Inl ''bad payload''
            | Some body \<Rightarrow> (case json_parse body of None \<Rightarrow> Inl ''bad json'' | Some ms \<Rightarrow> Inr ms))
      | _ \<Rightarrow> Inl ''malformed'')"

definition readSessionCookie ::
  "(string \<Rightarrow> string \<Rightarrow> string) \<Rightarrow> string \<Rightarrow> time \<Rightarrow> (string \<times> string) list \<Rightarrow> string + Session" where
  "readSessionCookie hmac secret now cookies =
     (case map_of cookies sessionCookieName of
        None \<Rightarrow> Inl ''no session cookie''
      | Some value \<Rightarrow>
          (case open_value hmac secret value of
             Inl err \<Rightarrow> Inl (if err = ''malformed'' then ''malformed session'' else err)
           | Inr ms \<Rightarrow>
               (case json_session ms of
                  None \<Rightarrow> Inl ''bad json''
                | Some s \<Rightarrow> if unix now > s_Exp s then Inl ''expired'' else Inr s)))"

definition readAdminCookie ::
  "(string \<Rightarrow> string \<Rightarrow> string) \<Rightarrow> string \<Rightarrow> time \<Rightarrow> (string \<times> string) list \<Rightarrow> string + AdminSession" where
  "readAdminCookie hmac secret now cookies =
     (case map_of cookies adminCookieName of
        None \<Rightarrow> Inl ''no admin cookie''
      | Some value \<Rightarrow>
          (case open_value hmac secret value of
             Inl err \<Rightarrow> Inl err
           | Inr ms \<Rightarrow>
               (case json_admin ms of
                  None \<Rightarrow> Inl ''bad json''
                | Some s \<Rightarrow> if unix now > a_Exp s then Inl ''expired'' else Inr s)))"


subsection \<open>Round trips\<close>

lemma hex_no_dot: "CHR ''.'' \<notin> set (hex_encode s)"
  using hex_encode_chars [of "CHR ''.''" s] by (auto simp: is_digit_def in_range_def)

lemma open_signed:
  assumes "list_all (\<lambda>m. jval_ok (snd m)) ms"
  shows "open_value hmac secret (signed_value hmac secret ms) = Inr ms"
proof -
  let ?p = "b64_encode (json_print ms)"
  have "split_on CHR ''.'' (?p @ CHR ''.'' # sign hmac secret ?p) = [?p, sign hmac secret ?p]"
    by (simp add: split_on_append b64_no_dot split_on_no_sep sign_def hex_no_dot)
  then show ?thesis
    by (simp add: open_value_def signed_value_def Let_def b64_roundtrip json_roundtrip [OF assms])
qed

lemmas field_defs = str_field_def int_field_def field_members_def omit_str_def equal_fold_def

lemma session_json_ok: "in_int64 (s_Exp s) \<Longrightarrow> list_all (\<lambda>m. jval_ok (snd m)) (session_json s)"
  by (simp add: session_json_def omit_str_def)

lemma admin_json_ok: "in_int64 (a_Exp s) \<Longrightarrow> list_all (\<lambda>m. jval_ok (snd m)) (admin_json s)"
  by (simp add: admin_json_def)

definition field_names :: "string list" where
  "field_names = [''user_ip'', ''mac'', ''state'', ''nonce'', ''exp'', ''lang'', ''email'', ''purpose'', ''upn'']"

lemma fold_names: "list_all (\<lambda>a. list_all (\<lambda>b. equal_fold a b = (a = b)) field_names) field_names"
  by code_simp

lemma equal_fold_names:
  "a \<in> set field_names \<Longrightarrow> b \<in> set field_names \<Longrightarrow> equal_fold a b = (a = b)"
  using fold_names by (auto simp: list_all_iff)

lemma field_members_Nil [simp]: "field_members n [] = []"
  by (simp add: field_members_def)

lemma field_members_append [simp]: "field_members n (a @ b) = field_members n a @ field_members n b"
  by (simp add: field_members_def)

lemma field_members_Cons:
  "a \<in> set field_names \<Longrightarrow> n \<in> set field_names \<Longrightarrow>
     field_members n ((a, v) # ms) = (if a = n then v # field_members n ms else field_members n ms)"
  by (simp add: field_members_def equal_fold_names)

lemma field_members_omit:
  "a \<in> set field_names \<Longrightarrow> n \<in> set field_names \<Longrightarrow>
     field_members n (omit_str a s) = (if a = n \<and> s \<noteq> [] then [JStr s] else [])"
  by (simp add: omit_str_def field_members_Cons)

lemma names [simp]:
  "''user_ip'' \<in> set field_names" "''mac'' \<in> set field_names" "''state'' \<in> set field_names"
  "''nonce'' \<in> set field_names" "''exp'' \<in> set field_names" "''lang'' \<in> set field_names"
  "''email'' \<in> set field_names" "''purpose'' \<in> set field_names" "''upn'' \<in> set field_names"
  by (simp_all add: field_names_def)

lemma session_fields:
  "field_members ''user_ip'' (session_json s) = (if s_UserIP s = [] then [] else [JStr (s_UserIP s)])"
  "field_members ''mac'' (session_json s) = (if s_MAC s = [] then [] else [JStr (s_MAC s)])"
  "field_members ''state'' (session_json s) = [JStr (s_State s)]"
  "field_members ''nonce'' (session_json s) = [JStr (s_Nonce s)]"
  "field_members ''exp'' (session_json s) = [JInt (s_Exp s)]"
  "field_members ''lang'' (session_json s) = (if s_Lang s = [] then [] else [JStr (s_Lang s)])"
  "field_members ''email'' (session_json s) = (if s_Email s = [] then [] else [JStr (s_Email s)])"
  "field_members ''purpose'' (session_json s) = (if s_Purpose s = [] then [] else [JStr (s_Purpose s)])"
  "field_members ''upn'' (session_json s) = []"
  by (simp_all add: session_json_def field_members_Cons field_members_omit)

lemma json_session_roundtrip: "json_session (session_json s) = Some s"
  by (simp add: json_session_def str_field_def int_field_def session_fields Let_def)

lemma json_admin_roundtrip: "json_admin (admin_json s) = Some s"
  by (simp add: json_admin_def str_field_def int_field_def admin_json_def field_members_Cons Let_def)

text \<open>The object of a visitor's session has no \<open>upn\<close>, and reads as an administrator without a name.\<close>

lemma json_admin_session: "json_admin (session_json s) = Some \<lparr>a_UPN = [], a_Exp = s_Exp s\<rparr>"
  by (simp add: json_admin_def str_field_def int_field_def session_fields Let_def)

lemma read_session_cookie:
  assumes "in_int64 (s_Exp s)" "unix now \<le> s_Exp s"
    and "map_of cookies sessionCookieName = Some (ck_value (sessionCookie hmac secret s secure))"
  shows "readSessionCookie hmac secret now cookies = Inr s"
  using assms by (simp add: readSessionCookie_def sessionCookie_def open_signed session_json_ok
      json_session_roundtrip)

lemma read_admin_cookie:
  assumes "in_int64 (a_Exp s)" "unix now \<le> a_Exp s"
    and "map_of cookies adminCookieName = Some (ck_value (adminCookie hmac secret s secure))"
  shows "readAdminCookie hmac secret now cookies = Inr s"
  using assms by (simp add: readAdminCookie_def adminCookie_def open_signed admin_json_ok
      json_admin_roundtrip)

text \<open>A cookie that is accepted carries the signature of its payload, and has not expired.\<close>

lemma open_value_signed:
  assumes "open_value hmac secret value = Inr ms"
  shows "\<exists>payload. value = payload @ CHR ''.'' # sign hmac secret payload \<and>
    (\<exists>body. b64_decode payload = Some body \<and> json_parse body = Some ms)"
proof -
  have join: "split_on c v = [a, b] \<Longrightarrow> v = a @ c # b" for c v a b
  proof (induction v arbitrary: a)
    case Nil
    then show ?case by simp
  next
    case (Cons x xs)
    show ?case
    proof (cases "x = c")
      case True
      with Cons.prems have "a = []" "split_on c xs = [b]" by auto
      moreover have "split_on c ys = [b] \<Longrightarrow> ys = b" for ys b
        by (induction ys arbitrary: b) (auto split: if_splits list.splits)
      ultimately show ?thesis using True by simp
    next
      case False
      with Cons.prems obtain a' where "a = x # a'" "split_on c xs = [a', b]"
        by (auto split: list.splits)
      with Cons.IH [of a'] show ?thesis by simp
    qed
  qed
  from assms obtain payload sig where p: "split_on CHR ''.'' value = [payload, sig]"
    by (auto simp: open_value_def split: list.splits)
  with assms have "sign hmac secret payload = sig"
    "\<exists>body. b64_decode payload = Some body \<and> json_parse body = Some ms"
    by (auto simp: open_value_def split: if_splits option.splits)
  with join [OF p] show ?thesis by blast
qed

end
