(* ===== verification/Http.thy ===== *)
theory Http
  imports Session
begin

text \<open>
  Requests and replies as the handlers of \<open>portal/main.go\<close> see them, the client address of
  \<open>portal/ratelimit.go\<close>, the same-origin test of \<open>portal/main.go\<close>, and the language choice of
  \<open>portal/i18n.go\<close>.  \<open>net.ParseIP\<close> followed by \<open>String\<close> is the parameter \<open>parse_ip\<close>.
\<close>

section \<open>Requests and replies\<close>

record request =
  rq_method :: string
  rq_host :: string
  rq_tls :: bool
  rq_remote :: string
  rq_headers :: "(string \<times> string) list"
  rq_query :: "(string \<times> string) list"
  rq_form :: "(string \<times> string) list"
  rq_cookies :: "(string \<times> string) list"

text \<open>The first value of a name, or the empty string: \<open>Header.Get\<close> and \<open>Values.Get\<close>.\<close>

definition get_value :: "(string \<times> string) list \<Rightarrow> string \<Rightarrow> string" where
  "get_value kvs k = (case map_of kvs k of None \<Rightarrow> [] | Some v \<Rightarrow> v)"

abbreviation header :: "request \<Rightarrow> string \<Rightarrow> string" where "header r \<equiv> get_value (rq_headers r)"
abbreviation query :: "request \<Rightarrow> string \<Rightarrow> string" where "query r \<equiv> get_value (rq_query r)"

text \<open>\<open>FormValue\<close>: the body of the request first, then the query.\<close>

definition form_value :: "request \<Rightarrow> string \<Rightarrow> string" where
  "form_value r k = get_value (rq_form r @ rq_query r) k"

text \<open>
  A reply: JSON with a status, a redirect (302), a page with the key of its message, plain
  text, the rows of a CSV file, or the panic of a handler.
\<close>

datatype rval =
    RStr string
  | RInt int
  | RBool bool
  | RList "string list"
  | RObj "(string \<times> rval) list"
  | RArr "rval list"

datatype reply =
    ReplyJSON int "(string \<times> rval) list"
  | ReplyRedirect string
  | ReplyPage int string string
  | ReplyText int string
  | ReplyCSV "string list list"
  | ReplyPanic

definition reply_error :: "int \<Rightarrow> string \<Rightarrow> reply" where
  "reply_error status err = ReplyJSON status [(''error'', RStr err)]"


section \<open>The client address\<close>

definition last_index :: "char \<Rightarrow> string \<Rightarrow> nat option" where
  "last_index c s =
     (if c \<in> set s then Some (length s - Suc (length (takeWhile (\<lambda>x. x \<noteq> c) (rev s)))) else None)"

definition first_index :: "char \<Rightarrow> string \<Rightarrow> nat option" where
  "first_index c s = (if c \<in> set s then Some (length (takeWhile (\<lambda>x. x \<noteq> c) s)) else None)"

text \<open>The host of \<open>net.SplitHostPort\<close>, or \<open>None\<close> when it reports an error.\<close>

definition SplitHost :: "string \<Rightarrow> string option" where
  "SplitHost hp =
     (case last_index CHR '':'' hp of
        None \<Rightarrow> None
      | Some i \<Rightarrow>
          if hd hp = CHR ''['' then
            (case first_index CHR '']'' hp of
               None \<Rightarrow> None
             | Some e \<Rightarrow>
                 if Suc e \<noteq> i then None
                 else if CHR ''['' \<in> set (tl hp) \<or> CHR '']'' \<in> set (drop (Suc e) hp) then None
                 else Some (take (e - 1) (tl hp)))
          else (let host = take i hp
                in if CHR '':'' \<in> set host then None
                   else if CHR ''['' \<in> set hp \<or> CHR '']'' \<in> set hp then None
                   else Some host))"

definition validIP :: "(string \<Rightarrow> string option) \<Rightarrow> string \<Rightarrow> string" where
  "validIP parse_ip raw =
     (let s = trim_space raw
      in if s = [] then [] else (case parse_ip s of None \<Rightarrow> [] | Some ip \<Rightarrow> ip))"

text \<open>The scan of \<open>X-Forwarded-For\<close> from the right.\<close>

fun first_valid :: "(string \<Rightarrow> string option) \<Rightarrow> string list \<Rightarrow> string option" where
  "first_valid parse_ip [] = None"
| "first_valid parse_ip (p # ps) =
     (if validIP parse_ip p \<noteq> [] then Some (validIP parse_ip p) else first_valid parse_ip ps)"

definition remote_host :: "request \<Rightarrow> string" where
  "remote_host r = (case SplitHost (rq_remote r) of None \<Rightarrow> rq_remote r | Some h \<Rightarrow> h)"

definition clientIP :: "(string \<Rightarrow> string option) \<Rightarrow> bool \<Rightarrow> request \<Rightarrow> string" where
  "clientIP parse_ip trustProxyHeaders r =
     (if trustProxyHeaders then
        (let xri = validIP parse_ip (header r ''X-Real-Ip'')
         in if xri \<noteq> [] then xri
            else (let xff = header r ''X-Forwarded-For''
                  in if xff \<noteq> []
                     then (case first_valid parse_ip (rev (split_on CHR '','' xff)) of
                             Some ip \<Rightarrow> ip | None \<Rightarrow> remote_host r)
                     else remote_host r))
      else remote_host r)"

text \<open>Headers decide nothing when the proxy is not trusted.\<close>

lemma clientIP_untrusted: "clientIP parse_ip False r = remote_host r"
  by (simp add: clientIP_def)

lemma first_valid_append:
  "first_valid p (xs @ ys) = (case first_valid p xs of Some ip \<Rightarrow> Some ip | None \<Rightarrow> first_valid p ys)"
  by (induction xs) auto


section \<open>Same origin\<close>

definition trim_right_slash :: "string \<Rightarrow> string" where
  "trim_right_slash s = trim_right (\<lambda>c. c = CHR ''/'') s"

definition requestOrigin :: "bool \<Rightarrow> request \<Rightarrow> string" where
  "requestOrigin trustProxy r =
     (let scheme = (if rq_tls r then ''https'' else ''http'');
          p = header r ''X-Forwarded-Proto'';
          scheme = (if trustProxy \<and> p \<noteq> [] then to_lower (trim_space (hd (split_on CHR '','' p)))
                    else scheme)
      in scheme @ ''://'' @ rq_host r)"

text \<open>\<open>parse_url\<close> gives scheme and host of a URL, or \<open>None\<close> when \<open>url.Parse\<close> fails.\<close>

definition isSameOriginRequest ::
  "(string \<Rightarrow> (string \<times> string) option) \<Rightarrow> Config \<Rightarrow> request \<Rightarrow> bool" where
  "isSameOriginRequest parse_url cfg r =
     (let expected = trim_right_slash (PublicURL cfg);
          self = requestOrigin (TrustProxy cfg) r;
          origin = header r ''Origin'';
          referer = header r ''Referer''
      in if origin \<noteq> [] then trim_right_slash origin = expected \<or> trim_right_slash origin = self
         else if referer \<noteq> [] then
           (case parse_url referer of
              None \<Rightarrow> False
            | Some (scheme, host) \<Rightarrow>
                if scheme = [] \<or> host = [] then False
                else scheme @ ''://'' @ host = expected \<or> scheme @ ''://'' @ host = self)
         else False)"


section \<open>Languages\<close>

definition LangZHCN :: string where "LangZHCN = ''zh-cn''"
definition LangZHTW :: string where "LangZHTW = ''zh-tw''"
definition LangEN :: string where "LangEN = ''en''"

definition parseLang :: "string \<Rightarrow> string option" where
  "parseLang raw =
     (let s = to_lower (trim_space raw)
      in if has_prefix s ''zh-tw'' \<or> has_prefix s ''zh-hk'' \<or> has_prefix s ''zh-mo'' \<or>
            has_prefix s ''zh-hant'' then Some LangZHTW
         else if has_prefix s ''zh'' then Some LangZHCN
         else if has_prefix s ''en'' then Some LangEN
         else None)"

fun first_lang :: "string list \<Rightarrow> string option" where
  "first_lang [] = None"
| "first_lang (p # ps) =
     (case parseLang (trim_space (hd (split_on CHR '';'' p))) of Some l \<Rightarrow> Some l | None \<Rightarrow> first_lang ps)"

definition pickLang :: "request \<Rightarrow> string" where
  "pickLang r =
     (case (if query r ''lang'' \<noteq> [] then parseLang (query r ''lang'') else None) of
        Some l \<Rightarrow> l
      | None \<Rightarrow>
          (let al = header r ''Accept-Language''
           in case (if al \<noteq> [] then first_lang (split_on CHR '','' al) else None) of
                Some l \<Rightarrow> l
              | None \<Rightarrow> LangEN))"

definition supportedLangs :: "string list" where
  "supportedLangs = [LangZHCN, LangZHTW, LangEN]"

text \<open>\<open>T\<close> without arguments: the language, then English, then the key itself.\<close>

definition T :: "(string \<times> (string \<times> string) list) list \<Rightarrow> string \<Rightarrow> string \<Rightarrow> string" where
  "T translations lang key =
     (let table = (\<lambda>l. case map_of translations l of None \<Rightarrow> [] | Some m \<Rightarrow> m)
      in case map_of (table lang) key of
           Some s \<Rightarrow> s
         | None \<Rightarrow> (case map_of (table LangEN) key of Some s \<Rightarrow> s | None \<Rightarrow> key))"

text \<open>The check \<open>loadTranslations\<close> makes at start-up: no language misses a key of English.\<close>

definition translations_complete :: "(string \<times> (string \<times> string) list) list \<Rightarrow> bool" where
  "translations_complete translations \<longleftrightarrow>
     (case map_of translations LangEN of
        None \<Rightarrow> False
      | Some base \<Rightarrow> list_all (\<lambda>l. l = LangEN \<or> list_all (\<lambda>e. map_of
            (case map_of translations l of None \<Rightarrow> [] | Some m \<Rightarrow> m) (fst e) \<noteq> None) base) supportedLangs)"

lemma LangEN_supported [simp]: "LangEN \<in> set supportedLangs"
  by (simp add: supportedLangs_def)

lemma parseLang_supported: "parseLang s = Some l \<Longrightarrow> l \<in> set supportedLangs"
  by (auto simp: parseLang_def Let_def supportedLangs_def split: if_splits)

lemma first_lang_supported: "first_lang ps = Some l \<Longrightarrow> l \<in> set supportedLangs"
  by (induction ps) (auto split: option.splits dest: parseLang_supported)

lemma pickLang_supported: "pickLang r \<in> set supportedLangs"
  by (auto simp: pickLang_def Let_def split: option.splits if_splits
      dest: parseLang_supported first_lang_supported)

text \<open>
  The whole load: \<open>read_file\<close> gives an embedded file and \<open>parse\<close> its JSON object, \<open>None\<close> when it is not one;
  \<open>None\<close> is the fatal exit.
\<close>

definition loadTranslations ::
  "(string \<Rightarrow> string option) \<Rightarrow> (string \<Rightarrow> (string \<times> string) list option) \<Rightarrow> (string \<times> (string \<times> string) list) list option" where
  "loadTranslations read_file parse =
     (case those (map (\<lambda>l. map_option (\<lambda>m. (l, m)) (Option.bind (read_file (''i18n/'' @ l @ ''.json'')) parse)) supportedLangs) of
        None \<Rightarrow> None
      | Some tr \<Rightarrow> if translations_complete tr then Some tr else None)"

text \<open>After it, no key of the English texts is missing in any language, so no page shows a raw key of them.\<close>

lemma those_pairs:
  "those (map (\<lambda>l. map_option (\<lambda>m. (l, m)) (f l)) ls) = Some tr \<Longrightarrow> l \<in> set ls \<Longrightarrow> map_of tr l = f l"
  by (induction ls arbitrary: tr) (auto split: option.splits)

lemma loaded_text:
  assumes "loadTranslations read_file parse = Some tr" "lang \<in> set supportedLangs"
    and "map_of tr LangEN = Some english" "map_of english key \<noteq> None"
  shows "\<exists>table text. map_of tr lang = Some table \<and> map_of table key = Some text \<and> T tr lang key = text"
proof -
  have tr: "those (map (\<lambda>l. map_option (\<lambda>m. (l, m)) (Option.bind (read_file (''i18n/'' @ l @ ''.json'')) parse)) supportedLangs) = Some tr"
    "translations_complete tr"
    using assms(1) by (auto simp: loadTranslations_def split: option.splits if_splits)
  obtain text0 where "(key, text0) \<in> set english" using assms(4) by (auto dest: map_of_SomeD)
  then have "\<exists>text. map_of (case map_of tr lang of None \<Rightarrow> [] | Some m \<Rightarrow> m) key = Some text"
    using tr(2) assms(2-4) by (cases "lang = LangEN") (force simp: translations_complete_def list_all_iff)+
  then show ?thesis by (auto simp: T_def split: option.splits)
qed

end
