(* ===== verification/RateLimit.thy ===== *)
theory RateLimit
  imports CappedStore
begin

text \<open>
  \<open>portal/ratelimit.go\<close>: the failure counters of rules 1, 5 and 6 (\<open>failCounter\<close>) and the set
  of consumed OIDC states (\<open>usedStateSet\<close>).  Both live in one process behind a mutex; an
  operation is one critical section.  Each reading of the clock inside an operation is an
  argument of its own.
\<close>


section \<open>Failure counters\<close>

record failCounter =
  fc_entries :: "(string \<times> time list) list"
  fc_maxWindow :: duration

definition maxFailCounterEntries :: nat where "maxFailCounterEntries = 100000"

definition newFailCounter :: "duration \<Rightarrow> failCounter" where
  "newFailCounter w = \<lparr>fc_entries = [], fc_maxWindow = w\<rparr>"

text \<open>The window prune \<open>gcLoop\<close> and \<open>evictOldestLocked\<close> share.\<close>

definition prune_window :: "time \<Rightarrow> (string \<times> time list) list \<Rightarrow> (string \<times> time list) list" where
  "prune_window cutoff es =
     filter (\<lambda>e. snd e \<noteq> []) (map (\<lambda>e. (fst e, filter (\<lambda>x. after x cutoff) (snd e))) es)"

definition latest_of :: "time list \<Rightarrow> time" where
  "latest_of ts = fold (\<lambda>t latest. if after t latest then t else latest) ts zero_time"

definition evictOldestLocked :: "time \<Rightarrow> failCounter \<Rightarrow> failCounter" where
  "evictOldestLocked now c =
     c\<lparr>fc_entries := prune_then_evict latest_of maxFailCounterEntries (maxFailCounterEntries * 9 div 10)
         (\<lambda>now. prune_window (now - fc_maxWindow c)) now (fc_entries c)\<rparr>"

text \<open>\<open>now_evict\<close> is the reading in the eviction, \<open>now\<close> the recorded time stamp.\<close>

definition record_failure :: "time \<Rightarrow> time \<Rightarrow> string \<Rightarrow> failCounter \<Rightarrow> failCounter" where
  "record_failure now_evict now key c =
     (let c' = (if map_of (fc_entries c) key = None \<and> length (fc_entries c) \<ge> maxFailCounterEntries
                then evictOldestLocked now_evict c else c);
          ts = (case map_of (fc_entries c') key of None \<Rightarrow> [] | Some ts \<Rightarrow> ts)
      in c'\<lparr>fc_entries := AList.update key (ts @ [now]) (fc_entries c')\<rparr>)"

definition countIn :: "time \<Rightarrow> string \<Rightarrow> duration \<Rightarrow> failCounter \<Rightarrow> nat" where
  "countIn now key window c =
     (case map_of (fc_entries c) key of
        None \<Rightarrow> 0
      | Some ts \<Rightarrow> length (filter (\<lambda>t. after t (now - window)) ts))"

definition reset :: "string \<Rightarrow> failCounter \<Rightarrow> failCounter" where
  "reset key c = c\<lparr>fc_entries := AList.delete key (fc_entries c)\<rparr>"

definition resetAll :: "failCounter \<Rightarrow> nat \<times> failCounter" where
  "resetAll c = (length (fc_entries c), c\<lparr>fc_entries := []\<rparr>)"

text \<open>One tick of \<open>gcLoop\<close>.\<close>

definition fc_gc :: "time \<Rightarrow> failCounter \<Rightarrow> failCounter" where
  "fc_gc now c = c\<lparr>fc_entries := prune_window (now - fc_maxWindow c) (fc_entries c)\<rparr>"

record failSnapshot =
  fs_key :: string
  fs_count :: nat
  fs_latest :: int

text \<open>Count descending, key ascending.\<close>

definition fc_snapshot :: "time \<Rightarrow> failCounter \<Rightarrow> failSnapshot list" where
  "fc_snapshot now c =
     (let cutoff = now - fc_maxWindow c;
          live = (\<lambda>ts. filter (\<lambda>t. after t cutoff) ts);
          rows = map (\<lambda>e. \<lparr>fs_key = fst e, fs_count = length (live (snd e)),
                           fs_latest = unix (latest_of (live (snd e)))\<rparr>)
                   (filter (\<lambda>e. live (snd e) \<noteq> []) (fc_entries c))
      in sort_key (\<lambda>r. (- int (fs_count r), fs_key r)) rows)"


subsection \<open>Keys, sizes and counts\<close>

lemma prune_window_keys: "fst ` set (prune_window cutoff es) \<subseteq> fst ` set es"
  by (force simp: prune_window_def)

lemma prune_window_distinct:
  "distinct (map fst es) \<Longrightarrow> distinct (map fst (prune_window cutoff es))"
proof (induction es)
  case Nil
  then show ?case by (simp add: prune_window_def)
next
  case (Cons e es)
  then show ?case
    using prune_window_keys [of cutoff es] by (auto simp: prune_window_def)
qed

lemma map_of_prune_window:
  "distinct (map fst es) \<Longrightarrow> map_of (prune_window cutoff es) k =
     (case map_of es k of
        None \<Rightarrow> None
      | Some ts \<Rightarrow> (if filter (\<lambda>x. after x cutoff) ts = [] then None
                    else Some (filter (\<lambda>x. after x cutoff) ts)))"
proof (induction es)
  case Nil
  then show ?case by (simp add: prune_window_def)
next
  case (Cons e es)
  have key: "fst e \<notin> fst ` set es" using Cons.prems by simp
  then have "map_of es (fst e) = None" by (simp add: map_of_eq_None_iff)
  with Cons show ?case
    by (cases e) (auto simp: prune_window_def)
qed

lemma fc_room_capped:
  "capped_store (prune_then_evict latest_of maxFailCounterEntries (maxFailCounterEntries * 9 div 10)
     (\<lambda>now. prune_window (now - w))) maxFailCounterEntries"
  by (rule prune_then_evict_capped)
    (rule prune_window_keys, erule prune_window_distinct, simp add: maxFailCounterEntries_def)

interpretation fcs: capped_store
  "prune_then_evict latest_of maxFailCounterEntries (maxFailCounterEntries * 9 div 10)
     (\<lambda>now. prune_window (now - w))" maxFailCounterEntries for w
  by (rule fc_room_capped)

definition wf_fc :: "failCounter \<Rightarrow> bool" where
  "wf_fc c \<longleftrightarrow> distinct (map fst (fc_entries c)) \<and> length (fc_entries c) \<le> maxFailCounterEntries"

lemma wf_fc_fcs: "wf_fc c = fcs.wf (fc_entries c)"
  by (simp add: wf_fc_def fcs.wf_def)

lemma wf_newFailCounter [wf_intros]: "wf_fc (newFailCounter w)"
  by (simp add: wf_fc_def newFailCounter_def)

lemma wf_evictOldestLocked:
  "wf_fc c \<Longrightarrow> wf_fc (evictOldestLocked now c) \<and>
     length (fc_entries (evictOldestLocked now c)) < maxFailCounterEntries"
  using fcs.wf_room [of "fc_entries c" "fc_maxWindow c" now]
  by (simp add: wf_fc_fcs evictOldestLocked_def)

lemma wf_record_failure [wf_intros]:
  assumes "wf_fc c"
  shows "wf_fc (record_failure now_evict now key c)"
proof (cases "map_of (fc_entries c) key = None \<and> length (fc_entries c) \<ge> maxFailCounterEntries")
  case True
  then show ?thesis
    using wf_evictOldestLocked [OF assms, of now_evict]
    by (simp add: record_failure_def wf_fc_fcs fcs.wf_update Let_def)
next
  case False
  then have "key \<in> fst ` set (fc_entries c) \<or> length (fc_entries c) < maxFailCounterEntries"
    by (auto simp: map_of_eq_None_iff)
  moreover have "record_failure now_evict now key c =
      c\<lparr>fc_entries := AList.update key
          ((case map_of (fc_entries c) key of None \<Rightarrow> [] | Some ts \<Rightarrow> ts) @ [now]) (fc_entries c)\<rparr>"
    by (simp only: record_failure_def Let_def if_not_P [OF False])
  ultimately show ?thesis
    using assms by (simp add: wf_fc_fcs fcs.wf_update)
qed

lemma wf_reset [wf_intros]: "wf_fc c \<Longrightarrow> wf_fc (reset key c)"
  by (simp add: wf_fc_fcs reset_def fcs.wf_delete)

lemma wf_resetAll [wf_intros]: "wf_fc (snd (resetAll c))"
  by (simp add: wf_fc_def resetAll_def)

lemma wf_fc_gc [wf_intros]:
  assumes "wf_fc c"
  shows "wf_fc (fc_gc now c)"
proof -
  let ?p = "prune_window (now - fc_maxWindow c) (fc_entries c)"
  have "length ?p \<le> length (fc_entries c)"
    unfolding prune_window_def by (rule order_trans [OF length_filter_le]) simp
  then show ?thesis
    using assms prune_window_distinct [of "fc_entries c" "now - fc_maxWindow c"]
    by (simp add: wf_fc_def fc_gc_def)
qed

lemma filter_after_filter_after:
  "a \<le> b \<Longrightarrow> filter (\<lambda>t. after t b) (filter (\<lambda>t. after t a) ts) = filter (\<lambda>t. after t b) ts"
  by (auto simp: after_def intro!: filter_cong)

text \<open>Recording adds exactly one failure, and only to its key.\<close>

lemma countIn_record:
  assumes "map_of (fc_entries c) key \<noteq> None \<or> length (fc_entries c) < maxFailCounterEntries"
  shows "countIn t k w (record_failure now_evict now key c) =
     countIn t k w c + (if k = key \<and> after now (t - w) then 1 else 0)"
  using assms
  by (auto simp: countIn_def record_failure_def update_conv' Let_def split: option.splits)

text \<open>A full counter still counts the failure it makes room for.\<close>

lemma countIn_record_pos:
  "after now (t - w) \<Longrightarrow> 0 < countIn t key w (record_failure now_evict now key c)"
  by (auto simp: countIn_def record_failure_def update_conv' Let_def)

lemma countIn_reset:
  "countIn t k w (reset key c) = (if k = key then 0 else countIn t k w c)"
  by (auto simp: countIn_def reset_def delete_conv')

lemma countIn_resetAll: "countIn t k w (snd (resetAll c)) = 0"
  by (simp add: countIn_def resetAll_def)

text \<open>The sweep is invisible to every window that is not wider than the counter's own.\<close>

lemma countIn_gc:
  assumes "wf_fc c" and "w \<le> fc_maxWindow c" and "now \<le> t"
  shows "countIn t key w (fc_gc now c) = countIn t key w c"
proof -
  have cut: "now - fc_maxWindow c \<le> t - w" using assms(2,3) by linarith
  show ?thesis
  proof (cases "map_of (fc_entries c) key")
    case None
    with assms(1) show ?thesis
      by (simp add: countIn_def fc_gc_def map_of_prune_window wf_fc_def)
  next
    case (Some ts)
    let ?live = "filter (\<lambda>x. after x (now - fc_maxWindow c)) ts"
    have "filter (\<lambda>x. after x (t - w)) ts = filter (\<lambda>x. after x (t - w)) ?live"
      using filter_after_filter_after [OF cut, of ts] by simp
    with Some assms(1) show ?thesis
      by (simp add: countIn_def fc_gc_def map_of_prune_window wf_fc_def del: filter_filter)
  qed
qed

text \<open>With a wider window the sweep loses failures the rule should still see.\<close>

lemma countIn_gc_wider:
  "countIn 700 k 600 (fc_gc 700 \<lparr>fc_entries = [(k, [200])], fc_maxWindow = 300\<rparr>) = 0 \<and>
   countIn 700 k 600 \<lparr>fc_entries = [(k, [200])], fc_maxWindow = 300\<rparr> = 1"
  by (simp add: countIn_def fc_gc_def prune_window_def after_def)


section \<open>Consumed OIDC states\<close>

record usedStateSet =
  us_states :: "(string \<times> time) list"
  us_ttl :: duration

definition maxUsedStates :: nat where "maxUsedStates = 50000"

definition newUsedStateSet :: "duration \<Rightarrow> usedStateSet" where
  "newUsedStateSet ttl = \<lparr>us_states = [], us_ttl = ttl\<rparr>"

definition drop_expired :: "('v \<Rightarrow> time) \<Rightarrow> time \<Rightarrow> (string \<times> 'v) list \<Rightarrow> (string \<times> 'v) list" where
  "drop_expired expiry now es = filter (\<lambda>e. \<not> after now (expiry (snd e))) es"

definition us_make_room :: "time \<Rightarrow> (string \<times> time) list \<Rightarrow> (string \<times> time) list" where
  "us_make_room = prune_then_evict (\<lambda>exp. exp) maxUsedStates (maxUsedStates * 9 div 10)
     (drop_expired (\<lambda>exp. exp))"

definition markUsed :: "time \<Rightarrow> string \<Rightarrow> usedStateSet \<Rightarrow> bool \<times> usedStateSet" where
  "markUsed now state s =
     (if state = [] then (False, s)
      else if (case map_of (us_states s) state of None \<Rightarrow> False | Some exp \<Rightarrow> before now exp)
      then (False, s)
      else (let es = (if length (us_states s) \<ge> maxUsedStates
                      then us_make_room now (us_states s) else us_states s)
            in (True, s\<lparr>us_states := AList.update state (now + us_ttl s) es\<rparr>)))"

definition us_gc :: "time \<Rightarrow> usedStateSet \<Rightarrow> usedStateSet" where
  "us_gc now s = s\<lparr>us_states := drop_expired (\<lambda>exp. exp) now (us_states s)\<rparr>"

lemma drop_expired_capped:
  "target < cap \<Longrightarrow> capped_store (prune_then_evict expiry cap target (drop_expired expiry)) cap"
  by (rule prune_then_evict_capped)
    (auto simp: drop_expired_def distinct_map inj_on_def)

lemma map_of_drop_expired:
  "distinct (map fst es) \<Longrightarrow> map_of (drop_expired expiry now es) k =
     (case map_of es k of None \<Rightarrow> None | Some v \<Rightarrow> if after now (expiry v) then None else Some v)"
proof (induction es)
  case Nil
  then show ?case by (simp add: drop_expired_def)
next
  case (Cons e es)
  then have "map_of es (fst e) = None" by (simp add: map_of_eq_None_iff)
  with Cons show ?case by (cases e) (auto simp: drop_expired_def)
qed

interpretation uss: capped_store us_make_room maxUsedStates
  unfolding us_make_room_def by (rule drop_expired_capped) (simp add: maxUsedStates_def)

definition wf_us :: "usedStateSet \<Rightarrow> bool" where
  "wf_us s \<longleftrightarrow> distinct (map fst (us_states s)) \<and> length (us_states s) \<le> maxUsedStates"

lemma wf_us_uss: "wf_us s = uss.wf (us_states s)"
  by (simp add: wf_us_def uss.wf_def)

lemma wf_newUsedStateSet [wf_intros]: "wf_us (newUsedStateSet ttl)"
  by (simp add: wf_us_def newUsedStateSet_def)

lemma wf_markUsed [wf_intros]: "wf_us s \<Longrightarrow> wf_us (snd (markUsed now state s))"
  using uss.wf_put_always [of "us_states s" state "now + us_ttl s" now]
  by (auto simp: wf_us_uss markUsed_def Let_def not_le split: option.splits)

lemma wf_us_gc [wf_intros]: "wf_us s \<Longrightarrow> wf_us (us_gc now s)"
  by (simp add: wf_us_uss us_gc_def drop_expired_def uss.wf_filter)

text \<open>A state is accepted exactly when it is a non-empty one that is not already live.\<close>

lemma markUsed_accepts:
  "fst (markUsed now state s) \<longleftrightarrow>
     state \<noteq> [] \<and> (\<forall>exp. map_of (us_states s) state = Some exp \<longrightarrow> exp \<le> now)"
  by (auto simp: markUsed_def Let_def before_def split: option.splits)

lemma markUsed_stores:
  "fst (markUsed now state s) \<Longrightarrow>
     map_of (us_states (snd (markUsed now state s))) state = Some (now + us_ttl s)"
  by (auto simp: markUsed_def Let_def update_conv' split: if_splits)

lemma markUsed_ttl [simp]: "us_ttl (snd (markUsed now state s)) = us_ttl s"
  by (simp add: markUsed_def Let_def)

subsection \<open>Runs of the set\<close>

datatype us_op = Mark time string | Sweep time

fun us_time :: "us_op \<Rightarrow> time" where
  "us_time (Mark t _) = t"
| "us_time (Sweep t) = t"

fun us_step :: "us_op \<Rightarrow> usedStateSet \<Rightarrow> usedStateSet" where
  "us_step (Mark t st) s = snd (markUsed t st s)"
| "us_step (Sweep t) s = us_gc t s"

definition us_run :: "us_op list \<Rightarrow> usedStateSet \<Rightarrow> usedStateSet" where
  "us_run ops s = fold us_step ops s"

lemma us_step_length:
  "length (us_states s) < maxUsedStates \<Longrightarrow>
     length (us_states (us_step op s)) \<le> Suc (length (us_states s))"
  by (cases op)
    (auto simp: markUsed_def Let_def length_update us_gc_def drop_expired_def le_SucI)

lemma us_step_keeps:
  assumes "distinct (map fst (us_states s))" "length (us_states s) < maxUsedStates"
    and "map_of (us_states s) st = Some exp" "us_time op < exp"
  shows "map_of (us_states (us_step op s)) st = Some exp"
  using assms
  by (cases op)
    (auto simp: markUsed_def Let_def update_conv' us_gc_def map_of_drop_expired after_def before_def)

lemma us_step_wf: "wf_us s \<Longrightarrow> wf_us (us_step op s)"
  by (cases op) (simp_all add: wf_intros)

lemma us_run_keeps:
  assumes "wf_us s" and "length (us_states s) + length ops \<le> maxUsedStates"
    and "map_of (us_states s) st = Some exp" and "\<forall>op\<in>set ops. us_time op < exp"
  shows "map_of (us_states (us_run ops s)) st = Some exp"
  using assms
proof (induction ops arbitrary: s)
  case Nil
  then show ?case by (simp add: us_run_def)
next
  case (Cons op ops)
  have "map_of (us_states (us_step op s)) st = Some exp"
    using Cons.prems by (intro us_step_keeps) (auto simp: wf_us_def)
  moreover have "length (us_states (us_step op s)) + length ops \<le> maxUsedStates"
    using Cons.prems us_step_length [of s op] by simp
  ultimately have "map_of (us_states (us_run ops (us_step op s))) st = Some exp"
    using Cons.prems by (intro Cons.IH us_step_wf) auto
  then show ?case by (simp add: us_run_def)
qed

text \<open>When the set is full, a live state is dropped only for 45000 that expire no earlier.\<close>

lemma us_make_room_drops:
  assumes "distinct (map fst es)" and "x \<in> set es" "\<not> after now (snd x)"
    and "x \<notin> set (us_make_room now es)"
  shows "length (us_make_room now es) = 45000 \<and>
    (\<forall>y\<in>set (us_make_room now es). snd x \<le> snd y)"
proof -
  have d: "distinct (map fst (drop_expired (\<lambda>exp. exp) now es))"
    using assms(1) by (simp add: drop_expired_def distinct_map inj_on_def)
  have x: "x \<in> set (drop_expired (\<lambda>exp. exp) now es)"
    using assms(2,3) by (simp add: drop_expired_def)
  have t: "maxUsedStates * 9 div 10 < maxUsedStates" by (simp add: maxUsedStates_def)
  show ?thesis
    using prune_then_evict_kept [OF d x assms(4) [unfolded us_make_room_def] t]
    by (auto simp: us_make_room_def maxUsedStates_def)
qed

end
