(* ===== verification/Limiter.thy ===== *)
theory Limiter
  imports Http RateLimit
begin

text \<open>
  The abuse limiter of \<open>portal/main.go\<close>: which addresses a request counts against, the ban check,
  the recording of failures with the escalation of bans, and what a successful sign-in clears.
  The state is the counters and the ban cache of this instance together with the two tables
  all instances share; \<open>limiter_flt\<close> says which kinds of statement fail during the request.
\<close>

record limiter =
  l_emailFails :: failCounter
  l_guestFails :: failCounter
  l_ipFails :: failCounter
  l_bans :: ipBanList
  l_banTbl :: "ipBanRow list"
  l_historyTbl :: "banHistoryRow list"

record limiter_flt =
  f_refresh :: bool
  f_ban :: bool
  f_increment :: bool
  f_history :: bool
  f_unban :: bool

definition no_limiter_flt :: limiter_flt where
  "no_limiter_flt = \<lparr>f_refresh = False, f_ban = False, f_increment = False, f_history = False,
     f_unban = False\<rparr>"

definition wf_limiter :: "limiter \<Rightarrow> bool" where
  "wf_limiter l \<longleftrightarrow> wf_fc (l_emailFails l) \<and> wf_fc (l_guestFails l) \<and> wf_fc (l_ipFails l) \<and>
     wf_bans (l_banTbl l) \<and> unique_by bh_ip (l_historyTbl l)"

section \<open>The operations\<close>

fun unique_loop :: "string list \<Rightarrow> string list \<Rightarrow> string list" where
  "unique_loop seen [] = []"
| "unique_loop seen (v # vs) =
     (let v' = trim_space v
      in if v' = [] \<or> v' \<in> set seen then unique_loop seen vs
         else v' # unique_loop (v' # seen) vs)"

definition uniqueNonEmpty :: "string list \<Rightarrow> string list" where
  "uniqueNonEmpty vs = unique_loop [] vs"

text \<open>\<open>ip\<close> is the address of the connection; the session, if any, adds its own.\<close>

definition requestIPKeys :: "string \<Rightarrow> Session option \<Rightarrow> string list" where
  "requestIPKeys ip sess =
     (case sess of None \<Rightarrow> uniqueNonEmpty [ip] | Some s \<Rightarrow> uniqueNonEmpty [ip, s_UserIP s])"

definition lim_isBanned :: "limiter_flt \<Rightarrow> time \<Rightarrow> string \<Rightarrow> limiter \<Rightarrow> bool \<times> limiter" where
  "lim_isBanned flt now ip l =
     (case isBanned (f_refresh flt) now ip (l_banTbl l) (l_bans l) of (b, c) \<Rightarrow> (b, l\<lparr>l_bans := c\<rparr>))"

fun banned_loop :: "limiter_flt \<Rightarrow> time \<Rightarrow> string list \<Rightarrow> limiter \<Rightarrow> string option \<times> limiter" where
  "banned_loop flt now [] l = (None, l)"
| "banned_loop flt now (ip # ips) l =
     (case lim_isBanned flt now ip l of (b, l') \<Rightarrow>
        if b then (Some ip, l') else banned_loop flt now ips l')"

definition bannedIPForRequest ::
  "limiter_flt \<Rightarrow> time \<Rightarrow> string \<Rightarrow> Session option \<Rightarrow> limiter \<Rightarrow> string option \<times> limiter" where
  "bannedIPForRequest flt now ip sess l = banned_loop flt now (requestIPKeys ip sess) l"

definition lim_ban :: "limiter_flt \<Rightarrow> time \<Rightarrow> string \<Rightarrow> duration \<Rightarrow> limiter \<Rightarrow> limiter" where
  "lim_ban flt now ip d l =
     (case ban (f_ban flt) now ip d (l_banTbl l, l_bans l) of (tbl, c) \<Rightarrow>
        l\<lparr>l_banTbl := tbl, l_bans := c\<rparr>)"

definition recordIPFailure :: "Config \<Rightarrow> limiter_flt \<Rightarrow> time \<Rightarrow> string \<Rightarrow> limiter \<Rightarrow> limiter" where
  "recordIPFailure cfg flt now ip l =
     (let l1 = l\<lparr>l_ipFails := record_failure now now ip (l_ipFails l)\<rparr>;
          n = int (countIn now ip (IPFailsWindow cfg) (l_ipFails l1))
      in if n < IPFailsLimit cfg then l1
         else (case lim_isBanned flt now ip l1 of (banned, l2) \<Rightarrow>
           if banned then l2
           else if IPBanEscalateAt cfg \<le> 0 then lim_ban flt now ip (IPBanDuration cfg) l2
           else (case bh_increment (f_increment flt) (f_history flt) now ip (l_historyTbl l2) of
               (banCount, hist) \<Rightarrow>
                 (let l3 = l2\<lparr>l_historyTbl := hist\<rparr>
                  in if banCount \<ge> IPBanEscalateAt cfg
                     then lim_ban flt now ip (time_sub PermanentBanUntil now) l3
                     else lim_ban flt now ip (IPBanDuration cfg) l3))))"

definition recordRequestFailure ::
  "Config \<Rightarrow> limiter_flt \<Rightarrow> time \<Rightarrow> string \<Rightarrow> Session option \<Rightarrow> limiter \<Rightarrow> limiter" where
  "recordRequestFailure cfg flt now ip sess l =
     fold (recordIPFailure cfg flt now) (requestIPKeys ip sess) l"

definition lim_unban :: "limiter_flt \<Rightarrow> string \<Rightarrow> limiter \<Rightarrow> limiter" where
  "lim_unban flt ip l =
     (case unban (f_unban flt) ip (l_banTbl l, l_bans l) of (_, tbl, c) \<Rightarrow>
        l\<lparr>l_banTbl := tbl, l_bans := c\<rparr>)"

definition clearSuccessfulAuthState ::
  "limiter_flt \<Rightarrow> string \<Rightarrow> Session \<Rightarrow> string list \<Rightarrow> limiter \<Rightarrow> limiter" where
  "clearSuccessfulAuthState flt ip sess emails l =
     (let emailKeys = (if s_Email sess \<noteq> [] then [s_Email sess] else []) @ emails;
          l1 = l\<lparr>l_emailFails :=
                  fold (\<lambda>e. reset (to_lower e)) (uniqueNonEmpty emailKeys) (l_emailFails l)\<rparr>;
          l2 = (if s_MAC sess \<noteq> [] then l1\<lparr>l_guestFails := reset (s_MAC sess) (l_guestFails l1)\<rparr> else l1)
      in fold (\<lambda>k l. lim_unban flt k (l\<lparr>l_ipFails := reset k (l_ipFails l)\<rparr>))
           (requestIPKeys ip (Some sess)) l2)"

text \<open>Whole seconds, as \<open>int(d.Seconds())\<close> truncates.\<close>

definition whole_seconds :: "duration \<Rightarrow> int" where
  "whole_seconds d = (if d < 0 then - ((- d) div second) else d div second)"

datatype limit_rule = RuleIPBan | RuleEmailShort | RuleEmailLong | RuleMAC

definition writeRateLimited ::
  "Config \<Rightarrow> limiter_flt \<Rightarrow> time \<Rightarrow> limit_rule \<Rightarrow> string \<Rightarrow> limiter \<Rightarrow> reply \<times> limiter" where
  "writeRateLimited cfg flt now rule ip l =
     (let err = (''error'', RStr ''rate_limited'');
          retry = (\<lambda>d. (''retry_after_seconds'', RInt (whole_seconds d)))
      in case rule of
           RuleIPBan \<Rightarrow>
             (case expiryOf (f_refresh flt) now ip (l_banTbl l) (l_bans l) of (r, c) \<Rightarrow>
               (ReplyJSON 429
                  (case r of
                     None \<Rightarrow> [err]
                   | Some exp \<Rightarrow>
                       if IsPermanent exp then [err, (''permanent'', RBool True)]
                       else [err, retry (time_sub exp now), (''unban_at_unix'', RInt (unix exp))]),
                l\<lparr>l_bans := c\<rparr>))
         | RuleEmailShort \<Rightarrow> (ReplyJSON 429 [err, retry (AuthEmailWindowShort cfg)], l)
         | RuleEmailLong \<Rightarrow> (ReplyJSON 429 [err, retry (AuthEmailWindowLong cfg)], l)
         | RuleMAC \<Rightarrow> (ReplyJSON 429 [err, retry (GuestCodeMacWindow cfg)], l))"


section \<open>Administrative resets\<close>

datatype reset_type = ResetIPBan | ResetIPFails | ResetEmail | ResetMAC

definition parse_reset_type :: "string \<Rightarrow> reset_type option" where
  "parse_reset_type t =
     (if t = ''ip_ban'' then Some ResetIPBan
      else if t = ''ip_fails'' then Some ResetIPFails
      else if t = ''email'' then Some ResetEmail
      else if t = ''mac'' then Some ResetMAC
      else None)"

fun lim_reset :: "limiter_flt \<Rightarrow> reset_type \<Rightarrow> string \<Rightarrow> limiter \<Rightarrow> limiter" where
  "lim_reset flt ResetIPBan key l =
     (let l1 = lim_unban flt key l
      in l1\<lparr>l_ipFails := reset key (l_ipFails l1),
            l_historyTbl := bh_reset (f_history flt) key (l_historyTbl l1)\<rparr>)"
| "lim_reset flt ResetIPFails key l = l\<lparr>l_ipFails := reset key (l_ipFails l)\<rparr>"
| "lim_reset flt ResetEmail key l = l\<lparr>l_emailFails := reset (to_lower key) (l_emailFails l)\<rparr>"
| "lim_reset flt ResetMAC key l = l\<lparr>l_guestFails := reset key (l_guestFails l)\<rparr>"

text \<open>The counts of \<open>reset-all\<close>: bans, history, email, MAC and address failures.\<close>

definition lim_resetAll :: "limiter_flt \<Rightarrow> time \<Rightarrow> limiter \<Rightarrow> nat list \<times> limiter" where
  "lim_resetAll flt now l =
     (let (nb, tbl, c) = unbanAll (f_refresh flt) (f_unban flt) now (l_banTbl l, l_bans l);
          (nh, hist) = bh_resetAll (f_history flt) (l_historyTbl l);
          (ne, ef) = resetAll (l_emailFails l);
          (ng, gf) = resetAll (l_guestFails l);
          (ni, ipf) = resetAll (l_ipFails l)
      in ([nb, nh, ne, ng, ni],
          \<lparr>l_emailFails = ef, l_guestFails = gf, l_ipFails = ipf, l_bans = c, l_banTbl = tbl,
           l_historyTbl = hist\<rparr>))"

section \<open>Lemmas\<close>

lemma unique_loop_props:
  "distinct (unique_loop seen vs) \<and> set (unique_loop seen vs) \<inter> set seen = {} \<and>
   set (unique_loop seen vs) \<union> set seen = {v \<in> trim_space ` set vs. v \<noteq> []} \<union> set seen"
  by (induction seen vs rule: unique_loop.induct) (auto simp: Let_def)

lemma uniqueNonEmpty_distinct: "distinct (uniqueNonEmpty vs)"
  using unique_loop_props [of "[]" vs] by (simp add: uniqueNonEmpty_def)

lemma set_uniqueNonEmpty: "set (uniqueNonEmpty vs) = {v \<in> trim_space ` set vs. v \<noteq> []}"
  using unique_loop_props [of "[]" vs] by (simp add: uniqueNonEmpty_def)

lemma requestIPKeys_nonempty: "k \<in> set (requestIPKeys ip sess) \<Longrightarrow> k \<noteq> []"
  by (auto simp: requestIPKeys_def set_uniqueNonEmpty split: option.splits)

lemma lim_isBanned_fields [simp]:
  "l_emailFails (snd (lim_isBanned flt now ip l)) = l_emailFails l"
  "l_guestFails (snd (lim_isBanned flt now ip l)) = l_guestFails l"
  "l_ipFails (snd (lim_isBanned flt now ip l)) = l_ipFails l"
  "l_banTbl (snd (lim_isBanned flt now ip l)) = l_banTbl l"
  "l_historyTbl (snd (lim_isBanned flt now ip l)) = l_historyTbl l"
  by (simp_all add: lim_isBanned_def case_prod_beta)

lemma lim_ban_fields [simp]:
  "l_emailFails (lim_ban flt now ip d l) = l_emailFails l"
  "l_guestFails (lim_ban flt now ip d l) = l_guestFails l"
  "l_ipFails (lim_ban flt now ip d l) = l_ipFails l"
  "l_historyTbl (lim_ban flt now ip d l) = l_historyTbl l"
  "l_banTbl (lim_ban flt now ip d l) = fst (ban (f_ban flt) now ip d (l_banTbl l, l_bans l))"
  "l_bans (lim_ban flt now ip d l) = snd (ban (f_ban flt) now ip d (l_banTbl l, l_bans l))"
  by (simp_all add: lim_ban_def case_prod_beta)

lemma lim_unban_fields [simp]:
  "l_emailFails (lim_unban flt ip l) = l_emailFails l"
  "l_guestFails (lim_unban flt ip l) = l_guestFails l"
  "l_ipFails (lim_unban flt ip l) = l_ipFails l"
  "l_historyTbl (lim_unban flt ip l) = l_historyTbl l"
  "l_banTbl (lim_unban flt ip l) = fst (snd (unban (f_unban flt) ip (l_banTbl l, l_bans l)))"
  "l_bans (lim_unban flt ip l) = snd (snd (unban (f_unban flt) ip (l_banTbl l, l_bans l)))"
  by (simp_all add: lim_unban_def case_prod_beta)

lemma banned_loop_fields:
  "l_banTbl (snd (banned_loop flt now ips l)) = l_banTbl l \<and>
   l_historyTbl (snd (banned_loop flt now ips l)) = l_historyTbl l \<and>
   l_emailFails (snd (banned_loop flt now ips l)) = l_emailFails l \<and>
   l_guestFails (snd (banned_loop flt now ips l)) = l_guestFails l \<and>
   l_ipFails (snd (banned_loop flt now ips l)) = l_ipFails l"
  by (induction ips arbitrary: l) (simp_all add: case_prod_beta)

lemma unban_unique: "wf_bans tbl \<Longrightarrow> wf_bans (fst (snd (unban flt ip (tbl, b))))"
  by (auto simp: unban_def delete_where_def Let_def unique_by_filter)

lemma wf_lim_isBanned [wf_intros]: "wf_limiter l \<Longrightarrow> wf_limiter (snd (lim_isBanned flt now ip l))"
  by (simp add: wf_limiter_def)

lemma wf_lim_ban [wf_intros]: "wf_limiter l \<Longrightarrow> wf_limiter (lim_ban flt now ip d l)"
  by (simp add: wf_limiter_def ban_table_unique)

lemma wf_lim_unban [wf_intros]: "wf_limiter l \<Longrightarrow> wf_limiter (lim_unban flt ip l)"
  by (simp add: wf_limiter_def unban_unique)

lemma wf_ipFails_update:
  "wf_limiter l \<Longrightarrow> wf_fc f \<Longrightarrow> wf_limiter (l\<lparr>l_ipFails := f\<rparr>)"
  "wf_limiter l \<Longrightarrow> wf_fc f \<Longrightarrow> wf_limiter (l\<lparr>l_guestFails := f\<rparr>)"
  "wf_limiter l \<Longrightarrow> wf_fc f \<Longrightarrow> wf_limiter (l\<lparr>l_emailFails := f\<rparr>)"
  "wf_limiter l \<Longrightarrow> unique_by bh_ip h \<Longrightarrow> wf_limiter (l\<lparr>l_historyTbl := h\<rparr>)"
  by (simp_all add: wf_limiter_def)

lemma wf_limiterD:
  "wf_limiter l \<Longrightarrow> wf_fc (l_emailFails l)" "wf_limiter l \<Longrightarrow> wf_fc (l_guestFails l)"
  "wf_limiter l \<Longrightarrow> wf_fc (l_ipFails l)" "wf_limiter l \<Longrightarrow> wf_bans (l_banTbl l)"
  "wf_limiter l \<Longrightarrow> unique_by bh_ip (l_historyTbl l)"
  by (simp_all add: wf_limiter_def)

text \<open>The state after the failure is counted and the ban is looked up.\<close>

definition counted :: "limiter_flt \<Rightarrow> time \<Rightarrow> string \<Rightarrow> limiter \<Rightarrow> limiter" where
  "counted flt now ip l =
     snd (lim_isBanned flt now ip (l\<lparr>l_ipFails := record_failure now now ip (l_ipFails l)\<rparr>))"

definition failures :: "Config \<Rightarrow> time \<Rightarrow> string \<Rightarrow> limiter \<Rightarrow> int" where
  "failures cfg now ip l =
     int (countIn now ip (IPFailsWindow cfg) (record_failure now now ip (l_ipFails l)))"

lemma recordIPFailure_cases:
  "recordIPFailure cfg flt now ip l =
    (if failures cfg now ip l < IPFailsLimit cfg
     then l\<lparr>l_ipFails := record_failure now now ip (l_ipFails l)\<rparr>
     else if fst (lim_isBanned flt now ip l) then counted flt now ip l
     else if IPBanEscalateAt cfg \<le> 0 then lim_ban flt now ip (IPBanDuration cfg) (counted flt now ip l)
     else (let (n, hist) = bh_increment (f_increment flt) (f_history flt) now ip (l_historyTbl l);
               l3 = (counted flt now ip l)\<lparr>l_historyTbl := hist\<rparr>
           in lim_ban flt now ip
                (if n \<ge> IPBanEscalateAt cfg then time_sub PermanentBanUntil now else IPBanDuration cfg) l3))"
proof -
  have "fst (lim_isBanned flt now ip (l\<lparr>l_ipFails := f\<rparr>)) = fst (lim_isBanned flt now ip l)" for f
    by (simp add: lim_isBanned_def case_prod_beta)
  then show ?thesis
    by (simp add: recordIPFailure_def failures_def counted_def case_prod_beta Let_def)
qed

lemma counted_fields [simp]:
  "l_banTbl (counted flt now ip l) = l_banTbl l"
  "l_historyTbl (counted flt now ip l) = l_historyTbl l"
  "l_ipFails (counted flt now ip l) = record_failure now now ip (l_ipFails l)"
  "l_emailFails (counted flt now ip l) = l_emailFails l"
  "l_guestFails (counted flt now ip l) = l_guestFails l"
  by (simp_all add: counted_def)

lemma wf_counted: "wf_limiter l \<Longrightarrow> wf_limiter (counted flt now ip l)"
  unfolding counted_def by (intro wf_intros wf_ipFails_update wf_record_failure) (simp_all add: wf_limiterD)

lemma wf_recordIPFailure [wf_intros]:
  assumes "wf_limiter l"
  shows "wf_limiter (recordIPFailure cfg flt now ip l)"
proof -
  have hist: "wf_limiter ((counted flt now ip l)\<lparr>l_historyTbl :=
      snd (bh_increment (f_increment flt) (f_history flt) now ip (l_historyTbl l))\<rparr>)"
    using assms by (intro wf_ipFails_update wf_counted bh_increment_unique) (simp_all add: wf_limiterD)
  show ?thesis
    using assms hist
    by (auto simp: recordIPFailure_cases Let_def case_prod_beta
        intro!: wf_intros wf_counted wf_ipFails_update wf_limiterD)
qed

lemma wf_recordRequestFailure [wf_intros]:
  assumes "wf_limiter l"
  shows "wf_limiter (recordRequestFailure cfg flt now ip sess l)"
proof -
  have "wf_limiter (fold (recordIPFailure cfg flt now) ks l)" if "wf_limiter l" for ks l
    using that by (induction ks arbitrary: l) (auto intro: wf_recordIPFailure)
  with assms show ?thesis by (simp add: recordRequestFailure_def)
qed

lemma wf_bannedIPForRequest [wf_intros]:
  "wf_limiter l \<Longrightarrow> wf_limiter (snd (bannedIPForRequest flt now ip sess l))"
  using banned_loop_fields [of flt now "requestIPKeys ip sess" l]
  by (simp add: bannedIPForRequest_def wf_limiter_def)

lemma wf_writeRateLimited [wf_intros]:
  "wf_limiter l \<Longrightarrow> wf_limiter (snd (writeRateLimited cfg flt now rule ip l))"
  by (cases rule) (simp_all add: writeRateLimited_def Let_def wf_limiter_def case_prod_beta)

lemma wf_fold_reset: "wf_fc c \<Longrightarrow> wf_fc (fold (\<lambda>e. reset (f e)) es c)"
  by (induction es arbitrary: c) (auto intro: wf_reset)

lemma wf_clear_keys:
  "wf_limiter l \<Longrightarrow>
   wf_limiter (fold (\<lambda>k l. lim_unban flt k (l\<lparr>l_ipFails := reset k (l_ipFails l)\<rparr>)) ks l)"
proof (induction ks arbitrary: l)
  case Nil
  then show ?case by simp
next
  case (Cons k ks)
  have "wf_limiter (lim_unban flt k (l\<lparr>l_ipFails := reset k (l_ipFails l)\<rparr>))"
    by (intro wf_lim_unban wf_ipFails_update wf_reset wf_limiterD Cons.prems)
  from Cons.IH [OF this] show ?case by simp
qed

lemma wf_clearSuccessfulAuthState [wf_intros]:
  "wf_limiter l \<Longrightarrow> wf_limiter (clearSuccessfulAuthState flt ip sess emails l)"
  unfolding clearSuccessfulAuthState_def Let_def
  by (auto intro!: wf_clear_keys wf_ipFails_update wf_reset wf_fold_reset dest: wf_limiterD)

lemma wf_lim_reset [wf_intros]: "wf_limiter l \<Longrightarrow> wf_limiter (lim_reset flt t key l)"
  by (cases t)
    (auto simp: Let_def bh_reset_def delete_where_def unique_by_filter
      intro!: wf_ipFails_update wf_reset wf_lim_unban dest: wf_limiterD
      simp: wf_limiter_def unban_unique)

section \<open>Properties\<close>

text \<open>What the table says about an address after a failure of it is recorded.\<close>

definition next_until :: "Config \<Rightarrow> time \<Rightarrow> string \<Rightarrow> limiter \<Rightarrow> time" where
  "next_until cfg now ip l =
     (if IPBanEscalateAt cfg \<le> 0 \<or> bh_get False ip (l_historyTbl l) + 1 < IPBanEscalateAt cfg
      then now + IPBanDuration cfg else PermanentBanUntil)"

text \<open>C25: When a failure turns into a ban.  Recording a failure of an address, with the database
  working, bans it exactly when the failures in the window reach the limit and it is not
  banned already; the ban ends after the cooldown, or is the permanent one when this is at least
  the configured number of cooldowns; it never shortens a recorded ban, it counts one more
  cooldown in the history when escalation is on, and it touches no other address.\<close>

theorem recordIPFailure_spec:
  assumes "wf_limiter l" and "ip \<noteq> []" and "0 \<le> PermanentBanUntil - now" "PermanentBanUntil - now < 2 ^ 63"
  shows "(let l' = recordIPFailure cfg no_limiter_flt now ip l;
              bans = (failures cfg now ip l \<ge> IPFailsLimit cfg \<and> \<not> fst (lim_isBanned no_limiter_flt now ip l))
      in until_of (l_banTbl l') ip =
           (if bans then Some (case until_of (l_banTbl l) ip of
                None \<Rightarrow> next_until cfg now ip l | Some u \<Rightarrow> max u (next_until cfg now ip l))
            else until_of (l_banTbl l) ip) \<and>
         (ip' \<noteq> ip \<longrightarrow> until_of (l_banTbl l') ip' = until_of (l_banTbl l) ip') \<and>
         bh_get False ip (l_historyTbl l') = bh_get False ip (l_historyTbl l) +
           (if bans \<and> IPBanEscalateAt cfg > 0 then 1 else 0))"
proof -
  note wf = wf_limiterD [OF assms(1)]
  have sub: "time_sub PermanentBanUntil now = PermanentBanUntil - now"
    using assms(3,4) by (simp add: time_sub_def)
  note inc = bh_increment_counts [OF wf(5) assms(2), of now]
  have hist: "bh_get False ip (snd (bh_increment False False now ip (l_historyTbl l))) =
      bh_get False ip (l_historyTbl l) + 1"
    by (rule inc(2))
  have bans: "until_of (fst (ban False now ip d (l_banTbl l, b))) ip =
      Some (case until_of (l_banTbl l) ip of None \<Rightarrow> now + d | Some u \<Rightarrow> max u (now + d))" for d b
    by (rule ban_until [OF wf(4) assms(2)])
  have other: "ip' \<noteq> ip \<Longrightarrow> until_of (fst (ban False now ip d (l_banTbl l, b))) ip' =
      until_of (l_banTbl l) ip'" for d b
    by (rule ban_until_other)
  show ?thesis
  proof (cases "failures cfg now ip l < IPFailsLimit cfg \<or> fst (lim_isBanned no_limiter_flt now ip l)")
    case True
    then show ?thesis by (auto simp: recordIPFailure_cases Let_def)
  next
    case False
    then show ?thesis
      using bans other hist inc(1) sub
      by (auto simp: recordIPFailure_cases Let_def case_prod_beta no_limiter_flt_def next_until_def
          split: option.splits)
  qed
qed

definition demo_limiter :: limiter where
  "demo_limiter = \<lparr>l_emailFails = newFailCounter hour, l_guestFails = newFailCounter hour,
     l_ipFails = newFailCounter hour, l_bans = \<lparr>bl_cache = [], bl_refreshed = 0, bl_truncated = False\<rparr>,
     l_banTbl = [], l_historyTbl = []\<rparr>"

lemma wf_demo_limiter: "wf_limiter demo_limiter"
  by (simp add: wf_limiter_def demo_limiter_def wf_newFailCounter unique_by_def)

text \<open>A configuration with the defaults of the rate limiter and nothing else.\<close>

definition demo_Config :: Config where
  "demo_Config = \<lparr>TenantID = ''t'', ClientID = ''c'', ClientSecret = ''s'', IKuaiAppKey = ''k'',
     IKuaiWebAuthURL = ''https://r/up'', IKuaiReleaseType = ''1'', IKuaiPolicyDefaults = [],
     SessionSecret = ''0123'', PublicURL = ''https://p'', ListenAddr = ''127.0.0.1:28080'',
     TrustProxy = False, DataDir = ''/data'', BrandName = ''b'', BrandColor = ''#fff'',
     BrandLogoURL = [], IKuaiIPKeys = [''user_ip''], IKuaiMACKeys = [''mac''], DuoIKey = [],
     DuoSKey = [], DuoClientID = [], DuoClientSecret = [], DuoAPIHost = [],
     AllowedEmailDomains = [''x.org''], AdminEmails = [''root@x.org''], AdminGroupIDs = [],
     AuthEmailFailsShort = 5, AuthEmailWindowShort = 3 * minute, AuthEmailFailsLong = 20,
     AuthEmailWindowLong = hour, GuestCodeMacFails = 6, GuestCodeMacWindow = 30 * minute,
     IPFailsLimit = 1, IPFailsWindow = 5 * minute, IPBanDuration = 2 * minute,
     IPBanEscalateAt = 1, AuthProceedTTL = 5 * minute, EventLogRetention = hour,
     LocalAdminEnabled = False, LocalAdminAllowedFrom = [], TLSMode = ''proxy'', TLSDomain = [],
     TLSListenAddr = [], TLSRedirectHTTP = False, ACMEEnabled = False, ACMEEmail = [],
     ACMEStaging = False\<rparr>"

theorem recordIPFailure_spec_witness:
  "until_of (l_banTbl (recordIPFailure demo_Config no_limiter_flt second ''1.2.3.4'' demo_limiter)) ''1.2.3.4'' =
     Some PermanentBanUntil"
proof -
  have "0 \<le> PermanentBanUntil - second" "PermanentBanUntil - second < 2 ^ 63"
    by (simp_all add: PermanentBanUntil_def second_def)
  note spec = recordIPFailure_spec [OF wf_demo_limiter _ this, of "''1.2.3.4''" demo_Config "[]"]
  have "failures demo_Config second ''1.2.3.4'' demo_limiter \<ge> IPFailsLimit demo_Config"
    "\<not> fst (lim_isBanned no_limiter_flt second ''1.2.3.4'' demo_limiter)"
    "until_of (l_banTbl demo_limiter) ''1.2.3.4'' = None"
    "next_until demo_Config second ''1.2.3.4'' demo_limiter = PermanentBanUntil"
    by (simp_all add: failures_def countIn_def record_failure_def demo_limiter_def newFailCounter_def
        demo_Config_def maxFailCounterEntries_def after_def duration_defs lim_isBanned_def isBanned_def
        expiryOf_def refreshIfStale_def time_sub_def banCacheTTL_def until_of_def next_until_def bh_get_def)
  with spec show ?thesis by (simp add: Let_def)
qed

text \<open>C26: A ban reaches every instance, and so does its end.  The instances share the table of bans and each caches
  it.  An instance that can read the table and has not done so for longer than the lifetime of its cache (two
  seconds) takes an address for banned exactly when the table says so, whatever its cache held: banned if
  another instance banned it for a time that has not passed, not banned if another instance has just lifted the
  ban.  This is for at most as many bans in force as the cache may hold, and a last reading less than 292 years ago.\<close>

theorem ban_reaches_instances:
  assumes "wf_bans (l_banTbl l)"
    and "bl_refreshed (l_bans l) + banCacheTTL < now" "now - bl_refreshed (l_bans l) < 2 ^ 63"
    and "length (filter (\<lambda>r. after (ib_until r) now) (l_banTbl l)) \<le> maxCachedBans"
  shows "(fst (lim_isBanned no_limiter_flt now ip l) \<longleftrightarrow> (\<exists>u. until_of (l_banTbl l) ip = Some u \<and> now < u)) \<and>
    (ip \<noteq> [] \<and> wf_bans tbl \<and> l_banTbl l = fst (ban False t ip d (tbl, other)) \<and> now < t + d \<longrightarrow> fst (lim_isBanned no_limiter_flt now ip l)) \<and>
    (l_banTbl l = fst (snd (unban False ip (tbl, other))) \<longrightarrow> \<not> fst (lim_isBanned no_limiter_flt now ip l))"
proof -
  have "time_sub now (bl_refreshed (l_bans l)) > banCacheTTL"
    using assms(2,3) by (simp add: time_sub_def banCacheTTL_def second_def)
  then have iff: "fst (lim_isBanned no_limiter_flt now ip l) \<longleftrightarrow> (\<exists>u. until_of (l_banTbl l) ip = Some u \<and> now < u)"
    using refresh_exact [OF assms(1,4), of "l_bans l" ip]
    by (auto simp: lim_isBanned_def isBanned_def expiryOf_def refreshIfStale_def no_limiter_flt_def case_prod_beta Let_def
        after_def split: option.split)
  have "\<exists>u. until_of (l_banTbl l) ip = Some u \<and> now < u"
    if "ip \<noteq> []" "wf_bans tbl" "l_banTbl l = fst (ban False t ip d (tbl, other))" "now < t + d"
    using ban_until [OF that(2,1), of t d other] that(3,4) by (auto split: option.splits)
  moreover have "until_of (l_banTbl l) ip = None" if "l_banTbl l = fst (snd (unban False ip (tbl, other)))"
    unfolding that by (rule unban_gone)
  ultimately show ?thesis unfolding iff by (metis option.distinct(1))
qed

definition banned_limiter :: limiter where
  "banned_limiter = demo_limiter\<lparr>l_banTbl := [\<lparr>ib_ip = ''1.2.3.4'', ib_until = 10 * second, ib_updated = 0\<rparr>]\<rparr>"

theorem ban_reaches_instances_witness:
  "fst (lim_isBanned no_limiter_flt (5 * second) ''1.2.3.4'' banned_limiter) \<and>
   \<not> fst (lim_isBanned no_limiter_flt (5 * second) ''9.9.9.9'' banned_limiter)"
proof -
  have "wf_bans (l_banTbl banned_limiter)"
    by (simp add: banned_limiter_def unique_by_def)
  moreover have "bl_refreshed (l_bans banned_limiter) + banCacheTTL < 5 * second"
    "5 * second - bl_refreshed (l_bans banned_limiter) < 2 ^ 63"
    "length (filter (\<lambda>r. after (ib_until r) (5 * second)) (l_banTbl banned_limiter)) \<le> maxCachedBans"
    "until_of (l_banTbl banned_limiter) ''1.2.3.4'' = Some (10 * second)" "until_of (l_banTbl banned_limiter) ''9.9.9.9'' = None"
    "(5 * second :: int) < 10 * second"
    by (simp_all add: banned_limiter_def demo_limiter_def until_of_def banCacheTTL_def second_def maxCachedBans_def after_def)
  ultimately show ?thesis using ban_reaches_instances [of banned_limiter "5 * second"] by auto
qed

end
