(* ===== verification/ProceedTokens.thy ===== *)
theory ProceedTokens
  imports RateLimit
begin

text \<open>
  The one-time tokens of \<open>portal/auth_proceed.go\<close> (\<open>proceedTokenStore\<close>): \<open>/auth/start\<close> stores
  the real destination under a random token, \<open>/auth/proceed\<close> takes it once.  The handler
  itself is in \<open>Portal\<close>.
\<close>

record proceedEntry =
  pe_url :: string
  pe_state :: string
  pe_email :: string
  pe_expires :: time

record proceedTokenStore =
  ps_entries :: "(string \<times> proceedEntry) list"
  ps_ttl :: duration

definition maxProceedEntries :: nat where "maxProceedEntries = 50000"

definition newProceedTokenStore :: "duration \<Rightarrow> proceedTokenStore" where
  "newProceedTokenStore ttl = \<lparr>ps_entries = [], ps_ttl = ttl\<rparr>"

definition ps_make_room :: "time \<Rightarrow> (string \<times> proceedEntry) list \<Rightarrow> (string \<times> proceedEntry) list" where
  "ps_make_room = prune_then_evict pe_expires maxProceedEntries (maxProceedEntries * 9 div 10)
     (drop_expired pe_expires)"

text \<open>
  \<open>tok\<close> is what \<open>randomHex(16)\<close> returns (\<open>None\<close> when the random source fails);
  \<open>now_room\<close> is the clock reading of the pruning, \<open>now\<close> the one of the expiry.
\<close>

definition put ::
  "string option \<Rightarrow> time \<Rightarrow> time \<Rightarrow> string \<Rightarrow> string \<Rightarrow> string \<Rightarrow> proceedTokenStore \<Rightarrow>
   string option \<times> proceedTokenStore" where
  "put tok now_room now url sessionState email s =
     (case tok of
        None \<Rightarrow> (None, s)
      | Some t \<Rightarrow>
          (let es = (if length (ps_entries s) \<ge> maxProceedEntries
                     then ps_make_room now_room (ps_entries s) else ps_entries s)
           in (Some t, s\<lparr>ps_entries := AList.update t
                 \<lparr>pe_url = url, pe_state = sessionState, pe_email = email,
                  pe_expires = now + ps_ttl s\<rparr> es\<rparr>)))"

definition take_token :: "time \<Rightarrow> string \<Rightarrow> proceedTokenStore \<Rightarrow> proceedEntry option \<times> proceedTokenStore" where
  "take_token now token s =
     (case map_of (ps_entries s) token of
        None \<Rightarrow> (None, s)
      | Some e \<Rightarrow>
          (let s' = s\<lparr>ps_entries := AList.delete token (ps_entries s)\<rparr>
           in if after now (pe_expires e) then (None, s') else (Some e, s')))"

definition ps_gc :: "time \<Rightarrow> proceedTokenStore \<Rightarrow> proceedTokenStore" where
  "ps_gc now s = s\<lparr>ps_entries := drop_expired pe_expires now (ps_entries s)\<rparr>"


subsection \<open>Well-formedness and single use\<close>

interpretation pss: capped_store ps_make_room maxProceedEntries
  unfolding ps_make_room_def by (rule drop_expired_capped) (simp add: maxProceedEntries_def)

definition wf_ps :: "proceedTokenStore \<Rightarrow> bool" where
  "wf_ps s \<longleftrightarrow> distinct (map fst (ps_entries s)) \<and> length (ps_entries s) \<le> maxProceedEntries"

lemma wf_ps_pss: "wf_ps s = pss.wf (ps_entries s)"
  by (simp add: wf_ps_def pss.wf_def)

lemma wf_newProceedTokenStore [wf_intros]: "wf_ps (newProceedTokenStore ttl)"
  by (simp add: wf_ps_def newProceedTokenStore_def)

lemma wf_put_token [wf_intros]: "wf_ps s \<Longrightarrow> wf_ps (snd (put tok now_room now url st email s))"
  using pss.wf_put_always [of "ps_entries s" "the tok" _ now_room]
  by (auto simp: wf_ps_pss put_def Let_def not_le split: option.splits)

lemma wf_take_token [wf_intros]: "wf_ps s \<Longrightarrow> wf_ps (snd (take_token now tok s))"
  by (auto simp: wf_ps_pss take_token_def Let_def pss.wf_delete split: option.splits)

lemma wf_ps_gc [wf_intros]: "wf_ps s \<Longrightarrow> wf_ps (ps_gc now s)"
  by (simp add: wf_ps_pss ps_gc_def drop_expired_def pss.wf_filter)

lemma take_token_gone: "map_of (ps_entries (snd (take_token now tok s))) tok = None"
  by (auto simp: take_token_def Let_def delete_conv' split: option.splits)

lemma take_token_Some:
  "fst (take_token now tok s) = Some e \<longleftrightarrow>
     map_of (ps_entries s) tok = Some e \<and> now \<le> pe_expires e"
  by (auto simp: take_token_def Let_def after_def split: option.splits)

lemma put_stores:
  "map_of (ps_entries (snd (put (Some t) now_room now url st email s))) t =
     Some \<lparr>pe_url = url, pe_state = st, pe_email = email, pe_expires = now + ps_ttl s\<rparr>"
  by (simp add: put_def Let_def update_conv')

subsection \<open>Runs of the store\<close>

datatype ps_op =
    Put "string option" time string string string
  | Take time string
  | PSweep time

fun ps_step :: "ps_op \<Rightarrow> proceedTokenStore \<Rightarrow> proceedTokenStore" where
  "ps_step (Put tok now url st email) s = snd (put tok now now url st email s)"
| "ps_step (Take now tok) s = snd (take_token now tok s)"
| "ps_step (PSweep now) s = ps_gc now s"

definition ps_run :: "ps_op list \<Rightarrow> proceedTokenStore \<Rightarrow> proceedTokenStore" where
  "ps_run ops s = fold ps_step ops s"

text \<open>An operation that concerns another token, before the instant \<open>exp\<close>.\<close>

fun ps_other :: "string \<Rightarrow> time \<Rightarrow> ps_op \<Rightarrow> bool" where
  "ps_other t exp (Put tok now _ _ _) \<longleftrightarrow> tok \<noteq> Some t \<and> now \<le> exp"
| "ps_other t exp (Take now tok) \<longleftrightarrow> tok \<noteq> t \<and> now \<le> exp"
| "ps_other t exp (PSweep now) \<longleftrightarrow> now \<le> exp"

lemma ps_step_wf: "wf_ps s \<Longrightarrow> wf_ps (ps_step op s)"
  by (cases op) (simp_all add: wf_intros)

lemma ps_step_length:
  "length (ps_entries s) < maxProceedEntries \<Longrightarrow>
     length (ps_entries (ps_step op s)) \<le> Suc (length (ps_entries s))"
  by (cases op)
    (auto simp: put_def take_token_def ps_gc_def drop_expired_def length_update Let_def le_SucI
      length_delete_le split: option.splits)

lemma ps_step_keeps:
  assumes "distinct (map fst (ps_entries s))" "length (ps_entries s) < maxProceedEntries"
    and "map_of (ps_entries s) t = Some e" "ps_other t (pe_expires e) op"
  shows "map_of (ps_entries (ps_step op s)) t = Some e"
  using assms
  by (cases op)
    (auto simp: put_def take_token_def ps_gc_def map_of_drop_expired update_conv' delete_conv'
      Let_def after_def split: option.splits)

lemma ps_run_keeps:
  assumes "wf_ps s" "length (ps_entries s) + length ops \<le> maxProceedEntries"
    and "map_of (ps_entries s) t = Some e" "\<forall>op\<in>set ops. ps_other t (pe_expires e) op"
  shows "map_of (ps_entries (ps_run ops s)) t = Some e"
  using assms
proof (induction ops arbitrary: s)
  case Nil
  then show ?case by (simp add: ps_run_def)
next
  case (Cons op ops)
  have "map_of (ps_entries (ps_step op s)) t = Some e"
    using Cons.prems by (intro ps_step_keeps) (auto simp: wf_ps_def)
  moreover have "length (ps_entries (ps_step op s)) + length ops \<le> maxProceedEntries"
    using Cons.prems ps_step_length [of s op] by simp
  ultimately have "map_of (ps_entries (ps_run ops (ps_step op s))) t = Some e"
    using Cons.prems by (intro Cons.IH ps_step_wf) auto
  then show ?case by (simp add: ps_run_def)
qed

text \<open>Without a new \<open>put\<close> under it, a token that is gone stays gone.\<close>

fun ps_puts :: "string \<Rightarrow> ps_op \<Rightarrow> bool" where
  "ps_puts t (Put tok _ _ _ _) \<longleftrightarrow> tok = Some t"
| "ps_puts t _ \<longleftrightarrow> False"

lemma drop_keys_stay:
  "fst ` set (ps_make_room now es) \<subseteq> fst ` set es" if "distinct (map fst es)"
  using pss.room_keys [OF that] .

lemma ps_step_gone:
  assumes "wf_ps s" "map_of (ps_entries s) t = None" "\<not> ps_puts t op"
  shows "map_of (ps_entries (ps_step op s)) t = None"
proof (cases op)
  case (Put tok now url st email)
  have "t \<notin> fst ` set (ps_make_room now (ps_entries s))"
    using assms drop_keys_stay [of "ps_entries s" now] by (auto simp: wf_ps_def map_of_eq_None_iff)
  then have "map_of (ps_make_room now (ps_entries s)) t = None"
    by (simp add: map_of_eq_None_iff)
  with Put assms show ?thesis
    by (auto simp: put_def Let_def update_conv' split: option.splits)
next
  case (Take now tok)
  with assms show ?thesis
    by (auto simp: take_token_def Let_def delete_conv' split: option.splits)
next
  case (PSweep now)
  with assms show ?thesis
    by (simp add: ps_gc_def map_of_drop_expired wf_ps_def)
qed

lemma ps_run_gone:
  assumes "wf_ps s" "map_of (ps_entries s) t = None" "\<forall>op\<in>set ops. \<not> ps_puts t op"
  shows "map_of (ps_entries (ps_run ops s)) t = None"
  using assms
proof (induction ops arbitrary: s)
  case Nil
  then show ?case by (simp add: ps_run_def)
next
  case (Cons op ops)
  then have "map_of (ps_entries (ps_run ops (ps_step op s))) t = None"
    by (intro Cons.IH ps_step_wf ps_step_gone) auto
  then show ?case by (simp add: ps_run_def)
qed

end
