(* ===== verification/Denylist.thy ===== *)
theory Denylist
  imports Config
begin

text \<open>
  The device denylist: \<open>normalizeMAC\<close> of \<open>portal/ikuai.go\<close>, \<open>isNormalizedMAC\<close> of
  \<open>portal/denylist.go\<close> and the store of \<open>portal/store_denylist.go\<close>.  A device is recorded and
  looked up under the normalized spelling of its MAC address.
\<close>

section \<open>MAC addresses\<close>

definition mac_separator :: "char \<Rightarrow> bool" where
  "mac_separator c \<longleftrightarrow> c = CHR ''-'' \<or> c = CHR '':'' \<or> c = CHR '' ''"

text \<open>The loop that writes the digits in pairs.\<close>

fun insert_colons :: "string \<Rightarrow> string" where
  "insert_colons (a # b # c # rest) = a # b # CHR '':'' # insert_colons (c # rest)"
| "insert_colons s = s"

definition normalizeMAC :: "string \<Rightarrow> string" where
  "normalizeMAC mac =
     (if mac = [] then []
      else (let clean = to_lower (filter (\<lambda>c. \<not> mac_separator c) mac)
            in if length clean \<noteq> 12 then to_lower mac else insert_colons clean))"

definition lower_hex_digit :: "char \<Rightarrow> bool" where
  "lower_hex_digit c \<longleftrightarrow> is_digit c \<or> in_range CHR ''a'' CHR ''f'' c"

definition isNormalizedMAC :: "string \<Rightarrow> bool" where
  "isNormalizedMAC mac \<longleftrightarrow> length mac = 17 \<and>
     list_all (\<lambda>(i, c). if i mod 3 = 2 then c = CHR '':'' else lower_hex_digit c) (enumerate 0 mac)"


subsection \<open>Normalization\<close>

definition mac_digits :: "string \<Rightarrow> string" where
  "mac_digits mac = to_lower (filter (\<lambda>c. \<not> mac_separator c) mac)"

lemma mac_separator_lower [simp]: "mac_separator (lower_char c) = mac_separator c"
  by (auto simp: mac_separator_def lower_char_def Let_def simp flip: of_char_eq_iff [where 'a = nat])

lemma filter_lower: "filter (\<lambda>c. \<not> mac_separator c) (to_lower s) = mac_digits s"
  by (induction s) (simp_all add: mac_digits_def to_lower_def)

lemma mac_digits_lower [simp]: "mac_digits (to_lower s) = mac_digits s"
  by (simp add: mac_digits_def [of "to_lower s"] filter_lower) (simp add: mac_digits_def)

lemma mac_digits_colons: "mac_digits (insert_colons s) = mac_digits s"
  by (induction s rule: insert_colons.induct) (simp_all add: mac_digits_def to_lower_def mac_separator_def)

lemma mac_digits_idem [simp]: "mac_digits (mac_digits s) = mac_digits s"
proof -
  have "filter (\<lambda>c. \<not> mac_separator c) (mac_digits s) = mac_digits s"
    by (simp flip: filter_lower)
  then show ?thesis by (simp add: mac_digits_def)
qed

lemma normalizeMAC_alt:
  "normalizeMAC mac = (if length (mac_digits mac) = 12 then insert_colons (mac_digits mac) else to_lower mac)"
  by (auto simp: normalizeMAC_def mac_digits_def Let_def)

lemma normalizeMAC_idem [simp]: "normalizeMAC (normalizeMAC mac) = normalizeMAC mac"
  by (simp add: normalizeMAC_alt mac_digits_colons)

lemma normalizeMAC_lower: "normalizeMAC (to_lower mac) = normalizeMAC mac"
  by (simp add: normalizeMAC_alt)

lemma normalizeMAC_Nil [simp]: "normalizeMAC [] = []"
  by (simp add: normalizeMAC_def)

text \<open>Any two spellings of the same twelve digits are one address.\<close>

lemma normalizeMAC_spelling:
  "length (mac_digits m) = 12 \<Longrightarrow> mac_digits m = mac_digits m' \<Longrightarrow> normalizeMAC m = normalizeMAC m'"
  by (simp add: normalizeMAC_alt)

lemma isNormalizedMAC_digits:
  assumes "length ds = 12"
  shows "isNormalizedMAC (insert_colons ds) \<longleftrightarrow> list_all lower_hex_digit ds"
proof -
  obtain a b c d e f g h i j k l where ds: "ds = [a,b,c,d,e,f,g,h,i,j,k,l]"
    using assms by (auto simp: length_Suc_conv numeral_eq_Suc)
  show ?thesis
    by (auto simp: ds isNormalizedMAC_def)
qed


section \<open>The table\<close>

record DeniedMAC =
  dm_mac :: string
  dm_reason :: string
  dm_created :: time
  dm_by :: string

record MACInput =
  mi_mac :: string
  mi_reason :: string
  mi_by :: string

definition mac_row :: "time \<Rightarrow> MACInput \<Rightarrow> DeniedMAC" where
  "mac_row now m =
     \<lparr>dm_mac = normalizeMAC (mi_mac m), dm_reason = trim_space (mi_reason m),
      dm_created = now, dm_by = trim_space (mi_by m)\<rparr>"

text \<open>A failed lookup treats the device as allowed.\<close>

definition IsMACDenied :: "bool \<Rightarrow> string \<Rightarrow> DeniedMAC list \<Rightarrow> DeniedMAC option" where
  "IsMACDenied flt mac tbl =
     (let norm = normalizeMAC mac
      in if norm = [] then None
         else if flt then None
         else find (\<lambda>r. dm_mac r = norm) tbl)"

datatype mac_error = InvalidMAC | MacDB

definition AddMAC ::
  "bool \<Rightarrow> bool \<Rightarrow> time \<Rightarrow> MACInput \<Rightarrow> DeniedMAC list \<Rightarrow> (mac_error + DeniedMAC \<times> bool) \<times> DeniedMAC list" where
  "AddMAC fltInsert fltSelect now m tbl =
     (if \<not> isNormalizedMAC (normalizeMAC (mi_mac m)) then (Inl InvalidMAC, tbl)
      else if fltInsert then (Inl MacDB, tbl)
      else (case insert_nothing dm_mac (mac_row now m) tbl of (tbl', inserted) \<Rightarrow>
        if inserted then (Inr (mac_row now m, True), tbl')
        else if fltSelect then (Inl MacDB, tbl')
        else (case find (\<lambda>r. dm_mac r = normalizeMAC (mi_mac m)) tbl' of
            None \<Rightarrow> (Inl MacDB, tbl')
          | Some r \<Rightarrow> (Inr (r, False), tbl'))))"

fun mac_loop ::
  "(nat \<Rightarrow> bool) \<Rightarrow> time \<Rightarrow> nat \<Rightarrow> nat \<Rightarrow> nat \<Rightarrow> MACInput list \<Rightarrow> DeniedMAC list \<Rightarrow>
   (DeniedMAC list \<times> nat \<times> nat) option" where
  "mac_loop flt now i added skipped [] tbl = Some (tbl, added, skipped)"
| "mac_loop flt now i added skipped (m # ms) tbl =
     (if \<not> isNormalizedMAC (normalizeMAC (mi_mac m)) then mac_loop flt now (Suc i) added (Suc skipped) ms tbl
      else if flt i then None
      else (case insert_nothing dm_mac (mac_row now m) tbl of (tbl', inserted) \<Rightarrow>
        if inserted then mac_loop flt now (Suc i) (Suc added) skipped ms tbl'
        else mac_loop flt now (Suc i) added (Suc skipped) ms tbl'))"

text \<open>One transaction; on a failure nothing is added and everything counts as skipped.\<close>

definition AddMACMany ::
  "(nat \<Rightarrow> bool) \<Rightarrow> bool \<Rightarrow> time \<Rightarrow> MACInput list \<Rightarrow> DeniedMAC list \<Rightarrow> (nat \<times> nat) \<times> DeniedMAC list" where
  "AddMACMany flt fltCommit now items tbl =
     (case mac_loop flt now 0 0 0 items tbl of
        None \<Rightarrow> ((0, length items), tbl)
      | Some (tbl', added, skipped) \<Rightarrow>
          if fltCommit then ((0, length items), tbl) else ((added, skipped), tbl'))"

definition DeleteMAC :: "bool \<Rightarrow> string \<Rightarrow> DeniedMAC list \<Rightarrow> bool \<times> DeniedMAC list" where
  "DeleteMAC flt mac tbl =
     (let norm = normalizeMAC mac
      in if norm = [] then (False, tbl)
         else if flt then (False, tbl)
         else (case delete_where (\<lambda>r. dm_mac r = norm) tbl of (n, tbl') \<Rightarrow> (n > 0, tbl')))"

definition DeleteAllMACs :: "bool \<Rightarrow> DeniedMAC list \<Rightarrow> nat \<times> DeniedMAC list" where
  "DeleteAllMACs flt tbl = (if flt then (0, tbl) else (length tbl, []))"

definition macs_order :: "DeniedMAC list \<Rightarrow> DeniedMAC list" where
  "macs_order = sort_key (\<lambda>r. (- dm_created r, dm_mac r))"

definition ListMACs :: "bool \<Rightarrow> DeniedMAC list \<Rightarrow> DeniedMAC list" where
  "ListMACs flt tbl = (if flt then [] else macs_order tbl)"

definition mac_matches :: "string \<Rightarrow> DeniedMAC \<Rightarrow> bool" where
  "mac_matches search r \<longleftrightarrow>
     (let s = trim_space search
      in s = [] \<or> like_contains (to_lower s) (dm_mac r) \<or>
         like_contains (to_lower s) (to_lower (dm_reason r)) \<or>
         like_contains (to_lower s) (to_lower (dm_by r)))"

definition PageMACs ::
  "bool \<Rightarrow> bool \<Rightarrow> string \<Rightarrow> int \<Rightarrow> int \<Rightarrow> DeniedMAC list \<Rightarrow> DeniedMAC list \<times> nat" where
  "PageMACs fltCount fltRows search offset limit tbl =
     (let matching = filter (mac_matches search) tbl
      in if fltCount then ([], 0)
         else if fltRows then ([], length matching)
         else (page_of offset limit (macs_order matching), length matching))"

definition CountMACs :: "bool \<Rightarrow> DeniedMAC list \<Rightarrow> nat" where
  "CountMACs flt tbl = (if flt then 0 else length tbl)"


subsection \<open>The table as a store with a unique key\<close>

interpretation dlt: unique_table "\<lambda>_. True" "map dm_mac" dm_mac "insert_nothing dm_mac"
  by (rule insert_nothing_unique_table)

definition wf_macs :: "DeniedMAC list \<Rightarrow> bool" where
  "wf_macs tbl \<longleftrightarrow> unique_by dm_mac tbl \<and> list_all (\<lambda>r. isNormalizedMAC (dm_mac r)) tbl"

definition valid_macs :: "MACInput list \<Rightarrow> MACInput list" where
  "valid_macs = filter (\<lambda>m. isNormalizedMAC (normalizeMAC (mi_mac m)))"

lemma add_all_length: "length (snd (dlt.add_all rs tbl)) \<le> length rs"
  by (induction rs arbitrary: tbl) (auto simp: case_prod_beta Let_def le_SucI)

lemma added_le: "length (snd (dlt.add_all (map (mac_row now) (valid_macs ms)) tbl)) \<le> length ms"
  using add_all_length [of "map (mac_row now) (valid_macs ms)" tbl]
  by (simp add: valid_macs_def) (rule order_trans [OF _ length_filter_le])

lemma mac_loop_all:
  "mac_loop (\<lambda>_. False) now i added skipped ms tbl =
    (case dlt.add_all (map (mac_row now) (valid_macs ms)) tbl of (tbl', new) \<Rightarrow>
       Some (tbl', added + length new, skipped + (length ms - length new)))"
proof (induction ms arbitrary: i added skipped tbl)
  case Nil
  then show ?case by (simp add: valid_macs_def)
next
  case (Cons m ms)
  show ?case
  proof (cases "isNormalizedMAC (normalizeMAC (mi_mac m))")
    case False
    then have "valid_macs (m # ms) = valid_macs ms" by (simp add: valid_macs_def)
    with False Cons.IH added_le [of now ms tbl] show ?thesis by (simp add: case_prod_beta)
  next
    case True
    then have v: "valid_macs (m # ms) = m # valid_macs ms" by (simp add: valid_macs_def)
    show ?thesis
    proof (cases "insert_nothing dm_mac (mac_row now m) tbl")
      case (Pair t ins)
      with True v Cons.IH added_le [of now ms t] show ?thesis
        by (cases ins) (simp_all add: case_prod_beta)
    qed
  qed
qed

lemma wf_macs_add_all:
  assumes "wf_macs tbl"
  shows "wf_macs (fst (dlt.add_all (map (mac_row now) (valid_macs ms)) tbl))"
proof -
  let ?t = "dlt.add_all (map (mac_row now) (valid_macs ms)) tbl"
  have "map dm_mac (fst ?t) = map dm_mac tbl @ map dm_mac (snd ?t)"
    by (rule dlt.keys_add_all) simp
  then have "set (map dm_mac (fst ?t)) \<subseteq> set (map dm_mac tbl) \<union> dm_mac ` set (snd ?t)" by simp
  moreover have "set (snd ?t) \<subseteq> set (map (mac_row now) (valid_macs ms))" by (rule dlt.add_all_offered)
  ultimately have "\<forall>x\<in>set (map dm_mac (fst ?t)). isNormalizedMAC x"
    using assms by (fastforce simp: wf_macs_def list_all_iff valid_macs_def mac_row_def)
  moreover have "distinct (map dm_mac (fst ?t))"
    using assms by (intro dlt.add_all_unique) (simp_all add: wf_macs_def unique_by_def)
  ultimately show ?thesis by (simp add: wf_macs_def unique_by_def list_all_iff)
qed

lemma wf_insert_mac:
  assumes "wf_macs tbl" "isNormalizedMAC (normalizeMAC (mi_mac m))"
  shows "wf_macs (fst (insert_nothing dm_mac (mac_row now m) tbl))"
  using assms unique_by_insert_nothing [of dm_mac tbl "mac_row now m"]
  by (auto simp: wf_macs_def insert_nothing_def mac_row_def list_all_iff)

lemma wf_mac_loop:
  "wf_macs tbl \<Longrightarrow> mac_loop flt now i added skipped ms tbl = Some (tbl', n) \<Longrightarrow> wf_macs tbl'"
proof (induction ms arbitrary: i added skipped tbl)
  case Nil
  then show ?case by simp
next
  case (Cons m ms)
  show ?case
  proof (cases "isNormalizedMAC (normalizeMAC (mi_mac m))")
    case False
    with Cons show ?thesis by simp
  next
    case True
    from Cons.IH [OF wf_insert_mac [OF Cons.prems(1) True, of now]] True Cons.prems(2)
    show ?thesis by (simp add: case_prod_beta split: if_splits)
  qed
qed

lemma wf_AddMACMany: "wf_macs tbl \<Longrightarrow> wf_macs (snd (AddMACMany flt fc now ms tbl))"
  using wf_mac_loop by (auto simp: AddMACMany_def split: option.split)

lemma wf_AddMAC: "wf_macs tbl \<Longrightarrow> wf_macs (snd (AddMAC f g now m tbl))"
  using unique_by_insert_nothing [of dm_mac tbl "mac_row now m"]
  by (auto simp: AddMAC_def wf_macs_def insert_nothing_def mac_row_def list_all_iff split: option.splits)

lemma wf_DeleteMAC: "wf_macs tbl \<Longrightarrow> wf_macs (snd (DeleteMAC f mac tbl))"
  by (auto simp: DeleteMAC_def delete_where_def Let_def wf_macs_def unique_by_filter list_all_iff)

lemma find_insert_nothing:
  "find (\<lambda>x. key x = k) (fst (insert_nothing key r rows)) =
     (case find (\<lambda>x. key x = k) rows of Some x \<Rightarrow> Some x | None \<Rightarrow> if key r = k then Some r else None)"
proof (cases "key r \<in> key ` set rows")
  case True
  then obtain x where "x \<in> set rows" "key x = key r" by auto
  then have "find (\<lambda>x. key x = k) rows = None \<Longrightarrow> key r \<noteq> k" by (auto simp: find_None_iff)
  with True show ?thesis by (auto simp: insert_nothing_def split: option.splits)
next
  case False
  then show ?thesis by (simp add: insert_nothing_def find_append split: option.splits)
qed

section \<open>Properties\<close>

text \<open>One device, one entry.  Whatever spelling of an address an administrator denies and
  whatever spelling a client then shows (separators and case may differ), the device is found,
  and a second denial of it adds no row.\<close>

theorem denied_any_spelling:
  assumes "length (mac_digits (mi_mac m)) = 12" and "list_all lower_hex_digit (mac_digits (mi_mac m))"
    and "mac_digits mac' = mac_digits (mi_mac m)"
  shows "(let (r, tbl') = AddMAC False False now m tbl
      in IsMACDenied False mac' tbl' \<noteq> None \<and>
         snd (AddMAC False False now' (m\<lparr>mi_mac := mac'\<rparr>) tbl') = tbl')"
proof -
  have norm: "normalizeMAC mac' = normalizeMAC (mi_mac m)"
    by (rule normalizeMAC_spelling) (simp_all add: assms(1,3))
  have valid: "isNormalizedMAC (normalizeMAC (mi_mac m))"
    using assms(1,2) by (simp add: normalizeMAC_alt isNormalizedMAC_digits)
  then have ne: "normalizeMAC (mi_mac m) \<noteq> []" by (auto simp: isNormalizedMAC_def)
  let ?t = "fst (insert_nothing dm_mac (mac_row now m) tbl)"
  have tbl: "snd (AddMAC False False now m tbl) = ?t"
    using valid by (simp add: AddMAC_def case_prod_beta split: option.splits)
  have key: "dm_mac (mac_row now m) = normalizeMAC (mi_mac m)" by (simp add: mac_row_def)
  have found: "find (\<lambda>r. dm_mac r = normalizeMAC (mi_mac m)) ?t \<noteq> None"
    using key by (simp add: find_insert_nothing split: option.splits)
  then have "normalizeMAC (mi_mac m) \<in> dm_mac ` set ?t"
    by (auto simp: find_None_iff) (metis imageI)
  then have "insert_nothing dm_mac (mac_row now' (m\<lparr>mi_mac := mac'\<rparr>)) ?t = (?t, False)"
    using norm by (simp add: insert_nothing_def mac_row_def)
  then have "snd (AddMAC False False now' (m\<lparr>mi_mac := mac'\<rparr>) ?t) = ?t"
    using valid norm by (simp add: AddMAC_def split: option.splits)
  moreover have "IsMACDenied False mac' ?t \<noteq> None"
    using found ne norm by (simp add: IsMACDenied_def Let_def)
  ultimately show ?thesis using tbl by (simp add: case_prod_beta Let_def)
qed

theorem denied_any_spelling_witness:
  "IsMACDenied False ''aabbccddeeff''
     (snd (AddMAC False False 7 \<lparr>mi_mac = ''AA-BB-CC-DD-EE-FF'', mi_reason = [], mi_by = []\<rparr> [])) \<noteq> None"
proof -
  let ?m = "\<lparr>mi_mac = ''AA-BB-CC-DD-EE-FF'', mi_reason = [], mi_by = []\<rparr>"
  have "length (mac_digits (mi_mac ?m)) = 12" "list_all lower_hex_digit (mac_digits (mi_mac ?m))"
    "mac_digits ''aabbccddeeff'' = mac_digits (mi_mac ?m)"
    by code_simp+
  from denied_any_spelling [OF this, of 7 "[]" 8] show ?thesis
    unfolding case_prod_beta Let_def by (rule conjunct1)
qed

text \<open>A bulk import of addresses.  Without a database fault every offered line is counted
  once, as added or as skipped; every valid address is in the table afterwards; the addresses
  added are new and pairwise different; and the table keeps holding normalized addresses only,
  each once.\<close>

theorem AddMACMany_exact:
  assumes "wf_macs tbl"
  shows "(let ((added, skipped), tbl') = AddMACMany (\<lambda>_. False) False now items tbl
      in added + skipped = length items \<and> length tbl' = length tbl + added \<and> wf_macs tbl' \<and>
         set (map dm_mac tbl') = set (map dm_mac tbl) \<union>
           (normalizeMAC \<circ> mi_mac) ` {m \<in> set items. isNormalizedMAC (normalizeMAC (mi_mac m))})"
proof -
  let ?rs = "map (mac_row now) (valid_macs items)"
  let ?t = "dlt.add_all ?rs tbl"
  have keys: "map dm_mac (fst ?t) = map dm_mac tbl @ map dm_mac (snd ?t)"
    by (rule dlt.keys_add_all) simp
  have "length (map dm_mac (fst ?t)) = length tbl + length (snd ?t)" by (simp add: keys)
  then have len: "length (fst ?t) = length tbl + length (snd ?t)" by simp
  have "dm_mac ` set ?rs \<subseteq> set (map dm_mac (fst ?t))" by (rule dlt.add_all_covers) simp
  moreover have "set (snd ?t) \<subseteq> set ?rs" by (rule dlt.add_all_offered)
  ultimately have "set (map dm_mac (fst ?t)) = set (map dm_mac tbl) \<union> dm_mac ` set ?rs"
    unfolding keys by auto
  moreover have "dm_mac ` set ?rs =
      (normalizeMAC \<circ> mi_mac) ` {m \<in> set items. isNormalizedMAC (normalizeMAC (mi_mac m))}"
    by (auto simp: valid_macs_def mac_row_def image_image)
  ultimately show ?thesis
    using len wf_macs_add_all [OF assms, of now items] added_le [of now items tbl]
    by (simp add: AddMACMany_def mac_loop_all case_prod_beta)
qed

theorem AddMACMany_exact_witness:
  "fst (fst (AddMACMany (\<lambda>_. False) False 7
      [\<lparr>mi_mac = ''x'', mi_reason = [], mi_by = []\<rparr>] [])) +
   snd (fst (AddMACMany (\<lambda>_. False) False 7
      [\<lparr>mi_mac = ''x'', mi_reason = [], mi_by = []\<rparr>] [])) = 1"
proof -
  have "wf_macs []" by (simp add: wf_macs_def)
  from AddMACMany_exact [OF this, of 7 "[\<lparr>mi_mac = ''x'', mi_reason = [], mi_by = []\<rparr>]"]
  show ?thesis by (simp add: case_prod_beta Let_def)
qed

end
