(* ===== verification/EventLog.thy ===== *)
theory EventLog
  imports Table
begin

text \<open>
  The audit trail: \<open>portal/eventlog.go\<close> and \<open>portal/store_eventlog.go\<close>.  Events are rows of one
  table; they are appended by every sign-in step and administrative action, filtered for the
  panel, and removed in batches when they are older than the retention.
\<close>

record Event =
  ev_id :: nat
  ev_time :: time
  ev_kind :: string
  ev_subject :: string
  ev_result :: string
  ev_method :: string
  ev_mac :: string
  ev_ip :: string
  ev_detail :: string

record eventTable =
  et_rows :: "Event list"
  et_next :: nat

definition KindLogin :: string where "KindLogin = ''login''"
definition KindAdminAction :: string where "KindAdminAction = ''admin_action''"
definition ResultStarted :: string where "ResultStarted = ''started''"
definition ResultSuccess :: string where "ResultSuccess = ''success''"
definition ResultDenied :: string where "ResultDenied = ''denied''"
definition ResultRateLimited :: string where "ResultRateLimited = ''rate_limited''"
definition ResultError :: string where "ResultError = ''error''"
definition MethodSSO :: string where "MethodSSO = ''sso''"
definition MethodDuo :: string where "MethodDuo = ''duo''"
definition MethodGuestCode :: string where "MethodGuestCode = ''guest_code''"
definition MethodAdmin :: string where "MethodAdmin = ''admin''"

lemmas event_consts = KindLogin_def KindAdminAction_def ResultStarted_def ResultSuccess_def
  ResultDenied_def ResultRateLimited_def ResultError_def MethodSSO_def MethodDuo_def
  MethodGuestCode_def MethodAdmin_def

section \<open>Writing\<close>

text \<open>A failed insert is logged and has no other effect.\<close>

definition Append :: "bool \<Rightarrow> time \<Rightarrow> Event \<Rightarrow> eventTable \<Rightarrow> eventTable" where
  "Append flt now ev t =
     (let row = (if is_zero (ev_time ev) then ev\<lparr>ev_time := now\<rparr> else ev)
      in if flt then t
         else t\<lparr>et_rows := et_rows t @ [row\<lparr>ev_id := et_next t\<rparr>], et_next := Suc (et_next t)\<rparr>)"

definition login_event :: "string \<Rightarrow> string \<Rightarrow> string \<Rightarrow> string \<Rightarrow> string \<Rightarrow> string \<Rightarrow> Event" where
  "login_event subject result method mac ip detail =
     \<lparr>ev_id = 0, ev_time = zero_time, ev_kind = KindLogin, ev_subject = subject, ev_result = result,
      ev_method = method, ev_mac = mac, ev_ip = ip, ev_detail = detail\<rparr>"

definition logLogin ::
  "bool \<Rightarrow> time \<Rightarrow> string \<Rightarrow> string \<Rightarrow> string \<Rightarrow> string \<Rightarrow> string \<Rightarrow> string \<Rightarrow> eventTable \<Rightarrow> eventTable" where
  "logLogin flt now subject result method mac ip detail t =
     Append flt now (login_event subject result method mac ip detail) t"

definition logAdminAction ::
  "bool \<Rightarrow> time \<Rightarrow> string \<Rightarrow> string \<Rightarrow> string \<Rightarrow> string \<Rightarrow> eventTable \<Rightarrow> eventTable" where
  "logAdminAction flt now adminUPN ip result detail t =
     Append flt now
       \<lparr>ev_id = 0, ev_time = zero_time, ev_kind = KindAdminAction, ev_subject = adminUPN,
        ev_result = result, ev_method = MethodAdmin, ev_mac = [], ev_ip = ip, ev_detail = detail\<rparr> t"


section \<open>Reading\<close>

record EventQueryFilter =
  qf_kind :: string
  qf_method :: string
  qf_result :: string
  qf_subject :: string
  qf_since :: time
  qf_until :: time
  qf_limit :: int

definition applyFilter :: "EventQueryFilter \<Rightarrow> Event \<Rightarrow> bool" where
  "applyFilter f ev \<longleftrightarrow>
     (qf_kind f = [] \<or> ev_kind ev = qf_kind f) \<and>
     (qf_method f = [] \<or> ev_method ev = qf_method f) \<and>
     (qf_result f = [] \<or> ev_result ev = qf_result f) \<and>
     (let s = trim_space (qf_subject f)
      in s = [] \<or> like_contains (to_lower s) (to_lower (ev_subject ev))) \<and>
     (is_zero (qf_since f) \<or> ev_time ev \<ge> qf_since f) \<and>
     (is_zero (qf_until f) \<or> ev_time ev \<le> qf_until f)"

definition Query :: "bool \<Rightarrow> EventQueryFilter \<Rightarrow> eventTable \<Rightarrow> Event list" where
  "Query flt f t =
     (if flt then []
      else page_of 0 (qf_limit f)
             (sort_key (\<lambda>ev. (- ev_time ev, - int (ev_id ev))) (filter (applyFilter f) (et_rows t))))"

definition Count :: "bool \<Rightarrow> EventQueryFilter \<Rightarrow> eventTable \<Rightarrow> nat" where
  "Count flt f t = (if flt then 0 else length (filter (applyFilter f) (et_rows t)))"

definition MultiCount :: "(nat \<Rightarrow> bool) \<Rightarrow> EventQueryFilter list \<Rightarrow> eventTable \<Rightarrow> nat list" where
  "MultiCount flt fs t = map (\<lambda>(i, f). Count (flt i) f t) (enumerate 0 fs)"


section \<open>Pruning\<close>

definition pruneBatch :: nat where "pruneBatch = 5000"
definition pruneMaxBatches :: nat where "pruneMaxBatches = 1000"

text \<open>The identifiers of one batch: the lowest ones among the rows before the cutoff.\<close>

definition batch_ids :: "time \<Rightarrow> eventTable \<Rightarrow> nat list" where
  "batch_ids cutoff t =
     take pruneBatch (sort (map ev_id (filter (\<lambda>ev. ev_time ev < cutoff) (et_rows t))))"

text \<open>\<open>fltScan i\<close> and \<open>fltDelete i\<close> fail the two statements of the batch with \<open>i\<close> more to go.\<close>

fun prune_loop ::
  "(nat \<Rightarrow> bool) \<Rightarrow> (nat \<Rightarrow> bool) \<Rightarrow> nat \<Rightarrow> time \<Rightarrow> nat \<Rightarrow> eventTable \<Rightarrow> nat \<times> eventTable" where
  "prune_loop fltScan fltDelete 0 cutoff deleted t = (deleted, t)"
| "prune_loop fltScan fltDelete (Suc i) cutoff deleted t =
     (if fltScan i then (deleted, t)
      else (let ids = batch_ids cutoff t
            in if ids = [] then (deleted, t)
               else if fltDelete i then (deleted, t)
               else (let (n, rows) = delete_where (\<lambda>ev. ev_id ev \<in> set ids) (et_rows t);
                         t' = t\<lparr>et_rows := rows\<rparr>
                     in if length ids < pruneBatch then (deleted + n, t')
                        else prune_loop fltScan fltDelete i cutoff (deleted + n) t')))"

definition Prune ::
  "(nat \<Rightarrow> bool) \<Rightarrow> (nat \<Rightarrow> bool) \<Rightarrow> time \<Rightarrow> duration \<Rightarrow> eventTable \<Rightarrow> nat \<times> eventTable" where
  "Prune fltScan fltDelete now retention t =
     (if retention \<le> 0 then (0, t)
      else prune_loop fltScan fltDelete pruneMaxBatches (now - retention) 0 t)"


section \<open>Export\<close>

definition sanitizeCSVCell :: "string \<Rightarrow> string" where
  "sanitizeCSVCell s =
     (case s of
        [] \<Rightarrow> []
      | c # cs \<Rightarrow>
          if c \<in> {CHR ''='', CHR ''+'', CHR ''-'', CHR ''@'', CHR 0x09, CHR 0x0D}
          then CHR 0x27 # s else s)"

definition eventKindLabel :: "string \<Rightarrow> string" where
  "eventKindLabel k = (if k = KindLogin then ''login'' else if k = KindAdminAction then ''admin'' else k)"

definition eventMethodLabel :: "string \<Rightarrow> string" where
  "eventMethodLabel m =
     (if m = MethodSSO then ''SSO'' else if m = MethodDuo then ''Duo''
      else if m = MethodGuestCode then ''guest_code'' else if m = MethodAdmin then ''admin_console'' else m)"

definition eventResultLabel :: "string \<Rightarrow> string" where
  "eventResultLabel r =
     (if r = ResultStarted then ''started'' else if r = ResultSuccess then ''success''
      else if r = ResultDenied then ''denied'' else if r = ResultRateLimited then ''rate_limited''
      else if r = ResultError then ''error'' else r)"

text \<open>The cells of the export; \<open>fmt_time\<close> is the local rendering of an instant.\<close>

definition csv_header :: "string list" where
  "csv_header = [''Time'', ''Kind'', ''Subject'', ''Method'', ''Result'', ''MAC'', ''IP'', ''Detail'']"

definition event_cells :: "(time \<Rightarrow> string) \<Rightarrow> Event \<Rightarrow> string list" where
  "event_cells fmt_time ev =
     map sanitizeCSVCell
       [fmt_time (ev_time ev), eventKindLabel (ev_kind ev), ev_subject ev,
        eventMethodLabel (ev_method ev), eventResultLabel (ev_result ev), ev_mac ev, ev_ip ev,
        ev_detail ev]"

definition WriteEventsCSV :: "(time \<Rightarrow> string) \<Rightarrow> Event list \<Rightarrow> string list list" where
  "WriteEventsCSV fmt_time evs = csv_header # map (event_cells fmt_time) evs"


section \<open>Lemmas\<close>

definition wf_events :: "eventTable \<Rightarrow> bool" where
  "wf_events t \<longleftrightarrow> distinct (map ev_id (et_rows t)) \<and> (\<forall>ev\<in>set (et_rows t). ev_id ev < et_next t)"

lemma wf_Append [wf_intros]: "wf_events t \<Longrightarrow> wf_events (Append flt now ev t)"
  by (auto simp: wf_events_def Append_def Let_def)

lemma wf_logLogin [wf_intros]: "wf_events t \<Longrightarrow> wf_events (logLogin flt now s r m mac ip d t)"
  by (simp add: logLogin_def wf_Append)

lemma wf_logAdminAction [wf_intros]: "wf_events t \<Longrightarrow> wf_events (logAdminAction flt now u ip r d t)"
  by (simp add: logAdminAction_def wf_Append)

abbreviation old_event :: "time \<Rightarrow> Event \<Rightarrow> bool" where
  "old_event cutoff ev \<equiv> ev_time ev < cutoff"

lemma batch_ids_props:
  fixes t :: eventTable and c :: time
  assumes "distinct (map ev_id (et_rows t))"
  defines "old \<equiv> filter (old_event c) (et_rows t)"
  shows "distinct (batch_ids c t)" "set (batch_ids c t) \<subseteq> ev_id ` set old"
    and "length (batch_ids c t) = min pruneBatch (length old)"
proof -
  have "distinct (map ev_id old)" using assms(1) by (simp add: old_def distinct_map_filter)
  then show "distinct (batch_ids c t)" by (simp add: batch_ids_def old_def)
  show "set (batch_ids c t) \<subseteq> ev_id ` set old"
    using set_take_subset [of pruneBatch "sort (map ev_id old)"] by (simp add: batch_ids_def old_def)
  show "length (batch_ids c t) = min pruneBatch (length old)" by (simp add: batch_ids_def old_def)
qed

lemma batch_deletes:
  assumes "distinct (map ev_id (et_rows t))"
  shows "length (filter (\<lambda>ev. ev_id ev \<in> set (batch_ids c t)) (et_rows t)) = length (batch_ids c t)"
    and "ev \<in> set (et_rows t) \<Longrightarrow> ev_id ev \<in> set (batch_ids c t) \<Longrightarrow> old_event c ev"
proof -
  note props = batch_ids_props [OF assms, of c]
  let ?hit = "filter (\<lambda>ev. ev_id ev \<in> set (batch_ids c t)) (et_rows t)"
  have "distinct (map ev_id ?hit)" using assms by (simp add: distinct_map_filter)
  moreover have "set (map ev_id ?hit) = set (batch_ids c t)" using props(2) by auto
  ultimately have "length (map ev_id ?hit) = length (batch_ids c t)"
    using props(1) distinct_card by metis
  then show "length ?hit = length (batch_ids c t)" by simp
  show "old_event c ev" if "ev \<in> set (et_rows t)" "ev_id ev \<in> set (batch_ids c t)"
  proof -
    from that(2) props(2) obtain ev' where "ev' \<in> set (et_rows t)" "old_event c ev'" "ev_id ev' = ev_id ev"
      by auto
    with assms that(1) have "ev' = ev" by (auto simp: distinct_map dest: inj_onD)
    with \<open>old_event c ev'\<close> show ?thesis by simp
  qed
qed

lemma filter_remaining:
  assumes "\<And>x. x \<in> set xs \<Longrightarrow> q x \<Longrightarrow> p x"
  shows "filter (\<lambda>x. \<not> p x) (filter (\<lambda>x. \<not> q x) xs) = filter (\<lambda>x. \<not> p x) xs"
    and "length (filter p (filter (\<lambda>x. \<not> q x) xs)) = length (filter p xs) - length (filter q xs)"
proof -
  show "filter (\<lambda>x. \<not> p x) (filter (\<lambda>x. \<not> q x) xs) = filter (\<lambda>x. \<not> p x) xs"
    using assms by (auto intro!: filter_cong)
  have "length (filter p xs) = length (filter q xs) + length (filter p (filter (\<lambda>x. \<not> q x) xs))"
    using assms by (induction xs) auto
  then show "length (filter p (filter (\<lambda>x. \<not> q x) xs)) = length (filter p xs) - length (filter q xs)"
    by simp
qed

lemma prune_loop_exact:
  assumes "distinct (map ev_id (et_rows t))"
    and "length (filter (old_event c) (et_rows t)) \<le> n * pruneBatch"
  shows "prune_loop (\<lambda>_. False) (\<lambda>_. False) n c d t =
    (d + length (filter (old_event c) (et_rows t)), t\<lparr>et_rows := filter (\<lambda>ev. \<not> old_event c ev) (et_rows t)\<rparr>)"
  using assms
proof (induction n arbitrary: d t)
  case 0
  then have "filter (old_event c) (et_rows t) = []" by simp
  then have "filter (\<lambda>ev. \<not> old_event c ev) (et_rows t) = et_rows t"
    by (simp add: filter_empty_conv)
  with 0 show ?case by simp
next
  case (Suc n)
  let ?old = "filter (old_event c) (et_rows t)" and ?ids = "batch_ids c t"
  let ?rows = "filter (\<lambda>ev. ev_id ev \<notin> set ?ids) (et_rows t)"
  note props = batch_ids_props [OF Suc.prems(1), of c] and del = batch_deletes [OF Suc.prems(1), where c = c]
  have rest: "filter (\<lambda>ev. \<not> old_event c ev) ?rows = filter (\<lambda>ev. \<not> old_event c ev) (et_rows t)"
    "length (filter (old_event c) ?rows) = length ?old - length ?ids"
    using filter_remaining [of "et_rows t" "\<lambda>ev. ev_id ev \<in> set ?ids" "\<lambda>ev. old_event c ev"] del
    by simp_all
  show ?case
  proof (cases "length ?old < pruneBatch")
    case small: True
    then have len: "length ?ids = length ?old" using props(3) by simp
    then have none: "filter (old_event c) ?rows = []" using rest(2) by simp
    then have all: "?rows = filter (\<lambda>ev. \<not> old_event c ev) (et_rows t)"
      using rest(1) by (metis (mono_tags, lifting) filter_True filter_empty_conv)
    show ?thesis
    proof (cases "?ids = []")
      case True
      with len have "?old = []" by simp
      then have "filter (\<lambda>ev. \<not> old_event c ev) (et_rows t) = et_rows t" by (simp add: filter_empty_conv)
      with True \<open>?old = []\<close> show ?thesis by simp
    next
      case False
      with small len del(1) all show ?thesis by (simp add: delete_where_def Let_def)
    qed
  next
    case False
    then have len: "length ?ids = pruneBatch" using props(3) by simp
    then have ne: "?ids \<noteq> []" by (auto simp: pruneBatch_def)
    have "distinct (map ev_id ?rows)" using Suc.prems(1) by (simp add: distinct_map_filter)
    moreover have "length (filter (old_event c) ?rows) \<le> n * pruneBatch"
      using rest(2) len Suc.prems(2) by simp
    ultimately have "prune_loop (\<lambda>_. False) (\<lambda>_. False) n c (d + length ?ids) (t\<lparr>et_rows := ?rows\<rparr>) =
        (d + length ?ids + length (filter (old_event c) ?rows),
         t\<lparr>et_rows := filter (\<lambda>ev. \<not> old_event c ev) ?rows\<rparr>)"
      using Suc.IH [of "t\<lparr>et_rows := ?rows\<rparr>" "d + length ?ids"] by simp
    moreover have "length ?ids \<le> length ?old" using props(3) by simp
    ultimately show ?thesis
      using ne len del(1) rest by (simp add: delete_where_def Let_def)
  qed
qed


section \<open>Properties\<close>

text \<open>Retention.  With the database working and no more than five million events to remove,
  a sweep deletes exactly the events older than the retention and reports how many.\<close>

theorem Prune_exact:
  assumes "wf_events t" and "0 < retention"
    and "length (filter (\<lambda>ev. ev_time ev < now - retention) (et_rows t)) \<le> 5000000"
  shows "Prune (\<lambda>_. False) (\<lambda>_. False) now retention t =
    (length (filter (\<lambda>ev. ev_time ev < now - retention) (et_rows t)),
     t\<lparr>et_rows := filter (\<lambda>ev. now - retention \<le> ev_time ev) (et_rows t)\<rparr>)"
  using assms prune_loop_exact [of t "now - retention" pruneMaxBatches 0]
  by (simp add: Prune_def wf_events_def pruneMaxBatches_def pruneBatch_def not_less)

theorem Prune_exact_witness:
  "fst (Prune (\<lambda>_. False) (\<lambda>_. False) 100 10
     \<lparr>et_rows = [\<lparr>ev_id = 1, ev_time = 5, ev_kind = KindLogin, ev_subject = [], ev_result = [],
        ev_method = [], ev_mac = [], ev_ip = [], ev_detail = []\<rparr>], et_next = 2\<rparr>) = 1"
  by (subst Prune_exact) (simp_all add: wf_events_def)

text \<open>The export cannot carry a formula.  No cell of an exported event starts with a
  character that makes a spreadsheet evaluate it, whatever was logged.\<close>

theorem export_no_formula:
  assumes "row \<in> set (WriteEventsCSV fmt_time evs)" and "cell \<in> set row"
  shows "cell = [] \<or> hd cell \<notin> set ''=+-@'' \<union> {CHR 0x09, CHR 0x0D}"
proof -
  let ?safe = "\<lambda>s. s = [] \<or> hd s \<notin> set ''=+-@'' \<union> {CHR 0x09, CHR 0x0D}"
  have cell: "?safe (sanitizeCSVCell s)" for s
    by (cases s) (auto simp: sanitizeCSVCell_def)
  have header: "list_all ?safe csv_header"
    by (simp add: csv_header_def)
  from assms(1) have "row = csv_header \<or> (\<exists>xs. row = map sanitizeCSVCell xs)"
    unfolding WriteEventsCSV_def event_cells_def by (auto simp del: list.map)
  then show ?thesis
  proof
    assume "row = csv_header"
    with header assms(2) show ?thesis unfolding list_all_iff by blast
  next
    assume "\<exists>xs. row = map sanitizeCSVCell xs"
    with assms(2) obtain s where "cell = sanitizeCSVCell s" by auto
    with cell [of s] show ?thesis by simp
  qed
qed

theorem export_no_formula_witness:
  "hd (sanitizeCSVCell ''=1+1'') \<notin> set ''=+-@'' \<union> {CHR 0x09, CHR 0x0D}"
proof -
  let ?ev = "\<lparr>ev_id = 1, ev_time = 5, ev_kind = KindLogin, ev_subject = ''=1+1'', ev_result = [],
        ev_method = [], ev_mac = [], ev_ip = [], ev_detail = []\<rparr>"
  have "event_cells (\<lambda>_. []) ?ev \<in> set (WriteEventsCSV (\<lambda>_. []) [?ev])"
    "sanitizeCSVCell ''=1+1'' \<in> set (event_cells (\<lambda>_. []) ?ev)"
    by (simp_all add: WriteEventsCSV_def event_cells_def)
  from export_no_formula [OF this] show ?thesis by (simp add: sanitizeCSVCell_def)
qed

end
