(* ===== verification/IKuai.thy ===== *)
theory IKuai
  imports Denylist Http
begin

text \<open>
  The two sides of the router's protocol, \<open>portal/ikuai.go\<close>: reading the device from the
  redirected request and building the allow-list URL.  The URL is a query of escaped values;
  the digest (MD5) is the parameter \<open>md5\<close>.
\<close>

section \<open>Query strings\<close>

text \<open>\<open>url.Values.Encode\<close> on values with one entry per key.\<close>

definition encode_pair :: "string \<times> string \<Rightarrow> string" where
  "encode_pair kv = query_escape (fst kv) @ ''='' @ query_escape (snd kv)"

definition values_encode :: "(string \<times> string) list \<Rightarrow> string" where
  "values_encode kvs = join ''&'' (map encode_pair (sort_key fst kvs))"

text \<open>\<open>url.ParseQuery\<close>, without the empty pieces.\<close>

definition cut_eq :: "string \<Rightarrow> string \<times> string" where
  "cut_eq s = (takeWhile (\<lambda>c. c \<noteq> CHR ''='') s, tl (dropWhile (\<lambda>c. c \<noteq> CHR ''='') s))"

definition parse_pair :: "string \<Rightarrow> (string \<times> string) option" where
  "parse_pair s =
     (case (query_unescape (fst (cut_eq s)), query_unescape (snd (cut_eq s))) of
        (Some k, Some v) \<Rightarrow> Some (k, v)
      | _ \<Rightarrow> None)"

definition parse_query :: "string \<Rightarrow> (string \<times> string) list" where
  "parse_query s = List.map_filter parse_pair (filter (\<lambda>p. p \<noteq> []) (split_on CHR ''&'' s))"

lemma parse_pair_escape: "parse_pair (encode_pair kv) = Some kv"
proof -
  have plain: "c \<in> set (query_escape (fst kv)) \<Longrightarrow> c \<noteq> CHR ''=''" for c
    using escape_no_delim by blast
  then have "takeWhile (\<lambda>c. c \<noteq> CHR ''='') (query_escape (fst kv) @ CHR ''='' # query_escape (snd kv)) =
      query_escape (fst kv)"
    by (subst takeWhile_append2) auto
  moreover have "dropWhile (\<lambda>c. c \<noteq> CHR ''='') (query_escape (fst kv) @ CHR ''='' # query_escape (snd kv)) =
      CHR ''='' # query_escape (snd kv)"
    using plain by (subst dropWhile_append2) auto
  ultimately show ?thesis by (simp add: parse_pair_def cut_eq_def encode_pair_def query_roundtrip)
qed

lemma encode_pair_plain: "CHR ''&'' \<notin> set (encode_pair kv)" "encode_pair kv \<noteq> []"
  using escape_no_delim [of "CHR ''&''"] by (auto simp: encode_pair_def)

lemma values_roundtrip:
  assumes "kvs \<noteq> []"
  shows "parse_query (values_encode kvs) = sort_key fst kvs"
proof -
  have "map encode_pair (sort_key fst kvs) \<noteq> []"
    using assms by (simp flip: length_greater_0_conv)
  then have "split_on CHR ''&'' (values_encode kvs) = map encode_pair (sort_key fst kvs)"
    unfolding values_encode_def using encode_pair_plain by (intro split_join) auto
  moreover have "List.map_filter parse_pair (filter (\<lambda>p. p \<noteq> []) (map encode_pair xs)) = xs" for xs
    using parse_pair_escape encode_pair_plain by (induction xs) (simp_all add: map_filter_simps)
  ultimately show ?thesis by (simp add: parse_query_def)
qed

lemma sort_key_map_of: "distinct (map fst kvs) \<Longrightarrow> map_of (sort_key fst kvs) = map_of kvs"
  by (rule map_of_eqI) (auto simp: distinct_map inj_on_def map_of_eq_Some_iff)


section \<open>The device of a request\<close>

record DeviceInfo =
  dev_ip :: string
  dev_mac :: string

fun firstNonEmpty :: "request \<Rightarrow> string list \<Rightarrow> string" where
  "firstNonEmpty r [] = []"
| "firstNonEmpty r (k # ks) =
     (let v = trim_space (query r k) in if v \<noteq> [] then v else firstNonEmpty r ks)"

definition extractDeviceInfo :: "Config \<Rightarrow> request \<Rightarrow> DeviceInfo option" where
  "extractDeviceInfo cfg r =
     (let ip = firstNonEmpty r (IKuaiIPKeys cfg);
          mac = normalizeMAC (firstNonEmpty r (IKuaiMACKeys cfg))
      in if ip = [] \<or> mac = [] then None else Some \<lparr>dev_ip = ip, dev_mac = mac\<rparr>)"


section \<open>The allow-list URL\<close>

definition ikuaiUserID :: "IKuaiAuthProfile \<Rightarrow> string \<Rightarrow> string" where
  "ikuaiUserID profile identity =
     (let ident = trim_space identity
      in if profile = IKuaiProfileSSO then ''SSO-'' @ ident
         else if profile = IKuaiProfileDuo then ''Duo-'' @ ident
         else if profile = IKuaiProfileGuest
         then ''Guest-'' @ trim_prefix (trim_prefix ident ''guest-'') ''Guest-''
         else ident)"

definition auth_token ::
  "(string \<Rightarrow> string) \<Rightarrow> Config \<Rightarrow> DeviceInfo \<Rightarrow> string \<Rightarrow> string \<Rightarrow> string \<Rightarrow> string" where
  "auth_token md5 cfg dev timestamp upload download =
     hex_encode (md5 (''user_ip='' @ dev_ip dev @ ''&timestamp='' @ timestamp @ ''&mac='' @ dev_mac dev @
       ''&upload='' @ upload @ ''&download='' @ download @ ''&key='' @ IKuaiAppKey cfg))"

definition auth_params ::
  "(string \<Rightarrow> string) \<Rightarrow> time \<Rightarrow> Config \<Rightarrow> DeviceInfo \<Rightarrow> string \<Rightarrow> IKuaiAuthProfile \<Rightarrow> IKuaiPolicy \<Rightarrow>
   (string \<times> string) list" where
  "auth_params md5 now cfg dev userUPN profile policy =
     (let timestamp = itoa (unix now);
          upload = itoa (p_upload policy);
          download = itoa (p_download policy);
          userID = ikuaiUserID profile userUPN
      in [(''type'', ''20''), (''user_id'', userID), (''custom_name'', userID),
          (''user_ip'', dev_ip dev), (''timestamp'', timestamp), (''mac'', dev_mac dev),
          (''upload'', upload), (''download'', download), (''timeout'', itoa (p_timeout policy))] @
         (if p_comment policy \<noteq> [] then [(''comment'', p_comment policy)] else []) @
         [(''token'', auth_token md5 cfg dev timestamp upload download),
          (''release_type'', IKuaiReleaseType cfg)])"

definition buildWebAuthURL ::
  "(string \<Rightarrow> string) \<Rightarrow> time \<Rightarrow> Config \<Rightarrow> DeviceInfo \<Rightarrow> string \<Rightarrow> IKuaiAuthProfile \<Rightarrow> IKuaiPolicy \<Rightarrow> string" where
  "buildWebAuthURL md5 now cfg dev userUPN profile policy =
     IKuaiWebAuthURL cfg @ ''?'' @ values_encode (auth_params md5 now cfg dev userUPN profile policy)"

lemma auth_params_keys:
  "distinct (map fst (auth_params md5 now cfg dev upn profile policy))"
  by (simp add: auth_params_def Let_def)

text \<open>What the router reads from the URL.\<close>

definition router_query :: "Config \<Rightarrow> string \<Rightarrow> string \<Rightarrow> string option" where
  "router_query cfg url k = map_of (parse_query (drop (length (IKuaiWebAuthURL cfg) + 1) url)) k"

lemma router_query_url:
  "router_query cfg (buildWebAuthURL md5 now cfg dev upn profile policy) =
     map_of (auth_params md5 now cfg dev upn profile policy)"
proof
  fix k
  have "auth_params md5 now cfg dev upn profile policy \<noteq> []"
    by (simp add: auth_params_def Let_def)
  then show "router_query cfg (buildWebAuthURL md5 now cfg dev upn profile policy) k =
      map_of (auth_params md5 now cfg dev upn profile policy) k"
    by (simp add: router_query_def buildWebAuthURL_def values_roundtrip
        sort_key_map_of [OF auth_params_keys])
qed


section \<open>Properties\<close>

text \<open>The allow-list request.  Whatever bytes the identity, the device fields and the comment
  consist of, the router decodes from the URL exactly the parameters the portal set: the limits
  of the policy, the device, the identity with its method prefix, and the token over the same
  device, time and limits.  Nothing in a value can add or override a parameter.\<close>

theorem router_reads_policy:
  "router_query cfg (buildWebAuthURL md5 now cfg dev upn profile policy) ''timeout'' = Some (itoa (p_timeout policy)) \<and>
   router_query cfg (buildWebAuthURL md5 now cfg dev upn profile policy) ''upload'' = Some (itoa (p_upload policy)) \<and>
   router_query cfg (buildWebAuthURL md5 now cfg dev upn profile policy) ''download'' = Some (itoa (p_download policy)) \<and>
   router_query cfg (buildWebAuthURL md5 now cfg dev upn profile policy) ''mac'' = Some (dev_mac dev) \<and>
   router_query cfg (buildWebAuthURL md5 now cfg dev upn profile policy) ''user_ip'' = Some (dev_ip dev) \<and>
   router_query cfg (buildWebAuthURL md5 now cfg dev upn profile policy) ''user_id'' = Some (ikuaiUserID profile upn) \<and>
   router_query cfg (buildWebAuthURL md5 now cfg dev upn profile policy) ''token'' =
     Some (auth_token md5 cfg dev (itoa (unix now)) (itoa (p_upload policy)) (itoa (p_download policy))) \<and>
   {k. router_query cfg (buildWebAuthURL md5 now cfg dev upn profile policy) k \<noteq> None} \<subseteq>
     {''type'', ''user_id'', ''custom_name'', ''user_ip'', ''timestamp'', ''mac'', ''upload'', ''download'',
      ''timeout'', ''comment'', ''token'', ''release_type''}"
  unfolding router_query_url by (auto simp: auth_params_def Let_def split: if_splits)

end
