(* ===== verification/Duo.thy ===== *)
theory Duo
  imports IKuai Session
begin

text \<open>
  The Duo clients: signed tokens and the Universal Prompt (\<open>portal/duo_universal.go\<close>) and the
  request signing of the preauth call (\<open>portal/duo.go\<close>).  The keyed hashes, the HTTP exchange
  and the decoder of foreign JSON are parameters: \<open>hmac512 key data\<close>, \<open>hmac1 key data\<close>,
  \<open>http url form\<close> (status and body, or \<open>None\<close> when the call fails) and \<open>unmarshal\<close>, which
  gives the members of an object in order.
\<close>

section \<open>Claims\<close>

datatype claim = ClaimStr string | ClaimNum int | ClaimNull | ClaimOther

type_synonym claims = "(string \<times> claim) list"

text \<open>A map keeps the last of repeated members; a failed string assertion leaves the empty string.\<close>

definition claim_of :: "claims \<Rightarrow> string \<Rightarrow> claim option" where
  "claim_of cs k = map_of (rev cs) k"

definition claim_str :: "claims \<Rightarrow> string \<Rightarrow> string" where
  "claim_str cs k = (case claim_of cs k of Some (ClaimStr s) \<Rightarrow> s | _ \<Rightarrow> [])"

fun jval_claim :: "jval \<Rightarrow> claim" where
  "jval_claim (JStr s) = ClaimStr s"
| "jval_claim (JInt i) = ClaimNum i"

definition json_claims :: "json \<Rightarrow> claims" where
  "json_claims ms = map (map_prod id jval_claim) ms"

text \<open>
  A string field of a decoded structure: the last matching member counts, \<open>null\<close> leaves the
  field as it is; \<open>None\<close> for a wrong type.
\<close>

fun field_loop :: "string \<Rightarrow> claim list \<Rightarrow> string option" where
  "field_loop acc [] = Some acc"
| "field_loop acc (ClaimStr s # vs) = field_loop s vs"
| "field_loop acc (ClaimNull # vs) = field_loop acc vs"
| "field_loop acc (_ # vs) = None"

definition claim_field :: "string \<Rightarrow> claims \<Rightarrow> string option" where
  "claim_field name cs = field_loop [] (map snd (filter (\<lambda>m. equal_fold (fst m) name) cs))"


section \<open>Signed tokens\<close>

definition jwt_header :: json where
  "jwt_header = [(''alg'', JStr ''HS512''), (''typ'', JStr ''JWT'')]"

text \<open>\<open>Marshal\<close> writes the members of a map in the order of their keys.\<close>

definition signJWTHS512 :: "(string \<Rightarrow> string \<Rightarrow> string) \<Rightarrow> json \<Rightarrow> string \<Rightarrow> string" where
  "signJWTHS512 hmac512 ms secret =
     (let signingInput = b64_encode (json_print jwt_header) @ ''.'' @ b64_encode (json_print (sort_key fst ms))
      in signingInput @ ''.'' @ b64_encode (hmac512 secret signingInput))"

datatype jwt_error =
    JwtFormat | JwtSigEncoding | JwtSignature | JwtHeaderEncoding | JwtHeader | JwtAlg string
  | JwtPayloadEncoding | JwtPayload | JwtNoExp | JwtExpType | JwtExpired

definition check_exp :: "time \<Rightarrow> claims \<Rightarrow> jwt_error + claims" where
  "check_exp now cs =
     (case claim_of cs ''exp'' of
        None \<Rightarrow> Inl JwtNoExp
      | Some (ClaimNum e) \<Rightarrow> if unix now > e + 30 then Inl JwtExpired else Inr cs
      | Some _ \<Rightarrow> Inl JwtExpType)"

definition verifyJWTHS512 ::
  "(string \<Rightarrow> string \<Rightarrow> string) \<Rightarrow> (string \<Rightarrow> claims option) \<Rightarrow> time \<Rightarrow> string \<Rightarrow> string \<Rightarrow> jwt_error + claims" where
  "verifyJWTHS512 hmac512 unmarshal now token secret =
     (case split_on CHR ''.'' token of
        [h, p, s] \<Rightarrow>
          (case b64_decode s of
             None \<Rightarrow> Inl JwtSigEncoding
           | Some gotSig \<Rightarrow>
               if hmac512 secret (h @ ''.'' @ p) \<noteq> gotSig then Inl JwtSignature
               else (case b64_decode h of
                 None \<Rightarrow> Inl JwtHeaderEncoding
               | Some headerBytes \<Rightarrow>
                   (case Option.bind (unmarshal headerBytes) (claim_field ''Alg'') of
                      None \<Rightarrow> Inl JwtHeader
                    | Some alg \<Rightarrow>
                        if alg \<noteq> ''HS512'' then Inl (JwtAlg alg)
                        else (case b64_decode p of
                          None \<Rightarrow> Inl JwtPayloadEncoding
                        | Some payload \<Rightarrow>
                            (case unmarshal payload of
                               None \<Rightarrow> Inl JwtPayload
                             | Some cs \<Rightarrow> check_exp now cs)))))
      | _ \<Rightarrow> Inl JwtFormat)"


section \<open>The Universal Prompt\<close>

record DuoUniversalClient =
  du_clientID :: string
  du_clientSecret :: string
  du_apiHost :: string
  du_redirectURI :: string

definition newDuoUniversalClient :: "Config \<Rightarrow> DuoUniversalClient" where
  "newDuoUniversalClient cfg =
     \<lparr>du_clientID = DuoClientID cfg, du_clientSecret = DuoClientSecret cfg,
      du_apiHost = to_lower (DuoAPIHost cfg), du_redirectURI = PublicURL cfg @ ''/auth/duo-callback''\<rparr>"

definition request_claims :: "DuoUniversalClient \<Rightarrow> time \<Rightarrow> string \<Rightarrow> string \<Rightarrow> json" where
  "request_claims d now username state =
     [(''scope'', JStr ''openid''), (''redirect_uri'', JStr (du_redirectURI d)),
      (''client_id'', JStr (du_clientID d)), (''iss'', JStr (du_clientID d)),
      (''aud'', JStr (''https://'' @ du_apiHost d)), (''exp'', JInt (unix now + 300)),
      (''iat'', JInt (unix now)), (''state'', JStr state), (''response_type'', JStr ''code''),
      (''duo_uname'', JStr username)]"

text \<open>\<open>None\<close> is the error for an empty user name or state.\<close>

definition duo_AuthURL ::
  "(string \<Rightarrow> string \<Rightarrow> string) \<Rightarrow> time \<Rightarrow> DuoUniversalClient \<Rightarrow> string \<Rightarrow> string \<Rightarrow> string option" where
  "duo_AuthURL hmac512 now d username state =
     (if username = [] \<or> state = [] then None
      else Some (''https://'' @ du_apiHost d @ ''/oauth/v1/authorize?'' @ values_encode
        [(''client_id'', du_clientID d), (''response_type'', ''code''),
         (''request'', signJWTHS512 hmac512 (request_claims d now username state) (du_clientSecret d))]))"

definition tokenEndpoint :: "DuoUniversalClient \<Rightarrow> string" where
  "tokenEndpoint d = ''https://'' @ du_apiHost d @ ''/oauth/v1/token''"

definition assertion_claims :: "DuoUniversalClient \<Rightarrow> time \<Rightarrow> string \<Rightarrow> json" where
  "assertion_claims d now jti =
     [(''iss'', JStr (du_clientID d)), (''sub'', JStr (du_clientID d)), (''aud'', JStr (tokenEndpoint d)),
      (''exp'', JInt (unix now + 300)), (''iat'', JInt (unix now)), (''jti'', JStr jti)]"

definition token_form ::
  "(string \<Rightarrow> string \<Rightarrow> string) \<Rightarrow> time \<Rightarrow> DuoUniversalClient \<Rightarrow> string \<Rightarrow> string \<Rightarrow> (string \<times> string) list" where
  "token_form hmac512 now d jti duoCode =
     [(''grant_type'', ''authorization_code''), (''code'', duoCode),
      (''redirect_uri'', du_redirectURI d), (''client_id'', du_clientID d),
      (''client_assertion_type'', ''urn:ietf:params:oauth:client-assertion-type:jwt-bearer''),
      (''client_assertion'', signJWTHS512 hmac512 (assertion_claims d now jti) (du_clientSecret d))]"

definition duoMaxResponseBytes :: int where "duoMaxResponseBytes = 1048576"

text \<open>The reader stops one byte after the limit and then reports an error.\<close>

definition readBoundedBody :: "string \<Rightarrow> int \<Rightarrow> string option" where
  "readBoundedBody stream limit =
     (let body = take (nat (limit + 1)) stream
      in if int (length body) > limit then None else Some body)"

datatype duo_error =
    DuoRandom | DuoHttp | DuoBody | DuoStatus int | DuoJson | DuoNoToken | DuoToken jwt_error
  | DuoIss string | DuoAud string | DuoNoUser | DuoUserMismatch string

definition token_user :: "claims \<Rightarrow> string" where
  "token_user cs =
     (if claim_str cs ''preferred_username'' \<noteq> [] then claim_str cs ''preferred_username''
      else claim_str cs ''sub'')"

text \<open>What the client accepts in the claims of the identity token.\<close>

definition check_claims :: "DuoUniversalClient \<Rightarrow> string \<Rightarrow> claims \<Rightarrow> duo_error + string" where
  "check_claims d expectedUsername cs =
     (if claim_str cs ''iss'' \<noteq> tokenEndpoint d then Inl (DuoIss (claim_str cs ''iss''))
      else if claim_str cs ''aud'' \<noteq> du_clientID d then Inl (DuoAud (claim_str cs ''aud''))
      else (let username = token_user cs
            in if username = [] then Inl DuoNoUser
               else if expectedUsername \<noteq> [] \<and> \<not> equal_fold username expectedUsername
               then Inl (DuoUserMismatch username)
               else Inr username))"

definition duo_Exchange ::
  "(string \<Rightarrow> string \<Rightarrow> string) \<Rightarrow> (string \<Rightarrow> claims option) \<Rightarrow>
   (string \<Rightarrow> (string \<times> string) list \<Rightarrow> (int \<times> string) option) \<Rightarrow> string option \<Rightarrow> time \<Rightarrow>
   DuoUniversalClient \<Rightarrow> string \<Rightarrow> string \<Rightarrow> duo_error + string" where
  "duo_Exchange hmac512 unmarshal http rnd now d duoCode expectedUsername =
     (case randomHex rnd of
        None \<Rightarrow> Inl DuoRandom
      | Some jti \<Rightarrow>
          (case http (tokenEndpoint d) (token_form hmac512 now d jti duoCode) of
             None \<Rightarrow> Inl DuoHttp
           | Some (status, stream) \<Rightarrow>
               (case readBoundedBody stream duoMaxResponseBytes of
                  None \<Rightarrow> Inl DuoBody
                | Some body \<Rightarrow>
                    if status \<noteq> 200 then Inl (DuoStatus status)
                    else (case Option.bind (unmarshal body) (claim_field ''id_token'') of
                      None \<Rightarrow> Inl DuoJson
                    | Some idToken \<Rightarrow>
                        if idToken = [] then Inl DuoNoToken
                        else (case verifyJWTHS512 hmac512 unmarshal now idToken (du_clientSecret d) of
                          Inl err \<Rightarrow> Inl (DuoToken err)
                        | Inr cs \<Rightarrow> check_claims d expectedUsername cs)))))"


section \<open>The preauth call\<close>

record DuoClient =
  dc_ikey :: string
  dc_skey :: string
  dc_apiHost :: string

definition newDuoClient :: "Config \<Rightarrow> DuoClient" where
  "newDuoClient cfg = \<lparr>dc_ikey = DuoIKey cfg, dc_skey = DuoSKey cfg, dc_apiHost = to_lower (DuoAPIHost cfg)\<rparr>"

definition rfc3986Escape :: "string \<Rightarrow> string" where
  "rfc3986Escape s = concat (map (\<lambda>c. if c = CHR ''+'' then ''%20'' else [c]) (query_escape s))"

definition canonicalParams :: "(string \<times> string list) list \<Rightarrow> string" where
  "canonicalParams params =
     join ''&'' (concat (map (\<lambda>kv. map (\<lambda>v. rfc3986Escape (fst kv) @ ''='' @ rfc3986Escape v) (snd kv))
       (sort_key fst params)))"

definition duo_canon :: "DuoClient \<Rightarrow> string \<Rightarrow> string \<Rightarrow> string \<Rightarrow> string \<Rightarrow> string" where
  "duo_canon c date method path canonParams =
     join [CHR 0x0A] [date, method, dc_apiHost c, path, canonParams]"

text \<open>The credentials in front of base64: the key and the signature.\<close>

definition duo_credentials ::
  "(string \<Rightarrow> string \<Rightarrow> string) \<Rightarrow> DuoClient \<Rightarrow> string \<Rightarrow> string \<Rightarrow> string \<Rightarrow> string \<Rightarrow> string" where
  "duo_credentials hmac1 c date method path canonParams =
     dc_ikey c @ '':'' @ hex_encode (hmac1 (dc_skey c) (duo_canon c date method path canonParams))"

record PreauthResult =
  pre_Result :: string
  pre_Devices :: nat

definition HasUniversalPromptCapable :: "PreauthResult \<Rightarrow> bool" where
  "HasUniversalPromptCapable p \<longleftrightarrow> pre_Devices p > 0"

section \<open>Correctness\<close>

text \<open>What is relied on of the decoder of foreign JSON: it reads back what the encoder writes.\<close>

locale json_decoder =
  fixes unmarshal :: "string \<Rightarrow> claims option"
  assumes unmarshal_print:
    "list_all (\<lambda>m. jval_ok (snd m)) ms \<Longrightarrow> unmarshal (json_print ms) = Some (json_claims ms)"
begin

lemma header_alg: "Option.bind (unmarshal (json_print jwt_header)) (claim_field ''Alg'') = Some ''HS512''"
proof -
  have "claim_field ''Alg'' (json_claims jwt_header) = Some ''HS512''" by code_simp
  then show ?thesis by (simp add: unmarshal_print jwt_header_def)
qed

end

interpretation flat: json_decoder "\<lambda>s. map_option json_claims (json_parse s)"
  by unfold_locales (simp add: json_roundtrip)

lemma split_token:
  assumes "CHR ''.'' \<notin> set h" "CHR ''.'' \<notin> set p" "CHR ''.'' \<notin> set s"
  shows "split_on CHR ''.'' (h @ CHR ''.'' # p @ CHR ''.'' # s) = [h, p, s]"
  using assms by (simp add: split_on_append split_on_no_sep)

lemma map_of_rev: "distinct (map fst kvs) \<Longrightarrow> map_of (rev kvs) = map_of kvs"
  by (rule map_of_eqI) (auto simp: distinct_map rev_map [symmetric] map_of_eq_Some_iff)

lemma map_of_claims: "map_of (json_claims ms) k = map_option jval_claim (map_of ms k)"
  by (induction ms) (auto simp: json_claims_def)

lemma claim_of_sorted:
  assumes "distinct (map fst ms)"
  shows "claim_of (json_claims (sort_key fst ms)) k = map_option jval_claim (map_of ms k)"
proof -
  have "distinct (map fst (json_claims (sort_key fst ms)))"
    using assms by (simp add: json_claims_def distinct_map inj_on_def comp_def)
  then show ?thesis
    using sort_key_map_of [OF assms] by (simp add: claim_of_def map_of_rev map_of_claims)
qed

context json_decoder begin

lemma verify_signed:
  assumes "list_all (\<lambda>m. jval_ok (snd m)) ms"
  shows "verifyJWTHS512 hmac512 unmarshal now (signJWTHS512 hmac512 ms secret) secret =
           check_exp now (json_claims (sort_key fst ms))"
proof -
  have "unmarshal (json_print (sort_key fst ms)) = Some (json_claims (sort_key fst ms))"
    using assms by (intro unmarshal_print) (simp add: list_all_iff)
  then show ?thesis
    using header_alg
    by (simp add: verifyJWTHS512_def signJWTHS512_def Let_def split_token b64_no_dot b64_roundtrip)
qed

end

lemma check_exp_Inr: "check_exp now cs = Inr r \<longleftrightarrow>
    r = cs \<and> (\<exists>e. claim_of cs ''exp'' = Some (ClaimNum e) \<and> unix now \<le> e + 30)"
  by (auto simp: check_exp_def split: option.splits claim.splits)

text \<open>An accepted token carries the keyed hash of its first two parts.\<close>

lemma verify_Inr:
  assumes "verifyJWTHS512 hmac512 unmarshal now token secret = Inr cs"
  shows "\<exists>h p s. split_on CHR ''.'' token = [h, p, s] \<and>
           b64_decode s = Some (hmac512 secret (h @ ''.'' @ p)) \<and>
           Option.bind (b64_decode p) unmarshal = Some cs \<and>
           (\<exists>e. claim_of cs ''exp'' = Some (ClaimNum e) \<and> unix now \<le> e + 30)"
proof -
  have "\<exists>h p s. split_on CHR ''.'' token = [h, p, s]"
    using assms by (auto simp: verifyJWTHS512_def split: list.splits)
  then obtain h p s where parts: "split_on CHR ''.'' token = [h, p, s]" by blast
  obtain sig where sig: "b64_decode s = Some sig" "hmac512 secret (h @ ''.'' @ p) = sig"
    using assms parts by (auto simp: verifyJWTHS512_def split: option.splits if_splits)
  from assms parts show ?thesis
    by (auto simp: verifyJWTHS512_def check_exp_Inr split: option.splits if_splits)
qed

lemma check_claims_Inr: "check_claims d expected cs = Inr u \<longleftrightarrow>
    claim_str cs ''iss'' = tokenEndpoint d \<and> claim_str cs ''aud'' = du_clientID d \<and>
    token_user cs = u \<and> u \<noteq> [] \<and> (expected \<noteq> [] \<longrightarrow> equal_fold u expected)"
  by (auto simp: check_claims_def Let_def)

text \<open>The body of the answer to the token call.\<close>

definition token_reply ::
  "(string \<Rightarrow> string \<Rightarrow> string) \<Rightarrow> (string \<Rightarrow> (string \<times> string) list \<Rightarrow> (int \<times> string) option) \<Rightarrow>
   string \<Rightarrow> time \<Rightarrow> DuoUniversalClient \<Rightarrow> string \<Rightarrow> (int \<times> string) option" where
  "token_reply hmac512 http bytes now d duoCode =
     http (tokenEndpoint d) (token_form hmac512 now d (hex_encode bytes) duoCode)"

lemma readBoundedBody_eq:
  "readBoundedBody s duoMaxResponseBytes = (if int (length s) \<le> duoMaxResponseBytes then Some s else None)"
  by (auto simp: readBoundedBody_def Let_def duoMaxResponseBytes_def)

lemma duo_Exchange_Inr:
  "duo_Exchange hmac512 unmarshal http rnd now d code expected = Inr u \<longleftrightarrow>
     (\<exists>bytes body tok cs. rnd = Some bytes \<and> token_reply hmac512 http bytes now d code = Some (200, body) \<and>
        int (length body) \<le> duoMaxResponseBytes \<and>
        Option.bind (unmarshal body) (claim_field ''id_token'') = Some tok \<and> tok \<noteq> [] \<and>
        verifyJWTHS512 hmac512 unmarshal now tok (du_clientSecret d) = Inr cs \<and>
        check_claims d expected cs = Inr u)"
  by (auto simp: duo_Exchange_def randomHex_def token_reply_def readBoundedBody_eq
      split: option.splits if_splits sum.splits)

lemma sign_not_Nil: "signJWTHS512 hmac512 ms secret \<noteq> []"
  by (simp add: signJWTHS512_def Let_def)

lemma id_token_field: "claim_field ''id_token'' (json_claims [(''id_token'', JStr tok)]) = Some tok"
  by (simp add: claim_field_def json_claims_def equal_fold_def)

context json_decoder begin

lemma duo_Exchange_honest:
  assumes "list_all (\<lambda>m. jval_ok (snd m)) ms" and "rnd = Some bytes"
    and "tok = signJWTHS512 hmac512 ms (du_clientSecret d)"
    and "token_reply hmac512 http bytes now d code = Some (200, json_print [(''id_token'', JStr tok)])"
    and "int (length (json_print [(''id_token'', JStr tok)])) \<le> duoMaxResponseBytes"
    and "check_exp now (json_claims (sort_key fst ms)) = Inr cs" "check_claims d expected cs = Inr u"
  shows "duo_Exchange hmac512 unmarshal http rnd now d code expected = Inr u"
  using assms unfolding duo_Exchange_Inr
  by (auto simp: unmarshal_print id_token_field verify_signed sign_not_Nil)

end

text \<open>C22: Only a token under the client secret signs a user in through Duo.  When the exchange
  returns a user name, Duo answered 200 within the size limit with an identity token of three
  parts whose signature is the keyed hash of the first two under the client secret, whose
  claims name the token endpoint as issuer and this client as audience and have not expired by
  more than 30 seconds, and whose user is the returned one; a user that was asked for is the
  returned user up to case.\<close>

theorem duo_Exchange_sound:
  assumes "duo_Exchange hmac512 unmarshal http rnd now d code expected = Inr u"
  shows "u \<noteq> [] \<and> (expected \<noteq> [] \<longrightarrow> equal_fold u expected) \<and>
    (\<exists>bytes body tok h p s cs e. rnd = Some bytes \<and>
       token_reply hmac512 http bytes now d code = Some (200, body) \<and>
       int (length body) \<le> duoMaxResponseBytes \<and>
       Option.bind (unmarshal body) (claim_field ''id_token'') = Some tok \<and>
       split_on CHR ''.'' tok = [h, p, s] \<and>
       b64_decode s = Some (hmac512 (du_clientSecret d) (h @ ''.'' @ p)) \<and>
       Option.bind (b64_decode p) unmarshal = Some cs \<and>
       claim_of cs ''exp'' = Some (ClaimNum e) \<and> unix now \<le> e + 30 \<and>
       claim_str cs ''iss'' = tokenEndpoint d \<and> claim_str cs ''aud'' = du_clientID d \<and>
       token_user cs = u)"
proof -
  obtain bytes body tok cs where x: "rnd = Some bytes"
      "token_reply hmac512 http bytes now d code = Some (200, body)"
      "int (length body) \<le> duoMaxResponseBytes"
      "Option.bind (unmarshal body) (claim_field ''id_token'') = Some tok"
      "verifyJWTHS512 hmac512 unmarshal now tok (du_clientSecret d) = Inr cs"
      "check_claims d expected cs = Inr u"
    using assms unfolding duo_Exchange_Inr by blast
  obtain h p s e where "split_on CHR ''.'' tok = [h, p, s]"
      "b64_decode s = Some (hmac512 (du_clientSecret d) (h @ ''.'' @ p))"
      "Option.bind (b64_decode p) unmarshal = Some cs"
      "claim_of cs ''exp'' = Some (ClaimNum e)" "unix now \<le> e + 30"
    using verify_Inr [OF x(5)] by blast
  with x show ?thesis unfolding check_claims_Inr by blast
qed

text \<open>A Duo answer for the witnesses: a hash that repeats the key, an unsigned body of JSON.\<close>

definition demo_duo :: DuoUniversalClient where
  "demo_duo = \<lparr>du_clientID = ''cid'', du_clientSecret = ''key'', du_apiHost = ''h'', du_redirectURI = ''r''\<rparr>"

definition demo_hmac :: "string \<Rightarrow> string \<Rightarrow> string" where
  "demo_hmac key data = key @ take 1 data"

definition demo_unmarshal :: "string \<Rightarrow> claims option" where
  "demo_unmarshal s = map_option json_claims (json_parse s)"

definition demo_identity :: json where
  "demo_identity = [(''iss'', JStr ''https://h/oauth/v1/token''), (''aud'', JStr ''cid''),
     (''exp'', JInt 100), (''preferred_username'', JStr ''Bob'')]"

definition demo_http :: "string \<Rightarrow> (string \<times> string) list \<Rightarrow> (int \<times> string) option" where
  "demo_http url form = Some (200, json_print
     [(''id_token'', JStr (signJWTHS512 demo_hmac demo_identity ''key''))])"

lemma demo_exchange:
  "duo_Exchange demo_hmac demo_unmarshal demo_http (Some ''abc'') (90 * second) demo_duo ''code'' ''bob'' = Inr ''Bob''"
proof -
  have "check_exp (90 * second) (json_claims (sort_key fst demo_identity)) =
          Inr (json_claims (sort_key fst demo_identity))"
    by (simp add: check_exp_def claim_of_def json_claims_def demo_identity_def unix_def second_def)
  moreover have "check_claims demo_duo ''bob'' (json_claims (sort_key fst demo_identity)) = Inr ''Bob''"
    by code_simp
  moreover have "int (length (json_print [(''id_token'',
        JStr (signJWTHS512 demo_hmac demo_identity (du_clientSecret demo_duo)))])) \<le> duoMaxResponseBytes"
    by code_simp
  moreover have "list_all (\<lambda>m. jval_ok (snd m)) demo_identity"
    by (simp add: demo_identity_def in_int64_def)
  moreover have "token_reply demo_hmac demo_http ''abc'' (90 * second) demo_duo ''code'' =
      Some (200, json_print [(''id_token'', JStr (signJWTHS512 demo_hmac demo_identity (du_clientSecret demo_duo)))])"
    by (simp add: token_reply_def demo_http_def demo_duo_def)
  ultimately show ?thesis
    unfolding demo_unmarshal_def [abs_def] by (intro flat.duo_Exchange_honest [OF _ refl refl])
qed

theorem duo_Exchange_sound_witness:
  "duo_Exchange demo_hmac demo_unmarshal demo_http (Some ''abc'') (90 * second) demo_duo ''code'' ''bob'' = Inr ''Bob'' \<and>
   equal_fold ''Bob'' ''bob''"
  using duo_Exchange_sound [OF demo_exchange] demo_exchange by blast

text \<open>What Duo reads from the redirect.  The URL of a sign-in carries a request token which,
  verified under the client secret at any time until 330 seconds later, has the user and the
  state of the session as claims, this client as issuer and the callback as redirect address;
  the plain parameters name the same client.\<close>

theorem duo_AuthURL_verifies:
  assumes decoder: "\<And>ms. list_all (\<lambda>m. jval_ok (snd m)) ms \<Longrightarrow> unmarshal (json_print ms) = Some (json_claims ms)"
    and "duo_AuthURL hmac512 now d username state = Some url"
    and "in_int64 (unix now)" "in_int64 (unix now + 300)" and "unix later \<le> unix now + 330"
  shows "\<exists>ps tok cs.
    parse_query (drop (length (''https://'' @ du_apiHost d @ ''/oauth/v1/authorize?'')) url) = ps \<and>
    map_of ps ''client_id'' = Some (du_clientID d) \<and> map_of ps ''request'' = Some tok \<and>
    verifyJWTHS512 hmac512 unmarshal later tok (du_clientSecret d) = Inr cs \<and>
    claim_str cs ''duo_uname'' = username \<and> claim_str cs ''state'' = state \<and>
    claim_str cs ''iss'' = du_clientID d \<and> claim_str cs ''redirect_uri'' = du_redirectURI d"
proof -
  note dec = json_decoder.intro [OF decoder]
  let ?ms = "request_claims d now username state"
  let ?tok = "signJWTHS512 hmac512 ?ms (du_clientSecret d)"
  let ?kvs = "[(''client_id'', du_clientID d), (''response_type'', ''code''), (''request'', ?tok)]"
  let ?cs = "json_claims (sort_key fst ?ms)"
  have url: "url = ''https://'' @ du_apiHost d @ ''/oauth/v1/authorize?'' @ values_encode ?kvs"
    using assms(2) by (auto simp: duo_AuthURL_def split: if_splits)
  have keys: "distinct (map fst ?kvs)" by simp
  have dist: "distinct (map fst ?ms)" by (simp add: request_claims_def)
  have "check_exp later ?cs = Inr ?cs"
    using assms(5) unfolding check_exp_Inr claim_of_sorted [OF dist] by (simp add: request_claims_def)
  moreover have "list_all (\<lambda>m. jval_ok (snd m)) ?ms"
    using assms(3,4) by (simp add: request_claims_def)
  ultimately have "verifyJWTHS512 hmac512 unmarshal later ?tok (du_clientSecret d) = Inr ?cs"
    by (simp add: json_decoder.verify_signed [OF dec])
  moreover have "claim_str ?cs k = (case map_of ?ms k of Some (JStr s) \<Rightarrow> s | _ \<Rightarrow> [])" for k
    unfolding claim_str_def claim_of_sorted [OF dist] by (auto split: option.splits jval.splits)
  moreover have "parse_query (drop (length (''https://'' @ du_apiHost d @ ''/oauth/v1/authorize?'')) url) =
      sort_key fst ?kvs"
    unfolding url by (subst values_roundtrip [symmetric]) simp_all
  moreover have "map_of (sort_key fst ?kvs) = map_of ?kvs" by (rule sort_key_map_of [OF keys])
  ultimately show ?thesis by (simp add: request_claims_def)
qed

theorem duo_AuthURL_verifies_witness:
  "\<exists>url tok. duo_AuthURL demo_hmac (5 * second) demo_duo ''bob'' ''st'' = Some url \<and>
     map_of (parse_query (drop (length ''https://h/oauth/v1/authorize?'') url)) ''request'' = Some tok"
proof -
  obtain url where u: "duo_AuthURL demo_hmac (5 * second) demo_duo ''bob'' ''st'' = Some url"
    by (simp add: duo_AuthURL_def)
  have "\<exists>tok. map_of (parse_query (drop (length ''https://h/oauth/v1/authorize?'') url)) ''request'' = Some tok"
    using duo_AuthURL_verifies [OF flat.unmarshal_print u, of "5 * second"]
    by (auto simp: in_int64_def unix_def second_def demo_duo_def)
  with u show ?thesis by blast
qed

end
