(* ===== verification/Oidc.thy ===== *)
theory Oidc
  imports Config
begin

text \<open>
  The Entra client of \<open>portal/oidc.go\<close>: what a verified identity token must say, who is a guest
  and who is an administrator.  The libraries that talk to the provider are parameters:
  \<open>oauth_exchange code\<close> gives the token response's \<open>id_token\<close> (\<open>Some None\<close> when it has none) and
  \<open>verify_token\<close> the nonce and the decoded claims of a valid token.
\<close>

record UserInfo =
  u_Subject :: string
  u_UPN :: string
  u_Name :: string
  u_Email :: string
  u_TenantID :: string
  u_Groups :: "string list"

record idClaims =
  ic_Sub :: string
  ic_UPN :: string
  ic_Name :: string
  ic_Email :: string
  ic_PreferredUsername :: string
  ic_TID :: string
  ic_Groups :: "string list"

definition IsGuest :: "UserInfo \<Rightarrow> bool" where
  "IsGuest u \<longleftrightarrow> contains (to_upper (u_UPN u)) ''#EXT#''"

definition IsAdmin :: "Config \<Rightarrow> UserInfo \<Rightarrow> bool" where
  "IsAdmin cfg u \<longleftrightarrow>
     (if IsAdminEmail (u_UPN u) cfg then True
      else if AdminGroupIDs cfg = [] \<or> u_Groups u = [] then False
      else (let allow = map (\<lambda>g. to_lower (trim_space g)) (AdminGroupIDs cfg)
            in list_ex (\<lambda>g. to_lower (trim_space g) \<in> set allow) (u_Groups u)))"

text \<open>The options added to the authorization URL.\<close>

definition auth_options :: "string \<Rightarrow> string \<Rightarrow> (string \<times> string) list" where
  "auth_options nonce loginHint =
     [(''nonce'', nonce), (''prompt'', ''select_account'')] @
     (if loginHint \<noteq> [] then [(''login_hint'', loginHint)] else [])"

datatype oidc_error = OidcExchange | OidcNoToken | OidcVerify | OidcNonce | OidcClaims | OidcTenant

definition claims_user :: "idClaims \<Rightarrow> UserInfo" where
  "claims_user c =
     \<lparr>u_Subject = ic_Sub c,
      u_UPN = (if ic_UPN c = [] then ic_PreferredUsername c else ic_UPN c),
      u_Name = ic_Name c,
      u_Email = (if ic_Email c = [] then ic_PreferredUsername c else ic_Email c),
      u_TenantID = ic_TID c, u_Groups = ic_Groups c\<rparr>"

text \<open>\<open>None\<close> for the claims: they do not decode into the expected fields.\<close>

definition oidc_Exchange ::
  "(string \<Rightarrow> string option option) \<Rightarrow> (string \<Rightarrow> (string \<times> idClaims option) option) \<Rightarrow>
   Config \<Rightarrow> string \<Rightarrow> string \<Rightarrow> oidc_error + UserInfo" where
  "oidc_Exchange oauth_exchange verify_token cfg code expectedNonce =
     (case oauth_exchange code of
        None \<Rightarrow> Inl OidcExchange
      | Some raw \<Rightarrow>
          (case raw of
             None \<Rightarrow> Inl OidcNoToken
           | Some rawIDToken \<Rightarrow>
               if rawIDToken = [] then Inl OidcNoToken
               else (case verify_token rawIDToken of
                 None \<Rightarrow> Inl OidcVerify
               | Some (nonce, decoded) \<Rightarrow>
                   if nonce \<noteq> expectedNonce then Inl OidcNonce
                   else (case decoded of
                     None \<Rightarrow> Inl OidcClaims
                   | Some c \<Rightarrow>
                       if ic_TID c \<noteq> TenantID cfg then Inl OidcTenant
                       else Inr (claims_user c)))))"

lemma oidc_Exchange_Inr:
  "oidc_Exchange oauth_exchange verify_token cfg code nonce = Inr u \<longleftrightarrow>
     (\<exists>raw c. oauth_exchange code = Some (Some raw) \<and> raw \<noteq> [] \<and> verify_token raw = Some (nonce, Some c) \<and>
       ic_TID c = TenantID cfg \<and> u = claims_user c)"
  by (auto simp: oidc_Exchange_def split: option.splits if_splits prod.splits)

text \<open>Either list decides: the name up to case and space, or one group.\<close>

lemma IsAdmin_alt:
  "IsAdmin cfg u \<longleftrightarrow>
     IsAdminEmail (u_UPN u) cfg \<or>
     (\<exists>g\<in>set (u_Groups u). \<exists>a\<in>set (AdminGroupIDs cfg). to_lower (trim_space g) = to_lower (trim_space a))"
  by (auto simp: IsAdmin_def list_ex_iff)

lemma IsAdmin_enabled: "IsAdmin cfg u \<Longrightarrow> IsAdminEnabled cfg"
  by (auto simp: IsAdmin_alt IsAdminEnabled_def IsAdminEmail_def list_ex_iff)

end
