(* ===== verification/Portal.thy ===== *)
theory Portal
  imports Limiter ProceedTokens GuestCodeReports Denylist EventLog IKuai Duo Oidc
begin

text \<open>
  The sign-in handlers of \<open>portal/main.go\<close> and \<open>portal/auth_proceed.go\<close> over the state of
  the application.  A handler is a function of what the request finds outside (the record
  \<open>world\<close>: the clock, the random source, the hash functions, the answers of Entra and Duo, and the
  database statements that fail), the request and the state; it gives the reply, the cookies it
  sets and the next state.  Pages are replies with the language and the key of their text.
  Marshalling a session never fails, so the branches for that error are left out.
\<close>

section \<open>State\<close>

record world =
  w_now :: time
  w_rnd :: "nat \<Rightarrow> string option"
  w_hmac :: "string \<Rightarrow> string \<Rightarrow> string"
  w_hmac512 :: "string \<Rightarrow> string \<Rightarrow> string"
  w_md5 :: "string \<Rightarrow> string"
  w_parse_ip :: "string \<Rightarrow> string option"
  w_parse_url :: "string \<Rightarrow> (string \<times> string) option"
  w_auth_url :: "string \<Rightarrow> (string \<times> string) list \<Rightarrow> string"
  w_oauth_exchange :: "string \<Rightarrow> string option option"
  w_verify_token :: "string \<Rightarrow> (string \<times> idClaims option) option"
  w_unmarshal :: "string \<Rightarrow> claims option"
  w_http :: "string \<Rightarrow> (string \<times> string) list \<Rightarrow> (int \<times> string) option"
  w_preauth :: "string \<Rightarrow> PreauthResult option"
  w_flt_lim :: limiter_flt
  w_flt_deny :: bool
  w_flt_gc :: "gc_stmt \<Rightarrow> bool"
  w_flt_event :: bool

text \<open>\<open>ap_oidc\<close> says whether the Entra client could be built; the Duo clients may be missing.\<close>

record app =
  ap_conf :: Config
  ap_oidc :: bool
  ap_duo :: "DuoClient option"
  ap_duoUniversal :: "DuoUniversalClient option"
  ap_lim :: limiter
  ap_usedStates :: usedStateSet
  ap_proceed :: proceedTokenStore
  ap_denylist :: "DeniedMAC list"
  ap_codes :: gcDB
  ap_policyTbl :: "policyRow list"
  ap_policies :: IKuaiPolicyStore
  ap_events :: eventTable

text \<open>The reply, the cookies set and the next state.\<close>

type_synonym response = "reply \<times> cookie list \<times> app"

definition req_ip :: "world \<Rightarrow> app \<Rightarrow> request \<Rightarrow> string" where
  "req_ip w a r = clientIP (w_parse_ip w) (TrustProxy (ap_conf a)) r"

definition read_session :: "world \<Rightarrow> app \<Rightarrow> request \<Rightarrow> string + Session" where
  "read_session w a r = readSessionCookie (w_hmac w) (SessionSecret (ap_conf a)) (w_now w) (rq_cookies r)"

definition session_cookie :: "world \<Rightarrow> app \<Rightarrow> Session \<Rightarrow> cookie" where
  "session_cookie w a s = sessionCookie (w_hmac w) (SessionSecret (ap_conf a)) s True"

definition banned_ip :: "world \<Rightarrow> request \<Rightarrow> Session option \<Rightarrow> app \<Rightarrow> string option \<times> app" where
  "banned_ip w r sess a =
     (case bannedIPForRequest (w_flt_lim w) (w_now w) (req_ip w a r) sess (ap_lim a) of
        (b, l) \<Rightarrow> (b, a\<lparr>ap_lim := l\<rparr>))"

definition fail_request :: "world \<Rightarrow> request \<Rightarrow> Session option \<Rightarrow> app \<Rightarrow> app" where
  "fail_request w r sess a =
     a\<lparr>ap_lim := recordRequestFailure (ap_conf a) (w_flt_lim w) (w_now w) (req_ip w a r) sess (ap_lim a)\<rparr>"

definition rate_limited :: "world \<Rightarrow> limit_rule \<Rightarrow> string \<Rightarrow> app \<Rightarrow> response" where
  "rate_limited w rule ip a =
     (case writeRateLimited (ap_conf a) (w_flt_lim w) (w_now w) rule ip (ap_lim a) of
        (rep, l) \<Rightarrow> (rep, [], a\<lparr>ap_lim := l\<rparr>))"

definition log_login :: "world \<Rightarrow> string \<Rightarrow> string \<Rightarrow> string \<Rightarrow> string \<Rightarrow> string \<Rightarrow> string \<Rightarrow> app \<Rightarrow> app" where
  "log_login w subject result method mac ip detail a =
     a\<lparr>ap_events := logLogin (w_flt_event w) (w_now w) subject result method mac ip detail (ap_events a)\<rparr>"

definition log_admin :: "world \<Rightarrow> string \<Rightarrow> string \<Rightarrow> string \<Rightarrow> string \<Rightarrow> app \<Rightarrow> app" where
  "log_admin w upn ip result detail a =
     a\<lparr>ap_events := logAdminAction (w_flt_event w) (w_now w) upn ip result detail (ap_events a)\<rparr>"

definition mac_denied :: "world \<Rightarrow> string \<Rightarrow> app \<Rightarrow> bool" where
  "mac_denied w mac a \<longleftrightarrow> IsMACDenied (w_flt_deny w) mac (ap_denylist a) \<noteq> None"

definition clear_success :: "world \<Rightarrow> request \<Rightarrow> Session \<Rightarrow> string list \<Rightarrow> app \<Rightarrow> app" where
  "clear_success w r sess emails a =
     a\<lparr>ap_lim := clearSuccessfulAuthState (w_flt_lim w) (req_ip w a r) sess emails (ap_lim a)\<rparr>"

definition renderError :: "string \<Rightarrow> string \<Rightarrow> int \<Rightarrow> reply" where
  "renderError lang key code = ReplyPage code lang (''errors.'' @ key)"

definition page_error :: "string \<Rightarrow> string \<Rightarrow> int \<Rightarrow> app \<Rightarrow> response" where
  "page_error lang key code a = (renderError lang key code, [], a)"

definition json_error :: "int \<Rightarrow> string \<Rightarrow> app \<Rightarrow> response" where
  "json_error status err a = (reply_error status err, [], a)"

definition permanent_reply :: reply where
  "permanent_reply = ReplyJSON 429 [(''error'', RStr ''rate_limited''), (''permanent'', RBool True)]"

text \<open>The language of the session, when it has one, replaces the one of the request.\<close>

definition session_lang :: "request \<Rightarrow> Session \<Rightarrow> string" where
  "session_lang r sess = (if s_Lang sess \<noteq> [] then s_Lang sess else pickLang r)"


section \<open>Parsing the form\<close>

definition email_char :: "char \<Rightarrow> bool" where
  "email_char c \<longleftrightarrow> c \<in> set ''@.-_+'' \<or> in_range CHR ''a'' CHR ''z'' c \<or> is_digit c"

definition isValidEmail :: "string \<Rightarrow> bool" where
  "isValidEmail s =
     (if s = [] \<or> length s > 254 then False
      else (case first_index CHR ''@'' s of
          None \<Rightarrow> False
        | Some i \<Rightarrow>
            if i = 0 \<or> int i \<ge> int (length s) - 1 then False
            else if length (filter (\<lambda>c. c = CHR ''@'') s) \<noteq> 1 then False
            else list_all email_char s))"

definition isAllowedDomain :: "string \<Rightarrow> string list \<Rightarrow> bool" where
  "isAllowedDomain email allowed =
     (if allowed = [] then False
      else (case last_index CHR ''@'' email of
          None \<Rightarrow> False
        | Some i \<Rightarrow>
            (let dom = to_lower (drop (Suc i) email)
             in list_ex (\<lambda>d. to_lower (trim_space d) = dom) allowed)))"


section \<open>The portal page\<close>

definition device_of_request :: "world \<Rightarrow> app \<Rightarrow> request \<Rightarrow> DeviceInfo option" where
  "device_of_request w a r =
     (case extractDeviceInfo (ap_conf a) r of
        Some dev \<Rightarrow> Some dev
      | None \<Rightarrow>
          (case read_session w a r of
             Inl err \<Rightarrow> None
           | Inr s \<Rightarrow>
               if s_UserIP s \<noteq> [] \<and> s_MAC s \<noteq> [] then Some \<lparr>dev_ip = s_UserIP s, dev_mac = s_MAC s\<rparr>
               else None))"

definition handlePortal :: "world \<Rightarrow> request \<Rightarrow> app \<Rightarrow> response" where
  "handlePortal w r a =
     (let lang = pickLang r
      in case device_of_request w a r of
           None \<Rightarrow> page_error lang ''sessionLost'' 400 a
         | Some dev \<Rightarrow>
             if mac_denied w (dev_mac dev) a then page_error lang ''rateLimitedPermanent'' 403 a
             else (case newSession (w_rnd w) (w_now w) (dev_ip dev) (dev_mac dev) lang of
               None \<Rightarrow> page_error lang ''generic'' 500 a
             | Some sess \<Rightarrow> (ReplyPage 200 lang ''login'', [session_cookie w a sess], a)))"


section \<open>Starting a sign-in\<close>

datatype proceedKind = ProceedEntra | ProceedDuo | ProceedDeny

text \<open>Where the visitor is sent next; the reply of \<open>/auth/start\<close> does not show it.\<close>

definition auth_target :: "world \<Rightarrow> app \<Rightarrow> string \<Rightarrow> string \<Rightarrow> string \<times> proceedKind" where
  "auth_target w a email state =
     (let ssoURL = ''/login?hint='' @ query_escape email
      in case (ap_duo a, ap_duoUniversal a) of
           (Some _, Some d) \<Rightarrow>
             (case w_preauth w email of
                None \<Rightarrow> (ssoURL, ProceedEntra)
              | Some pre \<Rightarrow>
                  if pre_Result pre = ''auth'' then
                    (if HasUniversalPromptCapable pre
                     then (case duo_AuthURL (w_hmac512 w) (w_now w) d email state of
                             None \<Rightarrow> (ssoURL, ProceedEntra)
                           | Some duoURL \<Rightarrow> (duoURL, ProceedDuo))
                     else (ssoURL, ProceedEntra))
                  else if pre_Result pre = ''enroll'' \<or> pre_Result pre = ''allow'' then (ssoURL, ProceedEntra)
                  else if pre_Result pre = ''deny'' then (ssoURL, ProceedDeny)
                  else (ssoURL, ProceedEntra))
         | _ \<Rightarrow> (ssoURL, ProceedEntra))"

text \<open>The checks before any sign-in: \<open>Inl\<close> a refusal, \<open>Inr\<close> the session.\<close>

definition open_request :: "world \<Rightarrow> request \<Rightarrow> app \<Rightarrow> response + Session \<times> app" where
  "open_request w r a =
     (case read_session w a r of
        Inl err \<Rightarrow>
          (case banned_ip w r None a of (b, a1) \<Rightarrow>
             (case b of
                Some ip \<Rightarrow> Inl (rate_limited w RuleIPBan ip a1)
              | None \<Rightarrow> Inl (json_error 400 ''session_lost'' (fail_request w r None a1))))
      | Inr sess \<Rightarrow>
          (case banned_ip w r (Some sess) a of (b, a1) \<Rightarrow>
             (case b of
                Some ip \<Rightarrow> Inl (rate_limited w RuleIPBan ip a1)
              | None \<Rightarrow> Inr (sess, a1))))"

text \<open>The answer to a limit: count the request, then report an address ban if there is one by now.\<close>

definition over_limit :: "world \<Rightarrow> request \<Rightarrow> Session \<Rightarrow> limit_rule \<Rightarrow> app \<Rightarrow> limit_rule \<times> string \<times> app" where
  "over_limit w r sess rule a =
     (case banned_ip w r (Some sess) a of (b, a1) \<Rightarrow>
        (case b of Some bannedIP \<Rightarrow> (RuleIPBan, bannedIP, a1) | None \<Rightarrow> (rule, req_ip w a r, a1)))"

definition rule_name :: "limit_rule \<Rightarrow> string" where
  "rule_name rule = (case rule of RuleIPBan \<Rightarrow> ''ip_ban'' | RuleEmailShort \<Rightarrow> ''email_short''
     | RuleEmailLong \<Rightarrow> ''email_long'' | RuleMAC \<Rightarrow> ''mac'')"

text \<open>The end of \<open>handleAuthStart\<close>: choose the destination, store it, count the attempt.\<close>

definition start_attempt :: "world \<Rightarrow> Session \<Rightarrow> string \<Rightarrow> app \<Rightarrow> response" where
  "start_attempt w sess0 email a =
     (let sess = sess0\<lparr>s_Email := email\<rparr>;
          cookies = [session_cookie w a sess]
      in case auth_target w a email (s_State sess) of (realURL, kind) \<Rightarrow>
         (case put (randomHex (w_rnd w 0)) (w_now w) (w_now w) realURL (s_State sess) email (ap_proceed a) of
            (None, ps) \<Rightarrow> (reply_error 500 ''internal'', cookies, a\<lparr>ap_proceed := ps\<rparr>)
          | (Some token, ps) \<Rightarrow>
              (let l = (ap_lim a)\<lparr>l_emailFails :=
                          record_failure (w_now w) (w_now w) email (l_emailFails (ap_lim a))\<rparr>;
                   method = (if kind = ProceedDuo then MethodDuo else MethodSSO);
                   a1 = log_login w email ResultStarted method (s_MAC sess) (s_UserIP sess) ''auth_start''
                          (a\<lparr>ap_proceed := ps, ap_lim := l\<rparr>)
               in (ReplyJSON 200 [(''redirect'', RStr (''/auth/proceed?token='' @ token))], cookies, a1))))"

definition email_counts :: "world \<Rightarrow> app \<Rightarrow> string \<Rightarrow> int \<times> int" where
  "email_counts w a email =
     (int (countIn (w_now w) email (AuthEmailWindowShort (ap_conf a)) (l_emailFails (ap_lim a))),
      int (countIn (w_now w) email (AuthEmailWindowLong (ap_conf a)) (l_emailFails (ap_lim a))))"

definition handleAuthStart :: "world \<Rightarrow> request \<Rightarrow> app \<Rightarrow> response" where
  "handleAuthStart w r a0 =
     (if rq_method r \<noteq> ''POST'' then json_error 405 ''method_not_allowed'' a0
      else (case open_request w r a0 of
        Inl resp \<Rightarrow> resp
      | Inr (sess, a) \<Rightarrow>
          if mac_denied w (s_MAC sess) a then (permanent_reply, [], a)
          else (let email = to_lower (trim_space (form_value r ''email''))
                in if \<not> isValidEmail email
                   then json_error 400 ''invalid_email'' (fail_request w r (Some sess) a)
                   else if IsDuoEnabled (ap_conf a) \<and>
                           \<not> isAllowedDomain email (AllowedEmailDomains (ap_conf a))
                   then json_error 400 ''invalid_domain'' (fail_request w r (Some sess) a)
                   else (case email_counts w a email of (shortN, longN) \<Rightarrow>
                     if shortN \<ge> AuthEmailFailsShort (ap_conf a) \<or> longN \<ge> AuthEmailFailsLong (ap_conf a)
                     then (case over_limit w r sess
                               (if shortN \<ge> AuthEmailFailsShort (ap_conf a) then RuleEmailShort
                                else RuleEmailLong)
                               (fail_request w r (Some sess) a) of
                             (rule, ip, a1) \<Rightarrow>
                               rate_limited w rule ip
                                 (log_login w email ResultRateLimited MethodSSO (s_MAC sess) ip
                                    (rule_name rule) a1))
                     else start_attempt w sess email a))))"

section \<open>Following a sign-in\<close>

definition handleAuthProceed :: "world \<Rightarrow> request \<Rightarrow> app \<Rightarrow> response" where
  "handleAuthProceed w r a =
     (case read_session w a r of
        Inl err \<Rightarrow> page_error (pickLang r) ''sessionLost'' 400 a
      | Inr sess \<Rightarrow>
          (let lang = session_lang r sess
           in if mac_denied w (s_MAC sess) a
              then page_error lang ''rateLimitedPermanent'' 403
                     (log_login w ''(unknown)'' ResultDenied [] (s_MAC sess) (s_UserIP sess) ''mac_denylist'' a)
              else (let token = query r ''token''
                    in if token = [] then page_error lang ''expired'' 400 a
                       else (case take_token (w_now w) token (ap_proceed a) of (taken, ps) \<Rightarrow>
                         (let a1 = a\<lparr>ap_proceed := ps\<rparr>
                          in case taken of
                               None \<Rightarrow> page_error lang ''expired'' 400 a1
                             | Some e \<Rightarrow>
                                 if pe_state e \<noteq> s_State sess then page_error lang ''generic'' 400 a1
                                 else (ReplyRedirect (pe_url e), [], a1))))))"

text \<open>Without an Entra client the redirect dereferences a nil pointer.\<close>

definition entra_redirect :: "world \<Rightarrow> app \<Rightarrow> string \<Rightarrow> string \<Rightarrow> string \<Rightarrow> reply" where
  "entra_redirect w a state nonce hint =
     (if ap_oidc a then ReplyRedirect (w_auth_url w state (auth_options nonce hint)) else ReplyPanic)"

definition handleLogin :: "world \<Rightarrow> request \<Rightarrow> app \<Rightarrow> response" where
  "handleLogin w r a =
     (case read_session w a r of
        Inl err \<Rightarrow> page_error (pickLang r) ''sessionLost'' 400 a
      | Inr sess \<Rightarrow>
          (let hint = trim_space (query r ''hint'');
               hint = (if hint = [] then s_Email sess else hint)
           in (entra_redirect w a (s_State sess) (s_Nonce sess) hint, [], a)))"

text \<open>
  The answer to a state that was used before: the log line slices the first eight bytes of the
  state, which panics when it is shorter.
\<close>

definition replay_reply :: "string \<Rightarrow> string \<Rightarrow> app \<Rightarrow> response" where
  "replay_reply lang state a =
     (if length state < 8 then (ReplyPanic, [], a) else page_error lang ''generic'' 400 a)"

text \<open>The common end of the two callbacks: the event, the cleared limits, the router's URL.\<close>

definition grant_access ::
  "world \<Rightarrow> request \<Rightarrow> Session \<Rightarrow> string \<Rightarrow> string \<Rightarrow> string \<Rightarrow> IKuaiAuthProfile \<Rightarrow> app \<Rightarrow> response" where
  "grant_access w r sess lang upn method profile a =
     (if mac_denied w (s_MAC sess) a
      then page_error lang ''rateLimitedPermanent'' 403
             (log_login w upn ResultDenied method (s_MAC sess) (s_UserIP sess) ''mac_denylist'' a)
      else (ReplyRedirect (buildWebAuthURL (w_md5 w) (w_now w) (ap_conf a)
              \<lparr>dev_ip = s_UserIP sess, dev_mac = s_MAC sess\<rparr> upn profile
              (policy_get profile (ap_policies a))),
            [clearedSessionCookie True],
            clear_success w r sess [upn]
              (log_login w upn ResultSuccess method (s_MAC sess) (s_UserIP sess) [] a)))"

definition adminGrantReason :: "Config \<Rightarrow> UserInfo \<Rightarrow> string" where
  "adminGrantReason cfg u = (if IsAdminEmail (u_UPN u) cfg then ''email_list'' else ''group'')"

definition finishAdminLogin :: "world \<Rightarrow> request \<Rightarrow> string \<Rightarrow> UserInfo \<Rightarrow> app \<Rightarrow> response" where
  "finishAdminLogin w r lang user a =
     (if IsGuest user \<or> \<not> IsAdmin (ap_conf a) user
      then page_error lang ''notAdminMember'' 403
             (log_admin w (u_UPN user) (req_ip w a r) ResultDenied
                ''admin login rejected (not in allow-list)'' a)
      else (ReplyRedirect ''/admin'',
            [adminCookie (w_hmac w) (SessionSecret (ap_conf a))
               \<lparr>a_UPN = u_UPN user, a_Exp = unix (w_now w + adminSessionTTL)\<rparr> True,
             clearedSessionCookie True],
            log_admin w (u_UPN user) (req_ip w a r) ResultSuccess
              (''admin login via='' @ adminGrantReason (ap_conf a) user) a))"

text \<open>What a user that Entra vouches for gets: the console, a refusal, or the network.\<close>

definition finish_entra :: "world \<Rightarrow> request \<Rightarrow> Session \<Rightarrow> string \<Rightarrow> UserInfo \<Rightarrow> app \<Rightarrow> response" where
  "finish_entra w r sess lang user a =
     (if s_Purpose sess = ''admin'' then finishAdminLogin w r lang user a
      else if IsGuest user
      then page_error lang ''guestBlocked'' 403
             (log_login w (u_UPN user) ResultDenied MethodSSO (s_MAC sess) (s_UserIP sess)
                ''guest_blocked'' a)
      else grant_access w r sess lang (u_UPN user) MethodSSO IKuaiProfileSSO a)"

definition mark_state :: "world \<Rightarrow> string \<Rightarrow> app \<Rightarrow> bool \<times> app" where
  "mark_state w state a =
     (case markUsed (w_now w) state (ap_usedStates a) of (ok, us) \<Rightarrow> (ok, a\<lparr>ap_usedStates := us\<rparr>))"

definition handleCallback :: "world \<Rightarrow> request \<Rightarrow> app \<Rightarrow> response" where
  "handleCallback w r a =
     (case read_session w a r of
        Inl err \<Rightarrow> page_error (pickLang r) ''sessionLost'' 400 a
      | Inr sess \<Rightarrow>
          (let lang = session_lang r sess
           in if query r ''error'' \<noteq> [] then page_error lang ''generic'' 400 a
              else if query r ''state'' \<noteq> s_State sess then page_error lang ''generic'' 400 a
              else (case mark_state w (s_State sess) a of (fresh, a1) \<Rightarrow>
                if \<not> fresh then replay_reply lang (s_State sess) a1
                else if query r ''code'' = [] then page_error lang ''generic'' 400 a1
                else if \<not> ap_oidc a1 then (ReplyPanic, [], a1)
                else (case oidc_Exchange (w_oauth_exchange w) (w_verify_token w) (ap_conf a1)
                             (query r ''code'') (s_Nonce sess) of
                        Inl err \<Rightarrow> page_error lang ''generic'' 401 a1
                      | Inr user \<Rightarrow> finish_entra w r sess lang user a1))))"

definition duo_code :: "request \<Rightarrow> string" where
  "duo_code r = (if query r ''duo_code'' = [] then query r ''code'' else query r ''duo_code'')"

definition handleDuoCallback :: "world \<Rightarrow> request \<Rightarrow> app \<Rightarrow> response" where
  "handleDuoCallback w r a =
     (case ap_duoUniversal a of
        None \<Rightarrow> page_error (pickLang r) ''generic'' 503 a
      | Some d \<Rightarrow>
        (case read_session w a r of
           Inl err \<Rightarrow> page_error (pickLang r) ''sessionLost'' 400 a
         | Inr sess \<Rightarrow>
             (let lang = session_lang r sess
              in if query r ''state'' \<noteq> s_State sess then page_error lang ''generic'' 400 a
                 else (case mark_state w (s_State sess) a of (fresh, a1) \<Rightarrow>
                   if \<not> fresh then replay_reply lang (s_State sess) a1
                   else if query r ''error'' \<noteq> [] then page_error lang ''generic'' 400 a1
                   else if duo_code r = [] then page_error lang ''generic'' 400 a1
                   else if s_Email sess = [] then page_error lang ''sessionLost'' 400 a1
                   else (case duo_Exchange (w_hmac512 w) (w_unmarshal w) (w_http w) (w_rnd w 0) (w_now w)
                                d (duo_code r) (s_Email sess) of
                           Inl err \<Rightarrow> page_error lang ''generic'' 401 a1
                         | Inr username \<Rightarrow>
                             grant_access w r sess lang username MethodDuo IKuaiProfileDuo a1)))))"


section \<open>Guest codes\<close>

definition guest_success :: "world \<Rightarrow> request \<Rightarrow> Session \<Rightarrow> string \<Rightarrow> GuestCode \<Rightarrow> app \<Rightarrow> response" where
  "guest_success w r sess upn c a =
     (let a1 = clear_success w r sess []
                 (log_login w upn ResultSuccess MethodGuestCode (s_MAC sess) (s_UserIP sess)
                    (''code-suffix='' @ tail_n (c_code c) 4) a);
          policy = (policy_get IKuaiProfileGuest (ap_policies a1))\<lparr>p_timeout := c_duration c\<rparr>;
          url = buildWebAuthURL (w_md5 w) (w_now w) (ap_conf a1)
                  \<lparr>dev_ip = s_UserIP sess, dev_mac = s_MAC sess\<rparr> upn IKuaiProfileGuest policy
      in (ReplyJSON 200 [(''redirect'', RStr url)], [clearedSessionCookie True], a1))"

definition guest_failure :: "world \<Rightarrow> request \<Rightarrow> Session \<Rightarrow> app \<Rightarrow> response" where
  "guest_failure w r sess a =
     (let l = (ap_lim a)\<lparr>l_guestFails :=
                 record_failure (w_now w) (w_now w) (s_MAC sess) (l_guestFails (ap_lim a))\<rparr>;
          a1 = fail_request w r (Some sess) (a\<lparr>ap_lim := l\<rparr>)
      in json_error 401 ''invalid_code''
           (log_login w ''(guest)'' ResultDenied MethodGuestCode (s_MAC sess) (s_UserIP sess)
              ''invalid_code'' a1))"

definition handleGuestCode :: "world \<Rightarrow> request \<Rightarrow> app \<Rightarrow> response" where
  "handleGuestCode w r a0 =
     (if rq_method r \<noteq> ''POST'' then json_error 405 ''method_not_allowed'' a0
      else if \<not> IsAdminEnabled (ap_conf a0) then json_error 503 ''guest_disabled'' a0
      else (case open_request w r a0 of
        Inl resp \<Rightarrow> resp
      | Inr (sess, a) \<Rightarrow>
          if mac_denied w (s_MAC sess) a
          then (permanent_reply, [],
                log_login w ''(guest)'' ResultDenied MethodGuestCode (s_MAC sess) (req_ip w a r)
                  ''mac_denylist'' a)
          else if int (countIn (w_now w) (s_MAC sess) (GuestCodeMacWindow (ap_conf a))
                         (l_guestFails (ap_lim a))) \<ge> GuestCodeMacFails (ap_conf a)
          then (case over_limit w r sess RuleMAC
                       (log_login w ''(guest)'' ResultRateLimited MethodGuestCode (s_MAC sess)
                          (req_ip w a r) ''mac'' (fail_request w r (Some sess) a)) of
                  (rule, ip, a1) \<Rightarrow> rate_limited w rule ip a1)
          else (case randomHex (w_rnd w 0) of
                  None \<Rightarrow> json_error 500 ''random_failed'' a
                | Some guestID \<Rightarrow>
                    (case Validate (w_flt_gc w) (w_now w) (trim_space (form_value r ''code''))
                            (s_MAC sess) (s_UserIP sess) (''Guest-'' @ guestID) (ap_codes a) of
                       (None, db) \<Rightarrow> guest_failure w r sess (a\<lparr>ap_codes := db\<rparr>)
                     | (Some c, db) \<Rightarrow>
                         guest_success w r sess (''Guest-'' @ guestID) c (a\<lparr>ap_codes := db\<rparr>)))))"


section \<open>The administrator's session\<close>

definition read_admin :: "world \<Rightarrow> app \<Rightarrow> request \<Rightarrow> string + AdminSession" where
  "read_admin w a r = readAdminCookie (w_hmac w) (SessionSecret (ap_conf a)) (w_now w) (rq_cookies r)"

definition handleAdminLogin :: "world \<Rightarrow> request \<Rightarrow> app \<Rightarrow> response" where
  "handleAdminLogin w r a =
     (if \<not> IsAdminEnabled (ap_conf a) then page_error (pickLang r) ''adminDisabled'' 404 a
      else (case read_admin w a r of
        Inr _ \<Rightarrow> (ReplyRedirect ''/admin'', [], a)
      | Inl _ \<Rightarrow> (ReplyPage 200 (pickLang r) ''adminLogin'', [], a)))"

text \<open>The cookie is written before the redirect is built.\<close>

definition handleAdminLoginStart :: "world \<Rightarrow> request \<Rightarrow> app \<Rightarrow> response" where
  "handleAdminLoginStart w r a =
     (if \<not> IsAdminEnabled (ap_conf a) then page_error (pickLang r) ''adminDisabled'' 404 a
      else if rq_method r \<noteq> ''POST'' then json_error 405 ''method_not_allowed'' a
      else (case newAdminPreloginSession (w_rnd w) (w_now w) (pickLang r) of
        None \<Rightarrow> page_error (pickLang r) ''generic'' 500 a
      | Some sess \<Rightarrow>
          (entra_redirect w a (s_State sess) (s_Nonce sess) [], [session_cookie w a sess], a)))"

definition handleAdminLogout :: "app \<Rightarrow> response" where
  "handleAdminLogout a = (ReplyRedirect ''/admin/login'', [clearedAdminCookie True], a)"

definition requireAdmin :: "world \<Rightarrow> bool \<Rightarrow> request \<Rightarrow> app \<Rightarrow> reply + AdminSession" where
  "requireAdmin w apiMode r a =
     (if \<not> IsAdminEnabled (ap_conf a)
      then Inl (if apiMode then reply_error 503 ''admin_disabled''
                else ReplyText 404 ''Admin console not configured'')
      else if rq_method r \<noteq> ''GET'' \<and> rq_method r \<noteq> ''HEAD'' \<and>
              \<not> isSameOriginRequest (w_parse_url w) (ap_conf a) r
      then Inl (if apiMode then reply_error 403 ''cross_origin''
                else ReplyText 403 ''cross-origin request blocked'')
      else (case read_admin w a r of
        Inl _ \<Rightarrow> Inl (if apiMode then reply_error 401 ''not_logged_in'' else ReplyRedirect ''/admin/login'')
      | Inr sess \<Rightarrow> Inr sess))"

end
