(* ===== verification/PortalDemo.thy ===== *)
theory PortalDemo
  imports Portal
begin

text \<open>
  A concrete portal for the witnesses of the theorems about the handlers: a configuration with
  Entra, no Duo, one administrator, the code of \<open>GuestCodeReports\<close>, and requests with a session.
\<close>

definition demo_app :: app where
  "demo_app =
     \<lparr>ap_conf = demo_Config, ap_oidc = True, ap_duo = None, ap_duoUniversal = None,
      ap_lim = demo_limiter, ap_usedStates = newUsedStateSet (15 * minute),
      ap_proceed = newProceedTokenStore (5 * minute), ap_denylist = [], ap_codes = demo_gcDB,
      ap_policyTbl = [], ap_policies = \<lparr>st_defaults = [], st_cache = []\<rparr>,
      ap_events = \<lparr>et_rows = [], et_next = 1\<rparr>\<rparr>"

definition demo_user :: idClaims where
  "demo_user = \<lparr>ic_Sub = ''1'', ic_UPN = ''ann@x.org'', ic_Name = ''Ann'', ic_Email = ''ann@x.org'',
     ic_PreferredUsername = ''ann'', ic_TID = ''t'', ic_Groups = []\<rparr>"

definition demo_world :: "time \<Rightarrow> world" where
  "demo_world now =
     \<lparr>w_now = now, w_rnd = (\<lambda>i. Some ''abc''), w_hmac = demo_hmac, w_hmac512 = demo_hmac,
      w_md5 = id, w_parse_ip = Some, w_parse_url = (\<lambda>_. None),
      w_auth_url = (\<lambda>state opts. ''https://entra''), w_oauth_exchange = (\<lambda>_. Some (Some ''tok'')),
      w_verify_token = (\<lambda>_. Some (''nonce'', Some demo_user)), w_unmarshal = demo_unmarshal,
      w_http = demo_http, w_preauth = (\<lambda>_. None), w_flt_lim = no_limiter_flt, w_flt_deny = False,
      w_flt_gc = (\<lambda>_. False), w_flt_event = False\<rparr>"

lemma demo_now [simp]: "w_now (demo_world t) = t"
  by (simp add: demo_world_def)

definition demo_session :: Session where
  "demo_session = \<lparr>s_UserIP = ''10.0.0.5'', s_MAC = ''aa:bb:cc:dd:ee:ff'', s_State = ''0123456789'',
     s_Nonce = ''nonce'', s_Exp = 900, s_Lang = ''en'', s_Email = ''ann@x.org'', s_Purpose = ''wifi''\<rparr>"

definition demo_cookie :: "Session \<Rightarrow> string" where
  "demo_cookie sess = ck_value (sessionCookie demo_hmac ''0123'' sess True)"

definition demo_req :: "Session \<Rightarrow> string \<Rightarrow> (string \<times> string) list \<Rightarrow> (string \<times> string) list \<Rightarrow> request" where
  "demo_req sess meth q form =
     \<lparr>rq_method = meth, rq_host = ''p'', rq_tls = True, rq_remote = ''10.0.0.5:1234'', rq_headers = [],
      rq_query = q, rq_form = form, rq_cookies = [(sessionCookieName, demo_cookie sess)]\<rparr>"

lemma demo_read_session:
  assumes "unix now \<le> 900" "ap_conf a = demo_Config" "s_Exp sess = 900"
  shows "read_session (demo_world now) a (demo_req sess meth q form) = Inr sess"
proof -
  have "in_int64 (s_Exp sess)" "unix now \<le> s_Exp sess"
    using assms by (simp_all add: in_int64_def)
  moreover have "map_of [(sessionCookieName, demo_cookie sess)] sessionCookieName =
      Some (ck_value (sessionCookie demo_hmac ''0123'' sess True))"
    by (simp add: demo_cookie_def)
  ultimately have "readSessionCookie demo_hmac ''0123'' now [(sessionCookieName, demo_cookie sess)] = Inr sess"
    by (rule read_session_cookie)
  then show ?thesis using assms(2) by (simp add: read_session_def demo_req_def demo_world_def demo_Config_def)
qed

lemma demo_session_exp [simp]: "s_Exp demo_session = 900"
  by (simp add: demo_session_def)

lemma IsMACDenied_Nil [simp]: "IsMACDenied flt mac [] = None"
  by (simp add: IsMACDenied_def Let_def)

lemma demo_mac_denied [simp]: "ap_denylist a = [] \<Longrightarrow> \<not> mac_denied w mac a"
  by (simp add: mac_denied_def)

lemma demo_contains [simp]: "\<not> contains (to_upper ''ann@x.org'') ''#EXT#''"
  by code_simp

lemma demo_conf [simp]: "ap_conf demo_app = demo_Config"
  by (simp add: demo_app_def)

text \<open>The Entra callback of the session.\<close>

definition demo_callback :: request where
  "demo_callback = demo_req demo_session ''GET'' [(''state'', ''0123456789''), (''code'', ''c'')] []"

lemma demo_queries [simp]:
  "query demo_callback ''error'' = []" "query demo_callback ''state'' = ''0123456789''"
  "query demo_callback ''code'' = ''c''"
  by (simp_all add: demo_callback_def demo_req_def get_value_def)

lemma demo_exchange_user:
  "oidc_Exchange (w_oauth_exchange (demo_world now)) (w_verify_token (demo_world now)) demo_Config
     code ''nonce'' = Inr (claims_user demo_user)"
  by (simp add: oidc_Exchange_def demo_world_def demo_Config_def demo_user_def)

lemma demo_fresh: "fst (mark_state w ''0123456789'' demo_app)"
  by (simp add: mark_state_def markUsed_def demo_app_def newUsedStateSet_def Let_def)

lemma demo_callback_grants:
  "\<exists>url. fst (handleCallback (demo_world second) demo_callback demo_app) = ReplyRedirect url"
proof -
  have "read_session (demo_world second) demo_app demo_callback = Inr demo_session"
    unfolding demo_callback_def by (rule demo_read_session) (simp_all add: unix_def second_def)
  then show ?thesis
    using demo_fresh [of "demo_world second"] demo_exchange_user [of second]
    by (simp add: handleCallback_def Let_def case_prod_beta demo_session_def)
       (simp add: mark_state_def case_prod_beta demo_app_def finish_entra_def grant_access_def
         claims_user_def demo_user_def IsGuest_def)
qed

text \<open>With no ban recorded nobody is banned.\<close>

definition no_bans :: "limiter \<Rightarrow> bool" where
  "no_bans l \<longleftrightarrow> l_banTbl l = [] \<and> bl_cache (l_bans l) = []"

lemma lim_isBanned_none:
  "no_bans l \<Longrightarrow> \<not> fst (lim_isBanned flt now ip l) \<and> no_bans (snd (lim_isBanned flt now ip l))"
  by (simp add: no_bans_def lim_isBanned_def isBanned_def expiryOf_def refreshIfStale_def refresh_def
      case_prod_beta Let_def)

lemma banned_loop_none: "no_bans l \<Longrightarrow> fst (banned_loop flt now ips l) = None"
  by (induction ips arbitrary: l) (auto simp: case_prod_beta lim_isBanned_none)

lemma banned_ip_none: "no_bans (ap_lim a) \<Longrightarrow> fst (banned_ip w r s a) = None"
  by (simp add: banned_ip_def case_prod_beta bannedIPForRequest_def banned_loop_none)

lemma no_bans_demo [simp]: "no_bans (ap_lim demo_app)"
  by (simp add: no_bans_def demo_app_def demo_limiter_def)

text \<open>A guest with a code that has a use left.\<close>

definition demo_guest_request :: request where
  "demo_guest_request = demo_req demo_session ''POST'' [] [(''code'', ''AB12'')]"

lemma demo_validate:
  "fst (Validate (\<lambda>_. False) 1000000000 ''AB12'' ''aa:bb:cc:dd:ee:ff'' ''10.0.0.5'' upn demo_gcDB) \<noteq> None"
proof -
  have "find (\<lambda>r. r_lower r = normalizeCode ''AB12'') (db_codes demo_gcDB) = Some (hd (db_codes demo_gcDB))"
    by code_simp
  moreover have "redeemable 1000000000 demo_gcDB (hd (db_codes demo_gcDB))"
    by code_simp
  moreover have "normalizeCode ''AB12'' \<noteq> []" by code_simp
  ultimately show ?thesis by (simp add: Validate_def validate_tx_ok Let_def)
qed

lemma demo_read_guest:
  "read_session (demo_world second) demo_app demo_guest_request = Inr demo_session"
  unfolding demo_guest_request_def by (rule demo_read_session) (simp_all add: unix_def second_def)

lemma demo_guest_admitted:
  "\<exists>body. fst (handleGuestCode (demo_world second) demo_guest_request demo_app) = ReplyJSON 200 body"
proof -
  let ?w = "demo_world second" and ?r = demo_guest_request
  let ?a1 = "snd (banned_ip ?w ?r (Some demo_session) demo_app)"
  obtain c db where v: "Validate (\<lambda>_. False) 1000000000 ''AB12'' ''aa:bb:cc:dd:ee:ff'' ''10.0.0.5''
      (''Guest-'' @ hex_encode ''abc'') demo_gcDB = (Some c, db)"
    using demo_validate [of "''Guest-'' @ hex_encode ''abc''"] by (auto simp: prod_eq_iff)
  have "open_request ?w ?r demo_app = Inr (demo_session, ?a1)"
    by (simp add: open_request_def demo_read_guest case_prod_beta banned_ip_none split: option.split)
  moreover have "rq_method ?r = ''POST''" "IsAdminEnabled demo_Config"
    by (simp_all add: demo_guest_request_def demo_req_def IsAdminEnabled_def demo_Config_def)
  moreover have "ap_conf ?a1 = demo_Config" "ap_denylist ?a1 = []" "ap_codes ?a1 = demo_gcDB"
    "l_guestFails (ap_lim ?a1) = newFailCounter hour"
    by (simp_all add: banned_ip_def case_prod_beta bannedIPForRequest_def banned_loop_fields demo_app_def
        demo_limiter_def)
  moreover have "countIn n k d (newFailCounter w) = 0" for n k d w
    by (simp add: countIn_def newFailCounter_def)
  moreover have "trim_space (form_value ?r ''code'') = ''AB12''"
    by (simp add: demo_guest_request_def demo_req_def form_value_def get_value_def) code_simp
  moreover have "w_rnd ?w 0 = Some ''abc''" "w_flt_gc ?w = (\<lambda>_. False)" "w_now ?w = 1000000000"
    "s_MAC demo_session = ''aa:bb:cc:dd:ee:ff''" "s_UserIP demo_session = ''10.0.0.5''"
    by (simp_all add: demo_world_def demo_session_def second_def)
  ultimately show ?thesis
    using v
    by (simp add: handleGuestCode_def demo_conf randomHex_def demo_Config_def [THEN arg_cong [where f = GuestCodeMacFails]]
        guest_success_def Let_def case_prod_beta split: prod.split option.split)
qed

end
