(* ===== verification/PortalRun.thy ===== *)
theory PortalRun
  imports PortalDemo
begin

text \<open>
  Sequences of requests to the sign-in handlers, with the sweeps of the background loops in
  between: the invariant of the whole state, the parts each handler leaves alone, and what holds of
  any run (a state is accepted once, a code is redeemed no more often than it may).
\<close>

abbreviation app_of :: "response \<Rightarrow> app" where "app_of resp \<equiv> snd (snd resp)"
abbreviation reply_of :: "response \<Rightarrow> reply" where "reply_of resp \<equiv> fst resp"

section \<open>The invariant\<close>

definition wf_app :: "app \<Rightarrow> bool" where
  "wf_app a \<longleftrightarrow> wf_limiter (ap_lim a) \<and> wf_us (ap_usedStates a) \<and> wf_ps (ap_proceed a) \<and>
     wf_macs (ap_denylist a) \<and> wf_gc (ap_codes a) \<and> wf_policies (ap_policyTbl a) \<and>
     wf_events (ap_events a)"

text \<open>Each step of a handler keeps it.\<close>

lemma wf_banned_ip [simp]: "wf_app a \<Longrightarrow> wf_app (snd (banned_ip w r sess a))"
  by (simp add: wf_app_def banned_ip_def case_prod_beta wf_bannedIPForRequest)

lemma wf_fail_request [simp]: "wf_app a \<Longrightarrow> wf_app (fail_request w r sess a)"
  by (simp add: wf_app_def fail_request_def wf_recordRequestFailure)

lemma wf_rate_limited [simp]: "wf_app a \<Longrightarrow> wf_app (app_of (rate_limited w rule ip a))"
  by (simp add: wf_app_def rate_limited_def case_prod_beta wf_writeRateLimited)

lemma wf_log_login [simp]: "wf_app a \<Longrightarrow> wf_app (log_login w s r m mac ip d a)"
  by (simp add: wf_app_def log_login_def wf_logLogin)

lemma wf_log_admin [simp]: "wf_app a \<Longrightarrow> wf_app (log_admin w s ip r d a)"
  by (simp add: wf_app_def log_admin_def wf_logAdminAction)

lemma wf_clear_success [simp]: "wf_app a \<Longrightarrow> wf_app (clear_success w r sess emails a)"
  by (simp add: wf_app_def clear_success_def wf_clearSuccessfulAuthState)

lemma wf_mark_state [simp]: "wf_app a \<Longrightarrow> wf_app (snd (mark_state w st a))"
  by (simp add: wf_app_def mark_state_def case_prod_beta wf_markUsed)

lemma wf_page_json [simp]:
  "app_of (page_error lang key code a) = a" "app_of (json_error status err a) = a"
  by (simp_all add: page_error_def json_error_def)

lemma wf_replay_reply [simp]: "app_of (replay_reply lang st a) = a"
  by (simp add: replay_reply_def)

lemma wf_email_record:
  "wf_app a \<Longrightarrow> wf_app (a\<lparr>ap_lim := (ap_lim a)\<lparr>l_emailFails :=
     record_failure n n e (l_emailFails (ap_lim a))\<rparr>\<rparr>)"
  by (simp add: wf_app_def wf_limiter_def wf_record_failure)

lemma wf_mac_record:
  "wf_app a \<Longrightarrow> wf_app (a\<lparr>ap_lim := (ap_lim a)\<lparr>l_guestFails :=
     record_failure n n e (l_guestFails (ap_lim a))\<rparr>\<rparr>)"
  by (simp add: wf_app_def wf_limiter_def wf_record_failure)

lemma wf_proceed_update: "wf_app a \<Longrightarrow> wf_ps ps \<Longrightarrow> wf_app (a\<lparr>ap_proceed := ps\<rparr>)"
  by (simp add: wf_app_def)

lemma wf_codes_update: "wf_app a \<Longrightarrow> wf_gc db \<Longrightarrow> wf_app (a\<lparr>ap_codes := db\<rparr>)"
  by (simp add: wf_app_def)

text \<open>An opened request gives either a response or the session and the state.\<close>

lemma wf_open_request:
  assumes "wf_app a"
  shows "open_request w r a = Inl resp \<Longrightarrow> wf_app (app_of resp)"
    and "open_request w r a = Inr (sess, a1) \<Longrightarrow> wf_app a1"
proof -
  have "\<And>s. wf_app (snd (banned_ip w r s a))" using assms by simp
  then show "open_request w r a = Inl resp \<Longrightarrow> wf_app (app_of resp)"
    and "open_request w r a = Inr (sess, a1) \<Longrightarrow> wf_app a1"
    by (auto simp: open_request_def case_prod_beta split: sum.splits option.splits)
qed

lemma wf_over_limit: "wf_app a \<Longrightarrow> wf_app (snd (snd (over_limit w r sess rule a)))"
  by (simp add: over_limit_def case_prod_beta split: option.split)

lemma wf_start_attempt: "wf_app a \<Longrightarrow> wf_app (app_of (start_attempt w sess email a))"
proof -
  assume a: "wf_app a"
  then have "wf_ps (snd (put tok n n url st e (ap_proceed a)))" for tok n url st e
    by (simp add: wf_app_def wf_put_token)
  with a have "wf_app (a\<lparr>ap_proceed := snd (put tok n n url st e (ap_proceed a))\<rparr>)" for tok n url st e
    by (intro wf_proceed_update)
  from this wf_email_record [OF this] a show ?thesis
    by (auto simp: start_attempt_def Let_def case_prod_beta split: option.split)
qed

lemma wf_handleAuthStart: "wf_app a \<Longrightarrow> wf_app (app_of (handleAuthStart w r a))"
  by (auto simp: handleAuthStart_def Let_def case_prod_beta wf_start_attempt wf_over_limit
      dest: wf_open_request split: sum.split)

lemma wf_handleAuthProceed: "wf_app a \<Longrightarrow> wf_app (app_of (handleAuthProceed w r a))"
proof -
  assume a: "wf_app a"
  then have "wf_app (a\<lparr>ap_proceed := snd (take_token n tok (ap_proceed a))\<rparr>)" for n tok
    by (intro wf_proceed_update) (simp_all add: wf_app_def wf_take_token)
  with a show ?thesis
    by (auto simp: handleAuthProceed_def Let_def case_prod_beta split: sum.split option.split)
qed

lemma wf_grant_access: "wf_app a \<Longrightarrow> wf_app (app_of (grant_access w r sess lang upn m p a))"
  by (simp add: grant_access_def)

lemma wf_finish_entra: "wf_app a \<Longrightarrow> wf_app (app_of (finish_entra w r sess lang user a))"
  by (simp add: finish_entra_def finishAdminLogin_def wf_grant_access)

lemma wf_handleCallback: "wf_app a \<Longrightarrow> wf_app (app_of (handleCallback w r a))"
  by (simp add: handleCallback_def Let_def case_prod_beta wf_finish_entra split: sum.split)

lemma wf_handleDuoCallback: "wf_app a \<Longrightarrow> wf_app (app_of (handleDuoCallback w r a))"
  by (simp add: handleDuoCallback_def Let_def case_prod_beta wf_grant_access split: sum.split option.split)

lemma wf_guest_success: "wf_app a \<Longrightarrow> wf_app (app_of (guest_success w r sess upn c a))"
  by (simp add: guest_success_def Let_def)

lemma wf_guest_failure: "wf_app a \<Longrightarrow> wf_app (app_of (guest_failure w r sess a))"
  by (simp add: guest_failure_def Let_def wf_mac_record)

lemma wf_handleGuestCode: "wf_app a \<Longrightarrow> wf_app (app_of (handleGuestCode w r a))"
proof -
  assume a: "wf_app a"
  have "wf_app (b\<lparr>ap_codes := snd (Validate f n c m i u (ap_codes b))\<rparr>)" if "wf_app b" for b f n c m i u
    using that by (intro wf_codes_update) (simp_all add: wf_app_def wf_Validate)
  with a show ?thesis
    by (auto simp: handleGuestCode_def Let_def case_prod_beta wf_over_limit
        intro!: wf_guest_success wf_guest_failure dest: wf_open_request split: sum.split option.split)
qed

lemma wf_other_handlers:
  "app_of (handlePortal w r a) = a" "app_of (handleLogin w r a) = a"
  "app_of (handleAdminLogin w r a) = a" "app_of (handleAdminLoginStart w r a) = a"
  "app_of (handleAdminLogout a) = a"
  by (simp_all add: handlePortal_def handleLogin_def handleAdminLogin_def handleAdminLoginStart_def
      handleAdminLogout_def Let_def split: option.split sum.split)

section \<open>Runs\<close>

datatype handler =
    HPortal | HAuthStart | HAuthProceed | HLogin | HCallback | HDuoCallback | HGuestCode
  | HAdminLogin | HAdminLoginStart | HAdminLogout

fun handle :: "handler \<Rightarrow> world \<Rightarrow> request \<Rightarrow> app \<Rightarrow> response" where
  "handle HPortal w r a = handlePortal w r a"
| "handle HAuthStart w r a = handleAuthStart w r a"
| "handle HAuthProceed w r a = handleAuthProceed w r a"
| "handle HLogin w r a = handleLogin w r a"
| "handle HCallback w r a = handleCallback w r a"
| "handle HDuoCallback w r a = handleDuoCallback w r a"
| "handle HGuestCode w r a = handleGuestCode w r a"
| "handle HAdminLogin w r a = handleAdminLogin w r a"
| "handle HAdminLoginStart w r a = handleAdminLoginStart w r a"
| "handle HAdminLogout w r a = handleAdminLogout a"

fun_cases handle_elims: "handle h w r a = resp"

datatype event =
    Request handler world request
  | SweepStates time
  | SweepTokens time
  | SweepCounters time
  | SweepBans bool bool time

definition sweep_counters :: "time \<Rightarrow> limiter \<Rightarrow> limiter" where
  "sweep_counters now l = l\<lparr>l_emailFails := fc_gc now (l_emailFails l),
     l_guestFails := fc_gc now (l_guestFails l), l_ipFails := fc_gc now (l_ipFails l)\<rparr>"

definition sweep_bans :: "bool \<Rightarrow> bool \<Rightarrow> time \<Rightarrow> limiter \<Rightarrow> limiter" where
  "sweep_bans fltDelete fltRefresh now l =
     (case ban_gc fltDelete fltRefresh now (l_banTbl l, l_bans l) of (tbl, c) \<Rightarrow>
        l\<lparr>l_banTbl := tbl, l_bans := c\<rparr>)"

fun event_time :: "event \<Rightarrow> time" where
  "event_time (Request h w r) = w_now w"
| "event_time (SweepStates now) = now"
| "event_time (SweepTokens now) = now"
| "event_time (SweepCounters now) = now"
| "event_time (SweepBans f g now) = now"

fun app_step :: "event \<Rightarrow> app \<Rightarrow> app" where
  "app_step (Request h w r) a = app_of (handle h w r a)"
| "app_step (SweepStates now) a = a\<lparr>ap_usedStates := us_gc now (ap_usedStates a)\<rparr>"
| "app_step (SweepTokens now) a = a\<lparr>ap_proceed := ps_gc now (ap_proceed a)\<rparr>"
| "app_step (SweepCounters now) a = a\<lparr>ap_lim := sweep_counters now (ap_lim a)\<rparr>"
| "app_step (SweepBans f g now) a = a\<lparr>ap_lim := sweep_bans f g now (ap_lim a)\<rparr>"

definition app_run :: "event list \<Rightarrow> app \<Rightarrow> app" where
  "app_run evs a = fold app_step evs a"

lemma app_run_simps [simp]: "app_run [] a = a" "app_run (e # es) a = app_run es (app_step e a)"
  by (simp_all add: app_run_def)

lemma wf_handle: "wf_app a \<Longrightarrow> wf_app (app_of (handle h w r a))"
  by (cases h) (simp_all add: wf_other_handlers wf_handleAuthStart wf_handleAuthProceed
      wf_handleCallback wf_handleDuoCallback wf_handleGuestCode)

lemma wf_ban_gc: "wf_bans tbl \<Longrightarrow> wf_bans (fst (ban_gc f g now (tbl, b)))"
  by (auto simp: ban_gc_def delete_where_def unique_by_def Let_def distinct_map inj_on_def)

lemma wf_app_step: "wf_app a \<Longrightarrow> wf_app (app_step e a)"
  using wf_handle
  by (cases e) (simp_all add: wf_app_def wf_limiter_def wf_us_gc wf_ps_gc wf_fc_gc sweep_counters_def
      sweep_bans_def case_prod_beta wf_ban_gc)

interpretation app_runs: preserved app_step wf_app
  by unfold_locales (rule wf_app_step)

lemma wf_app_run: "wf_app a \<Longrightarrow> wf_app (app_run evs a)"
  unfolding app_run_def by (rule app_runs.run_inv)

section \<open>What the handlers leave alone\<close>

lemma step_usedStates [simp]:
  "ap_usedStates (snd (banned_ip w r s a)) = ap_usedStates a"
  "ap_usedStates (fail_request w r s a) = ap_usedStates a"
  "ap_usedStates (app_of (rate_limited w rule ip a)) = ap_usedStates a"
  "ap_usedStates (log_login w u re m mac ip d a) = ap_usedStates a"
  "ap_usedStates (log_admin w u ip re d a) = ap_usedStates a"
  "ap_usedStates (clear_success w r se emails a) = ap_usedStates a"
  "ap_usedStates (snd (snd (over_limit w r se rule a))) = ap_usedStates a"
  by (simp_all add: banned_ip_def fail_request_def rate_limited_def log_login_def log_admin_def
      clear_success_def over_limit_def case_prod_beta split: option.split)

lemma step_codes [simp]:
  "ap_codes (snd (banned_ip w r s a)) = ap_codes a"
  "ap_codes (fail_request w r s a) = ap_codes a"
  "ap_codes (app_of (rate_limited w rule ip a)) = ap_codes a"
  "ap_codes (log_login w u re m mac ip d a) = ap_codes a"
  "ap_codes (log_admin w u ip re d a) = ap_codes a"
  "ap_codes (clear_success w r se emails a) = ap_codes a"
  "ap_codes (snd (snd (over_limit w r se rule a))) = ap_codes a"
  "ap_codes (snd (mark_state w st a)) = ap_codes a"
  by (simp_all add: banned_ip_def fail_request_def rate_limited_def log_login_def log_admin_def
      clear_success_def over_limit_def mark_state_def case_prod_beta split: option.split)

lemma step_conf [simp]:
  "ap_conf (snd (banned_ip w r s a)) = ap_conf a"
  "ap_conf (fail_request w r s a) = ap_conf a"
  "ap_conf (app_of (rate_limited w rule ip a)) = ap_conf a"
  "ap_conf (log_login w u re m mac ip d a) = ap_conf a"
  "ap_conf (log_admin w u ip re d a) = ap_conf a"
  "ap_conf (clear_success w r se emails a) = ap_conf a"
  "ap_conf (snd (snd (over_limit w r se rule a))) = ap_conf a"
  "ap_conf (snd (mark_state w st a)) = ap_conf a"
  by (simp_all add: banned_ip_def fail_request_def rate_limited_def log_login_def log_admin_def
      clear_success_def over_limit_def mark_state_def case_prod_beta split: option.split)

lemma open_request_keeps:
  "open_request w r a = Inl resp \<Longrightarrow> ap_usedStates (app_of resp) = ap_usedStates a \<and>
     ap_codes (app_of resp) = ap_codes a"
  "open_request w r a = Inr (sess, a1) \<Longrightarrow> ap_usedStates a1 = ap_usedStates a \<and>
     ap_codes a1 = ap_codes a \<and> ap_conf a1 = ap_conf a \<and> read_session w a r = Inr sess"
proof -
  have "ap_usedStates (snd (banned_ip w r s a)) = ap_usedStates a"
    "ap_codes (snd (banned_ip w r s a)) = ap_codes a" "ap_conf (snd (banned_ip w r s a)) = ap_conf a" for s
    by simp_all
  then show "open_request w r a = Inl resp \<Longrightarrow> ap_usedStates (app_of resp) = ap_usedStates a \<and>
      ap_codes (app_of resp) = ap_codes a"
    and "open_request w r a = Inr (sess, a1) \<Longrightarrow> ap_usedStates a1 = ap_usedStates a \<and>
      ap_codes a1 = ap_codes a \<and> ap_conf a1 = ap_conf a \<and> read_session w a r = Inr sess"
    by (auto simp: open_request_def case_prod_beta split: sum.splits option.splits)
qed

lemma mark_state_app: "ap_usedStates (snd (mark_state w st a)) = us_step (Mark (w_now w) st) (ap_usedStates a)"
  by (simp add: mark_state_def case_prod_beta)

lemma grant_usedStates [simp]:
  "ap_usedStates (app_of (grant_access w r se lang u m p a)) = ap_usedStates a"
  "ap_usedStates (app_of (finish_entra w r se lang user a)) = ap_usedStates a"
  by (simp_all add: finish_entra_def grant_access_def finishAdminLogin_def)

lemma start_keeps:
  "ap_usedStates (app_of (start_attempt w se e a)) = ap_usedStates a"
  "ap_codes (app_of (start_attempt w se e a)) = ap_codes a"
  by (simp_all add: start_attempt_def Let_def case_prod_beta split: option.split)

lemma authStart_keeps:
  "ap_usedStates (app_of (handleAuthStart w r a)) = ap_usedStates a"
  "ap_codes (app_of (handleAuthStart w r a)) = ap_codes a"
  by (auto simp: handleAuthStart_def Let_def case_prod_beta start_keeps
      dest: open_request_keeps split: sum.split)

lemma authProceed_keeps:
  "ap_usedStates (app_of (handleAuthProceed w r a)) = ap_usedStates a"
  "ap_codes (app_of (handleAuthProceed w r a)) = ap_codes a"
  by (simp_all add: handleAuthProceed_def Let_def case_prod_beta split: sum.split option.split)

lemma guest_usedStates: "ap_usedStates (app_of (handleGuestCode w r a)) = ap_usedStates a"
  by (auto simp: handleGuestCode_def Let_def case_prod_beta guest_success_def guest_failure_def
      dest: open_request_keeps split: sum.split option.split)

text \<open>A callback leaves the used states alone or marks the state of its session.\<close>

lemma callback_usedStates:
  "ap_usedStates (app_of (handleCallback w r a)) = ap_usedStates a \<or>
   (\<exists>st. ap_usedStates (app_of (handleCallback w r a)) = us_step (Mark (w_now w) st) (ap_usedStates a))"
  "ap_usedStates (app_of (handleDuoCallback w r a)) = ap_usedStates a \<or>
   (\<exists>st. ap_usedStates (app_of (handleDuoCallback w r a)) = us_step (Mark (w_now w) st) (ap_usedStates a))"
  by (auto simp del: us_step.simps simp: handleCallback_def handleDuoCallback_def Let_def case_prod_beta
      mark_state_app split: sum.split option.split)

lemma callback_codes:
  "ap_codes (app_of (handleCallback w r a)) = ap_codes a"
  "ap_codes (app_of (handleDuoCallback w r a)) = ap_codes a"
  by (simp_all add: handleCallback_def handleDuoCallback_def Let_def case_prod_beta finish_entra_def
      finishAdminLogin_def grant_access_def split: sum.split option.split)

lemma app_step_usedStates:
  "ap_usedStates (app_step e a) = ap_usedStates a \<or>
   (\<exists>op. us_time op = event_time e \<and> ap_usedStates (app_step e a) = us_step op (ap_usedStates a))"
proof (cases e)
  case (Request h w r)
  have "ap_usedStates (app_of (handle h w r a)) = ap_usedStates a \<or>
      (\<exists>st. ap_usedStates (app_of (handle h w r a)) = us_step (Mark (w_now w) st) (ap_usedStates a))"
    using callback_usedStates [of w r a]
    by (cases h) (simp_all add: wf_other_handlers authStart_keeps authProceed_keeps guest_usedStates)
  then show ?thesis using Request us_time.simps(1) by (metis app_step.simps(1) event_time.simps(1))
next
  case (SweepStates now)
  then have "ap_usedStates (app_step e a) = us_step (Sweep now) (ap_usedStates a)" by simp
  with SweepStates show ?thesis by (metis us_time.simps(2) event_time.simps(2))
qed simp_all

lemma app_run_usedStates:
  "\<exists>ops. ap_usedStates (app_run evs a) = us_run ops (ap_usedStates a) \<and> length ops \<le> length evs \<and>
     us_time ` set ops \<subseteq> event_time ` set evs"
proof (induction evs arbitrary: a)
  case Nil
  then show ?case by (intro exI [of _ "[]"]) (simp add: us_run_def)
next
  case (Cons e evs)
  obtain ops where ops: "ap_usedStates (app_run evs (app_step e a)) = us_run ops (ap_usedStates (app_step e a))"
      "length ops \<le> length evs" "us_time ` set ops \<subseteq> event_time ` set evs"
    using Cons.IH by blast
  from app_step_usedStates [of e a] show ?case
  proof
    assume "ap_usedStates (app_step e a) = ap_usedStates a"
    with ops show ?thesis by (intro exI [of _ ops]) auto
  next
    assume "\<exists>op. us_time op = event_time e \<and> ap_usedStates (app_step e a) = us_step op (ap_usedStates a)"
    then obtain op where "us_time op = event_time e" "ap_usedStates (app_step e a) = us_step op (ap_usedStates a)"
      by blast
    with ops show ?thesis by (intro exI [of _ "op # ops"]) (auto simp: us_run_def)
  qed
qed

text \<open>No request changes the configuration.\<close>

lemma open_request_conf:
  "open_request w r a = Inl resp \<Longrightarrow> ap_conf (app_of resp) = ap_conf a"
proof -
  have "ap_conf (snd (banned_ip w r s a)) = ap_conf a" for s by simp
  then show "open_request w r a = Inl resp \<Longrightarrow> ap_conf (app_of resp) = ap_conf a"
    by (auto simp: open_request_def case_prod_beta split: sum.splits option.splits)
qed

lemma handle_conf: "ap_conf (app_of (handle h w r a)) = ap_conf a"
proof -
  have "ap_conf (app_of (handleAuthStart w r a)) = ap_conf a"
    by (auto simp: handleAuthStart_def start_attempt_def Let_def case_prod_beta
        dest: open_request_conf open_request_keeps split: sum.split option.split)
  moreover have "ap_conf (app_of (handleGuestCode w r a)) = ap_conf a"
    by (auto simp: handleGuestCode_def guest_success_def guest_failure_def Let_def case_prod_beta
        dest: open_request_conf open_request_keeps split: sum.split option.split)
  moreover have "ap_conf (app_of (handleAuthProceed w r a)) = ap_conf a"
    by (simp add: handleAuthProceed_def Let_def case_prod_beta split: sum.split option.split)
  moreover have "ap_conf (app_of (handleCallback w r a)) = ap_conf a"
    "ap_conf (app_of (handleDuoCallback w r a)) = ap_conf a"
    by (simp_all add: handleCallback_def handleDuoCallback_def Let_def case_prod_beta finish_entra_def
        finishAdminLogin_def grant_access_def split: sum.split option.split)
  ultimately show ?thesis by (cases h) (simp_all add: wf_other_handlers)
qed

lemma app_run_conf: "ap_conf (app_run evs a) = ap_conf a"
proof (induction evs arbitrary: a)
  case (Cons e evs)
  have "ap_conf (app_step e a) = ap_conf a" by (cases e) (simp_all add: handle_conf)
  with Cons.IH show ?case by simp
qed simp

section \<open>A state signs in once\<close>

definition is_callback :: "handler \<Rightarrow> bool" where
  "is_callback h \<longleftrightarrow> h = HCallback \<or> h = HDuoCallback"

lemma not_redirect [simp]:
  "reply_of (page_error lang key code a) \<noteq> ReplyRedirect url"
  "reply_of (replay_reply lang st a) \<noteq> ReplyRedirect url"
  by (simp_all add: page_error_def renderError_def replay_reply_def)

lemma callback_redirect:
  assumes "is_callback h" "read_session w a r = Inr sess" "reply_of (handle h w r a) = ReplyRedirect url"
  shows "fst (markUsed (w_now w) (s_State sess) (ap_usedStates a))"
    and "ap_usedStates (app_of (handle h w r a)) = snd (markUsed (w_now w) (s_State sess) (ap_usedStates a))"
proof -
  have "fst (mark_state w (s_State sess) a) \<and>
      ap_usedStates (app_of (handle h w r a)) = ap_usedStates (snd (mark_state w (s_State sess) a))"
    using assms unfolding is_callback_def
    by (elim disjE) (simp_all add: handleCallback_def handleDuoCallback_def Let_def case_prod_beta
        split: sum.splits option.splits if_splits)
  then show "fst (markUsed (w_now w) (s_State sess) (ap_usedStates a))"
    and "ap_usedStates (app_of (handle h w r a)) = snd (markUsed (w_now w) (s_State sess) (ap_usedStates a))"
    by (simp_all add: mark_state_def case_prod_beta)
qed

text \<open>C4: A state signs in once.  After a callback, from Entra or Duo, has let a session's state
  through, no callback with a session of that state is let through again while the state is
  remembered, whatever requests and sweeps happen in between, as long as these and the states
  already remembered together fit the capacity of the set.\<close>

theorem state_single_use:
  assumes "wf_app a" and "is_callback h" "is_callback h'"
    and "read_session w a r = Inr sess" "reply_of (handle h w r a) = ReplyRedirect url"
    and "a' = app_run evs (app_of (handle h w r a))"
    and "read_session w' a' r' = Inr sess'" "s_State sess' = s_State sess"
    and "\<forall>t\<in>insert (w_now w') (event_time ` set evs). t < w_now w + us_ttl (ap_usedStates a)"
    and "length (us_states (ap_usedStates a)) + Suc (length evs) \<le> maxUsedStates"
  shows "reply_of (handle h' w' r' a') \<noteq> ReplyRedirect url'"
proof
  assume again: "reply_of (handle h' w' r' a') = ReplyRedirect url'"
  let ?st = "s_State sess" and ?a1 = "app_of (handle h w r a)"
  let ?exp = "w_now w + us_ttl (ap_usedStates a)"
  note first = callback_redirect [OF assms(2,4,5)]
  have size: "length (us_states (ap_usedStates ?a1)) \<le> Suc (length (us_states (ap_usedStates a)))"
    using us_step_length [of "ap_usedStates a" "Mark (w_now w) ?st"] first(2) assms(10) by simp
  have "map_of (us_states (ap_usedStates ?a1)) ?st = Some ?exp"
    using markUsed_stores [OF first(1)] first(2) by simp
  moreover obtain ops where ops: "ap_usedStates a' = us_run ops (ap_usedStates ?a1)"
      "length ops \<le> length evs" "us_time ` set ops \<subseteq> event_time ` set evs"
    using app_run_usedStates [of evs ?a1] assms(6) by blast
  moreover have "wf_us (ap_usedStates ?a1)"
    using wf_handle [OF assms(1)] by (simp add: wf_app_def)
  moreover have "\<forall>op\<in>set ops. us_time op < ?exp" using ops(3) assms(9) by blast
  moreover have "length (us_states (ap_usedStates ?a1)) + length ops \<le> maxUsedStates"
    using size ops(2) assms(10) by linarith
  ultimately have "map_of (us_states (ap_usedStates a')) ?st = Some ?exp"
    by (simp only: ops(1)) (rule us_run_keeps)
  moreover have "fst (markUsed (w_now w') ?st (ap_usedStates a'))"
    using callback_redirect(1) [OF assms(3,7) again] assms(8) by simp
  ultimately show False using assms(9) unfolding markUsed_accepts by fastforce
qed

lemma wf_demo_app: "wf_app demo_app"
  using wf_demo_gcDB wf_demo_limiter
  by (simp add: wf_app_def demo_app_def wf_newUsedStateSet wf_newProceedTokenStore wf_macs_def
      wf_policies_def wf_events_def unique_by_def)

theorem state_single_use_witness:
  "\<forall>url. reply_of (handle HCallback (demo_world (2 * second)) demo_callback
     (app_of (handle HCallback (demo_world second) demo_callback demo_app))) \<noteq> ReplyRedirect url"
proof -
  let ?a' = "app_run [] (app_of (handle HCallback (demo_world second) demo_callback demo_app))"
  obtain url0 where first: "reply_of (handle HCallback (demo_world second) demo_callback demo_app) = ReplyRedirect url0"
    using demo_callback_grants by auto
  have s: "read_session (demo_world (t * second)) a demo_callback = Inr demo_session"
    if "ap_conf a = demo_Config" "t \<le> 900" for t a
    unfolding demo_callback_def using that by (intro demo_read_session) (simp_all add: unix_def second_def)
  have conf: "ap_conf ?a' = demo_Config" by (simp only: app_run_conf handle_conf demo_conf)
  have h: "is_callback HCallback" by (simp add: is_callback_def)
  have s1: "read_session (demo_world second) demo_app demo_callback = Inr demo_session"
    using s [of demo_app 1] by simp
  have s2: "read_session (demo_world (2 * second)) ?a' demo_callback = Inr demo_session"
    using s [OF conf, of 2] by simp
  have times: "\<forall>t\<in>insert (w_now (demo_world (2 * second))) (event_time ` set []).
      t < w_now (demo_world second) + us_ttl (ap_usedStates demo_app)"
    by (simp add: demo_world_def demo_app_def newUsedStateSet_def second_def minute_def)
  have size: "length (us_states (ap_usedStates demo_app)) + Suc (length ([] :: event list)) \<le> maxUsedStates"
    by (simp add: demo_app_def newUsedStateSet_def maxUsedStates_def)
  have "reply_of (handle HCallback (demo_world (2 * second)) demo_callback ?a') \<noteq> ReplyRedirect url" for url
    by (rule state_single_use [OF wf_demo_app h h s1 first refl s2 refl times size])
  then show ?thesis by simp
qed

end
