(* ===== verification/PortalSafety.thy ===== *)
theory PortalSafety
  imports PortalRun
begin

text \<open>
  What the sign-in handlers let through: the conditions under which a visitor is admitted to the
  network, what the reply of \<open>/auth/start\<close> reveals, the binding of the tokens to the session, and
  who gets into the console.
\<close>

section \<open>Admission by Entra and Duo\<close>

lemma grant_redirect:
  "reply_of (grant_access w r sess lang upn m p a) = ReplyRedirect url \<longleftrightarrow>
     \<not> mac_denied w (s_MAC sess) a \<and>
     url = buildWebAuthURL (w_md5 w) (w_now w) (ap_conf a) \<lparr>dev_ip = s_UserIP sess, dev_mac = s_MAC sess\<rparr>
             upn p (policy_get p (ap_policies a))"
  by (auto simp: grant_access_def)

lemma mark_state_frame [simp]:
  "ap_denylist (snd (mark_state w st a)) = ap_denylist a"
  "ap_policies (snd (mark_state w st a)) = ap_policies a"
  "ap_oidc (snd (mark_state w st a)) = ap_oidc a"
  "mac_denied w mac (snd (mark_state w st a)) = mac_denied w mac a"
  by (simp_all add: mark_state_def case_prod_beta mac_denied_def)

text \<open>C3: When Entra's callback admits.  A visitor's callback (any purpose but the console's)
  redirects to the router exactly when the cookie holds a session, Entra reported no error, the
  state of the query is the session's and was not used before, there is a code and a client,
  the exchange under the session's nonce gives a user of the tenant who is no guest, and the
  device is not denied; the redirect is then the allow-list URL of the session's device under
  that user's name with the policy of members, and the session cookie is cleared.\<close>

theorem callback_grants:
  assumes "read_session w a r = Inr sess" "s_Purpose sess \<noteq> ''admin''"
  shows "reply_of (handleCallback w r a) = ReplyRedirect url \<longleftrightarrow>
    (\<exists>user. query r ''error'' = [] \<and> query r ''state'' = s_State sess \<and>
       fst (markUsed (w_now w) (s_State sess) (ap_usedStates a)) \<and> query r ''code'' \<noteq> [] \<and> ap_oidc a \<and>
       oidc_Exchange (w_oauth_exchange w) (w_verify_token w) (ap_conf a) (query r ''code'') (s_Nonce sess) = Inr user \<and>
       u_TenantID user = TenantID (ap_conf a) \<and> \<not> IsGuest user \<and> \<not> mac_denied w (s_MAC sess) a \<and>
       url = buildWebAuthURL (w_md5 w) (w_now w) (ap_conf a)
               \<lparr>dev_ip = s_UserIP sess, dev_mac = s_MAC sess\<rparr> (u_UPN user) IKuaiProfileSSO
               (policy_get IKuaiProfileSSO (ap_policies a)) \<and>
       fst (snd (handleCallback w r a)) = [clearedSessionCookie True])"
proof -
  have mark: "fst (mark_state w st a) = fst (markUsed (w_now w) st (ap_usedStates a))" for st
    by (simp add: mark_state_def case_prod_beta)
  have tenant: "oidc_Exchange x y (ap_conf a) c n = Inr u \<Longrightarrow> u_TenantID u = TenantID (ap_conf a)" for x y c n u
    by (auto simp: oidc_Exchange_Inr claims_user_def)
  show ?thesis
    using assms
    by (auto simp: handleCallback_def Let_def case_prod_beta mark finish_entra_def grant_redirect
        grant_access_def split: sum.splits dest: tenant)
qed

theorem callback_grants_witness:
  "\<exists>url. reply_of (handleCallback (demo_world second) demo_callback demo_app) = ReplyRedirect url \<and>
     \<not> mac_denied (demo_world second) (s_MAC demo_session) demo_app"
proof -
  have s: "read_session (demo_world second) demo_app demo_callback = Inr demo_session"
    unfolding demo_callback_def by (rule demo_read_session) (simp_all add: unix_def second_def)
  have p: "s_Purpose demo_session \<noteq> ''admin''" by (simp add: demo_session_def)
  obtain url where "reply_of (handleCallback (demo_world second) demo_callback demo_app) = ReplyRedirect url"
    using demo_callback_grants by blast
  with callback_grants [OF s p] show ?thesis by blast
qed

text \<open>When Duo's callback admits.  It redirects to the router exactly when the Duo client is
  there, the cookie holds a session with an email, the state of the query is the session's and
  was not used before, Duo reported no error and gave a code, the exchange for the session's
  email succeeds and the device is not denied; the user of the redirect is the email of the
  session up to case.\<close>

theorem duo_callback_grants:
  assumes "read_session w a r = Inr sess"
  shows "reply_of (handleDuoCallback w r a) = ReplyRedirect url \<longleftrightarrow>
    (\<exists>d user. ap_duoUniversal a = Some d \<and> query r ''state'' = s_State sess \<and>
       fst (markUsed (w_now w) (s_State sess) (ap_usedStates a)) \<and> query r ''error'' = [] \<and>
       duo_code r \<noteq> [] \<and> s_Email sess \<noteq> [] \<and>
       duo_Exchange (w_hmac512 w) (w_unmarshal w) (w_http w) (w_rnd w 0) (w_now w) d (duo_code r) (s_Email sess) = Inr user \<and>
       equal_fold user (s_Email sess) \<and> \<not> mac_denied w (s_MAC sess) a \<and>
       url = buildWebAuthURL (w_md5 w) (w_now w) (ap_conf a)
               \<lparr>dev_ip = s_UserIP sess, dev_mac = s_MAC sess\<rparr> user IKuaiProfileDuo
               (policy_get IKuaiProfileDuo (ap_policies a)))"
proof -
  have mark: "fst (mark_state w st a) = fst (markUsed (w_now w) st (ap_usedStates a))" for st
    by (simp add: mark_state_def case_prod_beta)
  have user: "duo_Exchange x y z n t d c e = Inr u \<Longrightarrow> e \<noteq> [] \<Longrightarrow> equal_fold u e" for x y z n t d c e u
    by (auto simp: duo_Exchange_Inr check_claims_Inr)
  show ?thesis
    using assms
    by (auto simp: handleDuoCallback_def Let_def case_prod_beta mark grant_redirect
        split: sum.splits option.splits dest: user)
qed

definition demo_duo_app :: app where
  "demo_duo_app = demo_app\<lparr>ap_duoUniversal := Some demo_duo\<rparr>"

definition demo_bob :: Session where
  "demo_bob = demo_session\<lparr>s_Email := ''bob''\<rparr>"

definition demo_duo_callback :: request where
  "demo_duo_callback = demo_req demo_bob ''GET'' [(''state'', ''0123456789''), (''duo_code'', ''code'')] []"

theorem duo_callback_grants_witness:
  "\<exists>url. reply_of (handleDuoCallback (demo_world (90 * second)) demo_duo_callback demo_duo_app) = ReplyRedirect url"
proof -
  have s: "read_session (demo_world (90 * second)) demo_duo_app demo_duo_callback = Inr demo_bob"
    unfolding demo_duo_callback_def
    by (rule demo_read_session) (simp_all add: unix_def second_def demo_duo_app_def demo_bob_def)
  have "duo_Exchange demo_hmac demo_unmarshal demo_http (Some ''abc'') (90 * second) demo_duo ''code'' ''bob'' = Inr ''Bob''"
    by (rule demo_exchange)
  moreover have "equal_fold ''Bob'' ''bob''" by code_simp
  moreover have "fst (markUsed t ''0123456789'' (ap_usedStates demo_duo_app))" for t
    by (simp add: demo_duo_app_def demo_app_def newUsedStateSet_def markUsed_def Let_def)
  moreover have "query demo_duo_callback ''state'' = ''0123456789''" "query demo_duo_callback ''error'' = []"
      "duo_code demo_duo_callback = ''code''"
    by (simp_all add: demo_duo_callback_def demo_req_def get_value_def duo_code_def)
  ultimately show ?thesis
    unfolding duo_callback_grants [OF s]
    by (auto simp: demo_duo_app_def demo_app_def demo_bob_def demo_session_def demo_world_def)
qed

section \<open>Admission by a guest code\<close>

lemma rate_limited_status: "reply_of (rate_limited w rule ip a) \<noteq> ReplyJSON 200 body"
  by (auto simp: rate_limited_def case_prod_beta writeRateLimited_def Let_def split: limit_rule.split)

lemma open_request_Inl_status: "open_request w r a = Inl resp \<Longrightarrow> reply_of resp \<noteq> ReplyJSON 200 body"
  by (auto simp: open_request_def case_prod_beta rate_limited_status json_error_def reply_error_def
      split: sum.splits option.splits)

lemma open_request_Inl:
  "open_request w r a = Inl resp \<Longrightarrow> read_session w a r = Inr sess \<Longrightarrow>
     fst (banned_ip w r (Some sess) a) \<noteq> None"
  by (auto simp: open_request_def case_prod_beta split: option.splits)

lemma open_request_Inr:
  "open_request w r a = Inr (sess, a1) \<longleftrightarrow>
     read_session w a r = Inr sess \<and> fst (banned_ip w r (Some sess) a) = None \<and>
     a1 = snd (banned_ip w r (Some sess) a)"
  by (auto simp: open_request_def case_prod_beta split: sum.splits option.splits)

lemma banned_ip_frame [simp]:
  "ap_denylist (snd (banned_ip w r s a)) = ap_denylist a"
  "ap_policies (snd (banned_ip w r s a)) = ap_policies a"
  "mac_denied w mac (snd (banned_ip w r s a)) = mac_denied w mac a"
  "l_guestFails (ap_lim (snd (banned_ip w r s a))) = l_guestFails (ap_lim a)"
  "l_emailFails (ap_lim (snd (banned_ip w r s a))) = l_emailFails (ap_lim a)"
  by (simp_all add: banned_ip_def case_prod_beta mac_denied_def bannedIPForRequest_def banned_loop_fields)

lemma email_counts_banned [simp]: "email_counts w (snd (banned_ip w r s a)) e = email_counts w a e"
  by (simp add: email_counts_def)

lemma other_frame [simp]:
  "ap_policies (fail_request w r s a) = ap_policies a"
  "ap_policies (log_login w u re m mac ip d a) = ap_policies a"
  "ap_policies (clear_success w r se emails a) = ap_policies a"
  by (simp_all add: fail_request_def log_login_def clear_success_def)

lemma guest_cases:
  assumes "reply_of (handleGuestCode w r a) = ReplyJSON 200 body"
  obtains sess bytes c where "rq_method r = ''POST''" "IsAdminEnabled (ap_conf a)"
    "read_session w a r = Inr sess" "fst (banned_ip w r (Some sess) a) = None"
    "\<not> mac_denied w (s_MAC sess) a"
    "int (countIn (w_now w) (s_MAC sess) (GuestCodeMacWindow (ap_conf a)) (l_guestFails (ap_lim a))) <
       GuestCodeMacFails (ap_conf a)"
    "w_rnd w 0 = Some bytes"
    "Validate (w_flt_gc w) (w_now w) (trim_space (form_value r ''code'')) (s_MAC sess) (s_UserIP sess)
       (''Guest-'' @ hex_encode bytes) (ap_codes a) = (Some c, ap_codes (app_of (handleGuestCode w r a)))"
    "body = [(''redirect'', RStr (buildWebAuthURL (w_md5 w) (w_now w) (ap_conf a)
       \<lparr>dev_ip = s_UserIP sess, dev_mac = s_MAC sess\<rparr> (''Guest-'' @ hex_encode bytes) IKuaiProfileGuest
       ((policy_get IKuaiProfileGuest (ap_policies a))\<lparr>p_timeout := c_duration c\<rparr>)))]"
proof -
  have m: "rq_method r = ''POST''" "IsAdminEnabled (ap_conf a)"
    using assms by (auto simp: handleGuestCode_def json_error_def reply_error_def split: if_splits)
  then obtain sess a1 where "open_request w r a = Inr (sess, a1)"
    using assms open_request_Inl_status [of w r a]
    by (auto simp: handleGuestCode_def split: sum.splits)
  then have o': "read_session w a r = Inr sess" "fst (banned_ip w r (Some sess) a) = None"
    and o: "open_request w r a = Inr (sess, snd (banned_ip w r (Some sess) a))"
    by (auto simp: open_request_Inr)
  let ?a1 = "snd (banned_ip w r (Some sess) a)"
  obtain bytes where b: "w_rnd w 0 = Some bytes" and d: "\<not> mac_denied w (s_MAC sess) a"
      "int (countIn (w_now w) (s_MAC sess) (GuestCodeMacWindow (ap_conf a)) (l_guestFails (ap_lim a))) <
       GuestCodeMacFails (ap_conf a)"
    using assms m o o'
    by (auto simp: handleGuestCode_def permanent_reply_def json_error_def reply_error_def randomHex_def
        case_prod_beta rate_limited_status split: if_splits option.splits)
  let ?v = "Validate (w_flt_gc w) (w_now w) (trim_space (form_value r ''code'')) (s_MAC sess) (s_UserIP sess)
       (''Guest-'' @ hex_encode bytes) (ap_codes a)"
  have v: "handleGuestCode w r a = (case ?v of (None, db) \<Rightarrow> guest_failure w r sess (?a1\<lparr>ap_codes := db\<rparr>)
      | (Some c, db) \<Rightarrow> guest_success w r sess (''Guest-'' @ hex_encode bytes) c (?a1\<lparr>ap_codes := db\<rparr>))"
    using m o o' b d by (simp add: handleGuestCode_def randomHex_def)
  obtain c where c: "fst ?v = Some c"
    using assms v by (cases "fst ?v")
      (auto simp: guest_failure_def json_error_def reply_error_def Let_def split: prod.splits)
  then have s: "handleGuestCode w r a = guest_success w r sess (''Guest-'' @ hex_encode bytes) c (?a1\<lparr>ap_codes := snd ?v\<rparr>)"
    using v by (simp split: prod.splits)
  then have "?v = (Some c, ap_codes (app_of (handleGuestCode w r a)))"
    using c by (simp add: guest_success_def Let_def prod_eq_iff)
  moreover have "body = [(''redirect'', RStr (buildWebAuthURL (w_md5 w) (w_now w) (ap_conf a)
       \<lparr>dev_ip = s_UserIP sess, dev_mac = s_MAC sess\<rparr> (''Guest-'' @ hex_encode bytes) IKuaiProfileGuest
       ((policy_get IKuaiProfileGuest (ap_policies a))\<lparr>p_timeout := c_duration c\<rparr>)))]"
    using assms s o' by (simp add: guest_success_def Let_def)
  ultimately show thesis using that m o' b d by blast
qed

lemma toDomainCode_duration [simp]: "c_duration (toDomainCode row us) = r_duration row"
  by (simp add: toDomainCode_def)

lemma router_fields:
  "router_query cfg (buildWebAuthURL md5 now cfg dev upn profile policy) ''timeout'' = Some (itoa (p_timeout policy))"
  "router_query cfg (buildWebAuthURL md5 now cfg dev upn profile policy) ''user_ip'' = Some (dev_ip dev)"
  "router_query cfg (buildWebAuthURL md5 now cfg dev upn profile policy) ''mac'' = Some (dev_mac dev)"
  by (simp_all add: router_query_url auth_params_def Let_def)

text \<open>C21: What a guest code buys.  When the guest handler answers with a redirect, the request was
  a POST with a session of a device that is neither denied nor over its limit of failures, guests
  are enabled, and the code names a stored code that is neither expired nor exhausted; the code
  has exactly one use more afterwards and no more than its maximum; the URL makes the router
  admit the session's address and device for the minutes of the code.\<close>

theorem guest_admits:
  assumes "reply_of (handleGuestCode w r a) = ReplyJSON 200 body"
    and "a' = app_of (handleGuestCode w r a)"
  shows "\<exists>sess row url. rq_method r = ''POST'' \<and> IsAdminEnabled (ap_conf a) \<and> read_session w a r = Inr sess \<and>
    \<not> mac_denied w (s_MAC sess) a \<and>
    int (countIn (w_now w) (s_MAC sess) (GuestCodeMacWindow (ap_conf a)) (l_guestFails (ap_lim a))) <
      GuestCodeMacFails (ap_conf a) \<and>
    find (\<lambda>row. r_lower row = normalizeCode (trim_space (form_value r ''code''))) (db_codes (ap_codes a)) = Some row \<and>
    redeemable (w_now w) (ap_codes a) row \<and>
    length (uses_of (r_code row) (ap_codes a')) = Suc (length (uses_of (r_code row) (ap_codes a))) \<and>
    (r_max row > 0 \<longrightarrow> int (length (uses_of (r_code row) (ap_codes a'))) \<le> r_max row) \<and>
    body = [(''redirect'', RStr url)] \<and>
    router_query (ap_conf a) url ''timeout'' = Some (itoa (r_duration row)) \<and>
    router_query (ap_conf a) url ''user_ip'' = Some (s_UserIP sess) \<and>
    router_query (ap_conf a) url ''mac'' = Some (s_MAC sess)"
proof -
  obtain sess bytes c where g: "rq_method r = ''POST''" "IsAdminEnabled (ap_conf a)"
    "read_session w a r = Inr sess" "\<not> mac_denied w (s_MAC sess) a"
    "int (countIn (w_now w) (s_MAC sess) (GuestCodeMacWindow (ap_conf a)) (l_guestFails (ap_lim a))) <
       GuestCodeMacFails (ap_conf a)"
    "Validate (w_flt_gc w) (w_now w) (trim_space (form_value r ''code'')) (s_MAC sess) (s_UserIP sess)
       (''Guest-'' @ hex_encode bytes) (ap_codes a) = (Some c, ap_codes a')"
    "body = [(''redirect'', RStr (buildWebAuthURL (w_md5 w) (w_now w) (ap_conf a)
       \<lparr>dev_ip = s_UserIP sess, dev_mac = s_MAC sess\<rparr> (''Guest-'' @ hex_encode bytes) IKuaiProfileGuest
       ((policy_get IKuaiProfileGuest (ap_policies a))\<lparr>p_timeout := c_duration c\<rparr>)))]"
    using guest_cases [OF assms(1)] assms(2) by metis
  from g(6) obtain row where v: "find (\<lambda>row. r_lower row = normalizeCode (trim_space (form_value r ''code'')))
        (db_codes (ap_codes a)) = Some row"
      "redeemable (w_now w) (ap_codes a) row"
      "ap_codes a' = add_uses (w_now w) [new_use (w_now w) (r_code row) (s_MAC sess) (s_UserIP sess)
         (''Guest-'' @ hex_encode bytes)] (ap_codes a)"
      "c = toDomainCode row (sort_key u_at (uses_of (r_code row) (ap_codes a')))"
    by (rule Validate_Some)
  have uses: "length (uses_of (r_code row) (ap_codes a')) = Suc (length (uses_of (r_code row) (ap_codes a)))"
    unfolding v(3) uses_of_add by simp
  then have "r_max row > 0 \<longrightarrow> int (length (uses_of (r_code row) (ap_codes a'))) \<le> r_max row"
    using v(2) by (auto simp: redeemable_def)
  with g v(1,2) uses show ?thesis
    by (simp add: v(4) router_fields del: append.simps)
qed


theorem guest_admits_witness:
  "\<exists>url. router_query demo_Config url ''timeout'' = Some (itoa 60) \<and>
     reply_of (handleGuestCode (demo_world second) demo_guest_request demo_app) = ReplyJSON 200 [(''redirect'', RStr url)]"
proof -
  obtain body where b: "reply_of (handleGuestCode (demo_world second) demo_guest_request demo_app) = ReplyJSON 200 body"
    using demo_guest_admitted by blast
  have "find (\<lambda>r. r_lower r = normalizeCode (trim_space (form_value demo_guest_request ''code'')))
      (db_codes (ap_codes demo_app)) = Some (hd (db_codes demo_gcDB))"
    by (simp add: demo_guest_request_def demo_req_def form_value_def get_value_def demo_app_def) code_simp
  moreover have "r_duration (hd (db_codes demo_gcDB)) = 60" by (simp add: demo_gcDB_def)
  ultimately show ?thesis using guest_admits [OF b refl] b by auto
qed

text \<open>How many requests of a run were admitted with the code of a given key.\<close>

definition admitted_with :: "string \<Rightarrow> event \<Rightarrow> app \<Rightarrow> bool" where
  "admitted_with k e a \<longleftrightarrow>
     (case e of
        Request h w r \<Rightarrow> h = HGuestCode \<and> normalizeCode (trim_space (form_value r ''code'')) = k \<and>
          (case reply_of (handleGuestCode w r a) of ReplyJSON status _ \<Rightarrow> status = 200 | _ \<Rightarrow> False)
      | _ \<Rightarrow> False)"

fun admissions :: "string \<Rightarrow> event list \<Rightarrow> app \<Rightarrow> nat" where
  "admissions k [] a = 0"
| "admissions k (e # es) a = (if admitted_with k e a then 1 else 0) + admissions k es (app_step e a)"

lemma guest_success_status: "\<exists>body. reply_of (guest_success w r se u c a) = ReplyJSON 200 body"
  by (simp add: guest_success_def Let_def)

lemma guest_refused:
  assumes "\<forall>body. reply_of (handleGuestCode w r a) \<noteq> ReplyJSON 200 body"
  shows "ap_codes (app_of (handleGuestCode w r a)) = ap_codes a"
proof -
  from assms show ?thesis
    by (auto simp: handleGuestCode_def guest_success_def guest_failure_def Let_def case_prod_beta Validate_None
        dest: open_request_keeps split: sum.splits option.splits if_splits prod.splits)
qed

lemma app_step_codes:
  assumes "\<not> (\<exists>w r body. e = Request HGuestCode w r \<and> reply_of (handleGuestCode w r a) = ReplyJSON 200 body)"
  shows "ap_codes (app_step e a) = ap_codes a"
proof (cases e)
  case (Request h w r)
  then show ?thesis
    using assms guest_refused [of w r a]
    by (cases h) (auto simp: wf_other_handlers authStart_keeps authProceed_keeps callback_codes)
qed simp_all

lemma guest_validated:
  assumes "reply_of (handleGuestCode w r a) = ReplyJSON 200 body"
  shows "\<exists>mac ip upn c. Validate (w_flt_gc w) (w_now w) (trim_space (form_value r ''code'')) mac ip upn
    (ap_codes a) = (Some c, ap_codes (app_of (handleGuestCode w r a)))"
  by (rule guest_cases [OF assms]) (intro exI, assumption)

lemma used_up_step:
  assumes "wf_app a" "find (\<lambda>r. r_lower r = k) (db_codes (ap_codes a)) = Some row"
    and "r_max row > 0" "int (used_up k (ap_codes a)) \<le> r_max row"
  shows "db_codes (ap_codes (app_step e a)) = db_codes (ap_codes a) \<and>
    used_up k (ap_codes (app_step e a)) = used_up k (ap_codes a) + (if admitted_with k e a then 1 else 0) \<and>
    int (used_up k (ap_codes (app_step e a))) \<le> r_max row"
proof (cases "\<exists>w r body. e = Request HGuestCode w r \<and> reply_of (handleGuestCode w r a) = ReplyJSON 200 body")
  case False
  then have "\<not> admitted_with k e a"
    by (auto simp: admitted_with_def split: event.splits reply.splits)
  then show ?thesis using app_step_codes [OF False] assms(4) by simp
next
  case True
  then obtain w r body where e: "e = Request HGuestCode w r"
      "reply_of (handleGuestCode w r a) = ReplyJSON 200 body" by blast
  let ?code = "trim_space (form_value r ''code'')"
  obtain mac ip upn c where "Validate (w_flt_gc w) (w_now w) ?code mac ip upn (ap_codes a) =
      (Some c, ap_codes (app_of (handleGuestCode w r a)))"
    using guest_validated [OF e(2)] by blast
  then obtain db where v: "Validate (w_flt_gc w) (w_now w) ?code mac ip upn (ap_codes a) = (Some c, db)"
      and db: "db = ap_codes (app_step e a)"
    using e(1) by simp
  have adm: "admitted_with k e a \<longleftrightarrow> normalizeCode ?code = k"
    using e by (simp add: admitted_with_def)
  have wf: "wf_gc (ap_codes a)" using assms(1) by (simp add: wf_app_def)
  have "db_codes db = db_codes (ap_codes a)"
    using Validate_codes [of "w_flt_gc w" "w_now w" ?code mac ip upn "ap_codes a"] v by simp
  moreover have "used_up k db = used_up k (ap_codes a) + (if admitted_with k e a then 1 else 0)"
    using used_up_Validate [OF wf, of k "w_flt_gc w" "w_now w" ?code mac ip upn] v assms(2) adm by simp
  moreover have "int (used_up k db) \<le> r_max row"
    using Validate_bounded [OF wf assms(2-4), of "w_flt_gc w" "w_now w" ?code mac ip upn] v by simp
  ultimately show ?thesis unfolding db by blast
qed

text \<open>C2: A code admits no more than its limit.  Over any sequence of requests to the portal, with
  any faults, a code with a limit gains exactly one use per request it admits, and never more
  uses than the limit; so it admits at most as many requests as it has uses left.\<close>

theorem code_limit_holds:
  assumes "wf_app a" "find (\<lambda>r. r_lower r = k) (db_codes (ap_codes a)) = Some row"
    and "r_max row > 0" "int (used_up k (ap_codes a)) \<le> r_max row"
  shows "used_up k (ap_codes (app_run evs a)) = used_up k (ap_codes a) + admissions k evs a \<and>
    int (used_up k (ap_codes a) + admissions k evs a) \<le> r_max row"
  using assms
proof (induction evs arbitrary: a)
  case Nil
  then show ?case by simp
next
  case (Cons e evs)
  note step = used_up_step [OF Cons.prems, of e]
  have "used_up k (ap_codes (app_run evs (app_step e a))) = used_up k (ap_codes (app_step e a)) +
        admissions k evs (app_step e a) \<and>
      int (used_up k (ap_codes (app_step e a)) + admissions k evs (app_step e a)) \<le> r_max row"
    using Cons.prems step by (intro Cons.IH wf_app_step) simp_all
  with step show ?case by simp
qed

theorem code_limit_holds_witness:
  "int (admissions ''ab12'' [Request HGuestCode (demo_world second) demo_guest_request] demo_app) \<le> 1"
proof -
  have "find (\<lambda>r. r_lower r = ''ab12'') (db_codes (ap_codes demo_app)) = Some (hd (db_codes demo_gcDB))"
    unfolding demo_app_def by code_simp
  moreover have "r_max (hd (db_codes demo_gcDB)) = 2" "used_up ''ab12'' (ap_codes demo_app) = 1"
    unfolding demo_app_def by code_simp+
  ultimately show ?thesis
    using code_limit_holds [OF wf_demo_app, of "''ab12''" "hd (db_codes demo_gcDB)"
        "[Request HGuestCode (demo_world second) demo_guest_request]"]
    by simp
qed

section \<open>Starting a sign-in\<close>

lemma fst_put [simp]: "fst (put tok n m url st email s) = tok"
  by (simp add: put_def Let_def split: option.split)

lemma start_attempt_reply:
  "reply_of (start_attempt w sess email a) =
     (case randomHex (w_rnd w 0) of
        None \<Rightarrow> reply_error 500 ''internal''
      | Some token \<Rightarrow> ReplyJSON 200 [(''redirect'', RStr (''/auth/proceed?token='' @ token))])"
  "fst (snd (start_attempt w sess email a)) = [session_cookie w a (sess\<lparr>s_Email := email\<rparr>)]"
  by (cases "randomHex (w_rnd w 0)"; simp add: start_attempt_def Let_def case_prod_beta put_def)+

lemma preauth_frame [simp]:
  "read_session (w\<lparr>w_preauth := p\<rparr>) a r = read_session w a r"
  "session_cookie (w\<lparr>w_preauth := p\<rparr>) a se = session_cookie w a se"
  "banned_ip (w\<lparr>w_preauth := p\<rparr>) r s a = banned_ip w r s a"
  "fail_request (w\<lparr>w_preauth := p\<rparr>) r s a = fail_request w r s a"
  "rate_limited (w\<lparr>w_preauth := p\<rparr>) rule ip a = rate_limited w rule ip a"
  "log_login (w\<lparr>w_preauth := p\<rparr>) u re m mac ip d a = log_login w u re m mac ip d a"
  "mac_denied (w\<lparr>w_preauth := p\<rparr>) mac a = mac_denied w mac a"
  "email_counts (w\<lparr>w_preauth := p\<rparr>) a e = email_counts w a e"
  "req_ip (w\<lparr>w_preauth := p\<rparr>) a r = req_ip w a r"
  by (simp_all add: read_session_def session_cookie_def banned_ip_def fail_request_def rate_limited_def
      log_login_def mac_denied_def email_counts_def req_ip_def)

lemma preauth_frame2 [simp]:
  "open_request (w\<lparr>w_preauth := p\<rparr>) r a = open_request w r a"
  "over_limit (w\<lparr>w_preauth := p\<rparr>) r se rule a = over_limit w r se rule a"
  by (simp_all add: open_request_def over_limit_def case_prod_beta split: sum.split option.split)

text \<open>C23: The reply of \<open>/auth/start\<close> hides where an account is sent.  The reply and the cookies do
  not depend on what Duo says about the account: whether it exists, has devices, is denied, or
  cannot be looked up.\<close>

theorem auth_start_hides_routing:
  "reply_of (handleAuthStart (w\<lparr>w_preauth := p\<rparr>) r a) = reply_of (handleAuthStart w r a) \<and>
   fst (snd (handleAuthStart (w\<lparr>w_preauth := p\<rparr>) r a)) = fst (snd (handleAuthStart w r a))"
  by (simp add: handleAuthStart_def Let_def case_prod_beta start_attempt_reply split: sum.split)

text \<open>When a sign-in starts.  \<open>/auth/start\<close> hands out a token exactly when the request is a
  POST with a session whose addresses are not banned and whose device is not denied, the email
  is valid and, with Duo, of an allowed domain, its pending attempts are below both limits and
  the random source works; the attempt is then counted.\<close>

theorem auth_start_accepts:
  assumes "email = to_lower (trim_space (form_value r ''email''))" "w_rnd w 0 = Some bytes"
  shows "reply_of (handleAuthStart w r a) =
       ReplyJSON 200 [(''redirect'', RStr (''/auth/proceed?token='' @ hex_encode bytes))] \<longleftrightarrow>
    (\<exists>sess. rq_method r = ''POST'' \<and> read_session w a r = Inr sess \<and>
       fst (banned_ip w r (Some sess) a) = None \<and> \<not> mac_denied w (s_MAC sess) a \<and> isValidEmail email \<and>
       (IsDuoEnabled (ap_conf a) \<longrightarrow> isAllowedDomain email (AllowedEmailDomains (ap_conf a))) \<and>
       fst (email_counts w a email) < AuthEmailFailsShort (ap_conf a) \<and>
       snd (email_counts w a email) < AuthEmailFailsLong (ap_conf a) \<and>
       l_emailFails (ap_lim (app_of (handleAuthStart w r a))) =
         record_failure (w_now w) (w_now w) email (l_emailFails (ap_lim a)))"
proof -
  have rec: "l_emailFails (ap_lim (app_of (start_attempt w sess email a1))) =
      record_failure (w_now w) (w_now w) email (l_emailFails (ap_lim a1))" for sess a1
    using assms(2) by (simp add: start_attempt_def randomHex_def Let_def case_prod_beta put_def log_login_def)
  show ?thesis
    using assms rec
    by (auto simp: handleAuthStart_def Let_def case_prod_beta start_attempt_reply randomHex_def
        open_request_Inr rate_limited_status open_request_Inl_status json_error_def reply_error_def
        permanent_reply_def dest: open_request_Inl split: sum.splits if_splits)
qed

definition demo_start_request :: request where
  "demo_start_request = demo_req demo_session ''POST'' [] [(''email'', '' Ann@x.org'')]"

lemma demo_email: "to_lower (trim_space (form_value demo_start_request ''email'')) = ''ann@x.org''"
  by (simp add: demo_start_request_def demo_req_def form_value_def get_value_def) code_simp

theorem auth_start_accepts_witness:
  "reply_of (handleAuthStart (demo_world second) demo_start_request demo_app) =
     ReplyJSON 200 [(''redirect'', RStr (''/auth/proceed?token='' @ hex_encode ''abc''))]"
proof -
  have "read_session (demo_world second) demo_app demo_start_request = Inr demo_session"
    unfolding demo_start_request_def by (rule demo_read_session) (simp_all add: unix_def second_def)
  moreover have "rq_method demo_start_request = ''POST''"
    by (simp add: demo_start_request_def demo_req_def)
  moreover have "isValidEmail ''ann@x.org''" by code_simp
  moreover have "\<not> IsDuoEnabled demo_Config" by (simp add: IsDuoEnabled_def demo_Config_def)
  moreover have "email_counts w demo_app e = (0, 0)" for w e
    by (simp add: email_counts_def countIn_def demo_app_def demo_limiter_def newFailCounter_def)
  moreover have "fst (banned_ip w r s demo_app) = None" "\<not> mac_denied w m demo_app" for w r s m
    by (simp_all add: banned_ip_none) (simp add: demo_app_def)
  moreover have "AuthEmailFailsShort demo_Config = 5" "AuthEmailFailsLong demo_Config = 20"
    by (simp_all add: demo_Config_def)
  moreover have "w_rnd (demo_world second) 0 = Some ''abc''" by (simp add: demo_world_def)
  moreover have "l_emailFails (ap_lim (app_of (handleAuthStart (demo_world second) demo_start_request demo_app))) =
      record_failure second second ''ann@x.org'' (l_emailFails (ap_lim demo_app))"
  proof -
    let ?a1 = "snd (banned_ip (demo_world second) demo_start_request (Some demo_session) demo_app)"
    have "open_request (demo_world second) demo_start_request demo_app = Inr (demo_session, ?a1)"
      using calculation by (simp add: open_request_Inr)
    then have "handleAuthStart (demo_world second) demo_start_request demo_app =
        start_attempt (demo_world second) demo_session ''ann@x.org'' ?a1"
      using calculation by (simp add: handleAuthStart_def demo_email Let_def)
    then show ?thesis
      by (simp add: start_attempt_def randomHex_def demo_world_def Let_def case_prod_beta put_def log_login_def)
  qed
  ultimately show ?thesis
    using auth_start_accepts [OF demo_email [symmetric], of "demo_world second" "''abc''" demo_app] by simp
qed

section \<open>Tokens\<close>

text \<open>C24: A token goes to one session once.  \<open>/auth/proceed\<close> redirects exactly to the destination
  that was stored under the token of the query, for a session that has the state it was stored
  for, of a device that is not denied and before it expires; afterwards nothing is stored under
  the token, so no request gets that destination again.\<close>

theorem proceed_binds_session:
  "reply_of (handleAuthProceed w r a) = ReplyRedirect url \<longleftrightarrow>
    (\<exists>sess e. read_session w a r = Inr sess \<and> \<not> mac_denied w (s_MAC sess) a \<and> query r ''token'' \<noteq> [] \<and>
       map_of (ps_entries (ap_proceed a)) (query r ''token'') = Some e \<and> w_now w \<le> pe_expires e \<and>
       pe_state e = s_State sess \<and> url = pe_url e \<and>
       map_of (ps_entries (ap_proceed (app_of (handleAuthProceed w r a)))) (query r ''token'') = None)"
proof -
  have gone: "map_of (ps_entries (ap_proceed (app_of (handleAuthProceed w r a)))) (query r ''token'') = None"
    if "read_session w a r = Inr sess" "\<not> mac_denied w (s_MAC sess) a" "query r ''token'' \<noteq> []" for sess
    using that take_token_gone [of "w_now w" "query r ''token''" "ap_proceed a"]
    by (simp add: handleAuthProceed_def Let_def case_prod_beta split: option.split)
  show ?thesis
    using gone take_token_Some [of "w_now w" "query r ''token''" "ap_proceed a"]
    by (auto simp: handleAuthProceed_def Let_def case_prod_beta split: sum.splits option.splits if_splits)
qed

section \<open>The console\<close>

text \<open>Who passes \<open>requireAdmin\<close>.  The console or its API serves a request exactly when the
  console is enabled, a request that may change state comes from the portal's own origin, and
  the admin cookie carries the signature of its payload under the session secret and has not
  expired; nothing else about the user is checked.\<close>

theorem requireAdmin_accepts:
  "requireAdmin w api r a = Inr sess \<longleftrightarrow>
     IsAdminEnabled (ap_conf a) \<and>
     (rq_method r = ''GET'' \<or> rq_method r = ''HEAD'' \<or> isSameOriginRequest (w_parse_url w) (ap_conf a) r) \<and>
     (\<exists>value payload body ms. map_of (rq_cookies r) adminCookieName = Some value \<and>
        split_on CHR ''.'' value = [payload, sign (w_hmac w) (SessionSecret (ap_conf a)) payload] \<and>
        b64_decode payload = Some body \<and> json_parse body = Some ms \<and> json_admin ms = Some sess \<and>
        unix (w_now w) \<le> a_Exp sess)"
proof -
  have open_iff: "open_value h s v = Inr ms \<longleftrightarrow> (\<exists>payload body. split_on CHR ''.'' v = [payload, sign h s payload] \<and>
      b64_decode payload = Some body \<and> json_parse body = Some ms)" for h s v ms
    by (auto simp: open_value_def split: list.splits option.splits)
  have "read_admin w a r = Inr sess \<longleftrightarrow> (\<exists>value ms. map_of (rq_cookies r) adminCookieName = Some value \<and>
      open_value (w_hmac w) (SessionSecret (ap_conf a)) value = Inr ms \<and> json_admin ms = Some sess \<and>
      unix (w_now w) \<le> a_Exp sess)"
    by (auto simp: read_admin_def readAdminCookie_def split: option.splits sum.splits)
  then show ?thesis
    by (auto simp: requireAdmin_def open_iff split: sum.splits)
qed

lemma newSession_exp: "newSession rnd now ip mac lang = Some s \<Longrightarrow> s_Exp s = unix (now + sessionTTL)"
  by (auto simp: newSession_def split: option.splits)

lemma portal_cookie:
  assumes "fst (snd (handlePortal w r a)) = [c]"
  shows "\<exists>sess. c = session_cookie w a sess \<and> s_Exp sess = unix (w_now w + sessionTTL)"
proof -
  have "fst (snd (page_error l k n a)) = []" for l k n by (simp add: page_error_def)
  then show ?thesis
    using assms newSession_exp
    by (auto simp: handlePortal_def Let_def simp del: Product_Type.prod.inject split: option.splits if_splits)
qed

text \<open>C1: A visitor's cookie opens the console.  The two cookies are signed with one secret and
  their objects are read leniently: the value of the session cookie that the portal page hands
  to any device, sent back as the admin cookie, is accepted as an administrator's session
  without a name for as long as the visitor's session lasts.\<close>

theorem visitor_cookie_opens_console:
  assumes "handlePortal w r a = (ReplyPage 200 lang ''login'', [c], a')"
    and "IsAdminEnabled (ap_conf a')" "rq_method r' = ''GET''" "w_hmac w' = w_hmac w"
    and "rq_cookies r' = [(adminCookieName, ck_value c)]"
    and "unix (w_now w') \<le> unix (w_now w + sessionTTL)" "in_int64 (unix (w_now w + sessionTTL))"
  shows "requireAdmin w' api r' a' = Inr \<lparr>a_UPN = [], a_Exp = unix (w_now w + sessionTTL)\<rparr>"
proof -
  obtain sess where c: "c = session_cookie w a sess" "s_Exp sess = unix (w_now w + sessionTTL)"
    using portal_cookie [of w r a c] assms(1) by auto
  have a': "a' = a" using wf_other_handlers(1) [of w r a] assms(1) by simp
  have "open_value (w_hmac w) (SessionSecret (ap_conf a)) (ck_value c) = Inr (session_json sess)"
    using c(2) assms(7) by (simp add: c(1) session_cookie_def sessionCookie_def open_signed session_json_ok)
  then have "read_admin w' a' r' = Inr \<lparr>a_UPN = [], a_Exp = unix (w_now w + sessionTTL)\<rparr>"
    using assms(4,5,6) a' c(2) by (simp add: read_admin_def readAdminCookie_def json_admin_session)
  then show ?thesis using assms(2,3) by (simp add: requireAdmin_def)
qed

definition demo_visit :: request where
  "demo_visit = \<lparr>rq_method = ''GET'', rq_host = ''p'', rq_tls = True, rq_remote = ''10.0.0.5:1234'',
     rq_headers = [], rq_query = [(''user_ip'', ''10.0.0.5''), (''mac'', ''AABBCCDDEEFF'')], rq_form = [],
     rq_cookies = []\<rparr>"

theorem visitor_cookie_opens_console_witness:
  "\<exists>lang c. handlePortal (demo_world second) demo_visit demo_app = (ReplyPage 200 lang ''login'', [c], demo_app) \<and>
     requireAdmin (demo_world (2 * second)) True (demo_visit\<lparr>rq_cookies := [(adminCookieName, ck_value c)]\<rparr>) demo_app =
       Inr \<lparr>a_UPN = [], a_Exp = 901\<rparr>"
proof -
  have "extractDeviceInfo demo_Config demo_visit \<noteq> None"
    unfolding demo_Config_def demo_visit_def by code_simp
  then obtain lang c where p: "handlePortal (demo_world second) demo_visit demo_app = (ReplyPage 200 lang ''login'', [c], demo_app)"
    by (auto simp: handlePortal_def Let_def device_of_request_def newSession_def randomHex_def demo_world_def
        mac_denied_def demo_app_def)
  have "requireAdmin (demo_world (2 * second)) True (demo_visit\<lparr>rq_cookies := [(adminCookieName, ck_value c)]\<rparr>) demo_app =
      Inr \<lparr>a_UPN = [], a_Exp = unix (w_now (demo_world second) + sessionTTL)\<rparr>"
    by (rule visitor_cookie_opens_console [OF p])
      (simp_all add: IsAdminEnabled_def demo_Config_def demo_visit_def demo_world_def sessionTTL_def
        unix_def second_def minute_def in_int64_def)
  moreover have "unix (w_now (demo_world second) + sessionTTL) = 901"
    by (simp add: sessionTTL_def unix_def second_def minute_def)
  ultimately show ?thesis using p by simp
qed

end
