(* ===== verification/AdminForm.thy ===== *)
theory AdminForm
  imports GuestCodeReports Http EventLog
begin

text \<open>
  The parsers of the console's forms and queries in \<open>portal/main.go\<close>, and the text of the audit
  trail.  The two \<open>time\<close> parsers are parameters: \<open>rfc3339\<close> and \<open>local_minute\<close> give the instant a
  string denotes, or \<open>None\<close> for an error.
\<close>

definition parseIntDefault :: "string \<Rightarrow> int \<Rightarrow> int" where
  "parseIntDefault s def =
     (let t = trim_space s
      in if t = [] then def else (case atoi t of None \<Rightarrow> def | Some n \<Rightarrow> n))"

definition parseMaxUses :: "string \<Rightarrow> int" where
  "parseMaxUses s =
     (let n = parseIntDefault s 0
      in if n < 0 then 0 else if n > 1000000 then 1000000 else n)"

definition maxDurationMin :: int where "maxDurationMin = 365 * 24 * 60"

definition clamp :: "int \<Rightarrow> int \<Rightarrow> int \<Rightarrow> int" where
  "clamp lo hi n = (if n < lo then lo else if n > hi then hi else n)"

definition duration_default :: "request \<Rightarrow> int" where
  "duration_default r =
     (let h = clamp 0 (maxDurationMin div 60) (parseIntDefault (form_value r ''duration_h'') 18);
          m = clamp 0 (60 * 24 * 7) (parseIntDefault (form_value r ''duration_m'') 0);
          total = h * 60 + m
      in if total > maxDurationMin then maxDurationMin else total)"

definition parseDurationMin :: "request \<Rightarrow> int" where
  "parseDurationMin r =
     (let rawMin = trim_space (form_value r ''duration_min'')
      in case (if rawMin \<noteq> [] then atoi rawMin else None) of
           Some mins \<Rightarrow> clamp 0 maxDurationMin mins
         | None \<Rightarrow> duration_default r)"

text \<open>\<open>Inl\<close> the error, \<open>Inr\<close> the expiry (the zero time for none).\<close>

datatype expiry_error = ExpiryFormat | ExpiryPast

definition parseExpiry ::
  "(string \<Rightarrow> time option) \<Rightarrow> (string \<Rightarrow> time option) \<Rightarrow> time \<Rightarrow> request \<Rightarrow> bool \<Rightarrow> expiry_error + time" where
  "parseExpiry rfc3339 local_minute now r allowPast =
     (let exp = trim_space (form_value r ''expires_at'')
      in if exp = [] then Inr zero_time
         else (case (case rfc3339 exp of Some t \<Rightarrow> Some t | None \<Rightarrow> local_minute exp) of
             None \<Rightarrow> Inl ExpiryFormat
           | Some t \<Rightarrow> if \<not> allowPast \<and> before t now then Inl ExpiryPast else Inr t))"

definition pageParams :: "request \<Rightarrow> int \<times> int" where
  "pageParams r =
     ((case atoi (query r ''offset'') of Some v \<Rightarrow> if v > 0 then v else 0 | None \<Rightarrow> 0),
      (case atoi (query r ''limit'') of Some v \<Rightarrow> if v > 0 then min v 500 else 50 | None \<Rightarrow> 50))"

definition unix_param :: "string \<Rightarrow> time option" where
  "unix_param s =
     (let t = trim_space s
      in if t = [] then None else map_option (\<lambda>n. n * second) (atoi t))"

definition parseEventFilter :: "request \<Rightarrow> EventQueryFilter" where
  "parseEventFilter r =
     \<lparr>qf_kind = trim_space (query r ''kind''),
      qf_method = trim_space (query r ''method''),
      qf_result = trim_space (query r ''result''),
      qf_subject = trim_space (query r ''subject''),
      qf_since = (case unix_param (query r ''since'') of None \<Rightarrow> zero_time | Some t \<Rightarrow> t),
      qf_until = (case unix_param (query r ''until'') of None \<Rightarrow> zero_time | Some t \<Rightarrow> t),
      qf_limit = (let s = trim_space (query r ''limit'')
                 in if s = [] then 0
                    else (case atoi s of Some n \<Rightarrow> if n > 0 then n else 0 | None \<Rightarrow> 0))\<rparr>"


section \<open>Texts\<close>

text \<open>The quoting of \<open>%q\<close>; bytes from 128 on are taken to spell printable characters.\<close>

definition quote_char :: "char \<Rightarrow> string" where
  "quote_char c = (let n = of_char c :: nat in
     if c = CHR 0x22 then [CHR 0x5C, CHR 0x22]
     else if c = CHR 0x5C then [CHR 0x5C, CHR 0x5C]
     else if n = 7 then [CHR 0x5C, CHR ''a'']
     else if n = 8 then [CHR 0x5C, CHR ''b'']
     else if n = 9 then [CHR 0x5C, CHR ''t'']
     else if n = 10 then [CHR 0x5C, CHR ''n'']
     else if n = 11 then [CHR 0x5C, CHR ''v'']
     else if n = 12 then [CHR 0x5C, CHR ''f'']
     else if n = 13 then [CHR 0x5C, CHR ''r'']
     else if n < 32 \<or> n = 127 then [CHR 0x5C, CHR ''x''] @ hex_encode [c]
     else [c])"

definition go_quote :: "string \<Rightarrow> string" where
  "go_quote s = [CHR 0x22] @ concat (map quote_char s) @ [CHR 0x22]"

definition changed :: "string \<Rightarrow> (int \<Rightarrow> string) \<Rightarrow> int \<Rightarrow> int \<Rightarrow> string list" where
  "changed name f x y = (if x \<noteq> y then [name @ f x @ ''->'' @ f y] else [])"

definition ikuaiPolicyDiff :: "IKuaiAuthProfile \<Rightarrow> IKuaiPolicy \<Rightarrow> IKuaiPolicy \<Rightarrow> string" where
  "ikuaiPolicyDiff profile old cur =
     (let parts = changed ''upload '' itoa (p_upload old) (p_upload cur) @
            changed ''download '' itoa (p_download old) (p_download cur) @
            changed ''timeout '' itoa (p_timeout old) (p_timeout cur) @
            (if p_comment old \<noteq> p_comment cur
             then [''comment '' @ go_quote (p_comment old) @ ''->'' @ go_quote (p_comment cur)] else [])
      in if parts = [] then ''policy '' @ profile @ '': (unchanged)''
         else ''policy '' @ profile @ '': '' @ join '', '' parts)"

definition formatDuration :: "int \<Rightarrow> int \<Rightarrow> string" where
  "formatDuration hours mins =
     (if hours > 0 \<and> mins > 0 then itoa hours @ ''h'' @ itoa mins @ ''m''
      else if hours > 0 then itoa hours @ '' h''
      else if mins > 0 then itoa mins @ '' min''
      else ''-'')"

definition formatDurationMin ::
  "(string \<times> (string \<times> string) list) list \<Rightarrow> int \<Rightarrow> string \<Rightarrow> string" where
  "formatDurationMin translations totalMin lang =
     (if totalMin \<le> 0 then T translations lang ''admin.codes.noSessionLimit''
      else formatDuration (totalMin div 60) (totalMin mod 60))"


section \<open>Bounds\<close>

lemma parseMaxUses_bounds: "0 \<le> parseMaxUses s \<and> parseMaxUses s \<le> 1000000"
  by (simp add: parseMaxUses_def Let_def)

lemma clamp_bounds: "lo \<le> hi \<Longrightarrow> lo \<le> clamp lo hi n \<and> clamp lo hi n \<le> hi"
  by (simp add: clamp_def)

lemma duration_default_bounds: "0 \<le> duration_default r \<and> duration_default r \<le> maxDurationMin"
proof -
  have "0 \<le> clamp 0 (maxDurationMin div 60) x" "0 \<le> clamp 0 (60 * 24 * 7) x" for x
    using clamp_bounds [of 0 "maxDurationMin div 60" x] clamp_bounds [of 0 "60 * 24 * 7" x]
    by (simp_all add: maxDurationMin_def)
  then show ?thesis by (simp add: duration_default_def Let_def maxDurationMin_def)
qed

lemma parseDurationMin_bounds: "0 \<le> parseDurationMin r \<and> parseDurationMin r \<le> maxDurationMin"
  using duration_default_bounds [of r] clamp_bounds [of 0 maxDurationMin]
  by (auto simp: parseDurationMin_def Let_def maxDurationMin_def split: option.split)

lemma pageParams_bounds: "0 \<le> fst (pageParams r) \<and> 0 < snd (pageParams r) \<and> snd (pageParams r) \<le> 500"
  by (auto simp: pageParams_def split: option.split)

text \<open>The sum the parser adds up stays far inside a machine integer, whatever the input.\<close>

lemma duration_no_overflow:
  "in_int64 (clamp 0 (maxDurationMin div 60) h * 60 + clamp 0 (60 * 24 * 7) m)"
proof -
  have "0 \<le> clamp 0 (maxDurationMin div 60) h \<and> clamp 0 (maxDurationMin div 60) h \<le> maxDurationMin div 60"
    "0 \<le> clamp 0 (60 * 24 * 7) m \<and> clamp 0 (60 * 24 * 7) m \<le> 60 * 24 * 7"
    by (intro clamp_bounds; simp add: maxDurationMin_def)+
  then show ?thesis by (simp add: in_int64_def maxDurationMin_def)
qed

text \<open>Numbers of the console's forms stay in range.  Whatever is submitted, a session lasts
  between 0 and 525600 minutes, its computation fits a machine integer, a code has between 0 and a
  million uses, and a page has a non-negative offset and 1 to 500 rows.\<close>

theorem form_numbers_bounded:
  "0 \<le> parseDurationMin r \<and> parseDurationMin r \<le> 525600 \<and>
   in_int64 (clamp 0 (maxDurationMin div 60) h * 60 + clamp 0 (60 * 24 * 7) m) \<and>
   0 \<le> parseMaxUses s \<and> parseMaxUses s \<le> 1000000 \<and>
   0 \<le> fst (pageParams r) \<and> 1 \<le> snd (pageParams r) \<and> snd (pageParams r) \<le> 500"
  using parseDurationMin_bounds [of r] parseMaxUses_bounds [of s] pageParams_bounds [of r]
    duration_no_overflow [of h m]
  by (auto simp: maxDurationMin_def)

end
