(* ===== verification/AdminApi.thy ===== *)
theory AdminApi
  imports AdminForm Portal
begin

text \<open>
  The administrative API of \<open>portal/main.go\<close>: the handlers behind \<open>/admin\<close> that read and change
  guest codes, limits, the denylist, the iKuai policies and the event log.  As for the sign-in
  handlers, a handler gives the reply, the cookies (none here) and the next state; the record \<open>api\<close>
  holds what these handlers find outside: the statements that fail (numbered in the order a handler
  issues them), the random draws, the parsers and printers of times, the parsed upload, the texts of
  the pages and the messages of database and parse errors.
\<close>

datatype upload = BadForm | NoFile | BadCsv | Rows "string list list"

record api =
  x_flt :: "nat \<Rightarrow> bool"
  x_draw :: "nat \<Rightarrow> nat \<Rightarrow> nat \<Rightarrow> nat option"
  x_rfc3339 :: "string \<Rightarrow> time option"
  x_local :: "string \<Rightarrow> time option"
  x_fmt :: "string \<Rightarrow> time \<Rightarrow> string"
  x_upload :: upload
  x_translations :: "(string \<times> (string \<times> string) list) list"
  x_time_error :: string
  x_db_error :: string

section \<open>What the handlers share\<close>

definition admin_any :: "world \<Rightarrow> bool \<Rightarrow> request \<Rightarrow> app \<Rightarrow> (AdminSession \<Rightarrow> response) \<Rightarrow> response" where
  "admin_any w apiMode r a k =
     (case requireAdmin w apiMode r a of Inl rep \<Rightarrow> (rep, [], a) | Inr admin \<Rightarrow> k admin)"

definition admin_post :: "world \<Rightarrow> request \<Rightarrow> app \<Rightarrow> (AdminSession \<Rightarrow> response) \<Rightarrow> response" where
  "admin_post w r a k =
     (if rq_method r \<noteq> ''POST'' then json_error 405 ''method_not_allowed'' a
      else admin_any w True r a k)"

definition audit :: "world \<Rightarrow> request \<Rightarrow> AdminSession \<Rightarrow> string \<Rightarrow> app \<Rightarrow> app" where
  "audit w r admin detail a = log_admin w (a_UPN admin) (req_ip w a r) ResultSuccess detail a"

definition json_ok :: "(string \<times> rval) list \<Rightarrow> app \<Rightarrow> response" where
  "json_ok kvs a = (ReplyJSON 200 kvs, [], a)"

definition expiry_text :: "api \<Rightarrow> expiry_error \<Rightarrow> string" where
  "expiry_text x e = (case e of ExpiryFormat \<Rightarrow> ''expires_at format error: '' @ x_time_error x
     | ExpiryPast \<Rightarrow> ''expires_at must not be in the past'')"


section \<open>Guest codes\<close>

text \<open>The code of the form, or ten random digits; \<open>None\<close> when the random source fails.\<close>

definition requested_code :: "api \<Rightarrow> request \<Rightarrow> string option" where
  "requested_code x r =
     (let code = trim_space (form_value r ''code'')
      in if code = [] then generateCode (x_draw x 0) ''numeric'' 10 else Some code)"

text \<open>The record of a code with the fields of the form.\<close>

definition form_code :: "time \<Rightarrow> time \<Rightarrow> request \<Rightarrow> string \<Rightarrow> GuestCode" where
  "form_code now expires r raw =
     \<lparr>c_code = raw, c_created = now, c_expires = expires, c_duration = parseDurationMin r,
      c_max = parseMaxUses (form_value r ''max_uses''),
      c_note = cap_len (trim_space (form_value r ''note'')) 256, c_uses = []\<rparr>"

definition handleCodeCreate :: "world \<Rightarrow> api \<Rightarrow> request \<Rightarrow> app \<Rightarrow> response" where
  "handleCodeCreate w x r a = admin_post w r a (\<lambda>admin.
     (let userProvided = (trim_space (form_value r ''code'') \<noteq> [])
      in case requested_code x r of
           None \<Rightarrow> json_error 500 ''rand_failed'' a
         | Some code \<Rightarrow>
             if userProvided \<and> length code > 64 then json_error 400 ''code_too_long'' a
             else if userProvided \<and> length code < 6 then json_error 400 ''code_too_short'' a
             else (case parseExpiry (x_rfc3339 x) (x_local x) (w_now w) r False of
               Inl e \<Rightarrow> json_error 400 (expiry_text x e) a
             | Inr expires \<Rightarrow>
                 (let gc = form_code (w_now w) expires r code
                  in case Add_code (x_flt x 0) (x_flt x 1) (x_flt x 2) (w_now w) gc (ap_codes a) of
                       (added, db) \<Rightarrow>
                         if \<not> added then json_error 409 ''duplicate_code'' (a\<lparr>ap_codes := db\<rparr>)
                         else (let detail = (if userProvided then ''add code-suffix=''
                                       else ''add auto-gen code-suffix='') @ tail_n code 4 @
                                       (if c_note gc \<noteq> [] then '' note='' @ cap_len (c_note gc) 64 else [])
                               in json_ok [(''ok'', RBool True), (''code'', RStr code)]
                                    (audit w r admin detail (a\<lparr>ap_codes := db\<rparr>)))))))"

definition batch_type :: "request \<Rightarrow> string" where
  "batch_type r =
     (let t = trim_space (form_value r ''code_type'')
      in if t \<noteq> ''alpha'' \<and> t \<noteq> ''alphanumeric'' then ''numeric'' else t)"

text \<open>
  The loop that draws \<open>count\<close> different codes in at most \<open>fuel\<close> attempts; \<open>i\<close> numbers the
  attempts, \<open>mk\<close> builds the record of a code.  \<open>None\<close> when the random source fails.
\<close>

fun batch_loop ::
  "api \<Rightarrow> string \<Rightarrow> int \<Rightarrow> (string \<Rightarrow> GuestCode) \<Rightarrow> nat \<Rightarrow> nat \<Rightarrow> nat \<Rightarrow> string list \<Rightarrow> GuestCode list \<Rightarrow>
   GuestCode list option" where
  "batch_loop x ctype len mk count i 0 seen pending = Some pending"
| "batch_loop x ctype len mk count i (Suc fuel) seen pending =
     (if length pending < count then
        (case generateCode (x_draw x i) ctype len of
           None \<Rightarrow> None
         | Some raw \<Rightarrow>
             (let k = to_lower (trim_space raw)
              in if k \<in> set seen then batch_loop x ctype len mk count (Suc i) fuel seen pending
                 else batch_loop x ctype len mk count (Suc i) fuel (k # seen) (pending @ [mk raw])))
      else Some pending)"

definition batch_count :: "request \<Rightarrow> int" where
  "batch_count r = clamp 1 200 (parseIntDefault (form_value r ''count'') 10)"

definition batch_length :: "request \<Rightarrow> int" where
  "batch_length r = clamp 6 32 (parseIntDefault (form_value r ''length'') 15)"

definition maxAttempts :: "int \<Rightarrow> int" where
  "maxAttempts count = (if count * 50 < 200 then 200 else count * 50)"

definition handleCodeBatch :: "world \<Rightarrow> api \<Rightarrow> request \<Rightarrow> app \<Rightarrow> response" where
  "handleCodeBatch w x r a = admin_post w r a (\<lambda>admin.
     (case parseExpiry (x_rfc3339 x) (x_local x) (w_now w) r False of
        Inl e \<Rightarrow> json_error 400 (expiry_text x e) a
      | Inr expires \<Rightarrow>
          (case batch_loop x (batch_type r) (batch_length r) (form_code (w_now w) expires r)
                  (nat (batch_count r)) 0 (nat (maxAttempts (batch_count r))) [] [] of
             None \<Rightarrow> json_error 500 ''rand_failed'' a
           | Some pending \<Rightarrow>
               (case AddMany (\<lambda>i. x_flt x (Suc i)) (x_flt x 0) (w_now w) pending (ap_codes a) of
                  (generated, db) \<Rightarrow>
                    json_ok [(''ok'', RBool True), (''count'', RInt (int (length generated))),
                             (''codes'', RList generated)]
                      (audit w r admin (''batch count='' @ itoa (int (length generated)) @ '' type='' @
                         batch_type r @ '' len='' @ itoa (batch_length r)) (a\<lparr>ap_codes := db\<rparr>))))))"

definition handleCodeDelete :: "world \<Rightarrow> api \<Rightarrow> request \<Rightarrow> app \<Rightarrow> response" where
  "handleCodeDelete w x r a = admin_post w r a (\<lambda>admin.
     (let code = trim_space (form_value r ''code'')
      in if code = [] then json_error 400 ''missing_code'' a
         else (case Delete_code (x_flt x 0) code (ap_codes a) of
           (deleted, db) \<Rightarrow>
             (let a1 = a\<lparr>ap_codes := db\<rparr>
              in json_ok [(''ok'', RBool deleted)]
                   (if deleted then audit w r admin (''delete code-suffix='' @ tail_n code 4) a1 else a1)))))"

definition handleCodeDeleteInactive :: "world \<Rightarrow> api \<Rightarrow> request \<Rightarrow> app \<Rightarrow> response" where
  "handleCodeDeleteInactive w x r a = admin_post w r a (\<lambda>admin.
     (case DeleteInactive (x_flt x 0) (w_now w) (ap_codes a) of
        (n, db) \<Rightarrow>
          json_ok [(''ok'', RBool True), (''deleted'', RInt (int n))]
            (audit w r admin (''delete-inactive deleted='' @ itoa (int n)) (a\<lparr>ap_codes := db\<rparr>))))"

definition handleCodeDeleteBulk :: "world \<Rightarrow> api \<Rightarrow> request \<Rightarrow> app \<Rightarrow> response" where
  "handleCodeDeleteBulk w x r a = admin_post w r a (\<lambda>admin.
     (let raw = form_value r ''codes''
      in if trim_space raw = [] then json_error 400 ''missing_codes'' a
         else (let codes = split_on CHR '','' raw
               in case DeleteMany (x_flt x 0) codes (ap_codes a) of
                    (deleted, db) \<Rightarrow>
                      (let skipped = int (length (filter (\<lambda>c. trim_space c \<noteq> []) codes)) - int deleted
                       in json_ok [(''ok'', RBool True), (''deleted'', RInt (int deleted)),
                                   (''skipped'', RInt skipped)]
                            (audit w r admin (''delete-bulk deleted='' @ itoa (int deleted) @
                               '' skipped='' @ itoa skipped) (a\<lparr>ap_codes := db\<rparr>))))))"

definition handleCodeEdit :: "world \<Rightarrow> api \<Rightarrow> request \<Rightarrow> app \<Rightarrow> response" where
  "handleCodeEdit w x r a = admin_post w r a (\<lambda>admin.
     (let code = trim_space (form_value r ''code'')
      in if code = [] then json_error 400 ''missing_code'' a
         else (case parseExpiry (x_rfc3339 x) (x_local x) (w_now w) r True of
           Inl e \<Rightarrow> json_error 400 (expiry_text x e) a
         | Inr expires \<Rightarrow>
             (case Edit (x_flt x 0) code expires (parseDurationMin r)
                     (parseMaxUses (form_value r ''max_uses''))
                     (cap_len (trim_space (form_value r ''note'')) 256) (ap_codes a) of
                (found, db) \<Rightarrow>
                  if \<not> found then json_error 404 ''not_found'' (a\<lparr>ap_codes := db\<rparr>)
                  else json_ok [(''ok'', RBool True)]
                         (audit w r admin (''edit code-suffix='' @ tail_n code 4) (a\<lparr>ap_codes := db\<rparr>))))))"


section \<open>Limits\<close>

text \<open>\<open>int(d.Seconds())\<close>: towards zero.\<close>

definition seconds :: "duration \<Rightarrow> int" where
  "seconds d = (if d < 0 then - ((- d) div second) else d div second)"

definition fails_rval :: "failSnapshot list \<Rightarrow> rval" where
  "fails_rval rows = RArr (map (\<lambda>s. RObj [(''key'', RStr (fs_key s)), (''count'', RInt (int (fs_count s))),
     (''latest_unix'', RInt (fs_latest s))]) rows)"

text \<open>A ban with the number of bans on record for its address.\<close>

definition enriched_ban :: "(string \<times> int) list \<Rightarrow> banSnapshot \<Rightarrow> rval" where
  "enriched_ban counts b =
     RObj [(''ip'', RStr (bs_ip b)), (''expires_unix'', RInt (bs_expires b)),
           (''ban_count'', RInt (case map_of counts (bs_ip b) of Some n \<Rightarrow> n | None \<Rightarrow> 0)),
           (''permanent'', RBool (IsPermanent (bs_expires b * second)))]"

definition thresholds :: "Config \<Rightarrow> rval" where
  "thresholds c = RObj
     [(''email_short'', RInt (AuthEmailFailsShort c)),
      (''email_short_s'', RInt (seconds (AuthEmailWindowShort c))),
      (''email_long'', RInt (AuthEmailFailsLong c)),
      (''email_long_s'', RInt (seconds (AuthEmailWindowLong c))),
      (''mac'', RInt (GuestCodeMacFails c)),
      (''mac_s'', RInt (seconds (GuestCodeMacWindow c))),
      (''ip'', RInt (IPFailsLimit c)),
      (''ip_s'', RInt (seconds (IPFailsWindow c))),
      (''ip_ban_s'', RInt (seconds (IPBanDuration c))),
      (''ip_ban_escalate'', RInt (IPBanEscalateAt c))]"

definition handleRateLimitStatus :: "world \<Rightarrow> request \<Rightarrow> app \<Rightarrow> response" where
  "handleRateLimitStatus w r a = admin_any w True r a (\<lambda>admin.
     (let l = ap_lim a;
          bans = ban_snapshot (f_refresh (w_flt_lim w)) (w_now w) (l_banTbl l);
          counts = bh_snapshot (f_history (w_flt_lim w)) (l_historyTbl l)
      in json_ok
           [(''ok'', RBool True),
            (''ip_bans'', RArr (map (enriched_ban counts) bans)),
            (''ban_history'', RObj (map (\<lambda>e. (fst e, RInt (snd e))) counts)),
            (''email_fails'', fails_rval (fc_snapshot (w_now w) (l_emailFails l))),
            (''guest_mac_fails'', fails_rval (fc_snapshot (w_now w) (l_guestFails l))),
            (''ip_fails'', fails_rval (fc_snapshot (w_now w) (l_ipFails l))),
            (''now_unix'', RInt (unix (w_now w))),
            (''thresholds'', thresholds (ap_conf a))] a))"

definition handleRateLimitReset :: "world \<Rightarrow> request \<Rightarrow> app \<Rightarrow> response" where
  "handleRateLimitReset w r a = admin_post w r a (\<lambda>admin.
     (let t = trim_space (form_value r ''type''); key = trim_space (form_value r ''key'')
      in if key = [] then json_error 400 ''missing_key'' a
         else (case parse_reset_type t of
           None \<Rightarrow> json_error 400 ''invalid_type'' a
         | Some rt \<Rightarrow>
             json_ok [(''ok'', RBool True)]
               (audit w r admin (''reset type='' @ t @ '' key='' @ key)
                  (a\<lparr>ap_lim := lim_reset (w_flt_lim w) rt key (ap_lim a)\<rparr>)))))"

text \<open>A map printed by \<open>%+v\<close> lists its keys in order.\<close>

definition cleared_text :: "nat list \<Rightarrow> string" where
  "cleared_text ns = (case ns of
     [nb, nh, ne, ng, ni] \<Rightarrow>
       ''map[ban_history:'' @ itoa (int nh) @ '' email_fails:'' @ itoa (int ne) @
       '' guest_mac_fails:'' @ itoa (int ng) @ '' ip_bans:'' @ itoa (int nb) @
       '' ip_fails:'' @ itoa (int ni) @ '']''
   | _ \<Rightarrow> [])"

definition cleared_fields :: "string list" where
  "cleared_fields = [''ip_bans'', ''ban_history'', ''email_fails'', ''guest_mac_fails'', ''ip_fails'']"

definition handleRateLimitResetAll :: "world \<Rightarrow> request \<Rightarrow> app \<Rightarrow> response" where
  "handleRateLimitResetAll w r a = admin_post w r a (\<lambda>admin.
     (case lim_resetAll (w_flt_lim w) (w_now w) (ap_lim a) of
        (ns, l) \<Rightarrow>
          json_ok [(''ok'', RBool True),
                   (''cleared'', RObj (zip cleared_fields (map (\<lambda>n. RInt (int n)) ns)))]
            (audit w r admin (''reset-all '' @ cleared_text ns) (a\<lparr>ap_lim := l\<rparr>))))"

section \<open>The denylist\<close>

definition mac_error_text :: "api \<Rightarrow> mac_error \<Rightarrow> string" where
  "mac_error_text x e = (case e of InvalidMAC \<Rightarrow> ''invalid_mac'' | MacDB \<Rightarrow> x_db_error x)"

definition handleDenyMACCreate :: "world \<Rightarrow> api \<Rightarrow> request \<Rightarrow> app \<Rightarrow> response" where
  "handleDenyMACCreate w x r a = admin_post w r a (\<lambda>admin.
     (let mac = trim_space (form_value r ''mac'');
          reason = cap_len (trim_space (form_value r ''reason'')) 256
      in case AddMAC (x_flt x 0) (x_flt x 1) (w_now w)
                \<lparr>mi_mac = mac, mi_reason = reason, mi_by = a_UPN admin\<rparr> (ap_denylist a) of
           (Inl e, tbl) \<Rightarrow> json_error 400 (mac_error_text x e) (a\<lparr>ap_denylist := tbl\<rparr>)
         | (Inr (item, created), tbl) \<Rightarrow>
             (let l = ap_lim a;
                  a1 = a\<lparr>ap_denylist := tbl,
                         ap_lim := l\<lparr>l_guestFails := reset (dm_mac item) (l_guestFails l)\<rparr>\<rparr>
              in json_ok [(''ok'', RBool True), (''created'', RBool created), (''mac'', RStr (dm_mac item))]
                   (if created
                    then audit w r admin (''mac='' @ dm_mac item @ '' ban reason='' @ dm_reason item) a1
                    else a1))))"

definition handleDenyMACDelete :: "world \<Rightarrow> api \<Rightarrow> request \<Rightarrow> app \<Rightarrow> response" where
  "handleDenyMACDelete w x r a = admin_post w r a (\<lambda>admin.
     (let mac = trim_space (form_value r ''mac'')
      in if mac = [] then json_error 400 ''missing_mac'' a
         else (let norm = normalizeMAC mac
               in case DeleteMAC (x_flt x 0) norm (ap_denylist a) of
                    (deleted, tbl) \<Rightarrow>
                      (let a1 = a\<lparr>ap_denylist := tbl\<rparr>
                       in json_ok [(''ok'', RBool True), (''deleted'', RBool deleted)]
                            (if deleted then audit w r admin (''mac='' @ norm @ '' unban'') a1 else a1)))))"

definition handleDenyMACDeleteAll :: "world \<Rightarrow> api \<Rightarrow> request \<Rightarrow> app \<Rightarrow> response" where
  "handleDenyMACDeleteAll w x r a = admin_post w r a (\<lambda>admin.
     (case DeleteAllMACs (x_flt x 0) (ap_denylist a) of
        (n, tbl) \<Rightarrow>
          json_ok [(''ok'', RBool True), (''cleared'', RInt (int n))]
            (audit w r admin (''mac unban-all cleared='' @ itoa (int n)) (a\<lparr>ap_denylist := tbl\<rparr>))))"

definition denylist_cells :: "api \<Rightarrow> DeniedMAC \<Rightarrow> string list" where
  "denylist_cells x m = map sanitizeCSVCell
     [dm_mac m, dm_reason m, dm_by m, x_fmt x ''2006-01-02 15:04:05'' (dm_created m)]"

definition handleDenylistExportCSV :: "world \<Rightarrow> api \<Rightarrow> request \<Rightarrow> app \<Rightarrow> response" where
  "handleDenylistExportCSV w x r a = admin_any w False r a (\<lambda>admin.
     (ReplyCSV ([''mac'', ''reason'', ''banned_by'', ''banned_at''] #
                map (denylist_cells x) (ListMACs (x_flt x 0) (ap_denylist a))), [], a))"

definition utf8_bom :: string where "utf8_bom = [CHR 0xEF, CHR 0xBB, CHR 0xBF]"

text \<open>The rows of the upload that carry an address; the administrator is always the creator.\<close>

fun import_inputs :: "string \<Rightarrow> nat \<Rightarrow> string list list \<Rightarrow> MACInput list" where
  "import_inputs upn idx [] = []"
| "import_inputs upn idx ([] # rows) = import_inputs upn (Suc idx) rows"
| "import_inputs upn idx ((cell # cells) # rows) =
     (let mac = trim_space (trim_prefix cell utf8_bom)
      in if idx = 0 \<and> equal_fold mac ''mac'' then import_inputs upn (Suc idx) rows
         else if mac = [] then import_inputs upn (Suc idx) rows
         else \<lparr>mi_mac = mac,
               mi_reason = (case cells of [] \<Rightarrow> [] | c # _ \<Rightarrow> cap_len (trim_space c) 256),
               mi_by = upn\<rparr> # import_inputs upn (Suc idx) rows)"

definition handleDenylistImportCSV :: "world \<Rightarrow> api \<Rightarrow> request \<Rightarrow> app \<Rightarrow> response" where
  "handleDenylistImportCSV w x r a = admin_post w r a (\<lambda>admin.
     (case x_upload x of
        BadForm \<Rightarrow> json_error 400 ''bad_multipart'' a
      | NoFile \<Rightarrow> json_error 400 ''missing_file'' a
      | BadCsv \<Rightarrow> json_error 400 ''parse_failed'' a
      | Rows rows \<Rightarrow>
          (case AddMACMany (\<lambda>i. x_flt x (Suc i)) (x_flt x 0) (w_now w)
                  (import_inputs (a_UPN admin) 0 rows) (ap_denylist a) of
             ((imported, skipped), tbl) \<Rightarrow>
               json_ok [(''ok'', RBool True), (''imported'', RInt (int imported)),
                        (''skipped'', RInt (int skipped)), (''errors'', RList [])]
                 (audit w r admin (''denylist import imported='' @ itoa (int imported) @
                    '' skipped='' @ itoa (int skipped)) (a\<lparr>ap_denylist := tbl\<rparr>)))))"


section \<open>Policies\<close>

definition form_policy :: "IKuaiAuthProfile \<Rightarrow> request \<Rightarrow> IKuaiPolicy" where
  "form_policy profile r =
     \<lparr>p_upload = parseIntDefault (form_value r ''upload'') 0,
      p_download = parseIntDefault (form_value r ''download'') 0,
      p_timeout = (if profile = IKuaiProfileGuest then 0
                   else parseIntDefault (form_value r ''timeout'') 0),
      p_comment = cap_len (trim_space (form_value r ''comment'')) 128\<rparr>"

definition handleIKuaiPolicyUpdate :: "world \<Rightarrow> api \<Rightarrow> request \<Rightarrow> app \<Rightarrow> response" where
  "handleIKuaiPolicyUpdate w x r a = admin_post w r a (\<lambda>admin.
     (case parseIKuaiProfile (form_value r ''profile'') of
        None \<Rightarrow> json_error 400 ''invalid_profile'' a
      | Some profile \<Rightarrow>
          (let policy = form_policy profile r; old = policy_get profile (ap_policies a)
           in case policy_set (x_flt x 0) (x_flt x 1) (w_now w) profile policy
                     (ap_policyTbl a, ap_policies a) of
                (Some err, tbl, st) \<Rightarrow> json_error 400 err (a\<lparr>ap_policyTbl := tbl, ap_policies := st\<rparr>)
              | (None, tbl, st) \<Rightarrow>
                  json_ok [(''ok'', RBool True)]
                    (audit w r admin (ikuaiPolicyDiff profile old policy)
                       (a\<lparr>ap_policyTbl := tbl, ap_policies := st\<rparr>)))))"


section \<open>Events\<close>

definition omitempty :: "string \<Rightarrow> string \<Rightarrow> (string \<times> rval) list" where
  "omitempty name v = (if v = [] then [] else [(name, RStr v)])"

definition event_row :: "api \<Rightarrow> Event \<Rightarrow> rval" where
  "event_row x ev = RObj
     ([(''time_unix'', RInt (unix (ev_time ev))),
       (''time_iso'', RStr (x_fmt x ''2006-01-02 15:04:05'' (ev_time ev))),
       (''kind'', RStr (ev_kind ev)), (''subject'', RStr (ev_subject ev)),
       (''result'', RStr (ev_result ev)), (''method'', RStr (ev_method ev))] @
      omitempty ''mac'' (ev_mac ev) @ omitempty ''ip'' (ev_ip ev) @ omitempty ''detail'' (ev_detail ev))"

definition query_filter :: "request \<Rightarrow> EventQueryFilter" where
  "query_filter r =
     (let f = parseEventFilter r
      in if qf_limit f \<le> 0 \<or> qf_limit f > 2000 then f\<lparr>qf_limit := 500\<rparr> else f)"

definition handleEventsQuery :: "world \<Rightarrow> api \<Rightarrow> request \<Rightarrow> app \<Rightarrow> response" where
  "handleEventsQuery w x r a = admin_any w True r a (\<lambda>admin.
     (let out = map (event_row x) (Query (x_flt x 0) (query_filter r) (ap_events a))
      in json_ok [(''ok'', RBool True), (''events'', RArr out), (''count'', RInt (int (length out)))] a))"

definition handleEventsExportCSV :: "world \<Rightarrow> api \<Rightarrow> request \<Rightarrow> app \<Rightarrow> response" where
  "handleEventsExportCSV w x r a = admin_any w False r a (\<lambda>admin.
     (let f = parseEventFilter r;
          f = (if qf_limit f \<le> 0 then f\<lparr>qf_limit := 100000\<rparr> else f)
      in (ReplyCSV (WriteEventsCSV (x_fmt x ''2006-01-02 15:04:05'') (Query (x_flt x 0) f (ap_events a))),
          [], a)))"

section \<open>The tables and the dashboard\<close>

definition codeRow :: "api \<Rightarrow> time \<Rightarrow> string \<Rightarrow> GuestCode \<Rightarrow> rval" where
  "codeRow x now lang c =
     (let short = x_fmt x ''2006-01-02 15:04'' in RObj
       ([(''code'', RStr (c_code c)), (''createdAt'', RStr (short (c_created c))),
         (''status'', RStr (Status now c)), (''useCount'', RInt (int (UseCount c))),
         (''durationMin'', RInt (c_duration c)), (''maxUses'', RInt (c_max c)),
         (''note'', RStr (c_note c)),
         (''duration'', RStr (formatDurationMin (x_translations x) (c_duration c) lang))] @
        (if is_zero (c_expires c)
         then [(''expiresAt'', RStr (T (x_translations x) lang ''admin.codes.neverExpires'')),
               (''expiresAtInput'', RStr [])]
         else [(''expiresAt'', RStr (short (c_expires c))),
               (''expiresAtInput'', RStr (x_fmt x ''2006-01-02T15:04'' (c_expires c)))]) @
        (if c_uses c \<noteq> []
         then [(''lastUsedAt'', RStr (short (cu_at (last (c_uses c))))),
               (''lastUsedMac'', RStr (cu_mac (last (c_uses c)))),
               (''lastUsedIp'', RStr (cu_ip (last (c_uses c))))]
         else [(''lastUsedAt'', RStr []), (''lastUsedMac'', RStr []), (''lastUsedIp'', RStr [])])))"

definition code_query :: "request \<Rightarrow> CodeQuery" where
  "code_query r = \<lparr>q_search = query r ''q'', q_status = query r ''status'',
     q_offset = fst (pageParams r), q_limit = snd (pageParams r)\<rparr>"

definition handleAdminCodes :: "world \<Rightarrow> api \<Rightarrow> request \<Rightarrow> app \<Rightarrow> response" where
  "handleAdminCodes w x r a = admin_any w True r a (\<lambda>admin.
     (case Page_codes (x_flt x 0) (x_flt x 1) (x_flt x 2) (w_now w) (code_query r) (ap_codes a) of
        (codes, totalN) \<Rightarrow>
          (case Stats (x_flt x 3) (x_flt x 4) (x_flt x 5) (w_now w) (ap_codes a) of
             (allN, used, unused, expired) \<Rightarrow>
               json_ok [(''rows'', RArr (map (codeRow x (w_now w) (pickLang r)) codes)),
                        (''total'', RInt (int totalN)),
                        (''stats'', RObj [(''total'', RInt allN), (''used'', RInt used),
                                          (''unused'', RInt unused), (''expired'', RInt expired)])] a)))"

definition mac_rval :: "api \<Rightarrow> DeniedMAC \<Rightarrow> rval" where
  "mac_rval x m = RObj [(''mac'', RStr (dm_mac m)), (''reason'', RStr (dm_reason m)),
     (''createdAt'', RStr (x_fmt x ''2006-01-02 15:04'' (dm_created m))), (''createdBy'', RStr (dm_by m))]"

definition handleAdminMACs :: "world \<Rightarrow> api \<Rightarrow> request \<Rightarrow> app \<Rightarrow> response" where
  "handleAdminMACs w x r a = admin_any w True r a (\<lambda>admin.
     (case PageMACs (x_flt x 0) (x_flt x 1) (query r ''q'') (fst (pageParams r)) (snd (pageParams r))
             (ap_denylist a) of
        (macs, totalN) \<Rightarrow>
          json_ok [(''rows'', RArr (map (mac_rval x) macs)), (''total'', RInt (int totalN))] a))"

record DashboardStats =
  ds_today :: int
  ds_week :: int
  ds_failedPct :: int
  ds_failed7d :: int
  ds_activeCodes :: int
  ds_bannedIPs :: int
  ds_bannedMACs :: int

definition login_filter :: "string \<Rightarrow> time \<Rightarrow> EventQueryFilter" where
  "login_filter result since =
     \<lparr>qf_kind = KindLogin, qf_method = [], qf_result = result, qf_subject = [], qf_since = since,
      qf_until = zero_time, qf_limit = 0\<rparr>"

text \<open>
  The statements are numbered from 10.  The rate is \<open>float64(failed) * 100 / float64(all)\<close> cut to an
  integer, which is the integer quotient for every count a table can hold.
\<close>

definition buildDashboard :: "world \<Rightarrow> api \<Rightarrow> app \<Rightarrow> DashboardStats" where
  "buildDashboard w x a =
     (let now = w_now w; dayAgo = now - 24 * hour; weekAgo = now - 7 * 24 * hour;
          counts = map int (MultiCount (\<lambda>i. x_flt x (20 + i))
            [login_filter ResultSuccess dayAgo, login_filter ResultSuccess weekAgo,
             login_filter ResultDenied weekAgo, login_filter ResultRateLimited weekAgo,
             login_filter ResultError weekAgo] (ap_events a));
          failedWeek = counts ! 2 + counts ! 3 + counts ! 4;
          terminalWeek = counts ! 1 + failedWeek
      in \<lparr>ds_today = counts ! 0, ds_week = counts ! 1,
          ds_failedPct = (if terminalWeek > 0 then failedWeek * 100 div terminalWeek else 0),
          ds_failed7d = failedWeek,
          ds_activeCodes = int (ActiveCount (x_flt x 12) now (ap_codes a)),
          ds_bannedIPs = int (length (ban_snapshot (x_flt x 11) now (l_banTbl (ap_lim a)))),
          ds_bannedMACs = int (CountMACs (x_flt x 10) (ap_denylist a))\<rparr>)"

definition dashboard_rval :: "DashboardStats \<Rightarrow> rval" where
  "dashboard_rval d = RObj
     [(''loginsToday'', RInt (ds_today d)), (''loginsWeek'', RInt (ds_week d)),
      (''failedRatePct'', RInt (ds_failedPct d)), (''failedCount7d'', RInt (ds_failed7d d)),
      (''activeGuestCodes'', RInt (ds_activeCodes d)), (''bannedIps'', RInt (ds_bannedIPs d)),
      (''bannedMacs'', RInt (ds_bannedMACs d))]"

definition policy_rval :: "IKuaiPolicyRow \<Rightarrow> rval" where
  "policy_rval p = RObj
     [(''Profile'', RStr (v_profile p)), (''Label'', RStr (v_label p)),
      (''Upload'', RInt (p_upload (v_policy p))), (''Download'', RInt (p_download (v_policy p))),
      (''Timeout'', RInt (p_timeout (v_policy p))), (''Comment'', RStr (p_comment (v_policy p)))]"

definition buildAdminData :: "world \<Rightarrow> api \<Rightarrow> string \<Rightarrow> app \<Rightarrow> (string \<times> rval) list" where
  "buildAdminData w x lang a =
     (case Stats (x_flt x 0) (x_flt x 1) (x_flt x 2) (w_now w) (ap_codes a) of
        (totalN, used, unused, expired) \<Rightarrow>
          [(''lang'', RStr lang),
           (''ikuaiPolicies'', RArr (map policy_rval (policy_list (ap_policies a)))),
           (''total'', RInt totalN), (''used'', RInt used), (''unused'', RInt unused),
           (''expired'', RInt expired),
           (''dashboard'', dashboard_rval (buildDashboard w x a))])"

definition handleAdminState :: "world \<Rightarrow> api \<Rightarrow> request \<Rightarrow> app \<Rightarrow> response" where
  "handleAdminState w x r a =
     (if rq_method r \<noteq> ''GET'' then json_error 405 ''method_not_allowed'' a
      else admin_any w True r a (\<lambda>admin. json_ok (buildAdminData w x (pickLang r) a) a))"

definition handleAdmin :: "world \<Rightarrow> request \<Rightarrow> app \<Rightarrow> response" where
  "handleAdmin w r a =
     admin_any w False r a (\<lambda>admin. (ReplyPage 200 (pickLang r) ''admin'', [], a))"

end
