(* ===== verification/AdminRun.thy ===== *)
theory AdminRun
  imports AdminApi PortalRun
begin

text \<open>
  What holds of every handler of the console: nothing changes without an administrator, every
  change of the stores leaves one line of audit, the invariant of the state is kept, also in runs
  that mix the console with the sign-in handlers.
\<close>

section \<open>The routes\<close>

datatype api_handler =
    ACodeCreate | ACodeBatch | ACodeDelete | ACodeDeleteInactive | ACodeDeleteBulk | ACodeEdit
  | ARateLimitStatus | ARateLimitReset | ARateLimitResetAll
  | ADenyMACCreate | ADenyMACDelete | ADenyMACDeleteAll | ADenylistExportCSV | ADenylistImportCSV
  | AIKuaiPolicyUpdate | AEventsQuery | AEventsExportCSV
  | AAdminCodes | AAdminMACs | AAdminState | AAdmin

fun api_handle :: "api_handler \<Rightarrow> world \<Rightarrow> api \<Rightarrow> request \<Rightarrow> app \<Rightarrow> response" where
  "api_handle ACodeCreate w x r a = handleCodeCreate w x r a"
| "api_handle ACodeBatch w x r a = handleCodeBatch w x r a"
| "api_handle ACodeDelete w x r a = handleCodeDelete w x r a"
| "api_handle ACodeDeleteInactive w x r a = handleCodeDeleteInactive w x r a"
| "api_handle ACodeDeleteBulk w x r a = handleCodeDeleteBulk w x r a"
| "api_handle ACodeEdit w x r a = handleCodeEdit w x r a"
| "api_handle ARateLimitStatus w x r a = handleRateLimitStatus w r a"
| "api_handle ARateLimitReset w x r a = handleRateLimitReset w r a"
| "api_handle ARateLimitResetAll w x r a = handleRateLimitResetAll w r a"
| "api_handle ADenyMACCreate w x r a = handleDenyMACCreate w x r a"
| "api_handle ADenyMACDelete w x r a = handleDenyMACDelete w x r a"
| "api_handle ADenyMACDeleteAll w x r a = handleDenyMACDeleteAll w x r a"
| "api_handle ADenylistExportCSV w x r a = handleDenylistExportCSV w x r a"
| "api_handle ADenylistImportCSV w x r a = handleDenylistImportCSV w x r a"
| "api_handle AIKuaiPolicyUpdate w x r a = handleIKuaiPolicyUpdate w x r a"
| "api_handle AEventsQuery w x r a = handleEventsQuery w x r a"
| "api_handle AEventsExportCSV w x r a = handleEventsExportCSV w x r a"
| "api_handle AAdminCodes w x r a = handleAdminCodes w x r a"
| "api_handle AAdminMACs w x r a = handleAdminMACs w x r a"
| "api_handle AAdminState w x r a = handleAdminState w x r a"
| "api_handle AAdmin w x r a = handleAdmin w r a"

text \<open>The handlers that only read.\<close>

definition reading :: "api_handler \<Rightarrow> bool" where
  "reading h \<longleftrightarrow> h \<in> {ARateLimitStatus, ADenylistExportCSV, AEventsQuery, AEventsExportCSV,
     AAdminCodes, AAdminMACs, AAdminState, AAdmin}"

text \<open>The body of a handler that writes, once the administrator is known.\<close>

lemma admin_any_app [simp]:
  "app_of (admin_any w m r a k) =
     (case requireAdmin w m r a of Inl rep \<Rightarrow> a | Inr admin \<Rightarrow> app_of (k admin))"
  by (simp add: admin_any_def split: sum.split)

lemma admin_post_app [simp]:
  "app_of (admin_post w r a k) =
     (if rq_method r \<noteq> ''POST'' then a
      else case requireAdmin w True r a of Inl rep \<Rightarrow> a | Inr admin \<Rightarrow> app_of (k admin))"
  by (simp add: admin_post_def)

lemma json_ok_app [simp]: "app_of (json_ok kvs a) = a" "fst (json_ok kvs a) = ReplyJSON 200 kvs"
  by (simp_all add: json_ok_def)

lemmas reading_defs = handleRateLimitStatus_def handleDenylistExportCSV_def handleEventsQuery_def
  handleEventsExportCSV_def handleAdminCodes_def handleAdminMACs_def handleAdminState_def
  handleAdmin_def

lemmas writing_defs = handleCodeCreate_def handleCodeBatch_def handleCodeDelete_def
  handleCodeDeleteInactive_def handleCodeDeleteBulk_def handleCodeEdit_def handleRateLimitReset_def
  handleRateLimitResetAll_def handleDenyMACCreate_def handleDenyMACDelete_def
  handleDenyMACDeleteAll_def handleDenylistImportCSV_def handleIKuaiPolicyUpdate_def

lemma reading_keeps: "reading h \<Longrightarrow> app_of (api_handle h w x r a) = a"
  by (auto simp: reading_def reading_defs Let_def case_prod_beta split: sum.split)

lemma writing_post:
  assumes "\<not> reading h"
  shows "\<exists>k. \<forall>a. api_handle h w x r a = admin_post w r a (k a)"
  using assms by (cases h) (auto simp: reading_def writing_defs)

lemma changes_need_admin:
  assumes "app_of (api_handle h w x r a) \<noteq> a"
  shows "rq_method r = ''POST'' \<and> (\<exists>admin. requireAdmin w True r a = Inr admin)"
proof -
  from assms reading_keeps have "\<not> reading h" by blast
  with writing_post obtain k where "api_handle h w x r a = admin_post w r a (k a)" by metis
  with assms show ?thesis by (auto split: if_splits sum.splits)
qed

lemma requireAdminD:
  assumes "requireAdmin w m r a = Inr admin"
  shows "IsAdminEnabled (ap_conf a)" "read_admin w a r = Inr admin"
    "rq_method r = ''POST'' \<Longrightarrow> isSameOriginRequest (w_parse_url w) (ap_conf a) r"
  using assms by (auto simp: requireAdmin_def split: if_splits sum.splits)

section \<open>The invariant\<close>

lemma wf_audit [simp]: "wf_app a \<Longrightarrow> wf_app (audit w r admin d a)"
  by (simp add: audit_def)

lemma wf_macs_update: "wf_app a \<Longrightarrow> wf_macs tbl \<Longrightarrow> wf_app (a\<lparr>ap_denylist := tbl\<rparr>)"
  by (simp add: wf_app_def)

lemma wf_lim_update: "wf_app a \<Longrightarrow> wf_limiter l \<Longrightarrow> wf_app (a\<lparr>ap_lim := l\<rparr>)"
  by (simp add: wf_app_def)

lemma wf_policy_update:
  "wf_app a \<Longrightarrow> wf_policies tbl \<Longrightarrow> wf_app (a\<lparr>ap_policyTbl := tbl, ap_policies := st\<rparr>)"
  by (simp add: wf_app_def)

lemmas api_update_intros = wf_codes_update wf_macs_update wf_lim_update wf_policy_update

lemma wf_appD:
  assumes "wf_app a"
  shows "wf_limiter (ap_lim a)" "wf_macs (ap_denylist a)" "wf_gc (ap_codes a)" "wf_policies (ap_policyTbl a)"
  using assms by (simp_all add: wf_app_def)

lemma wf_lim_resetAll: "wf_limiter l \<Longrightarrow> wf_limiter (snd (lim_resetAll flt now l))"
  by (auto simp: lim_resetAll_def Let_def case_prod_beta wf_limiter_def unbanAll_def bh_resetAll_def
      resetAll_def wf_fc_def split: prod.split)

lemma wf_guest_reset: "wf_limiter l \<Longrightarrow> wf_limiter (l\<lparr>l_guestFails := reset k (l_guestFails l)\<rparr>)"
  using wf_lim_reset [of l f ResetMAC k for f] by simp

lemma wf_code_handlers:
  assumes "wf_app a"
  shows "wf_app (app_of (handleCodeCreate w x r a))" "wf_app (app_of (handleCodeBatch w x r a))"
    "wf_app (app_of (handleCodeDelete w x r a))" "wf_app (app_of (handleCodeDeleteInactive w x r a))"
    "wf_app (app_of (handleCodeDeleteBulk w x r a))" "wf_app (app_of (handleCodeEdit w x r a))"
proof -
  have up: "wf_app (a\<lparr>ap_codes := db\<rparr>)" if "wf_gc db" for db
    by (rule wf_codes_update [OF assms that])
  note gc = wf_gc_ops [OF wf_appD(3) [OF assms]]
  show "wf_app (app_of (handleCodeCreate w x r a))"
    using assms up gc by (auto simp: handleCodeCreate_def Let_def case_prod_beta split: sum.split option.split)
  show "wf_app (app_of (handleCodeBatch w x r a))"
    using assms up gc by (auto simp: handleCodeBatch_def Let_def case_prod_beta split: sum.split option.split)
  show "wf_app (app_of (handleCodeDelete w x r a))"
    using assms up gc by (auto simp: handleCodeDelete_def Let_def case_prod_beta split: sum.split)
  show "wf_app (app_of (handleCodeDeleteInactive w x r a))"
    using assms up gc by (auto simp: handleCodeDeleteInactive_def Let_def case_prod_beta split: sum.split)
  show "wf_app (app_of (handleCodeDeleteBulk w x r a))"
    using assms up gc by (auto simp: handleCodeDeleteBulk_def Let_def case_prod_beta split: sum.split)
  show "wf_app (app_of (handleCodeEdit w x r a))"
    using assms up gc by (auto simp: handleCodeEdit_def Let_def case_prod_beta split: sum.split)
qed

lemma wf_limit_handlers:
  assumes "wf_app a"
  shows "wf_app (app_of (handleRateLimitReset w r a))" "wf_app (app_of (handleRateLimitResetAll w r a))"
proof -
  note up = wf_lim_update [OF assms] and l = wf_appD(1) [OF assms]
  show "wf_app (app_of (handleRateLimitReset w r a))"
    using assms up [OF wf_lim_reset [OF l]]
    by (auto simp: handleRateLimitReset_def Let_def split: sum.split option.split)
  show "wf_app (app_of (handleRateLimitResetAll w r a))"
    using assms up [OF wf_lim_resetAll [OF l]]
    by (auto simp: handleRateLimitResetAll_def Let_def case_prod_beta split: sum.split)
qed

lemma wf_deny_handlers:
  assumes "wf_app a"
  shows "wf_app (app_of (handleDenyMACCreate w x r a))" "wf_app (app_of (handleDenyMACDelete w x r a))"
    "wf_app (app_of (handleDenyMACDeleteAll w x r a))" "wf_app (app_of (handleDenylistImportCSV w x r a))"
proof -
  note up = wf_macs_update [OF assms] and m = wf_appD(2) [OF assms]
  have up2: "wf_app (a\<lparr>ap_denylist := tbl, ap_lim := (ap_lim a)\<lparr>l_guestFails := reset k (l_guestFails (ap_lim a))\<rparr>\<rparr>)"
    if "wf_macs tbl" for tbl k
    using assms that wf_guest_reset by (simp add: wf_app_def)
  have add: "wf_macs (snd (AddMAC f g n i (ap_denylist a)))" for f g n i by (rule wf_AddMAC [OF m])
  show "wf_app (app_of (handleDenyMACCreate w x r a))"
    using assms up [OF add] up2 [OF add]
    by (auto simp: handleDenyMACCreate_def Let_def case_prod_beta split: sum.split)
  show "wf_app (app_of (handleDenyMACDelete w x r a))"
    using assms up [OF wf_DeleteMAC [OF m]]
    by (auto simp: handleDenyMACDelete_def Let_def case_prod_beta split: sum.split)
  have "wf_macs (snd (DeleteAllMACs f (ap_denylist a)))" for f
    using m by (simp add: DeleteAllMACs_def wf_macs_def unique_by_def)
  then show "wf_app (app_of (handleDenyMACDeleteAll w x r a))"
    using assms up by (auto simp: handleDenyMACDeleteAll_def case_prod_beta split: sum.split)
  show "wf_app (app_of (handleDenylistImportCSV w x r a))"
    using assms up [OF wf_AddMACMany [OF m]]
    by (auto simp: handleDenylistImportCSV_def case_prod_beta split: sum.split upload.split)
qed

lemma wf_handleIKuaiPolicyUpdate:
  assumes "wf_app a"
  shows "wf_app (app_of (handleIKuaiPolicyUpdate w x r a))"
  using assms wf_policy_update [OF assms wf_policy_set [OF wf_appD(4) [OF assms]]]
  by (auto simp: handleIKuaiPolicyUpdate_def Let_def case_prod_beta split: sum.split option.split)

lemma wf_api_handle: "wf_app a \<Longrightarrow> wf_app (app_of (api_handle h w x r a))"
  using reading_keeps [of h w x r a]
  by (cases h) (simp_all add: wf_code_handlers wf_limit_handlers wf_deny_handlers
      wf_handleIKuaiPolicyUpdate reading_def)

section \<open>Failed writes leave the stores alone\<close>

lemma delete_none: "filter p (db_codes db) = [] \<Longrightarrow> snd (delete_codes p db) = db"
proof -
  assume none: "filter p (db_codes db) = []"
  then have "filter (\<lambda>r. \<not> p r) (db_codes db) = db_codes db" by (auto simp: filter_empty_conv)
  with none show ?thesis by (simp add: delete_codes_def Let_def)
qed

lemma Add_code_failed: "\<not> fst (Add_code f g h now c db) \<Longrightarrow> snd (Add_code f g h now c db) = db"
  by (auto simp: Add_code_def insertCode_def Let_def split: option.splits if_splits)

lemma Delete_code_failed: "\<not> fst (Delete_code f c db) \<Longrightarrow> snd (Delete_code f c db) = db"
  using delete_none [of "\<lambda>r. r_lower r = normalizeCode c" db]
  by (auto simp: Delete_code_def Let_def case_prod_beta split: if_splits) (simp add: delete_codes_def)

lemma Edit_failed: "\<not> fst (Edit f c e d m n db) \<Longrightarrow> snd (Edit f c e d m n db) = db"
proof -
  have "\<forall>r\<in>set rows. \<not> p r \<Longrightarrow> map (\<lambda>r. if p r then g r else r) rows = rows" for p g and rows :: "gcRow list"
    by (induction rows) auto
  then show "\<not> fst (Edit f c e d m n db) \<Longrightarrow> snd (Edit f c e d m n db) = db"
    by (auto simp: Edit_def Let_def case_prod_beta update_where_def filter_empty_conv split: if_splits)
qed

lemma AddMAC_failed:
  "fst (AddMAC f g now m tbl) = Inl e \<Longrightarrow> snd (AddMAC f g now m tbl) = tbl"
  "fst (AddMAC f g now m tbl) = Inr (item, False) \<Longrightarrow> snd (AddMAC f g now m tbl) = tbl"
  by (auto simp: AddMAC_def insert_nothing_def split: option.splits if_splits)

lemma DeleteMAC_failed: "\<not> fst (DeleteMAC f mac tbl) \<Longrightarrow> snd (DeleteMAC f mac tbl) = tbl"
  by (auto simp: DeleteMAC_def delete_where_def Let_def filter_empty_conv split: if_splits)

lemma policy_set_failed:
  "fst (policy_set f g now k p (tbl, st)) = Some e \<Longrightarrow> snd (policy_set f g now k p (tbl, st)) = (tbl, st)"
  by (auto simp: policy_set_def Let_def split: if_splits option.splits)


section \<open>The audit trail\<close>

definition same_stores :: "app \<Rightarrow> app \<Rightarrow> bool" where
  "same_stores a b \<longleftrightarrow> ap_codes b = ap_codes a \<and> ap_denylist b = ap_denylist a \<and>
     ap_policyTbl b = ap_policyTbl a"

definition changed_by :: "world \<Rightarrow> request \<Rightarrow> AdminSession \<Rightarrow> app \<Rightarrow> app \<Rightarrow> bool" where
  "changed_by w r admin a a' \<longleftrightarrow> same_stores a a' \<or>
     (\<exists>d b. a' = audit w r admin d b \<and> ap_events b = ap_events a \<and> ap_conf b = ap_conf a)"

lemma changed_by_audit [simp]:
  "ap_events b = ap_events a \<Longrightarrow> ap_conf b = ap_conf a \<Longrightarrow> changed_by w r admin a (audit w r admin d b)"
  by (auto simp: changed_by_def)

lemma changed_by_same: "same_stores a b \<Longrightarrow> changed_by w r admin a b"
  by (simp add: changed_by_def)

lemma same_storesI [simp]:
  "same_stores a a"
  "same_stores a (a\<lparr>ap_lim := l\<rparr>)"
  "same_stores a (a\<lparr>ap_codes := db\<rparr>) \<longleftrightarrow> db = ap_codes a"
  "same_stores a (a\<lparr>ap_denylist := tbl\<rparr>) \<longleftrightarrow> tbl = ap_denylist a"
  "same_stores a (a\<lparr>ap_denylist := tbl, ap_lim := l\<rparr>) \<longleftrightarrow> tbl = ap_denylist a"
  "same_stores a (a\<lparr>ap_policyTbl := pt, ap_policies := st\<rparr>) \<longleftrightarrow> pt = ap_policyTbl a"
  by (auto simp: same_stores_def)

lemma changed_by_simps [simp]: "changed_by w r admin a a"
  by (simp add: changed_by_def)

lemmas failed_writes = Add_code_failed Delete_code_failed Edit_failed AddMAC_failed DeleteMAC_failed
  policy_set_failed

definition admin_of :: "world \<Rightarrow> request \<Rightarrow> app \<Rightarrow> AdminSession" where
  "admin_of w r a = (case read_admin w a r of Inr s \<Rightarrow> s | Inl _ \<Rightarrow> \<lparr>a_UPN = [], a_Exp = 0\<rparr>)"

lemma admin_of_simp: "requireAdmin w m r a = Inr admin \<Longrightarrow> admin_of w r a = admin"
  by (simp add: admin_of_def requireAdminD(2))

lemma audited_codes:
  "changed_by w r (admin_of w r a) a (app_of (handleCodeCreate w x r a))"
  "changed_by w r (admin_of w r a) a (app_of (handleCodeBatch w x r a))"
  "changed_by w r (admin_of w r a) a (app_of (handleCodeDelete w x r a))"
  "changed_by w r (admin_of w r a) a (app_of (handleCodeDeleteInactive w x r a))"
  "changed_by w r (admin_of w r a) a (app_of (handleCodeDeleteBulk w x r a))"
  "changed_by w r (admin_of w r a) a (app_of (handleCodeEdit w x r a))"
  by (auto simp: handleCodeCreate_def handleCodeBatch_def handleCodeDelete_def
      handleCodeDeleteInactive_def handleCodeDeleteBulk_def handleCodeEdit_def admin_of_simp
      failed_writes Let_def case_prod_beta intro!: changed_by_same split: sum.split option.split)

lemma audited_others:
  "changed_by w r (admin_of w r a) a (app_of (handleRateLimitReset w r a))"
  "changed_by w r (admin_of w r a) a (app_of (handleRateLimitResetAll w r a))"
  "changed_by w r (admin_of w r a) a (app_of (handleDenyMACCreate w x r a))"
  "changed_by w r (admin_of w r a) a (app_of (handleDenyMACDelete w x r a))"
  "changed_by w r (admin_of w r a) a (app_of (handleDenyMACDeleteAll w x r a))"
  "changed_by w r (admin_of w r a) a (app_of (handleDenylistImportCSV w x r a))"
  "changed_by w r (admin_of w r a) a (app_of (handleIKuaiPolicyUpdate w x r a))"
  by (auto simp: handleRateLimitReset_def handleRateLimitResetAll_def handleDenyMACCreate_def
      handleDenyMACDelete_def handleDenyMACDeleteAll_def handleDenylistImportCSV_def
      handleIKuaiPolicyUpdate_def admin_of_simp failed_writes Let_def case_prod_beta
      intro!: changed_by_same split: sum.split option.split upload.split)

lemma audited_api: "changed_by w r (admin_of w r a) a (app_of (api_handle h w x r a))"
  using reading_keeps [of h w x r a]
  by (cases h) (simp_all add: audited_codes audited_others reading_def)

section \<open>Runs of the portal and the console\<close>

datatype console_event = Visit event | Console api_handler world api request

fun console_step :: "console_event \<Rightarrow> app \<Rightarrow> app" where
  "console_step (Visit e) a = app_step e a"
| "console_step (Console h w x r) a = app_of (api_handle h w x r a)"

definition console_run :: "console_event list \<Rightarrow> app \<Rightarrow> app" where
  "console_run evs a = fold console_step evs a"

lemma wf_console_step: "wf_app a \<Longrightarrow> wf_app (console_step e a)"
  by (cases e) (simp_all add: wf_app_step wf_api_handle)

interpretation console_runs: preserved console_step wf_app
  by unfold_locales (rule wf_console_step)

lemma wf_console_run: "wf_app a \<Longrightarrow> wf_app (console_run evs a)"
  unfolding console_run_def by (rule console_runs.run_inv)


section \<open>A request of an administrator\<close>

definition demo_admin :: AdminSession where
  "demo_admin = \<lparr>a_UPN = ''ann@x.org'', a_Exp = 900\<rparr>"

definition demo_admin_req :: "string \<Rightarrow> (string \<times> string) list \<Rightarrow> request" where
  "demo_admin_req meth form =
     \<lparr>rq_method = meth, rq_host = ''p'', rq_tls = True, rq_remote = ''10.0.0.9:1234'',
      rq_headers = [(''Origin'', ''https://p'')], rq_query = [], rq_form = form,
      rq_cookies = [(adminCookieName, ck_value (adminCookie demo_hmac ''0123'' demo_admin True))]\<rparr>"

definition demo_rows :: "string list list" where
  "demo_rows = [[''mac''], [''AA-BB-CC-DD-EE-FF'', ''lost'']]"

definition demo_api :: api where
  "demo_api = \<lparr>x_flt = (\<lambda>_. False), x_draw = (\<lambda>a i n. if n = 0 then None else Some ((a + i) mod n)), x_rfc3339 = (\<lambda>_. None),
     x_local = (\<lambda>_. None), x_fmt = (\<lambda>_ _. ''t''), x_upload = Rows demo_rows,
     x_translations = [], x_time_error = ''e'', x_db_error = ''e''\<rparr>"

lemma demo_requireAdmin:
  assumes "unix t \<le> 900" "ap_conf a = demo_Config"
  shows "requireAdmin (demo_world t) m (demo_admin_req meth form) a = Inr demo_admin"
proof -
  have "read_admin (demo_world t) a (demo_admin_req meth form) = Inr demo_admin"
    using assms
    by (simp add: read_admin_def demo_world_def demo_Config_def demo_admin_req_def)
       (rule read_admin_cookie, simp_all add: demo_admin_def in_int64_def)
  moreover have "isSameOriginRequest (w_parse_url (demo_world t)) demo_Config (demo_admin_req meth form)"
    unfolding isSameOriginRequest_def demo_world_def demo_Config_def demo_admin_req_def by code_simp
  moreover have "IsAdminEnabled demo_Config" by (simp add: IsAdminEnabled_def demo_Config_def)
  ultimately show ?thesis using assms(2) by (simp add: requireAdmin_def)
qed

lemma demo_admin_post:
  assumes "unix t \<le> 900" "ap_conf a = demo_Config"
  shows "admin_post (demo_world t) (demo_admin_req ''POST'' form) a k = k demo_admin"
  using demo_requireAdmin [OF assms]
  by (simp add: admin_post_def admin_any_def) (simp add: demo_admin_req_def)

lemma demo_second [simp]: "unix second \<le> 900"
  by (simp add: unix_def second_def)

lemma demo_form [simp]: "form_value (demo_admin_req meth form) k = get_value form k"
  by (simp add: form_value_def demo_admin_req_def)


section \<open>Properties\<close>

text \<open>The replies of a refused request.\<close>

definition refusals :: "reply set" where
  "refusals = {reply_error 405 ''method_not_allowed'', reply_error 503 ''admin_disabled'',
     reply_error 403 ''cross_origin'', reply_error 401 ''not_logged_in'',
     ReplyText 404 ''Admin console not configured'', ReplyText 403 ''cross-origin request blocked'',
     ReplyRedirect ''/admin/login''}"

lemma requireAdmin_refusal: "requireAdmin w m r a = Inl rep \<Longrightarrow> rep \<in> refusals"
  by (auto simp: requireAdmin_def refusals_def split: if_splits sum.splits)

lemma admin_any_refused:
  assumes "\<And>admin. read_admin w a r \<noteq> Inr admin"
  shows "fst (admin_any w m r a k) \<in> refusals"
proof -
  obtain rep where "requireAdmin w m r a = Inl rep"
    using requireAdminD(2) [of w m r a] assms by (cases "requireAdmin w m r a") auto
  then show ?thesis by (simp add: admin_any_def requireAdmin_refusal)
qed

lemma api_refused:
  assumes "\<And>admin. read_admin w a r \<noteq> Inr admin"
  shows "fst (api_handle h w x r a) \<in> refusals"
proof -
  have post: "fst (admin_post w r a k) \<in> refusals" for k
    using admin_any_refused [OF assms] by (simp add: admin_post_def json_error_def refusals_def)
  show ?thesis
  proof (cases "reading h")
    case True
    then show ?thesis
      using admin_any_refused [OF assms]
      by (auto simp: reading_def reading_defs json_error_def) (simp add: refusals_def)
  next
    case False
    with writing_post [OF False, of w x r] post show ?thesis by metis
  qed
qed

text \<open>The invariant of the whole state.  Any sequence of sign-in requests, console requests and
  sweeps, with any database faults, answers of Entra and Duo, uploads and random draws, keeps the
  counters, the used states and the tokens within their capacities, and the tables of bans, denied
  devices, codes, policies and events well-formed: one row per key, no code without its key, no
  redemption of a code that is gone.\<close>

theorem portal_invariant:
  assumes "wf_app a"
  shows "wf_app (console_run evs a) \<and>
    length (us_states (ap_usedStates (console_run evs a))) \<le> maxUsedStates \<and>
    length (ps_entries (ap_proceed (console_run evs a))) \<le> maxProceedEntries \<and>
    length (fc_entries (l_ipFails (ap_lim (console_run evs a)))) \<le> maxFailCounterEntries"
  using wf_console_run [OF assms, of evs]
  by (simp add: wf_app_def wf_us_def wf_ps_def wf_limiter_def wf_fc_def)

theorem portal_invariant_witness:
  "wf_app (console_run [Visit (SweepStates 0), Console ACodeCreate (demo_world second) demo_api
     (demo_admin_req ''POST'' []) ] demo_app)"
  using portal_invariant [OF wf_demo_app] by blast

text \<open>The console is guarded.  Whatever handler of the console a request reaches, the state
  changes only for a POST from the portal's own origin, with the console enabled and a valid admin
  cookie; without such a cookie the reply is one of the seven fixed refusals, which say nothing of
  the state.\<close>

theorem console_guarded:
  assumes "api_handle h w x r a = (rep, cks, a')"
  shows "(a' \<noteq> a \<longrightarrow> rq_method r = ''POST'' \<and> IsAdminEnabled (ap_conf a) \<and>
            isSameOriginRequest (w_parse_url w) (ap_conf a) r \<and> (\<exists>admin. read_admin w a r = Inr admin)) \<and>
    ((\<forall>admin. read_admin w a r \<noteq> Inr admin) \<longrightarrow> rep \<in> refusals)"
proof -
  have "rq_method r = ''POST'' \<and> (\<exists>admin. requireAdmin w True r a = Inr admin)" if "a' \<noteq> a"
    using that assms by (intro changes_need_admin [of h w x r a]) simp
  moreover have "rep \<in> refusals" if "\<And>admin. read_admin w a r \<noteq> Inr admin"
    using api_refused [OF that, of h x] assms by simp
  ultimately show ?thesis using requireAdminD [of w True r a] by blast
qed

theorem console_guarded_witness:
  "fst (api_handle AAdminState (demo_world second) demo_api demo_guest_request demo_app) \<in> refusals"
proof -
  have "\<forall>admin. read_admin (demo_world second) demo_app demo_guest_request \<noteq> Inr admin"
    by (simp add: read_admin_def readAdminCookie_def demo_guest_request_def demo_req_def adminCookieName_def
        sessionCookieName_def)
  then show ?thesis
    using console_guarded [of AAdminState "demo_world second" demo_api demo_guest_request demo_app
        "fst (api_handle AAdminState (demo_world second) demo_api demo_guest_request demo_app)"
        "fst (snd (api_handle AAdminState (demo_world second) demo_api demo_guest_request demo_app))"]
    by (metis prod.collapse)
qed


definition admin_entry :: "nat \<Rightarrow> time \<Rightarrow> string \<Rightarrow> string \<Rightarrow> string \<Rightarrow> Event" where
  "admin_entry n now upn ip detail =
     \<lparr>ev_id = n, ev_time = now, ev_kind = KindAdminAction, ev_subject = upn, ev_result = ResultSuccess,
      ev_method = MethodAdmin, ev_mac = [], ev_ip = ip, ev_detail = detail\<rparr>"

lemma audit_rows:
  "et_rows (ap_events (audit w r admin d b)) = et_rows (ap_events b) @
     (if w_flt_event w then [] else [admin_entry (et_next (ap_events b)) (w_now w) (a_UPN admin) (req_ip w b r) d])"
  by (simp add: audit_def log_admin_def logAdminAction_def Append_def admin_entry_def is_zero_def)

lemma audited_rows:
  assumes "changed_by w r admin a a'" "\<not> same_stores a a'"
  shows "\<exists>detail. et_rows (ap_events a') = et_rows (ap_events a) @
    (if w_flt_event w then [] else [admin_entry (et_next (ap_events a)) (w_now w) (a_UPN admin) (req_ip w a r) detail])"
proof -
  from assms(1,2) obtain d b where b: "a' = audit w r admin d b" "ap_events b = ap_events a" "ap_conf b = ap_conf a"
    by (auto simp: changed_by_def)
  then show ?thesis using audit_rows [of w r admin d b] by (auto simp: req_ip_def)
qed

text \<open>C12: Every change of the stores is audited, if the log can be written.  When a request to the console
  changes the guest codes, the denylist or the stored policies, it came with the cookie of an administrator,
  and the event log grows by exactly one row, an administrative action with that administrator's name, the
  client address of the request and the time; only when the insert of that row fails does the log stay as it
  was, while the change stands: the error is not reported to the administrator.\<close>

theorem console_audited:
  assumes "app_of (api_handle h w x r a) = a'"
    and "ap_codes a' \<noteq> ap_codes a \<or> ap_denylist a' \<noteq> ap_denylist a \<or> ap_policyTbl a' \<noteq> ap_policyTbl a"
  shows "\<exists>admin detail. read_admin w a r = Inr admin \<and>
    et_rows (ap_events a') = et_rows (ap_events a) @
      (if w_flt_event w then [] else [admin_entry (et_next (ap_events a)) (w_now w) (a_UPN admin) (req_ip w a r) detail])"
proof -
  have diff: "\<not> same_stores a a'" using assms(2) by (auto simp: same_stores_def)
  then have "a' \<noteq> a" by auto
  then obtain admin where admin: "requireAdmin w True r a = Inr admin"
    using changes_need_admin [of h w x r a] assms(1) by auto
  have "changed_by w r admin a a'"
    using audited_api [of w r a h x] assms(1) admin_of_simp [OF admin] by simp
  from audited_rows [OF this diff] requireAdminD(2) [OF admin] show ?thesis by blast
qed

lemma demo_deny:
  "ap_denylist (app_of (api_handle ADenylistImportCSV (demo_world second) demo_api (demo_admin_req ''POST'' []) demo_app)) \<noteq> []"
proof -
  have rows: "import_inputs (a_UPN demo_admin) 0 demo_rows =
      [\<lparr>mi_mac = ''AA-BB-CC-DD-EE-FF'', mi_reason = ''lost'', mi_by = ''ann@x.org''\<rparr>]"
    by code_simp
  have valid: "isNormalizedMAC (normalizeMAC ''AA-BB-CC-DD-EE-FF'')" by code_simp
  have "ap_denylist demo_app = []" by (simp add: demo_app_def)
  moreover have "x_upload demo_api = Rows demo_rows" "x_flt demo_api i = False" for i
    by (simp_all add: demo_api_def)
  moreover have "snd (AddMACMany (\<lambda>i. False) False now (import_inputs (a_UPN demo_admin) 0 demo_rows) []) \<noteq> []" for now
    using valid by (simp add: rows AddMACMany_def insert_nothing_def)
  ultimately show ?thesis
    by (simp add: handleDenylistImportCSV_def demo_admin_post audit_def log_admin_def case_prod_beta)
qed

theorem console_audited_witness:
  "length (et_rows (ap_events (app_of (api_handle ADenylistImportCSV (demo_world second) demo_api
     (demo_admin_req ''POST'' []) demo_app)))) = 1"
proof -
  have "\<not> w_flt_event (demo_world second)" by (simp add: demo_world_def)
  moreover have "ap_denylist demo_app = []" "et_rows (ap_events demo_app) = []" by (simp_all add: demo_app_def)
  ultimately show ?thesis
    using console_audited [OF refl, of ADenylistImportCSV "demo_world second" demo_api "demo_admin_req ''POST'' []" demo_app]
      demo_deny by auto
qed

end
