(* ===== verification/AdminEffects.thy ===== *)
theory AdminEffects
  imports AdminRun
begin

text \<open>
  What single actions of the console do to the rest of the portal: a created code can be redeemed, a
  batch holds different codes, an import records who made it, a policy is read back as it was set,
  an address that is reset is let in again.
\<close>

section \<open>Creating codes\<close>

lemma Add_code_new:
  assumes "wf_gc db" "Add_code f g h now c db = (True, db')" "c_uses c = []"
  shows "normalizeCode (c_code c) \<noteq> [] \<and> normalizeCode (c_code c) \<notin> set (code_keys db) \<and>
    db' = db\<lparr>db_codes := db_codes db @ [code_before_save now (toRow c)]\<rparr>"
proof -
  have "\<not> (c_code c \<in> r_code ` set (db_codes db) \<or> normalizeCode (c_code c) \<in> r_lower ` set (db_codes db))"
    using assms by (auto simp: Add_code_def insertCode_def Let_def split: option.splits if_splits)
  moreover from this insert_conflict [OF assms(1), of c]
  have "normalizeCode (c_code c) \<notin> set (code_keys db)" by blast
  ultimately show ?thesis
    using assms by (force simp: Add_code_def insertCode_def Let_def split: option.splits if_splits)
qed

lemma no_uses_of_new:
  assumes "wf_gc db" "normalizeCode code \<notin> set (code_keys db)"
  shows "uses_of code db = []"
proof -
  have "u_code u \<noteq> code" if u: "u \<in> set (db_uses db)" for u
  proof
    assume "u_code u = code"
    with wf_gcD(5) [OF assms(1) u] obtain row where "row \<in> set (db_codes db)" "r_code row = code" by auto
    with wf_gcD(2) [OF assms(1)] have "normalizeCode code \<in> set (code_keys db)"
      by (force simp: code_keys_def)
    with assms(2) show False ..
  qed
  then show ?thesis by (auto simp: uses_of_def filter_empty_conv)
qed

lemma new_code_redeemable:
  assumes "wf_gc db" "normalizeCode (c_code c) \<noteq> []" "normalizeCode (c_code c) \<notin> set (code_keys db)"
    and "c_expires c = zero_time \<or> t \<le> c_expires c"
  shows "fst (Validate (\<lambda>_. False) t (c_code c) mac ip upn
           (db\<lparr>db_codes := db_codes db @ [code_before_save now (toRow c)]\<rparr>)) \<noteq> None"
proof -
  let ?row = "code_before_save now (toRow c)"
  let ?db = "db\<lparr>db_codes := db_codes db @ [?row]\<rparr>"
  have "find (\<lambda>r. r_lower r = normalizeCode (c_code c)) (db_codes db) = None"
    using assms(3) by (force simp: find_None_iff code_keys_def)
  then have "find (\<lambda>r. r_lower r = normalizeCode (c_code c)) (db_codes ?db) = Some ?row"
    by (simp add: find_append)
  moreover have "redeemable t ?db ?row"
    using assms(4) no_uses_of_new [OF assms(1,3)] by (auto simp: redeemable_def uses_of_def)
  ultimately show ?thesis using assms(2) by (simp add: Validate_def validate_tx_ok Let_def)
qed

lemma form_code_simps [simp]:
  "c_code (form_code now expires r code) = code" "c_uses (form_code now expires r code) = []"
  "c_expires (form_code now expires r code) = expires"
  "c_duration (form_code now expires r code) = parseDurationMin r"
  "c_max (form_code now expires r code) = parseMaxUses (form_value r ''max_uses'')"
  by (simp_all add: form_code_def)

lemma requireAdmin_200 [simp]: "requireAdmin w m r a \<noteq> Inl (ReplyJSON 200 kvs)"
  by (simp add: requireAdmin_def reply_error_def split: sum.split)

lemma admin_post_200:
  "admin_post w r a k = (ReplyJSON 200 kvs, cks, a') \<longleftrightarrow>
     rq_method r = ''POST'' \<and> (\<exists>admin. requireAdmin w True r a = Inr admin \<and> k admin = (ReplyJSON 200 kvs, cks, a'))"
  by (auto simp: admin_post_def admin_any_def json_error_def reply_error_def split: sum.split)

lemma audit_stores [simp]:
  "ap_codes (audit w r admin d a) = ap_codes a" "ap_denylist (audit w r admin d a) = ap_denylist a"
  "ap_policyTbl (audit w r admin d a) = ap_policyTbl a" "ap_policies (audit w r admin d a) = ap_policies a"
  "ap_lim (audit w r admin d a) = ap_lim a" "ap_conf (audit w r admin d a) = ap_conf a"
  by (simp_all add: audit_def log_admin_def)

lemma handleCodeCreate_ok:
  assumes "handleCodeCreate w x r a = (ReplyJSON 200 kvs, cks, a')"
  obtains code expires where "kvs = [(''ok'', RBool True), (''code'', RStr code)]"
    "parseExpiry (x_rfc3339 x) (x_local x) (w_now w) r False = Inr expires"
    "Add_code (x_flt x 0) (x_flt x 1) (x_flt x 2) (w_now w) (form_code (w_now w) expires r code) (ap_codes a) =
       (True, ap_codes a')"
proof -
  let ?add = "\<lambda>code expires. Add_code (x_flt x 0) (x_flt x 1) (x_flt x 2) (w_now w)
    (form_code (w_now w) expires r code) (ap_codes a)"
  from assms obtain code where code: "requested_code x r = Some code"
    by (cases "requested_code x r")
       (auto simp: handleCodeCreate_def admin_post_200 json_error_def reply_error_def Let_def)
  from assms code obtain expires where exp: "parseExpiry (x_rfc3339 x) (x_local x) (w_now w) r False = Inr expires"
    by (cases "parseExpiry (x_rfc3339 x) (x_local x) (w_now w) r False")
       (auto simp: handleCodeCreate_def admin_post_200 json_error_def reply_error_def Let_def split: if_splits)
  from assms code exp have added: "fst (?add code expires)"
    by (auto simp: handleCodeCreate_def admin_post_200 json_error_def reply_error_def Let_def case_prod_beta
        split: if_splits)
  from assms code exp added have "kvs = [(''ok'', RBool True), (''code'', RStr code)]"
    and "snd (?add code expires) = ap_codes a'"
    by (auto simp: handleCodeCreate_def admin_post_200 json_error_def reply_error_def json_ok_def Let_def
        case_prod_beta split: if_splits)
  with exp added show thesis by (intro that) (auto simp: prod_eq_iff)
qed

text \<open>A created code opens the door.  When the console reports a code as created, it was free
  under every spelling, its row is the only change of the code tables, its length of session and
  its number of uses are in range, its expiry is not in the past, and any guest who types it
  before that moment is admitted.\<close>

theorem created_code_redeemable:
  assumes "wf_app a" "handleCodeCreate w x r a = (ReplyJSON 200 kvs, cks, a')"
  shows "\<exists>code row. kvs = [(''ok'', RBool True), (''code'', RStr code)] \<and>
     normalizeCode code \<notin> set (code_keys (ap_codes a)) \<and>
     r_code row = code \<and> 0 \<le> r_duration row \<and> r_duration row \<le> 525600 \<and>
     0 \<le> r_max row \<and> r_max row \<le> 1000000 \<and>
     (\<forall>e. r_expires row = Some e \<longrightarrow> w_now w \<le> e) \<and>
     ap_codes a' = (ap_codes a)\<lparr>db_codes := db_codes (ap_codes a) @ [row]\<rparr> \<and>
     (\<forall>t mac ip upn. (case r_expires row of None \<Rightarrow> True | Some e \<Rightarrow> t \<le> e) \<longrightarrow>
        fst (Validate (\<lambda>_. False) t code mac ip upn (ap_codes a')) \<noteq> None)"
proof -
  have wf: "wf_gc (ap_codes a)" using assms(1) by (simp add: wf_app_def)
  obtain code expires where kvs: "kvs = [(''ok'', RBool True), (''code'', RStr code)]"
    and exp: "parseExpiry (x_rfc3339 x) (x_local x) (w_now w) r False = Inr expires"
    and add: "Add_code (x_flt x 0) (x_flt x 1) (x_flt x 2) (w_now w) (form_code (w_now w) expires r code) (ap_codes a) =
       (True, ap_codes a')"
    using handleCodeCreate_ok [OF assms(2)] .
  let ?gc = "form_code (w_now w) expires r code"
  let ?row = "code_before_save (w_now w) (toRow ?gc)"
  note new = Add_code_new [OF wf add, simplified]
  have future: "expires = zero_time \<or> w_now w \<le> expires"
    using exp by (auto simp: parseExpiry_def before_def Let_def split: if_splits option.splits)
  have "fst (Validate (\<lambda>_. False) t code mac ip upn (ap_codes a')) \<noteq> None"
    if "case r_expires ?row of None \<Rightarrow> True | Some e \<Rightarrow> t \<le> e" for t mac ip upn
    using new_code_redeemable [OF wf, of ?gc t mac ip upn "w_now w"] new that
    by (simp split: if_splits option.splits)
  moreover have "r_duration ?row = parseDurationMin r" "r_max ?row = parseMaxUses (form_value r ''max_uses'')"
    by (simp_all add: code_before_save_def toRow_def Let_def)
  ultimately show ?thesis
    using new kvs future parseDurationMin_bounds [of r] parseMaxUses_bounds [of "form_value r ''max_uses''"]
    by (intro exI [of _ code] exI [of _ ?row]) (auto simp: maxDurationMin_def split: if_splits)
qed

theorem created_code_redeemable_witness:
  "\<forall>mac ip upn. fst (Validate (\<lambda>_. False) second ''GUEST1'' mac ip upn (ap_codes (app_of
     (handleCodeCreate (demo_world second) demo_api (demo_admin_req ''POST'' [(''code'', ''GUEST1'')]) demo_app)))) \<noteq> None"
proof -
  let ?r = "demo_admin_req ''POST'' [(''code'', ''GUEST1'')]"
  let ?resp = "handleCodeCreate (demo_world second) demo_api ?r demo_app"
  have code: "trim_space (form_value ?r ''code'') = ''GUEST1''" by (simp add: get_value_def) code_simp
  have exp: "parseExpiry f g n ?r False = Inr zero_time" for f g n
    by (simp add: parseExpiry_def get_value_def)
  have "normalizeCode ''GUEST1'' \<noteq> []" "normalizeCode ''GUEST1'' \<notin> set (code_keys demo_gcDB)"
    by code_simp+
  then have add: "fst (Add_code False False False n (form_code n e ?r ''GUEST1'') demo_gcDB)" for n e
    using insertCode_eq [OF wf_demo_gcDB, of n "form_code n e ?r ''GUEST1''"] by (simp add: Add_code_def)
  have reply: "fst ?resp = ReplyJSON 200 [(''ok'', RBool True), (''code'', RStr ''GUEST1'')]"
    using add [of second zero_time] code
    by (simp add: handleCodeCreate_def demo_admin_post requested_code_def Let_def exp case_prod_beta demo_api_def
        json_ok_def demo_app_def)
  then obtain cks a' where resp: "?resp = (ReplyJSON 200 [(''ok'', RBool True), (''code'', RStr ''GUEST1'')], cks, a')"
    by (cases ?resp) auto
  show ?thesis
    using created_code_redeemable [OF wf_demo_app resp]
  proof (elim exE conjE, goal_cases)
    case (1 code row)
    have now: "case r_expires row of None \<Rightarrow> True | Some e \<Rightarrow> second \<le> e"
      using 1(8) by (cases "r_expires row") simp_all
    from 1(1) have "RStr ''GUEST1'' = RStr code" by (simp only: list.inject prod.inject)
    then have code: "code = ''GUEST1''" by (simp only: rval.inject)
    show ?case unfolding resp snd_conv using 1(10) [rule_format, OF now] unfolding code by (intro allI)
  qed
qed

section \<open>Batches\<close>

lemma batch_loop_props:
  assumes "batch_loop x ctype len mk count i fuel seen pending = Some result"
    and "\<And>raw. c_code (mk raw) = raw"
    and "seen = rev (map (\<lambda>c. normalizeCode (c_code c)) pending)" "distinct seen" "length pending \<le> count"
    and "\<forall>c\<in>set pending. \<exists>j. generateCode (x_draw x j) ctype len = Some (c_code c)"
  shows "distinct (map (\<lambda>c. normalizeCode (c_code c)) result) \<and> length result \<le> count \<and>
    (\<forall>c\<in>set result. \<exists>j. generateCode (x_draw x j) ctype len = Some (c_code c))"
  using assms
proof (induction fuel arbitrary: i seen pending)
  case 0
  then show ?case by simp
next
  case (Suc fuel)
  show ?case
  proof (cases "length pending < count")
    case False
    with Suc.prems show ?thesis by simp
  next
    case True
    with Suc.prems(1) obtain raw where raw: "generateCode (x_draw x i) ctype len = Some raw"
      by (auto split: option.splits)
    show ?thesis
    proof (cases "normalizeCode raw \<in> set seen")
      case True
      with Suc.prems raw \<open>length pending < count\<close> show ?thesis
        by (intro Suc.IH [of "Suc i" seen pending]) (simp_all add: normalizeCode_def Let_def)
    next
      case False
      with Suc.prems raw \<open>length pending < count\<close> show ?thesis
        by (intro Suc.IH [of "Suc i" "normalizeCode raw # seen" "pending @ [mk raw]"])
          (auto simp: normalizeCode_def Let_def)
    qed
  qed
qed

lemma batch_bounds: "1 \<le> batch_count r" "batch_count r \<le> 200" "6 \<le> batch_length r" "batch_length r \<le> 32"
  using clamp_bounds [of 1 200] clamp_bounds [of 6 32] by (simp_all add: batch_count_def batch_length_def)

lemma handleCodeBatch_ok:
  assumes "handleCodeBatch w x r a = (ReplyJSON 200 kvs, cks, a')"
  obtains expires pending codes where
    "batch_loop x (batch_type r) (batch_length r) (form_code (w_now w) expires r) (nat (batch_count r)) 0
       (nat (maxAttempts (batch_count r))) [] [] = Some pending"
    "AddMany (\<lambda>i. x_flt x (Suc i)) (x_flt x 0) (w_now w) pending (ap_codes a) = (codes, ap_codes a')"
    "kvs = [(''ok'', RBool True), (''count'', RInt (int (length codes))), (''codes'', RList codes)]"
proof -
  from assms obtain expires where exp: "parseExpiry (x_rfc3339 x) (x_local x) (w_now w) r False = Inr expires"
    by (cases "parseExpiry (x_rfc3339 x) (x_local x) (w_now w) r False")
       (auto simp: handleCodeBatch_def admin_post_200 json_error_def reply_error_def)
  let ?loop = "batch_loop x (batch_type r) (batch_length r) (form_code (w_now w) expires r)
    (nat (batch_count r)) 0 (nat (maxAttempts (batch_count r))) [] []"
  from assms exp obtain pending where p: "?loop = Some pending"
    by (cases ?loop) (auto simp: handleCodeBatch_def admin_post_200 json_error_def reply_error_def)
  let ?add = "AddMany (\<lambda>i. x_flt x (Suc i)) (x_flt x 0) (w_now w) pending (ap_codes a)"
  from assms exp p have "snd ?add = ap_codes a'" and
    "kvs = [(''ok'', RBool True), (''count'', RInt (int (length (fst ?add)))), (''codes'', RList (fst ?add))]"
    by (auto simp: handleCodeBatch_def admin_post_200 json_ok_def case_prod_beta)
  with p show thesis by (intro that [OF p, of "fst ?add"]) (auto simp: prod_eq_iff)
qed

lemma AddMany_codes:
  assumes "wf_gc db" "AddMany flt fc now cs db = (codes, db')"
  shows "distinct (map normalizeCode codes)" "set (map normalizeCode codes) \<inter> set (code_keys db) = {}"
    "set codes \<subseteq> c_code ` set cs" "code_keys db' = code_keys db @ map normalizeCode codes"
proof -
  obtain added db1 where ok: "AddMany (\<lambda>_. False) False now cs db = (added, db1)" by fastforce
  note exact = AddMany_exact [OF assms(1), of now cs flt fc, unfolded ok assms(2), simplified]
  then have "(codes, db') = (added, db1) \<or> (codes, db') = ([], db)" by auto
  with exact show "distinct (map normalizeCode codes)"
    "set (map normalizeCode codes) \<inter> set (code_keys db) = {}"
    "set codes \<subseteq> c_code ` set cs" "code_keys db' = code_keys db @ map normalizeCode codes"
    by auto
qed

text \<open>C29: A batch of codes.  When the console answers a batch, the listed codes are pairwise
  different however they are typed, at most 200 and at most as many as asked for, each of the length
  and alphabet asked for (6 to 32 characters) and spelled exactly as its lookup key; none was taken
  before, and the table has grown by exactly these codes, also when a database statement failed.\<close>

theorem batch_exact:
  assumes "wf_app a" "handleCodeBatch w x r a = (ReplyJSON 200 kvs, cks, a')"
    and "\<forall>j i m k. x_draw x j i m = Some k \<longrightarrow> k < m"
  shows "\<exists>codes. kvs = [(''ok'', RBool True), (''count'', RInt (int (length codes))), (''codes'', RList codes)] \<and>
     distinct codes \<and> int (length codes) \<le> batch_count r \<and> length codes \<le> 200 \<and>
     (\<forall>c\<in>set codes. int (length c) = batch_length r \<and> 6 \<le> length c \<and> length c \<le> 32 \<and>
        set c \<subseteq> set (code_alphabet (batch_type r)) \<and> normalizeCode c = c) \<and>
     set codes \<inter> set (code_keys (ap_codes a)) = {} \<and>
     code_keys (ap_codes a') = code_keys (ap_codes a) @ codes"
proof -
  have wf: "wf_gc (ap_codes a)" using assms(1) by (simp add: wf_app_def)
  obtain expires pending codes where
    loop: "batch_loop x (batch_type r) (batch_length r) (form_code (w_now w) expires r) (nat (batch_count r)) 0
       (nat (maxAttempts (batch_count r))) [] [] = Some pending"
    and add: "AddMany (\<lambda>i. x_flt x (Suc i)) (x_flt x 0) (w_now w) pending (ap_codes a) = (codes, ap_codes a')"
    and kvs: "kvs = [(''ok'', RBool True), (''count'', RInt (int (length codes))), (''codes'', RList codes)]"
    using handleCodeBatch_ok [OF assms(2)] .
  note pend = batch_loop_props [OF loop, simplified]
  have gen: "int (length c) = batch_length r \<and> set c \<subseteq> set (code_alphabet (batch_type r)) \<and> normalizeCode c = c"
    if "c \<in> c_code ` set pending" for c
  proof -
    from pend that obtain j where "generateCode (x_draw x j) (batch_type r) (batch_length r) = Some c" by auto
    from generateCode_wellformed [OF _ this] assms(3) batch_bounds(3,4) [of r] show ?thesis by fastforce
  qed
  note facts = AddMany_codes [OF wf add]
  have same: "map normalizeCode codes = codes" using gen facts(3) by (auto intro!: map_idI)
  have "length codes \<le> length pending"
  proof -
    have "card (set codes) = length codes" using facts(1) same by (simp add: distinct_card)
    moreover have "card (set codes) \<le> card (c_code ` set pending)" using facts(3) by (intro card_mono) auto
    moreover have "card (c_code ` set pending) \<le> length pending"
      by (rule order_trans [OF card_image_le card_length]) simp
    ultimately show ?thesis by simp
  qed
  then have n: "int (length codes) \<le> batch_count r"
    using conjunct1 [OF conjunct2 [OF pend]] batch_bounds(1) [of r] by linarith
  have "\<forall>c\<in>set codes. int (length c) = batch_length r \<and> 6 \<le> length c \<and> length c \<le> 32 \<and>
        set c \<subseteq> set (code_alphabet (batch_type r)) \<and> normalizeCode c = c"
  proof
    fix c assume "c \<in> set codes"
    with facts(3) gen have "int (length c) = batch_length r" "set c \<subseteq> set (code_alphabet (batch_type r))"
      "normalizeCode c = c" by blast+
    then show "int (length c) = batch_length r \<and> 6 \<le> length c \<and> length c \<le> 32 \<and>
        set c \<subseteq> set (code_alphabet (batch_type r)) \<and> normalizeCode c = c"
      using batch_bounds(3,4) [of r] by linarith
  qed
  moreover have "length codes \<le> 200" using n batch_bounds(2) [of r] by linarith
  ultimately show ?thesis
    using kvs facts [unfolded same] n by blast
qed

lemma draw_code_total:
  "alphabet \<noteq> [] \<Longrightarrow> (\<And>i. draw i (length alphabet) \<noteq> None) \<Longrightarrow> draw_code draw alphabet i n \<noteq> None"
proof (induction n arbitrary: i)
  case (Suc n)
  have "draw i (length alphabet) \<noteq> None" by (rule Suc.prems(2))
  moreover have "draw_code draw alphabet (Suc i) n \<noteq> None" by (rule Suc.IH [OF Suc.prems])
  ultimately show ?case by (auto split: option.split)
qed simp

lemma batch_loop_total:
  "(\<And>j. generateCode (x_draw x j) ctype len \<noteq> None) \<Longrightarrow>
   batch_loop x ctype len mk count i fuel seen pending \<noteq> None"
proof (induction fuel arbitrary: i seen pending)
  case (Suc fuel)
  have "generateCode (x_draw x i) ctype len \<noteq> None" by (rule Suc.prems)
  moreover have "batch_loop x ctype len mk count (Suc i) fuel s p \<noteq> None" for s p
    by (rule Suc.IH [OF Suc.prems])
  ultimately show ?case by (auto simp: Let_def)
qed simp

lemma demo_batch_reply:
  "\<exists>kvs cks a'. handleCodeBatch (demo_world second) demo_api (demo_admin_req ''POST'' []) demo_app =
     (ReplyJSON 200 kvs, cks, a')"
proof -
  let ?r = "demo_admin_req ''POST'' []"
  have exp: "parseExpiry f g n ?r False = Inr zero_time" for f g n
    by (simp add: parseExpiry_def get_value_def)
  have "generateCode (x_draw demo_api j) ctype len \<noteq> None" for j ctype len
    unfolding generateCode_def by (rule draw_code_total) (simp_all add: code_alphabet_def demo_api_def)
  from batch_loop_total [of demo_api, OF this]
  obtain pending where "batch_loop demo_api (batch_type ?r) (batch_length ?r) (form_code second zero_time ?r)
      (nat (batch_count ?r)) 0 (nat (maxAttempts (batch_count ?r))) [] [] = Some pending" by blast
  then show ?thesis
    by (simp add: handleCodeBatch_def demo_admin_post exp json_ok_def case_prod_beta)
qed

theorem batch_exact_witness:
  "\<exists>codes. distinct codes \<and> code_keys (ap_codes (app_of (handleCodeBatch (demo_world second) demo_api
     (demo_admin_req ''POST'' []) demo_app))) = code_keys (ap_codes demo_app) @ codes"
proof -
  obtain kvs cks a' where resp: "handleCodeBatch (demo_world second) demo_api (demo_admin_req ''POST'' []) demo_app =
      (ReplyJSON 200 kvs, cks, a')"
    using demo_batch_reply by blast
  have "\<forall>j i m k. x_draw demo_api j i m = Some k \<longrightarrow> k < m" by (simp add: demo_api_def)
  from batch_exact [OF wf_demo_app resp this] show ?thesis unfolding resp snd_conv by blast
qed


section \<open>Denying devices\<close>

lemma new_rows_add_all:
  "set (fst (dlt.add_all rs tbl)) = set tbl \<union> set (snd (dlt.add_all rs tbl))"
  by (induction rs arbitrary: tbl) (auto simp: insert_nothing_def Let_def case_prod_beta split: if_splits)

lemma import_by: "m \<in> set (import_inputs upn idx rows) \<Longrightarrow> mi_by m = upn"
  by (induction upn idx rows rule: import_inputs.induct) (auto simp: Let_def split: if_splits)

lemma import_reason: "m \<in> set (import_inputs upn idx rows) \<Longrightarrow> length (mi_reason m) \<le> 256"
  by (induction upn idx rows rule: import_inputs.induct) (auto simp: Let_def split: if_splits list.split)

text \<open>The rows an import adds, whether or not a statement fails.\<close>

lemma mac_loop_rows:
  "mac_loop flt now i added skipped ms tbl = Some (tbl', n, k) \<Longrightarrow>
   (\<exists>new. tbl' = tbl @ new \<and> set new \<subseteq> mac_row now ` set (valid_macs ms))"
proof (induction ms arbitrary: i added skipped tbl)
  case Nil
  then show ?case by simp
next
  case (Cons m ms)
  show ?case
  proof (cases "isNormalizedMAC (normalizeMAC (mi_mac m))")
    case False
    with Cons show ?thesis by (simp add: valid_macs_def)
  next
    case True
    then have v: "valid_macs (m # ms) = m # valid_macs ms" by (simp add: valid_macs_def)
    let ?t = "fst (insert_nothing dm_mac (mac_row now m) tbl)"
    from Cons.prems True obtain i' a' s' where "mac_loop flt now i' a' s' ms ?t = Some (tbl', n, k)"
      by (auto simp: case_prod_beta split: if_splits)
    from Cons.IH [OF this] obtain new where "tbl' = ?t @ new" "set new \<subseteq> mac_row now ` set (valid_macs ms)" by blast
    with v show ?thesis by (auto simp: insert_nothing_def split: if_splits)
  qed
qed

lemma AddMACMany_rows:
  "\<exists>new. snd (AddMACMany flt fc now ms tbl) = tbl @ new \<and> set new \<subseteq> mac_row now ` set (valid_macs ms)"
  using mac_loop_rows [of flt now 0 0 0 ms tbl]
  by (auto simp: AddMACMany_def split: option.split)

text \<open>An import cannot forge its author.  Whatever file is uploaded and whichever statement
  fails, the denylist only gains rows at its end; each of them is a well-formed address with at
  most 256 characters of reason, dated now, and made by the administrator of the cookie,
  whatever the file says in its third column.\<close>

theorem import_author:
  assumes "app_of (handleDenylistImportCSV w x r a) = a'"
  shows "\<exists>new. ap_denylist a' = ap_denylist a @ new \<and>
    (\<forall>row\<in>set new. isNormalizedMAC (dm_mac row) \<and> length (dm_reason row) \<le> 256 \<and> dm_created row = w_now w \<and>
       (\<exists>admin. read_admin w a r = Inr admin \<and> dm_by row = trim_space (a_UPN admin)))"
proof (cases "rq_method r = ''POST'' \<and> (\<exists>admin. requireAdmin w True r a = Inr admin)")
  case False
  with assms have "a' = a" by (auto simp: handleDenylistImportCSV_def split: sum.split)
  then show ?thesis by simp
next
  case True
  then obtain admin where post: "rq_method r = ''POST''" "requireAdmin w True r a = Inr admin" by blast
  show ?thesis
  proof (cases "x_upload x")
    case (Rows rows)
    let ?ms = "import_inputs (a_UPN admin) 0 rows"
    obtain new where new: "snd (AddMACMany (\<lambda>i. x_flt x (Suc i)) (x_flt x 0) (w_now w) ?ms (ap_denylist a)) = ap_denylist a @ new"
      "set new \<subseteq> mac_row (w_now w) ` set (valid_macs ?ms)"
      using AddMACMany_rows by blast
    have "ap_denylist a' = ap_denylist a @ new"
      using assms post Rows new(1) by (auto simp: handleDenylistImportCSV_def case_prod_beta)
    moreover have "isNormalizedMAC (dm_mac row) \<and> length (dm_reason row) \<le> 256 \<and> dm_created row = w_now w \<and>
        dm_by row = trim_space (a_UPN admin)" if "row \<in> set new" for row
    proof -
      from that new(2) obtain m where m: "m \<in> set ?ms" "isNormalizedMAC (normalizeMAC (mi_mac m))" "row = mac_row (w_now w) m"
        by (auto simp: valid_macs_def)
      then show ?thesis
        using import_by [OF m(1)] import_reason [OF m(1)] order_trans [OF length_trim_space [of "mi_reason m"]]
        by (simp add: mac_row_def)
    qed
    ultimately show ?thesis using requireAdminD(2) [OF post(2)] by blast
  qed (use assms post in \<open>auto simp: handleDenylistImportCSV_def\<close>)
qed

theorem import_author_witness:
  "dm_by ` set (ap_denylist (app_of (handleDenylistImportCSV (demo_world second) demo_api
     (demo_admin_req ''POST'' []) demo_app))) \<subseteq> {''ann@x.org''}"
proof -
  have empty: "ap_denylist demo_app = []" by (simp add: demo_app_def)
  have admin: "read_admin (demo_world second) demo_app (demo_admin_req ''POST'' []) = Inr demo_admin"
    by (rule requireAdminD(2) [OF demo_requireAdmin]) simp_all
  have name: "trim_space (a_UPN demo_admin) = ''ann@x.org''" by code_simp
  show ?thesis
    using import_author [OF refl, of "demo_world second" demo_api "demo_admin_req ''POST'' []" demo_app]
    unfolding empty admin append_Nil by (auto simp: name)
qed


section \<open>Setting a policy\<close>

lemma handleIKuaiPolicyUpdate_ok:
  assumes "handleIKuaiPolicyUpdate w x r a = (ReplyJSON 200 kvs, cks, a')"
  obtains profile where "parseIKuaiProfile (form_value r ''profile'') = Some profile"
    "policy_set (x_flt x 0) (x_flt x 1) (w_now w) profile (form_policy profile r)
       (ap_policyTbl a, ap_policies a) = (None, ap_policyTbl a', ap_policies a')"
proof -
  from assms obtain profile where p: "parseIKuaiProfile (form_value r ''profile'') = Some profile"
    by (cases "parseIKuaiProfile (form_value r ''profile'')")
       (auto simp: handleIKuaiPolicyUpdate_def admin_post_200 json_error_def reply_error_def)
  let ?set = "policy_set (x_flt x 0) (x_flt x 1) (w_now w) profile (form_policy profile r)
       (ap_policyTbl a, ap_policies a)"
  from assms p have ok: "fst ?set = None"
    by (cases "fst ?set")
       (auto simp: handleIKuaiPolicyUpdate_def admin_post_200 json_error_def reply_error_def Let_def case_prod_beta)
  from assms p ok have "fst (snd ?set) = ap_policyTbl a'" "snd (snd ?set) = ap_policies a'"
    by (auto simp: handleIKuaiPolicyUpdate_def admin_post_200 json_ok_def Let_def case_prod_beta)
  with p ok show thesis by (intro that) (auto simp: prod_eq_iff)
qed

lemma parse_profile_again: "parseIKuaiProfile s = Some k \<Longrightarrow> parseIKuaiProfile k = Some k"
proof -
  assume "parseIKuaiProfile s = Some k"
  then have "k = IKuaiProfileSSO \<or> k = IKuaiProfileDuo \<or> k = IKuaiProfileGuest"
    by (auto simp: parseIKuaiProfile_def Let_def split: if_splits)
  moreover have "parseIKuaiProfile IKuaiProfileSSO = Some IKuaiProfileSSO"
    "parseIKuaiProfile IKuaiProfileDuo = Some IKuaiProfileDuo"
    "parseIKuaiProfile IKuaiProfileGuest = Some IKuaiProfileGuest" by code_simp+
  ultimately show "parseIKuaiProfile k = Some k" by auto
qed

text \<open>A policy is read back as it was set.  When the console accepts a policy, the sign-in
  handlers read from then on the numbers of the form, all non-negative, with the trimmed comment;
  for guests the timeout is 0 whatever was submitted.  The rows of the other profiles are as
  before.\<close>

theorem policy_read_back:
  assumes "wf_app a" "handleIKuaiPolicyUpdate w x r a = (ReplyJSON 200 kvs, cks, a')" "\<not> x_flt x 1"
  shows "\<exists>profile p. parseIKuaiProfile (form_value r ''profile'') = Some profile \<and>
     policy_get profile (ap_policies a') = p \<and>
     p_upload p = parseIntDefault (form_value r ''upload'') 0 \<and> 0 \<le> p_upload p \<and>
     p_download p = parseIntDefault (form_value r ''download'') 0 \<and> 0 \<le> p_download p \<and>
     p_timeout p = (if profile = IKuaiProfileGuest then 0 else parseIntDefault (form_value r ''timeout'') 0) \<and>
     0 \<le> p_timeout p \<and> p_comment p = trim_space (cap_len (trim_space (form_value r ''comment'')) 128) \<and>
     (\<forall>k. k \<noteq> profile \<longrightarrow>
        find (\<lambda>row. pr_profile row = k) (ap_policyTbl a') = find (\<lambda>row. pr_profile row = k) (ap_policyTbl a))"
proof -
  obtain profile where profile: "parseIKuaiProfile (form_value r ''profile'') = Some profile"
    and set: "policy_set (x_flt x 0) (x_flt x 1) (w_now w) profile (form_policy profile r)
       (ap_policyTbl a, ap_policies a) = (None, ap_policyTbl a', ap_policies a')"
    using handleIKuaiPolicyUpdate_ok [OF assms(2)] .
  let ?p = "normalizeIKuaiPolicyForProfile profile (form_policy profile r)"
  let ?row = "policy_row (w_now w) profile ?p"
  have valid: "validateIKuaiPolicy (form_policy profile r) = None"
    and tbl: "ap_policyTbl a' = upsert pr_profile (set_row (w_now w) ?p) ?row (ap_policyTbl a)"
    and st: "ap_policies a' = snd (Refresh False (ap_policyTbl a') (ap_policies a))"
    using set parse_profile_again [OF profile] assms(3)
    by (auto simp: policy_set_def Let_def split: option.splits if_splits)
  have wf: "wf_policies (ap_policyTbl a')"
    using assms(1) wf_policies_upsert by (simp add: tbl wf_app_def)
  have found: "find (\<lambda>row. pr_profile row = k) (ap_policyTbl a') =
      (if profile = k then (case find (\<lambda>row. pr_profile row = k) (ap_policyTbl a) of
          None \<Rightarrow> Some ?row | Some row \<Rightarrow> Some (set_row (w_now w) ?p row))
       else find (\<lambda>row. pr_profile row = k) (ap_policyTbl a))" for k
    unfolding tbl using find_upsert [of pr_profile "set_row (w_now w) ?p" k ?row] by simp
  have "policy_get profile (ap_policies a') = ?p"
    using Refresh_get [of "ap_policyTbl a'" "ap_policies a" profile] wf found [of profile]
    by (auto simp: policy_get_def st wf_policies_def split: option.splits)
  moreover have "0 \<le> p_upload (form_policy profile r)" "0 \<le> p_download (form_policy profile r)"
    "0 \<le> p_timeout (form_policy profile r)"
    using valid by (auto simp: validateIKuaiPolicy_def split: if_splits)
  ultimately show ?thesis
    using profile found
    by (intro exI [of _ profile] exI [of _ ?p])
       (auto simp: normalizeIKuaiPolicyForProfile_def normalizeIKuaiPolicy_def form_policy_def Let_def)
qed

definition demo_policy_req :: request where
  "demo_policy_req = demo_admin_req ''POST'' [(''profile'', '' Guest''), (''upload'', ''512''), (''timeout'', ''60'')]"

lemma demo_policy_form [simp]:
  "form_value demo_policy_req ''profile'' = '' Guest''" "form_value demo_policy_req ''upload'' = ''512''"
  "form_value demo_policy_req ''download'' = []" "form_value demo_policy_req ''timeout'' = ''60''"
  "form_value demo_policy_req ''comment'' = []"
  by (simp_all add: demo_policy_req_def get_value_def)

lemma demo_policy_profile: "parseIKuaiProfile '' Guest'' = Some IKuaiProfileGuest"
  by code_simp

theorem policy_read_back_witness:
  "p_upload (policy_get IKuaiProfileGuest (ap_policies (app_of
     (handleIKuaiPolicyUpdate (demo_world second) demo_api demo_policy_req demo_app)))) = 512 \<and>
   p_timeout (policy_get IKuaiProfileGuest (ap_policies (app_of
     (handleIKuaiPolicyUpdate (demo_world second) demo_api demo_policy_req demo_app)))) = 0"
proof -
  have up: "parseIntDefault ''512'' 0 = 512" and none: "parseIntDefault [] 0 = 0"
    by (code_simp, simp add: parseIntDefault_def)
  have "validateIKuaiPolicy (form_policy IKuaiProfileGuest demo_policy_req) = None"
    by (simp add: validateIKuaiPolicy_def form_policy_def up none cap_len_def)
  then have "\<exists>kvs cks a'. handleIKuaiPolicyUpdate (demo_world second) demo_api demo_policy_req demo_app =
      (ReplyJSON 200 kvs, cks, a')"
    using parse_profile_again [OF demo_policy_profile] demo_policy_profile
    by (simp add: handleIKuaiPolicyUpdate_def demo_policy_req_def [of, symmetric] Let_def case_prod_beta)
       (simp add: demo_policy_req_def demo_admin_post policy_set_def json_ok_def demo_api_def Let_def)
  then obtain kvs cks a' where resp: "handleIKuaiPolicyUpdate (demo_world second) demo_api demo_policy_req demo_app =
      (ReplyJSON 200 kvs, cks, a')" by blast
  have ok: "\<not> x_flt demo_api 1" by (simp add: demo_api_def)
  from policy_read_back [OF wf_demo_app resp ok] demo_policy_profile up show ?thesis
    unfolding resp by auto
qed

section \<open>Lifting a cooldown\<close>

lemma not_banned_without_row:
  assumes "ip \<notin> ib_ip ` set tbl" "map_of (bl_cache b) ip = None"
  shows "\<not> fst (isBanned flt now ip tbl b)"
proof -
  have "map_of (rev (map (\<lambda>r. (ib_ip r, ib_until r)) rows)) ip = None" if "set rows \<subseteq> set tbl" for rows
    using assms(1) that by (auto simp: map_of_eq_None_iff)
  then have "map_of (bl_cache (refreshIfStale flt now tbl b)) ip = None"
    using assms(2) by (auto simp: refreshIfStale_def refresh_def Let_def fold_update_rows
        dest!: in_set_takeD split: option.split)
       (metis (no_types, lifting) filter_is_subset option.distinct(1) order_trans set_sort set_take_subset)
  then show ?thesis by (simp add: isBanned_expiryOf expiryOf_def Let_def)
qed

lemma reset_ban_effect:
  fixes l :: limiter and key :: string
  assumes "\<not> f_unban flt" "\<not> f_history flt"
  defines "l' \<equiv> lim_reset flt ResetIPBan key l"
  shows "\<not> fst (lim_isBanned flt' now key l')" "countIn now key win (l_ipFails l') = 0"
    "bh_get False key (l_historyTbl l') = 0"
    "filter (\<lambda>r. ib_ip r \<noteq> key) (l_banTbl l) = l_banTbl l'"
    "l_emailFails l' = l_emailFails l" "l_guestFails l' = l_guestFails l"
proof -
  have tbl: "l_banTbl l' = filter (\<lambda>r. ib_ip r \<noteq> key) (l_banTbl l)"
    and cache: "map_of (bl_cache (l_bans l')) key = None"
    using assms(1) by (simp_all add: l'_def Let_def lim_unban_def unban_def delete_where_def case_prod_beta delete_conv')
  show "filter (\<lambda>r. ib_ip r \<noteq> key) (l_banTbl l) = l_banTbl l'" by (simp add: tbl)
  have "key \<notin> ib_ip ` set (l_banTbl l')" by (auto simp: tbl)
  from not_banned_without_row [OF this cache] show "\<not> fst (lim_isBanned flt' now key l')"
    by (simp add: lim_isBanned_def case_prod_beta)
  show "countIn now key win (l_ipFails l') = 0" by (simp add: l'_def Let_def countIn_reset)
  show "bh_get False key (l_historyTbl l') = 0"
    using assms(2) by (simp add: l'_def Let_def bh_reset_get)
  show "l_emailFails l' = l_emailFails l" "l_guestFails l' = l_guestFails l"
    by (simp_all add: l'_def Let_def)
qed

text \<open>Lifting a cooldown.  When the console answers a reset of an address with success and the
  database statements did not fail, the address is banned for no request of this instance at any
  later time, whatever the cache does, until it is banned again; its failures and its ban history
  count from zero, so the next cooldown is the first, short one; bans of other addresses and the
  counters of e-mail addresses and devices are untouched.\<close>

theorem reset_readmits:
  assumes "handleRateLimitReset w r a = (ReplyJSON 200 kvs, cks, a')"
    and "trim_space (form_value r ''type'') = ''ip_ban''" "trim_space (form_value r ''key'') = ip"
    and "\<not> f_unban (w_flt_lim w)" "\<not> f_history (w_flt_lim w)"
  shows "(\<forall>flt now. \<not> fst (lim_isBanned flt now ip (ap_lim a'))) \<and>
    (\<forall>now win. countIn now ip win (l_ipFails (ap_lim a')) = 0) \<and>
    bh_get False ip (l_historyTbl (ap_lim a')) = 0 \<and>
    l_banTbl (ap_lim a') = filter (\<lambda>row. ib_ip row \<noteq> ip) (l_banTbl (ap_lim a)) \<and>
    l_emailFails (ap_lim a') = l_emailFails (ap_lim a) \<and> l_guestFails (ap_lim a') = l_guestFails (ap_lim a)"
proof -
  have "parse_reset_type ''ip_ban'' = Some ResetIPBan" by (simp add: parse_reset_type_def)
  then have "ap_lim a' = lim_reset (w_flt_lim w) ResetIPBan ip (ap_lim a)"
    using assms(1,2,3)
    by (auto simp: handleRateLimitReset_def admin_post_200 json_ok_def json_error_def reply_error_def Let_def
        split: if_splits)
  then show ?thesis using reset_ban_effect [OF assms(4,5), where key = ip and l = "ap_lim a"] by simp
qed

definition demo_banned_app :: app where
  "demo_banned_app = demo_app\<lparr>ap_lim := banned_limiter\<rparr>"

theorem reset_readmits_witness:
  "\<not> fst (lim_isBanned no_limiter_flt (5 * second) ''1.2.3.4'' (ap_lim (app_of (handleRateLimitReset
     (demo_world second) (demo_admin_req ''POST'' [(''type'', ''ip_ban''), (''key'', ''1.2.3.4'')]) demo_banned_app))))"
proof -
  let ?r = "demo_admin_req ''POST'' [(''type'', ''ip_ban''), (''key'', ''1.2.3.4'')]"
  have t: "trim_space (form_value ?r ''type'') = ''ip_ban''" "trim_space (form_value ?r ''key'') = ''1.2.3.4''"
    by (simp add: get_value_def, code_simp)+
  have "ap_conf demo_banned_app = demo_Config" by (simp add: demo_banned_app_def)
  then obtain kvs cks a' where resp: "handleRateLimitReset (demo_world second) ?r demo_banned_app = (ReplyJSON 200 kvs, cks, a')"
    using t by (simp add: handleRateLimitReset_def demo_admin_post Let_def json_ok_def parse_reset_type_def)
  have "\<not> f_unban (w_flt_lim (demo_world second))" "\<not> f_history (w_flt_lim (demo_world second))"
    by (simp_all add: demo_world_def no_limiter_flt_def)
  from reset_readmits [OF resp t this] show ?thesis unfolding resp snd_conv by blast
qed

end
