(* ===== verification/Secret.thy ===== *)
theory Secret
  imports Codec
begin

text \<open>
  \<open>portal/internal/secret/secret.go\<close>: how credentials are stored.  SHA-256 and AES-256-GCM are the
  parameters of the record \<open>aead\<close>: the derivation of the key, \<open>Seal\<close> of a plaintext under a key and a
  nonce, and \<open>Open\<close>, which is \<open>None\<close> when the authentication fails.  The nonce of a call is a
  parameter as well, \<open>None\<close> when the random source fails.
\<close>

section \<open>Base64 with the standard alphabet\<close>

definition std_char :: "nat \<Rightarrow> char" where
  "std_char n = (if n = 62 then CHR ''+'' else if n = 63 then CHR ''/'' else b64_char n)"

definition std_val :: "char \<Rightarrow> nat option" where
  "std_val c =
     (if c = CHR ''+'' then Some 62 else if c = CHR ''/'' then Some 63
      else if c = CHR ''-'' \<or> c = CHR ''_'' then None else b64_val c)"

definition raw_std_encode :: "string \<Rightarrow> string" where
  "raw_std_encode s = map std_char (b64_groups (map byte s))"

definition raw_std_values :: "string \<Rightarrow> string option" where
  "raw_std_values s =
     (case those (map std_val s) of
        None \<Rightarrow> None
      | Some vs \<Rightarrow> map_option (map char_of) (b64_ungroup vs))"

definition no_newline :: "char \<Rightarrow> bool" where
  "no_newline c \<longleftrightarrow> byte c \<noteq> 10 \<and> byte c \<noteq> 13"

definition raw_std_decode :: "string \<Rightarrow> string option" where
  "raw_std_decode s = raw_std_values (filter no_newline s)"

text \<open>\<open>StdEncoding\<close> pads to a multiple of four; the decoder insists on it.\<close>

definition b64_padding :: "nat \<Rightarrow> string" where
  "b64_padding n = (if n mod 3 = 1 then ''=='' else if n mod 3 = 2 then ''='' else [])"

definition std_encode :: "string \<Rightarrow> string" where
  "std_encode s = raw_std_encode s @ b64_padding (length s)"

definition std_decode :: "string \<Rightarrow> string option" where
  "std_decode s =
     (let t = filter no_newline s;
          body = takeWhile (\<lambda>c. c \<noteq> CHR ''='') t;
          pad = dropWhile (\<lambda>c. c \<noteq> CHR ''='') t
      in if length t mod 4 = 0 \<and> pad \<in> {[], ''='', ''==''} then raw_std_values body else None)"

lemma std_val_char [simp]: "n < 64 \<Longrightarrow> std_val (std_char n) = Some n"
proof -
  assume n: "n < 64"
  have "b64_char n \<notin> {CHR ''+'', CHR ''/'', CHR ''-'', CHR ''_''}" if "n < 62"
    using that by (auto simp: b64_char_def simp flip: of_char_eq_iff [where 'a = nat])
  then show ?thesis
    using n by (cases "n < 62") (auto simp: std_val_def std_char_def)
qed

lemma std_char_plain: "n < 64 \<Longrightarrow> no_newline (std_char n) \<and> std_char n \<noteq> CHR ''='' \<and> std_char n \<noteq> CHR ''$''"
  by (auto simp: std_char_def b64_char_def no_newline_def simp flip: of_char_eq_iff [where 'a = nat])

lemma raw_std_chars:
  assumes "c \<in> set (raw_std_encode s)"
  shows "no_newline c" "c \<noteq> CHR ''=''" "c \<noteq> CHR ''$''"
proof -
  have "\<forall>g\<in>set (b64_groups (map byte s)). g < 64" by (rule b64_groups_less) auto
  with assms obtain g where "c = std_char g" "g < 64" by (auto simp: raw_std_encode_def)
  then show "no_newline c" "c \<noteq> CHR ''=''" "c \<noteq> CHR ''$''" using std_char_plain by auto
qed

lemma raw_std_values_encode: "raw_std_values (raw_std_encode s) = Some s"
proof -
  let ?g = "b64_groups (map byte s)"
  have "\<forall>g\<in>set ?g. g < 64" by (rule b64_groups_less) auto
  then have "those (map std_val (map std_char ?g)) = Some ?g" by (intro those_map) auto
  moreover have "b64_ungroup ?g = Some (map byte s)" by (rule b64_ungroup_groups) auto
  ultimately show ?thesis by (simp add: raw_std_values_def raw_std_encode_def comp_def)
qed

lemma raw_std_roundtrip: "raw_std_decode (raw_std_encode s) = Some s"
  using raw_std_chars(1) by (simp add: raw_std_decode_def filter_id_conv raw_std_values_encode)

lemma b64_padding_add [simp]: "b64_padding (Suc (Suc (Suc n))) = b64_padding n"
  by (simp add: b64_padding_def mod_Suc)

lemma padded_length: "(length (b64_groups ns) + length (b64_padding (length ns))) mod 4 = 0"
  by (induction ns rule: b64_groups.induct) (simp_all add: mod_Suc, simp_all add: b64_padding_def)

lemma std_roundtrip: "std_decode (std_encode s) = Some s"
proof -
  let ?e = "raw_std_encode s" and ?p = "b64_padding (length s)"
  have plain: "filter no_newline (std_encode s) = ?e @ ?p"
    using raw_std_chars(1) by (auto simp: std_encode_def filter_id_conv b64_padding_def no_newline_def)
  have pad: "takeWhile (\<lambda>c. c \<noteq> CHR ''='') ?p = []" "dropWhile (\<lambda>c. c \<noteq> CHR ''='') ?p = ?p"
    "?p \<in> {[], ''='', ''==''}"
    by (simp_all add: b64_padding_def)
  have body: "takeWhile (\<lambda>c. c \<noteq> CHR ''='') (?e @ ?p) = ?e" "dropWhile (\<lambda>c. c \<noteq> CHR ''='') (?e @ ?p) = ?p"
    using raw_std_chars(2) by (simp_all add: takeWhile_append2 dropWhile_append2 pad)
  have "length (?e @ ?p) mod 4 = 0"
    using padded_length [of "map byte s"] by (simp add: raw_std_encode_def)
  then show ?thesis
    using pad(3) by (simp only: std_decode_def Let_def plain body raw_std_values_encode if_True simp_thms)
qed


section \<open>The keyring\<close>

record aead =
  ae_derive :: "string \<Rightarrow> string"
  ae_seal :: "string \<Rightarrow> string \<Rightarrow> string \<Rightarrow> string"
  ae_open :: "string \<Rightarrow> string \<Rightarrow> string \<Rightarrow> string option"

text \<open>The derived key, or \<open>None\<close> for a keyring that stores plaintext.\<close>

type_synonym Keyring = "string option"

definition Prefix :: string where "Prefix = ''enc:v1:''"

lemma Prefix_not_Nil [simp]: "Prefix \<noteq> []"
  by (simp add: Prefix_def)

datatype secret_error = ErrNoKey | ErrCorrupt | ErrNonce

definition NewKeyring :: "aead \<Rightarrow> string \<Rightarrow> Keyring" where
  "NewKeyring c material =
     (let m = trim_space material in if m = [] then None else Some (ae_derive c m))"

definition Enabled :: "Keyring \<Rightarrow> bool" where "Enabled k \<longleftrightarrow> k \<noteq> None"

definition nonce_size :: nat where "nonce_size = 12"

definition Encrypt :: "aead \<Rightarrow> Keyring \<Rightarrow> string option \<Rightarrow> string \<Rightarrow> secret_error + string" where
  "Encrypt c k nonce plaintext =
     (if plaintext = [] \<or> has_prefix plaintext Prefix then Inr plaintext
      else (case k of
              None \<Rightarrow> Inr plaintext
            | Some key \<Rightarrow>
                (case nonce of
                   None \<Rightarrow> Inl ErrNonce
                 | Some n \<Rightarrow> Inr (Prefix @ std_encode (n @ ae_seal c key n plaintext)))))"

definition Decrypt :: "aead \<Rightarrow> Keyring \<Rightarrow> string \<Rightarrow> secret_error + string" where
  "Decrypt c k stored =
     (if stored = [] \<or> \<not> has_prefix stored Prefix then Inr stored
      else (case k of
              None \<Rightarrow> Inl ErrNoKey
            | Some key \<Rightarrow>
                (case std_decode (trim_prefix stored Prefix) of
                   None \<Rightarrow> Inl ErrCorrupt
                 | Some raw \<Rightarrow>
                     if length raw < nonce_size then Inl ErrCorrupt
                     else (case ae_open c key (take nonce_size raw) (drop nonce_size raw) of
                             None \<Rightarrow> Inl ErrCorrupt
                           | Some plain \<Rightarrow> Inr plain))))"

definition IsEncrypted :: "string \<Rightarrow> bool" where
  "IsEncrypted stored = has_prefix stored Prefix"

definition Mask :: "string \<Rightarrow> string" where
  "Mask plaintext =
     (if plaintext = [] then []
      else if length plaintext < 8 then ''********''
      else ''********'' @ drop (length plaintext - 4) plaintext)"

subsection \<open>Lemmas\<close>

definition aead_ok :: "aead \<Rightarrow> bool" where
  "aead_ok c \<longleftrightarrow> (\<forall>key n p. ae_open c key n (ae_seal c key n p) = Some p)"

lemma Encrypt_plain [simp]:
  "Encrypt c k nonce [] = Inr []" "has_prefix p Prefix \<Longrightarrow> Encrypt c k nonce p = Inr p"
  "Encrypt c None nonce p = Inr p"
  by (simp_all add: Encrypt_def)

lemma Decrypt_plain [simp]: "Decrypt c k [] = Inr []" "\<not> has_prefix s Prefix \<Longrightarrow> Decrypt c k s = Inr s"
  by (simp_all add: Decrypt_def)

lemma Decrypt_Encrypt:
  assumes "aead_ok c" "\<not> has_prefix p Prefix" "\<And>n. nonce = Some n \<Longrightarrow> length n = nonce_size"
    and "Encrypt c k nonce p = Inr s"
  shows "Decrypt c k s = Inr p"
proof (cases "p = [] \<or> k = None")
  case True
  then have "s = p" using assms(4) by (cases k) (auto simp: Encrypt_def split: if_splits)
  with assms(2) show ?thesis by simp
next
  case False
  with assms obtain key n where kn: "k = Some key" "nonce = Some n" "s = Prefix @ std_encode (n @ ae_seal c key n p)"
    by (auto simp: Encrypt_def split: option.splits)
  moreover have "length n = nonce_size" using assms(3) kn(2) by simp
  moreover have "s \<noteq> []" by (simp add: kn Prefix_def)
  ultimately show ?thesis
    using assms(1) by (simp add: Decrypt_def std_roundtrip aead_ok_def)
qed

lemma Encrypt_prefixed:
  "Encrypt c (Some key) nonce p = Inr s \<Longrightarrow> p \<noteq> [] \<Longrightarrow> has_prefix s Prefix"
  by (auto simp: Encrypt_def split: if_splits option.splits)

text \<open>A toy cipher that satisfies the law.\<close>

definition demo_aead :: aead where
  "demo_aead = \<lparr>ae_derive = id, ae_seal = (\<lambda>k n p. rev p), ae_open = (\<lambda>k n c. Some (rev c))\<rparr>"

lemma demo_aead_ok: "aead_ok demo_aead"
  by (simp add: aead_ok_def demo_aead_def)

text \<open>A credential survives storage.  Whatever key material is configured, a value that does not
  itself start with the marker is read back as it was written; with a key, what is stored is
  marked as ciphertext; without the key, or when the authentication of the ciphertext fails,
  reading reports an error and never the stored bytes; and encrypting twice changes nothing.\<close>

theorem secret_roundtrip:
  assumes "aead_ok c" "\<not> has_prefix p Prefix" "length n = 12" "Encrypt c k (Some n) p = Inr s"
  shows "Decrypt c k s = Inr p \<and> (p \<noteq> [] \<and> Enabled k \<longrightarrow> IsEncrypted s) \<and>
    (IsEncrypted s \<longrightarrow> Decrypt c None s = Inl ErrNoKey \<and> Encrypt c k (Some n) s = Inr s \<and>
       (\<forall>key. ae_open c key n (ae_seal c (the k) n p) = None \<longrightarrow>
          Decrypt c (Some key) s = Inl ErrCorrupt))"
proof (intro conjI impI allI)
  show "Decrypt c k s = Inr p"
    using assms by (intro Decrypt_Encrypt [where nonce = "Some n"]) (auto simp: nonce_size_def)
  show "IsEncrypted s" if "p \<noteq> [] \<and> Enabled k"
    using that assms(4) Encrypt_prefixed by (auto simp: IsEncrypted_def Enabled_def)
  assume enc: "IsEncrypted s"
  then have "s \<noteq> []" by (auto simp: IsEncrypted_def has_prefix_def Prefix_def)
  with enc show "Decrypt c None s = Inl ErrNoKey" "Encrypt c k (Some n) s = Inr s"
    by (simp_all add: Decrypt_def IsEncrypted_def)
  fix key assume fails: "ae_open c key n (ae_seal c (the k) n p) = None"
  from assms(2,4) enc obtain key' where "k = Some key'" "s = Prefix @ std_encode (n @ ae_seal c key' n p)"
    by (auto simp: Encrypt_def IsEncrypted_def split: if_splits option.splits)
  then show "Decrypt c (Some key) s = Inl ErrCorrupt"
    using fails assms(3) \<open>s \<noteq> []\<close> by (simp add: Decrypt_def std_roundtrip nonce_size_def)
qed

theorem secret_roundtrip_witness:
  "\<exists>s. Encrypt demo_aead (Some ''k'') (Some ''abcdefghijkl'') ''top'' = Inr s \<and>
     Decrypt demo_aead (Some ''k'') s = Inr ''top''"
proof -
  have e: "Encrypt demo_aead (Some ''k'') (Some ''abcdefghijkl'') ''top'' =
      Inr (Prefix @ std_encode (''abcdefghijkl'' @ ''pot''))"
    by (simp add: Encrypt_def demo_aead_def has_prefix_def Prefix_def)
  have "\<not> has_prefix ''top'' Prefix" "length ''abcdefghijkl'' = 12" by code_simp+
  from secret_roundtrip [OF demo_aead_ok this e] e show ?thesis by blast
qed

end
