(* ===== verification/Settings.thy ===== *)
theory Settings
  imports Secret Table Config
begin

text \<open>
  \<open>portal/internal/settings/settings.go\<close>: the table of settings, its encrypted columns, and the typed
  readers of a snapshot, with the parsers of the standard library they call.
\<close>

section \<open>Parsers\<close>

text \<open>\<open>strconv.ParseBool\<close>.\<close>

definition ParseBool :: "string \<Rightarrow> bool option" where
  "ParseBool s =
     (if s \<in> {''1'', ''t'', ''T'', ''true'', ''TRUE'', ''True''} then Some True
      else if s \<in> {''0'', ''f'', ''F'', ''false'', ''FALSE'', ''False''} then Some False
      else None)"

text \<open>
  \<open>time.ParseDuration\<close>.  \<open>leadingInt\<close> reads digits and fails beyond \<open>2^63\<close>; \<open>leadingFraction\<close> stops
  adding digits when they no longer fit, and keeps the power of ten of those it added.
\<close>

fun leadingInt :: "nat \<Rightarrow> string \<Rightarrow> (nat \<times> string) option" where
  "leadingInt x [] = Some (x, [])"
| "leadingInt x (c # cs) =
     (case digit_val c of
        None \<Rightarrow> Some (x, c # cs)
      | Some d \<Rightarrow>
          if x > 2 ^ 63 div 10 then None
          else if x * 10 + d > 2 ^ 63 then None
          else leadingInt (x * 10 + d) cs)"

fun leadingFraction :: "bool \<Rightarrow> nat \<Rightarrow> nat \<Rightarrow> string \<Rightarrow> nat \<times> nat \<times> string" where
  "leadingFraction overflow x scale [] = (x, scale, [])"
| "leadingFraction overflow x scale (c # cs) =
     (case digit_val c of
        None \<Rightarrow> (x, scale, c # cs)
      | Some d \<Rightarrow>
          if overflow \<or> x > (2 ^ 63 - 1) div 10 \<or> x * 10 + d > 2 ^ 63
          then leadingFraction True x scale cs
          else leadingFraction False (x * 10 + d) (scale * 10) cs)"

text \<open>The two spellings of a microsecond are U+00B5 and U+03BC in UTF-8.\<close>

definition unit_of :: "string \<Rightarrow> nat option" where
  "unit_of u =
     (if u = ''ns'' then Some 1
      else if u \<in> {''us'', [CHR 0xC2, CHR 0xB5, CHR ''s''], [CHR 0xCE, CHR 0xBC, CHR ''s'']} then Some 1000
      else if u = ''ms'' then Some 1000000
      else if u = ''s'' then Some 1000000000
      else if u = ''m'' then Some 60000000000
      else if u = ''h'' then Some 3600000000000
      else None)"

definition unit_char :: "char \<Rightarrow> bool" where
  "unit_char c \<longleftrightarrow> c \<noteq> CHR ''.'' \<and> digit_val c = None"

text \<open>
  One component of a duration: the value it adds and the rest of the string.  The fraction is
  computed exactly where the code uses floating point.
\<close>

definition duration_part :: "string \<Rightarrow> (nat \<times> string) option" where
  "duration_part s =
     (case leadingInt 0 s of
        None \<Rightarrow> None
      | Some (v, s1) \<Rightarrow>
          (let pre = (length s1 \<noteq> length s);
               dot = (s1 \<noteq> [] \<and> hd s1 = CHR ''.'');
               fr = (if dot then leadingFraction False 0 1 (tl s1) else (0, 1, s1))
           in case fr of (f, scale, s2) \<Rightarrow>
             (let post = (dot \<and> length s2 \<noteq> length (tl s1));
                  u = takeWhile unit_char s2;
                  rest = dropWhile unit_char s2
              in if \<not> pre \<and> \<not> post then None
                 else if u = [] then None
                 else (case unit_of u of
                         None \<Rightarrow> None
                       | Some unit \<Rightarrow>
                           if v > 2 ^ 63 div unit then None
                           else (let w = v * unit + (if f > 0 then f * unit div scale else 0)
                                 in if w > 2 ^ 63 then None else Some (w, rest))))))"

text \<open>Every component shortens the string; \<open>fuel\<close> is its length.\<close>

fun duration_parts :: "nat \<Rightarrow> nat \<Rightarrow> string \<Rightarrow> nat option" where
  "duration_parts fuel d [] = Some d"
| "duration_parts 0 d (c # cs) = None"
| "duration_parts (Suc fuel) d (c # cs) =
     (case duration_part (c # cs) of
        None \<Rightarrow> None
      | Some (v, rest) \<Rightarrow> if d + v > 2 ^ 63 then None else duration_parts fuel (d + v) rest)"

definition ParseDuration :: "string \<Rightarrow> duration option" where
  "ParseDuration s0 =
     (let neg = (s0 \<noteq> [] \<and> hd s0 = CHR ''-'');
          s = (if s0 \<noteq> [] \<and> hd s0 \<in> {CHR ''-'', CHR ''+''} then tl s0 else s0)
      in if s = ''0'' then Some 0
         else if s = [] then None
         else (case duration_parts (length s) 0 s of
                 None \<Rightarrow> None
               | Some d \<Rightarrow> if neg then Some (- int d)
                            else if d > 2 ^ 63 - 1 then None else Some (int d)))"

lemma leadingInt_rest: "leadingInt x s = Some (v, r) \<Longrightarrow> length r \<le> length s"
  by (induction x s rule: leadingInt.induct) (auto split: option.splits if_splits)

lemma leadingFraction_rest: "length (snd (snd (leadingFraction ov x sc s))) \<le> length s"
  by (induction ov x sc s rule: leadingFraction.induct) (auto split: option.splits)

lemma duration_part_shorter: "duration_part s = Some (v, rest) \<Longrightarrow> length rest < length s"
proof -
  assume part: "duration_part s = Some (v, rest)"
  then obtain n s1 where int: "leadingInt 0 s = Some (n, s1)"
    by (auto simp: duration_part_def split: option.splits)
  define s2 where "s2 = snd (snd (if s1 \<noteq> [] \<and> hd s1 = CHR ''.'' then leadingFraction False 0 1 (tl s1) else (0, 1, s1)))"
  from part int have "takeWhile unit_char s2 \<noteq> []" "rest = dropWhile unit_char s2"
    by (auto simp: duration_part_def s2_def Let_def case_prod_beta split: if_splits option.splits)
  then have "length rest < length s2"
    by (cases s2) (auto simp: length_dropWhile_le less_Suc_eq_le split: if_splits)
  moreover have "length s2 \<le> length s1"
    using leadingFraction_rest [of False 0 1 "tl s1"] by (auto simp: s2_def)
  ultimately show ?thesis using leadingInt_rest [OF int] by simp
qed

text \<open>The fuel of \<open>ParseDuration\<close> never runs out: more of it changes nothing.\<close>

lemma duration_parts_fuel:
  "length s \<le> fuel \<Longrightarrow> duration_parts (fuel + k) d s = duration_parts fuel d s"
proof (induction fuel d s rule: duration_parts.induct)
  case (3 fuel d c cs)
  then show ?case
    using duration_part_shorter [of "c # cs"] by (auto split: option.splits prod.splits)
qed auto

section \<open>The table\<close>

record settingRow =
  sr_section :: string
  sr_key :: string
  sr_value :: string
  sr_updated :: time
  sr_by :: string

definition setting_pk :: "settingRow \<Rightarrow> string \<times> string" where
  "setting_pk r = (sr_section r, sr_key r)"

text \<open>What the store is built from: the keyring, the predicate of secret keys, and the cryptography.\<close>

record store =
  so_aead :: aead
  so_keys :: Keyring
  so_secrets :: "string \<Rightarrow> string \<Rightarrow> bool"

text \<open>Maps from keys to values, as lists with distinct keys.\<close>

type_synonym Values = "(string \<times> string) list"

datatype settings_error = SettingsDB | SettingsSecret string string secret_error

definition Key :: "string \<Rightarrow> string \<Rightarrow> string" where "Key section key = section @ ''.'' @ key"

definition row_value :: "store \<Rightarrow> settingRow \<Rightarrow> settings_error + string" where
  "row_value s r =
     (if so_secrets s (sr_section r) (sr_key r)
      then (case Decrypt (so_aead s) (so_keys s) (sr_value r) of
              Inl e \<Rightarrow> Inl (SettingsSecret (sr_section r) (sr_key r) e)
            | Inr plain \<Rightarrow> Inr plain)
      else Inr (sr_value r))"

fun load_rows :: "store \<Rightarrow> (settingRow \<Rightarrow> string) \<Rightarrow> settingRow list \<Rightarrow> Values \<Rightarrow> settings_error + Values" where
  "load_rows s name [] out = Inr out"
| "load_rows s name (r # rs) out =
     (case row_value s r of
        Inl e \<Rightarrow> Inl e
      | Inr v \<Rightarrow> load_rows s name rs (AList.update (name r) v out))"

definition LoadAll :: "bool \<Rightarrow> store \<Rightarrow> settingRow list \<Rightarrow> settings_error + Values" where
  "LoadAll flt s tbl =
     (if flt then Inl SettingsDB else load_rows s (\<lambda>r. Key (sr_section r) (sr_key r)) tbl [])"

definition LoadSection :: "bool \<Rightarrow> store \<Rightarrow> string \<Rightarrow> settingRow list \<Rightarrow> settings_error + Values" where
  "LoadSection flt s section tbl =
     (if flt then Inl SettingsDB
      else load_rows s sr_key (filter (\<lambda>r. sr_section r = section) tbl) [])"

text \<open>The rows of a save; \<open>rnd i\<close> is the nonce of the \<open>i\<close>-th key.\<close>

fun save_rows ::
  "store \<Rightarrow> (nat \<Rightarrow> string option) \<Rightarrow> time \<Rightarrow> string \<Rightarrow> string \<Rightarrow> nat \<Rightarrow> (string \<times> string) list \<Rightarrow>
   settings_error + settingRow list" where
  "save_rows s rnd now section by i [] = Inr []"
| "save_rows s rnd now section by i ((k, v) # kvs) =
     (case (if so_secrets s section k then Encrypt (so_aead s) (so_keys s) (rnd i) v else Inr v) of
        Inl e \<Rightarrow> Inl (SettingsSecret section k e)
      | Inr enc \<Rightarrow>
          (case save_rows s rnd now section by (Suc i) kvs of
             Inl e \<Rightarrow> Inl e
           | Inr rows \<Rightarrow> Inr (\<lparr>sr_section = section, sr_key = k, sr_value = enc, sr_updated = now,
                               sr_by = by\<rparr> # rows)))"

definition set_setting :: "settingRow \<Rightarrow> settingRow \<Rightarrow> settingRow" where
  "set_setting new r = r\<lparr>sr_value := sr_value new, sr_updated := sr_updated new, sr_by := sr_by new\<rparr>"

definition upsert_settings :: "settingRow list \<Rightarrow> settingRow list \<Rightarrow> settingRow list" where
  "upsert_settings rows tbl = fold (\<lambda>r. upsert setting_pk (set_setting r) r) rows tbl"

definition Save ::
  "bool \<Rightarrow> store \<Rightarrow> (nat \<Rightarrow> string option) \<Rightarrow> time \<Rightarrow> string \<Rightarrow> Values \<Rightarrow> string \<Rightarrow> settingRow list \<Rightarrow>
   settings_error option \<times> settingRow list" where
  "Save flt s rnd now section kvs updatedBy tbl =
     (let by = (if updatedBy = [] then ''system'' else updatedBy);
          sorted = map (\<lambda>k. (k, the (map_of kvs k))) (sort (map fst kvs))
      in case save_rows s rnd now section by 0 sorted of
           Inl e \<Rightarrow> (Some e, tbl)
         | Inr rows \<Rightarrow>
             if rows = [] then (None, tbl)
             else if flt then (Some SettingsDB, tbl)
             else (None, upsert_settings rows tbl))"

definition SetOne ::
  "bool \<Rightarrow> store \<Rightarrow> (nat \<Rightarrow> string option) \<Rightarrow> time \<Rightarrow> string \<Rightarrow> string \<Rightarrow> string \<Rightarrow> string \<Rightarrow> settingRow list \<Rightarrow>
   settings_error option \<times> settingRow list" where
  "SetOne flt s rnd now section key v updatedBy tbl = Save flt s rnd now section [(key, v)] updatedBy tbl"

definition Redact :: "store \<Rightarrow> string \<Rightarrow> Values \<Rightarrow> Values \<times> (string \<times> bool) list" where
  "Redact s section kvs =
     (filter (\<lambda>e. \<not> so_secrets s section (fst e)) kvs,
      map (\<lambda>e. (fst e, snd e \<noteq> [])) (filter (\<lambda>e. so_secrets s section (fst e)) kvs))"

definition ApplySecretUpdates :: "store \<Rightarrow> string \<Rightarrow> Values \<Rightarrow> Values \<Rightarrow> Values" where
  "ApplySecretUpdates s section stored submitted =
     map (\<lambda>e. (fst e,
        if so_secrets s section (fst e) \<and> trim_space (snd e) = []
        then (case map_of stored (fst e) of Some prev \<Rightarrow> prev | None \<Rightarrow> snd e)
        else snd e)) submitted"


section \<open>Typed readers\<close>

definition val_String :: "Values \<Rightarrow> string \<Rightarrow> string \<Rightarrow> string \<Rightarrow> string" where
  "val_String v section key def =
     (case map_of v (Key section key) of Some s \<Rightarrow> if s \<noteq> [] then s else def | None \<Rightarrow> def)"

text \<open>The reader with a parser: the default for a missing, empty or unparseable value.\<close>

definition val_parsed :: "(string \<Rightarrow> 'a option) \<Rightarrow> Values \<Rightarrow> string \<Rightarrow> string \<Rightarrow> 'a \<Rightarrow> 'a" where
  "val_parsed parse v section key def =
     (case map_of v (Key section key) of
        None \<Rightarrow> def
      | Some s \<Rightarrow> if s = [] then def
                  else (case parse (trim_space s) of None \<Rightarrow> def | Some x \<Rightarrow> x))"

definition val_Int :: "Values \<Rightarrow> string \<Rightarrow> string \<Rightarrow> int \<Rightarrow> int" where
  "val_Int = val_parsed atoi"

definition val_Bool :: "Values \<Rightarrow> string \<Rightarrow> string \<Rightarrow> bool \<Rightarrow> bool" where
  "val_Bool = val_parsed ParseBool"

definition val_Duration :: "Values \<Rightarrow> string \<Rightarrow> string \<Rightarrow> duration \<Rightarrow> duration" where
  "val_Duration = val_parsed ParseDuration"

definition val_List :: "Values \<Rightarrow> string \<Rightarrow> string \<Rightarrow> string list \<Rightarrow> string list" where
  "val_List v section key def =
     (case map_of v (Key section key) of
        None \<Rightarrow> def
      | Some s \<Rightarrow>
          if trim_space s = [] then def
          else (let out = filter (\<lambda>p. p \<noteq> []) (map trim_space (split_on CHR '','' s))
                in if out = [] then def else out))"

subsection \<open>Loading\<close>

definition row_plain :: "store \<Rightarrow> settingRow \<Rightarrow> string" where
  "row_plain s r = (case row_value s r of Inr v \<Rightarrow> v | Inl e \<Rightarrow> [])"

definition readable :: "store \<Rightarrow> settingRow \<Rightarrow> bool" where
  "readable s r \<longleftrightarrow> (\<exists>v. row_value s r = Inr v)"

lemma row_plain_readable: "readable s r \<Longrightarrow> row_value s r = Inr (row_plain s r)"
  by (auto simp: readable_def row_plain_def)

lemma load_rows_iff:
  "load_rows s name rs out = Inr m \<longleftrightarrow>
     (\<forall>r\<in>set rs. readable s r) \<and> m = fold (\<lambda>r. AList.update (name r) (row_plain s r)) rs out"
proof (induction rs arbitrary: out)
  case Nil
  then show ?case by auto
next
  case (Cons r rs)
  then show ?case
    by (cases "row_value s r") (auto simp: readable_def row_plain_def)
qed

lemma load_rows_unreadable:
  "r \<in> set rs \<Longrightarrow> \<not> readable s r \<Longrightarrow> \<exists>e. load_rows s name rs out = Inl e"
  using load_rows_iff [of s name rs out] by (cases "load_rows s name rs out") auto

definition setting_at :: "store \<Rightarrow> settingRow list \<Rightarrow> string \<Rightarrow> string \<Rightarrow> string option" where
  "setting_at s tbl section k =
     map_option (row_plain s) (find (\<lambda>r. setting_pk r = (section, k)) tbl)"

lemma find_filter_pk:
  "find (\<lambda>r. setting_pk r = (section, k)) tbl = find (\<lambda>r. sr_key r = k) (filter (\<lambda>r. sr_section r = section) tbl)"
  by (induction tbl) (auto simp: setting_pk_def)

lemma LoadSection_lookup:
  assumes "unique_by setting_pk tbl" "LoadSection flt s section tbl = Inr m"
  shows "map_of m k = setting_at s tbl section k"
proof -
  let ?rows = "filter (\<lambda>r. sr_section r = section) tbl"
  have "distinct (map setting_pk ?rows)"
    using assms(1) unique_by_filter [of setting_pk tbl] by (simp add: unique_by_def)
  then have d: "distinct (map sr_key ?rows)"
    by (auto simp: distinct_map inj_on_def setting_pk_def)
  have m: "m = fold (\<lambda>r. AList.update (sr_key r) (row_plain s r)) ?rows []"
    using assms(2) by (auto simp: LoadSection_def load_rows_iff split: if_splits)
  have u: "unique_by sr_key ?rows" using d by (simp add: unique_by_def)
  have iff: "map_of m k = Some v \<longleftrightarrow> setting_at s tbl section k = Some v" for v
    unfolding m map_of_unique_rows [OF d] setting_at_def find_filter_pk
    using find_unique [OF u] by (auto dest!: find_SomeD)
  then show ?thesis by (metis not_None_eq)
qed

lemma LoadSection_ok:
  "(\<exists>m. LoadSection False s section tbl = Inr m) \<longleftrightarrow> (\<forall>r\<in>set tbl. sr_section r = section \<longrightarrow> readable s r)"
  by (auto simp: LoadSection_def load_rows_iff)


subsection \<open>Saving\<close>

definition good_nonces :: "(nat \<Rightarrow> string option) \<Rightarrow> bool" where
  "good_nonces rnd \<longleftrightarrow> (\<forall>i n. rnd i = Some n \<longrightarrow> length n = nonce_size)"

definition storable :: "store \<Rightarrow> string \<Rightarrow> Values \<Rightarrow> bool" where
  "storable s section kvs \<longleftrightarrow>
     (\<forall>e\<in>set kvs. so_secrets s section (fst e) \<longrightarrow> \<not> has_prefix (snd e) Prefix)"

lemma save_rows_spec:
  assumes "aead_ok (so_aead s)" "good_nonces rnd"
    and "storable s section kvs" "save_rows s rnd now section by i kvs = Inr rows"
  shows "map setting_pk rows = map (\<lambda>e. (section, fst e)) kvs \<and>
    (\<forall>r\<in>set rows. readable s r) \<and> map (row_plain s) rows = map snd kvs"
  using assms(3,4)
proof (induction kvs arbitrary: i rows)
  case Nil
  then show ?case by simp
next
  case (Cons e kvs)
  obtain k v where e: "e = (k, v)" by (cases e)
  let ?enc = "if so_secrets s section k then Encrypt (so_aead s) (so_keys s) (rnd i) v else Inr v"
  from Cons.prems(2) e obtain enc rest where enc: "?enc = Inr enc"
    and rest: "save_rows s rnd now section by (Suc i) kvs = Inr rest"
    and rows: "rows = \<lparr>sr_section = section, sr_key = k, sr_value = enc, sr_updated = now, sr_by = by\<rparr> # rest"
    by (auto split: sum.splits if_splits)
  have "row_value s (hd rows) = Inr v"
    using enc Cons.prems(1) e assms(1) Decrypt_Encrypt [of "so_aead s" v "rnd i" "so_keys s" enc] assms(2)
    by (auto simp: rows row_value_def storable_def good_nonces_def split: if_splits sum.splits)
  moreover have "storable s section kvs" using Cons.prems(1) by (simp add: storable_def)
  ultimately show ?case
    using Cons.IH [OF _ rest] by (simp add: rows e setting_pk_def readable_def row_plain_def)
qed

lemma set_setting_simps [simp]:
  "setting_pk (set_setting n r) = setting_pk r" "sr_section (set_setting n r) = sr_section r"
  "sr_key (set_setting n r) = sr_key r" "sr_value (set_setting n r) = sr_value n"
  by (simp_all add: set_setting_def setting_pk_def)

lemma row_value_set_setting:
  "setting_pk r = setting_pk n \<Longrightarrow> row_value s (set_setting n r) = row_value s n"
  by (cases "Decrypt (so_aead s) (so_keys s) (sr_value n)") (auto simp: row_value_def setting_pk_def)

lemma find_upsert_settings:
  assumes "distinct (map setting_pk rows)"
  shows "find (\<lambda>r. setting_pk r = q) (upsert_settings rows tbl) =
    (case find (\<lambda>r. setting_pk r = q) rows of
       None \<Rightarrow> find (\<lambda>r. setting_pk r = q) tbl
     | Some n \<Rightarrow> (case find (\<lambda>r. setting_pk r = q) tbl of None \<Rightarrow> Some n | Some r \<Rightarrow> Some (set_setting n r)))"
  using assms
proof (induction rows arbitrary: tbl)
  case Nil
  then show ?case by (simp add: upsert_settings_def)
next
  case (Cons n rows)
  have "find (\<lambda>r. setting_pk r = setting_pk n) rows = None"
    using Cons.prems by (simp add: find_key_None)
  with Cons show ?case
    by (auto simp: upsert_settings_def find_upsert split: option.splits)
qed

lemma unique_upsert_settings: "unique_by setting_pk tbl \<Longrightarrow> unique_by setting_pk (upsert_settings rows tbl)"
proof -
  have "unique_by setting_pk (upsert setting_pk (set_setting r) r t)" if "unique_by setting_pk t" for r t
    by (rule unique_by_upsert [OF _ that]) simp
  then show "unique_by setting_pk tbl \<Longrightarrow> unique_by setting_pk (upsert_settings rows tbl)"
    unfolding upsert_settings_def by (induction rows arbitrary: tbl) auto
qed

lemma unique_Save:
  "unique_by setting_pk tbl \<Longrightarrow> unique_by setting_pk (snd (Save flt s rnd now section kvs by tbl))"
  by (auto simp: Save_def Let_def unique_upsert_settings split: sum.split)

lemma sorted_entries:
  assumes "distinct (map fst kvs)"
  shows "set (map (\<lambda>k. (k, the (map_of kvs k))) (sort (map fst kvs))) = set kvs"
    and "map fst (map (\<lambda>k. (k, the (map_of kvs k))) (sort (map fst kvs))) = sort (map fst kvs)"
proof -
  have "(fst e, the (map_of kvs (fst e))) = e" if "e \<in> set kvs" for e
    using map_of_is_SomeI [OF assms, of "fst e" "snd e"] that by simp
  then have "(\<lambda>k. (k, the (map_of kvs k))) ` fst ` set kvs = id ` set kvs"
    unfolding image_image by (intro image_cong) auto
  then show "set (map (\<lambda>k. (k, the (map_of kvs k))) (sort (map fst kvs))) = set kvs" by simp
qed (simp add: comp_def)

lemma filter_upsert_other:
  assumes "\<And>r. p (upd r) = p r" "\<And>r. key r = key n \<Longrightarrow> \<not> p r"
  shows "filter p (upsert key upd n rows) = filter p rows"
proof -
  have "filter p (map (\<lambda>x. if key x = key n then upd x else x) rows) = filter p rows"
    using assms by (induction rows) auto
  then show ?thesis using assms(2) [of n] by (simp add: upsert_def)
qed

lemma upsert_settings_other:
  assumes "\<forall>r\<in>set rows. sr_section r = section" "sec \<noteq> section"
  shows "filter (\<lambda>r. sr_section r = sec) (upsert_settings rows tbl) = filter (\<lambda>r. sr_section r = sec) tbl"
  using assms(1)
proof (induction rows arbitrary: tbl)
  case Nil
  then show ?case by (simp add: upsert_settings_def)
next
  case (Cons n rows)
  have "filter (\<lambda>r. sr_section r = sec) (upsert setting_pk (set_setting n) n tbl) = filter (\<lambda>r. sr_section r = sec) tbl"
    using Cons.prems assms(2) by (intro filter_upsert_other) (auto simp: setting_pk_def)
  then show ?case using Cons by (simp add: upsert_settings_def)
qed

lemma Save_Some: "fst (Save flt s rnd now section kvs by tbl) \<noteq> None \<Longrightarrow> snd (Save flt s rnd now section kvs by tbl) = tbl"
  by (auto simp: Save_def Let_def split: sum.splits if_splits)

lemma map_find_zip:
  "map_option f (find (\<lambda>r. key r = k) xs) = map_of (zip (map key xs) (map f xs)) k"
  by (induction xs) auto

lemma Save_None:
  assumes "aead_ok (so_aead s)" "good_nonces rnd"
    and "storable s section kvs" "distinct (map fst kvs)" "Save flt s rnd now section kvs by tbl = (None, tbl')"
  obtains rows where "tbl' = upsert_settings rows tbl" "distinct (map setting_pk rows)"
    "\<forall>r\<in>set rows. readable s r \<and> sr_section r = section"
    "\<forall>k. map_option (row_plain s) (find (\<lambda>r. setting_pk r = (section, k)) rows) = map_of kvs k"
proof -
  let ?by = "if by = [] then ''system'' else by"
  define sorted where "sorted = map (\<lambda>k. (k, the (map_of kvs k))) (sort (map fst kvs))"
  note sorted = sorted_entries [OF assms(4), folded sorted_def]
  obtain rows where rows: "save_rows s rnd now section ?by 0 sorted = Inr rows" and tbl: "tbl' = upsert_settings rows tbl"
    using assms(5) by (auto simp: Save_def Let_def upsert_settings_def simp flip: sorted_def split: sum.splits if_splits)
  have "storable s section sorted" using assms(3) by (simp add: storable_def sorted(1))
  note spec = save_rows_spec [OF assms(1,2) this rows]
  have pks: "map setting_pk rows = map (\<lambda>k. (section, k)) (sort (map fst kvs))"
  proof -
    have "map setting_pk rows = map (\<lambda>k. (section, k)) (map fst sorted)" using conjunct1 [OF spec] by simp
    then show ?thesis by (simp only: sorted(2))
  qed
  have dist: "distinct (map setting_pk rows)"
    using assms(4) by (simp add: pks distinct_map inj_on_def)
  have secs: "\<forall>r\<in>set rows. readable s r \<and> sr_section r = section"
  proof
    fix r assume r: "r \<in> set rows"
    then have "setting_pk r \<in> set (map setting_pk rows)" by simp
    then show "readable s r \<and> sr_section r = section"
      using spec r unfolding pks by (auto simp: setting_pk_def)
  qed
  have "map_option (row_plain s) (find (\<lambda>r. setting_pk r = (section, k)) rows) = map_of kvs k" for k
  proof -
    have "map_option (row_plain s) (find (\<lambda>r. setting_pk r = (section, k)) rows) =
        map_of (zip (map (\<lambda>e. (section, fst e)) sorted) (map snd sorted)) (section, k)"
      unfolding map_find_zip conjunct1 [OF spec] conjunct2 [OF conjunct2 [OF spec]] by (rule refl)
    also have "\<dots> = map_of sorted k" by (induction sorted) auto
    also have "\<dots> = map_of kvs k"
      using assms(4) sorted by (intro map_of_inject_set [THEN iffD2, THEN fun_cong]) (simp_all add: distinct_sort)
    finally show ?thesis .
  qed
  then have vals: "\<forall>k. map_option (row_plain s) (find (\<lambda>r. setting_pk r = (section, k)) rows) = map_of kvs k" ..
  show thesis by (rule that [OF tbl dist secs vals])
qed

text \<open>A row of the table after an upsert is one of the new rows, or an old one.\<close>

lemma readable_upsert:
  assumes "unique_by setting_pk (upsert_settings rows tbl)" "distinct (map setting_pk rows)"
    and "\<forall>r\<in>set rows. readable s r" "\<forall>r\<in>set tbl. sr_section r = section \<longrightarrow> readable s r"
    and "r \<in> set (upsert_settings rows tbl)" "sr_section r = section"
  shows "readable s r"
proof -
  have "find (\<lambda>x. setting_pk x = setting_pk r) (upsert_settings rows tbl) = Some r"
    by (rule find_unique [OF assms(1,5) refl])
  with find_upsert_settings [OF assms(2), of "setting_pk r" tbl]
  have r': "(case find (\<lambda>x. setting_pk x = setting_pk r) rows of
      None \<Rightarrow> find (\<lambda>x. setting_pk x = setting_pk r) tbl
    | Some n \<Rightarrow> (case find (\<lambda>x. setting_pk x = setting_pk r) tbl of
          None \<Rightarrow> Some n | Some x \<Rightarrow> Some (set_setting n x))) = Some r" by simp
  show ?thesis
  proof (cases "find (\<lambda>x. setting_pk x = setting_pk r) rows")
    case None
    then have "r \<in> set tbl" using r' find_SomeD [of _ tbl r] by auto
    then show ?thesis using assms(4,6) by blast
  next
    case (Some n)
    then have n: "n \<in> set rows" "setting_pk n = setting_pk r" using find_SomeD [OF Some] by auto
    show ?thesis
    proof (cases "find (\<lambda>x. setting_pk x = setting_pk r) tbl")
      case None
      then have "r = n" using r' Some by simp
      then show ?thesis using n(1) assms(3) by blast
    next
      case (Some x)
      then have "r = set_setting n x" "setting_pk x = setting_pk n"
        using r' \<open>find _ rows = Some n\<close> find_SomeD [OF Some] n(2) by auto
      then show ?thesis using row_value_set_setting n(1) assms(3) by (simp add: readable_def)
    qed
  qed
qed

text \<open>A section is saved as a unit and read back: with exactly the submitted keys replaced, credentials
  through encryption and decryption included; a save that reports an error leaves the table.\<close>

lemma Save_read_back:
  assumes "aead_ok (so_aead s)" "good_nonces rnd"
    and "unique_by setting_pk tbl" "LoadSection False s section tbl = Inr old"
    and "storable s section kvs" "distinct (map fst kvs)"
  shows "(case Save flt s rnd now section kvs by tbl of
      (Some e, tbl') \<Rightarrow> tbl' = tbl
    | (None, tbl') \<Rightarrow>
        (\<exists>m. LoadSection False s section tbl' = Inr m \<and> map_of m = map_of old ++ map_of kvs) \<and>
        (\<forall>sec. sec \<noteq> section \<longrightarrow> LoadSection False s sec tbl' = LoadSection False s sec tbl))"
proof (cases "fst (Save flt s rnd now section kvs by tbl)")
  case (Some e)
  then show ?thesis using Save_Some [of flt s rnd now "section" kvs "by" tbl] by (auto simp: case_prod_beta)
next
  case None
  then obtain tbl' where sv: "Save flt s rnd now section kvs by tbl = (None, tbl')" by (metis prod.collapse)
  obtain rows where tbl': "tbl' = upsert_settings rows tbl"
    and dist: "distinct (map setting_pk rows)" and secs: "\<forall>r\<in>set rows. readable s r \<and> sr_section r = section"
    and vals: "\<forall>k. map_option (row_plain s) (find (\<lambda>r. setting_pk r = (section, k)) rows) = map_of kvs k"
    by (rule Save_None [OF assms(1,2,5,6) sv])
  have uniq: "unique_by setting_pk tbl'" using assms(3) by (simp add: tbl' unique_upsert_settings)
  have old: "\<forall>r\<in>set tbl. sr_section r = section \<longrightarrow> readable s r" using assms(4) LoadSection_ok by blast
  have found: "find (\<lambda>r. setting_pk r = q) tbl' =
      (case find (\<lambda>r. setting_pk r = q) rows of None \<Rightarrow> find (\<lambda>r. setting_pk r = q) tbl
       | Some n \<Rightarrow> (case find (\<lambda>r. setting_pk r = q) tbl of None \<Rightarrow> Some n | Some r \<Rightarrow> Some (set_setting n r)))" for q
    unfolding tbl' by (rule find_upsert_settings [OF dist])
  have same: "readable s (set_setting n r) = readable s n" "row_plain s (set_setting n r) = row_plain s n"
    if "setting_pk r = setting_pk n" for n r
    using row_value_set_setting [OF that] by (simp_all add: readable_def row_plain_def)
  have "\<forall>r\<in>set rows. readable s r" using secs by blast
  then have "readable s r" if "r \<in> set tbl'" "sr_section r = section" for r
    using readable_upsert [OF uniq [unfolded tbl'] dist _ old] that unfolding tbl' by blast
  then obtain m where m: "LoadSection False s section tbl' = Inr m" using LoadSection_ok by blast
  have "map_of m k = (map_of old ++ map_of kvs) k" for k
    using LoadSection_lookup [OF uniq m, of k] LoadSection_lookup [OF assms(3,4), of k] vals [rule_format, of k, symmetric] found [of "(section, k)"] same
    by (auto simp: setting_at_def map_add_def split: option.splits dest!: find_SomeD)
  moreover have "LoadSection False s sec tbl' = LoadSection False s sec tbl" if "sec \<noteq> section" for sec
    using upsert_settings_other [OF _ that, of rows tbl] secs by (simp add: LoadSection_def tbl')
  ultimately show ?thesis using m by (auto simp: sv)
qed

subsection \<open>Rows of a save\<close>

lemma save_rows_section:
  "save_rows st rnd now sec author i kvs = Inr rows \<Longrightarrow> \<forall>r\<in>set rows. sr_section r = sec"
  by (induction st rnd now sec author i kvs arbitrary: rows rule: save_rows.induct)
     (auto split: sum.splits if_splits option.splits)

lemma Save_other:
  assumes "sec' \<noteq> sec"
  shows "filter (\<lambda>r. sr_section r = sec') (snd (Save flt st rnd now sec kvs author tbl)) =
    filter (\<lambda>r. sr_section r = sec') tbl"
  using assms
  by (auto simp: Save_def Let_def intro!: upsert_settings_other dest: save_rows_section split: sum.split)

lemma upsert_settings_not_empty: "rows \<noteq> [] \<or> tbl \<noteq> [] \<Longrightarrow> upsert_settings rows tbl \<noteq> []"
proof (induction rows arbitrary: tbl)
  case Nil
  then show ?case by (simp add: upsert_settings_def)
next
  case (Cons r rows)
  have "upsert setting_pk (set_setting r) r tbl \<noteq> []" by (auto simp: upsert_def)
  with Cons.IH show ?case by (simp add: upsert_settings_def)
qed

lemma save_rows_length:
  "save_rows st rnd now sec author i kvs = Inr rows \<Longrightarrow> length rows = length kvs"
  by (induction st rnd now sec author i kvs arbitrary: rows rule: save_rows.induct)
     (auto split: sum.splits if_splits option.splits)

lemma Save_not_empty:
  assumes "tbl \<noteq> [] \<or> (kvs \<noteq> [] \<and> fst (Save flt st rnd now sec kvs author tbl) = None)"
  shows "snd (Save flt st rnd now sec kvs author tbl) \<noteq> []"
proof -
  have "rows \<noteq> [] \<longleftrightarrow> kvs \<noteq> []"
    if "save_rows st rnd now sec a i (map (\<lambda>k. (k, the (map_of kvs k))) (sort (map fst kvs))) = Inr rows" for a i rows
    using save_rows_length [OF that] by (cases kvs; cases rows) auto
  then show ?thesis
    using assms by (fastforce simp: Save_def Let_def upsert_settings_not_empty split: sum.splits if_splits)
qed

lemma save_rows_keyless: "so_keys st = None \<Longrightarrow> \<exists>rows. save_rows st rnd now sec author i kvs = Inr rows"
proof (induction kvs arbitrary: i)
  case Nil
  then show ?case by simp
next
  case (Cons x kvs)
  then obtain rows where "save_rows st rnd now sec author (Suc i) kvs = Inr rows" by blast
  with Cons.prems show ?case by (cases x) (simp add: Encrypt_def)
qed

lemma Save_keyless: "so_keys st = None \<Longrightarrow> fst (Save False st rnd now sec kvs author tbl) = None"
  using save_rows_keyless [of st rnd now sec "if author = [] then ''system'' else author" 0
      "map (\<lambda>k. (k, the (map_of kvs k))) (sort (map fst kvs))"]
  by (auto simp: Save_def Let_def)

definition demo_store :: store where
  "demo_store = \<lparr>so_aead = demo_aead, so_keys = Some ''k'', so_secrets = (\<lambda>sec k. k = ''client_secret'')\<rparr>"

lemma Save_read_back_demo:
  "\<exists>m. LoadSection False demo_store ''oidc'' (snd (Save False demo_store (\<lambda>i. Some ''abcdefghijkl'') 5
       ''oidc'' [(''tenant_id'', ''t''), (''client_secret'', ''s'')] ''ann'' [])) = Inr m \<and>
     map_of m = [''tenant_id'' \<mapsto> ''t'', ''client_secret'' \<mapsto> ''s'']"
proof -
  let ?kvs = "[(''tenant_id'', ''t''), (''client_secret'', ''s'')]"
  let ?save = "Save False demo_store (\<lambda>i. Some ''abcdefghijkl'') 5 ''oidc'' ?kvs ''ann'' []"
  have ok: "aead_ok (so_aead demo_store)" "good_nonces (\<lambda>i. Some ''abcdefghijkl'')"
    "unique_by setting_pk []" "LoadSection False demo_store ''oidc'' [] = Inr []"
    "storable demo_store ''oidc'' ?kvs" "distinct (map fst ?kvs)"
    by (simp_all add: demo_store_def demo_aead_ok good_nonces_def nonce_size_def unique_by_def LoadSection_def
        storable_def has_prefix_def Prefix_def)
  have "sort (map fst ?kvs) = [''client_secret'', ''tenant_id'']" by code_simp
  then have "fst ?save = None"
    by (simp add: Save_def Let_def demo_store_def Encrypt_def)
  then obtain t where sv: "?save = (None, t)" by (cases ?save) simp
  note res = Save_read_back [OF ok, of False 5 "''ann''", unfolded sv prod.case option.case]
  have "map_of [] ++ map_of ?kvs = [''tenant_id'' \<mapsto> ''t'', ''client_secret'' \<mapsto> ''s'']"
    by (rule ext) simp
  with conjunct1 [OF res] show ?thesis unfolding sv snd_conv by (elim exE conjE) (intro exI conjI, assumption, simp only:)
qed

end
