(* ===== verification/Registry.thy ===== *)
theory Registry
  imports Settings Duo
begin

text \<open>
  \<open>portal/config_settings.go\<close> and \<open>portal/runtime.go\<close>: the registry of settings, the configuration
  built from a snapshot of them, its validation, and the reload of the running state.  The host name
  of a URL, by \<open>net/url\<close>, is the parameter \<open>hostname\<close>: \<open>None\<close> for a URL that does not parse or has no host.
\<close>

section \<open>The registry\<close>

definition secOIDC :: string where "secOIDC = ''oidc''"
definition secIKuai :: string where "secIKuai = ''ikuai''"
definition secIKuaiPolicy :: string where "secIKuaiPolicy = ''ikuai_policy''"
definition secPortal :: string where "secPortal = ''portal''"
definition secBrand :: string where "secBrand = ''brand''"
definition secDuo :: string where "secDuo = ''duo''"
definition secAuth :: string where "secAuth = ''auth''"
definition secAdmin :: string where "secAdmin = ''admin''"
definition secRateLimit :: string where "secRateLimit = ''ratelimit''"
definition secEventLog :: string where "secEventLog = ''eventlog''"
definition secLocalAdmin :: string where "secLocalAdmin = ''local_admin''"
definition secTLS :: string where "secTLS = ''tls''"

definition TLSModeProxy :: string where "TLSModeProxy = ''proxy''"
definition TLSModeStandalone :: string where "TLSModeStandalone = ''standalone''"

lemmas section_defs = secOIDC_def secIKuai_def secIKuaiPolicy_def secPortal_def secBrand_def secDuo_def
  secAuth_def secAdmin_def secRateLimit_def secEventLog_def secLocalAdmin_def secTLS_def

record settingDef =
  sd_section :: string
  sd_key :: string
  sd_env :: string
  sd_default :: string
  sd_secret :: bool

definition setting :: "string \<Rightarrow> string \<Rightarrow> string \<Rightarrow> string \<Rightarrow> bool \<Rightarrow> settingDef" where
  "setting sec key env def secret =
     \<lparr>sd_section = sec, sd_key = key, sd_env = env, sd_default = def, sd_secret = secret\<rparr>"

definition settingRegistry :: "settingDef list" where
  "settingRegistry =
    [setting secOIDC ''tenant_id'' ''TENANT_ID'' [] False,
     setting secOIDC ''client_id'' ''CLIENT_ID'' [] False,
     setting secOIDC ''client_secret'' ''CLIENT_SECRET'' [] True,
     setting secIKuai ''app_key'' ''IKUAI_APPKEY'' [] True,
     setting secIKuai ''webauth_url'' ''IKUAI_WEBAUTH_URL'' ''https://portal.ikuai8-wifi.com/Action/webauth-up'' False,
     setting secIKuai ''release_type'' ''IKUAI_RELEASE_TYPE'' ''1'' False,
     setting secIKuai ''ip_keys'' ''IKUAI_IP_KEYS'' ''user_ip,ip,ipaddr'' False,
     setting secIKuai ''mac_keys'' ''IKUAI_MAC_KEYS'' ''user_mac,mac,usrmac,devmac'' False,
     setting secIKuaiPolicy ''sso_upload'' ''IKUAI_SSO_UPLOAD'' ''0'' False,
     setting secIKuaiPolicy ''sso_download'' ''IKUAI_SSO_DOWNLOAD'' ''0'' False,
     setting secIKuaiPolicy ''sso_timeout'' ''IKUAI_SSO_TIMEOUT'' ''0'' False,
     setting secIKuaiPolicy ''sso_comment'' ''IKUAI_SSO_COMMENT'' [] False,
     setting secIKuaiPolicy ''duo_upload'' ''IKUAI_DUO_UPLOAD'' ''0'' False,
     setting secIKuaiPolicy ''duo_download'' ''IKUAI_DUO_DOWNLOAD'' ''0'' False,
     setting secIKuaiPolicy ''duo_timeout'' ''IKUAI_DUO_TIMEOUT'' ''0'' False,
     setting secIKuaiPolicy ''duo_comment'' ''IKUAI_DUO_COMMENT'' [] False,
     setting secIKuaiPolicy ''guest_upload'' ''IKUAI_GUEST_UPLOAD'' ''0'' False,
     setting secIKuaiPolicy ''guest_download'' ''IKUAI_GUEST_DOWNLOAD'' ''0'' False,
     setting secIKuaiPolicy ''guest_comment'' ''IKUAI_GUEST_COMMENT'' [] False,
     setting secPortal ''public_url'' ''PUBLIC_URL'' [] False,
     setting secBrand ''name'' ''BRAND_NAME'' ''Kazuha Hub'' False,
     setting secBrand ''color'' ''BRAND_COLOR'' ''#2563eb'' False,
     setting secBrand ''logo_url'' ''BRAND_LOGO_URL'' [] False,
     setting secDuo ''ikey'' ''DUO_IKEY'' [] False,
     setting secDuo ''skey'' ''DUO_SKEY'' [] True,
     setting secDuo ''client_id'' ''DUO_CLIENT_ID'' [] False,
     setting secDuo ''client_secret'' ''DUO_CLIENT_SECRET'' [] True,
     setting secDuo ''api_host'' ''DUO_API_HOST'' [] False,
     setting secAuth ''allowed_email_domains'' ''ALLOWED_EMAIL_DOMAINS'' [] False,
     setting secAdmin ''emails'' ''ADMIN_EMAILS'' [] False,
     setting secAdmin ''group_ids'' ''ADMIN_GROUP_IDS'' [] False,
     setting secRateLimit ''auth_email_fails_short'' ''AUTH_EMAIL_FAILS_SHORT'' ''5'' False,
     setting secRateLimit ''auth_email_window_short'' ''AUTH_EMAIL_WINDOW_SHORT'' ''3m'' False,
     setting secRateLimit ''auth_email_fails_long'' ''AUTH_EMAIL_FAILS_LONG'' ''20'' False,
     setting secRateLimit ''auth_email_window_long'' ''AUTH_EMAIL_WINDOW_LONG'' ''1h'' False,
     setting secRateLimit ''guest_code_mac_fails'' ''GUEST_CODE_MAC_FAILS'' ''6'' False,
     setting secRateLimit ''guest_code_mac_window'' ''GUEST_CODE_MAC_WINDOW'' ''30m'' False,
     setting secRateLimit ''ip_fails_limit'' ''IP_FAILS_LIMIT'' ''20'' False,
     setting secRateLimit ''ip_fails_window'' ''IP_FAILS_WINDOW'' ''5m'' False,
     setting secRateLimit ''ip_ban_duration'' ''IP_BAN_DURATION'' ''2m'' False,
     setting secRateLimit ''ip_ban_escalate_at'' ''IP_BAN_ESCALATE_AT'' ''999999'' False,
     setting secRateLimit ''auth_proceed_ttl'' ''AUTH_PROCEED_TTL'' ''5m'' False,
     setting secEventLog ''retention_days'' ''EVENT_LOG_RETENTION_DAYS'' ''7'' False,
     setting secLocalAdmin ''enabled'' [] ''false'' False,
     setting secLocalAdmin ''allowed_from'' [] [] False,
     setting secTLS ''mode'' [] TLSModeProxy False,
     setting secTLS ''domain'' [] [] False,
     setting secTLS ''listen_addr'' [] ''0.0.0.0:443'' False,
     setting secTLS ''redirect_http'' [] ''false'' False,
     setting secTLS ''acme_enabled'' [] ''false'' False,
     setting secTLS ''acme_email'' [] [] False,
     setting secTLS ''acme_staging'' [] ''false'' False]"

text \<open>A lookup of the index gives the zero value for a key that is not registered.\<close>

definition settingIndex :: "string \<Rightarrow> settingDef option" where
  "settingIndex k = find (\<lambda>d. Key (sd_section d) (sd_key d) = k) settingRegistry"

definition isSecretSetting :: "string \<Rightarrow> string \<Rightarrow> bool" where
  "isSecretSetting sec key =
     (case settingIndex (Key sec key) of None \<Rightarrow> False | Some d \<Rightarrow> sd_secret d)"

definition default_of :: "string \<Rightarrow> string \<Rightarrow> string" where
  "default_of sec key = (case settingIndex (Key sec key) of None \<Rightarrow> [] | Some d \<Rightarrow> sd_default d)"

definition defaultSettingValues :: "(string \<times> (string \<times> string) list) list" where
  "defaultSettingValues =
     fold (\<lambda>d out. if sd_default d = [] then out
        else AList.update (sd_section d)
          (AList.update (sd_key d) (sd_default d)
             (case map_of out (sd_section d) of None \<Rightarrow> [] | Some m \<Rightarrow> m)) out)
       settingRegistry []"

definition sectionKeys :: "string \<Rightarrow> settingDef list" where
  "sectionKeys sec = filter (\<lambda>d. sd_section d = sec) settingRegistry"

definition knownSections :: "string list" where
  "knownSections = sort (remdups (map sd_section settingRegistry))"


section \<open>Building a configuration\<close>

text \<open>A product of 64-bit integers wraps around.\<close>

definition wrap64 :: "int \<Rightarrow> int" where "wrap64 i = (i + 2 ^ 63) mod 2 ^ 64 - 2 ^ 63"

definition hostFromURL :: "(string \<Rightarrow> string option) \<Rightarrow> string \<Rightarrow> string" where
  "hostFromURL hostname raw = (case hostname raw of None \<Rightarrow> [] | Some h \<Rightarrow> h)"

definition int_default :: "string \<Rightarrow> string \<Rightarrow> int" where
  "int_default sec key = (case atoi (default_of sec key) of None \<Rightarrow> 0 | Some n \<Rightarrow> n)"

definition duration_default_of :: "string \<Rightarrow> string \<Rightarrow> duration" where
  "duration_default_of sec key = (case ParseDuration (default_of sec key) of None \<Rightarrow> 0 | Some d \<Rightarrow> d)"

definition rl_int :: "Values \<Rightarrow> string \<Rightarrow> int" where
  "rl_int v key = val_Int v secRateLimit key (int_default secRateLimit key)"

definition rl_dur :: "Values \<Rightarrow> string \<Rightarrow> duration" where
  "rl_dur v key = val_Duration v secRateLimit key (duration_default_of secRateLimit key)"

definition seed_policy :: "Values \<Rightarrow> string \<Rightarrow> int \<Rightarrow> IKuaiPolicy" where
  "seed_policy v pre timeout =
     \<lparr>p_upload = val_Int v secIKuaiPolicy (pre @ ''_upload'') 0,
      p_download = val_Int v secIKuaiPolicy (pre @ ''_download'') 0,
      p_timeout = timeout,
      p_comment = trim_space (val_String v secIKuaiPolicy (pre @ ''_comment'') [])\<rparr>"

text \<open>The fields read from the settings replace those of \<open>cfg\<close>; the bootstrap fields stay.\<close>

definition applyRuntimeSettings :: "(string \<Rightarrow> string option) \<Rightarrow> Values \<Rightarrow> Config \<Rightarrow> Config" where
  "applyRuntimeSettings hostname v cfg =
     (let publicURL = trim_right (\<lambda>c. c = CHR ''/'') (val_String v secPortal ''public_url'' []);
          domain = val_String v secTLS ''domain'' []
      in cfg\<lparr>
        TenantID := val_String v secOIDC ''tenant_id'' [],
        ClientID := val_String v secOIDC ''client_id'' [],
        ClientSecret := val_String v secOIDC ''client_secret'' [],
        IKuaiAppKey := val_String v secIKuai ''app_key'' [],
        IKuaiWebAuthURL := val_String v secIKuai ''webauth_url'' (default_of secIKuai ''webauth_url''),
        IKuaiReleaseType := val_String v secIKuai ''release_type'' (default_of secIKuai ''release_type''),
        IKuaiIPKeys := val_List v secIKuai ''ip_keys'' (splitCSV (default_of secIKuai ''ip_keys'')),
        IKuaiMACKeys := val_List v secIKuai ''mac_keys'' (splitCSV (default_of secIKuai ''mac_keys'')),
        IKuaiPolicyDefaults :=
          [(IKuaiProfileSSO, seed_policy v ''sso'' (val_Int v secIKuaiPolicy ''sso_timeout'' 0)),
           (IKuaiProfileDuo, seed_policy v ''duo'' (val_Int v secIKuaiPolicy ''duo_timeout'' 0)),
           (IKuaiProfileGuest, seed_policy v ''guest'' 0)],
        PublicURL := publicURL,
        BrandName := val_String v secBrand ''name'' (default_of secBrand ''name''),
        BrandColor := sanitizeBrandColor (val_String v secBrand ''color'' []) (default_of secBrand ''color''),
        BrandLogoURL := val_String v secBrand ''logo_url'' [],
        DuoIKey := val_String v secDuo ''ikey'' [],
        DuoSKey := val_String v secDuo ''skey'' [],
        DuoClientID := val_String v secDuo ''client_id'' [],
        DuoClientSecret := val_String v secDuo ''client_secret'' [],
        DuoAPIHost := val_String v secDuo ''api_host'' [],
        AllowedEmailDomains := val_List v secAuth ''allowed_email_domains'' [],
        AdminEmails := val_List v secAdmin ''emails'' [],
        AdminGroupIDs := val_List v secAdmin ''group_ids'' [],
        AuthEmailFailsShort := rl_int v ''auth_email_fails_short'',
        AuthEmailWindowShort := rl_dur v ''auth_email_window_short'',
        AuthEmailFailsLong := rl_int v ''auth_email_fails_long'',
        AuthEmailWindowLong := rl_dur v ''auth_email_window_long'',
        GuestCodeMacFails := rl_int v ''guest_code_mac_fails'',
        GuestCodeMacWindow := rl_dur v ''guest_code_mac_window'',
        IPFailsLimit := rl_int v ''ip_fails_limit'',
        IPFailsWindow := rl_dur v ''ip_fails_window'',
        IPBanDuration := rl_dur v ''ip_ban_duration'',
        IPBanEscalateAt := rl_int v ''ip_ban_escalate_at'',
        AuthProceedTTL := rl_dur v ''auth_proceed_ttl'',
        EventLogRetention :=
          wrap64 (val_Int v secEventLog ''retention_days'' (int_default secEventLog ''retention_days'') * (24 * hour)),
        LocalAdminEnabled := val_Bool v secLocalAdmin ''enabled'' False,
        LocalAdminAllowedFrom := val_String v secLocalAdmin ''allowed_from'' [],
        TLSMode := val_String v secTLS ''mode'' (default_of secTLS ''mode''),
        TLSListenAddr := val_String v secTLS ''listen_addr'' (default_of secTLS ''listen_addr''),
        TLSRedirectHTTP := val_Bool v secTLS ''redirect_http'' False,
        ACMEEnabled := val_Bool v secTLS ''acme_enabled'' False,
        ACMEEmail := val_String v secTLS ''acme_email'' [],
        ACMEStaging := val_Bool v secTLS ''acme_staging'' False,
        TLSDomain := (if domain = [] then hostFromURL hostname publicURL else domain)\<rparr>)"

text \<open>The zero value of a configuration.\<close>

definition zero_Config :: Config where
  "zero_Config =
     \<lparr>TenantID = [], ClientID = [], ClientSecret = [], IKuaiAppKey = [], IKuaiWebAuthURL = [],
      IKuaiReleaseType = [], IKuaiPolicyDefaults = [], SessionSecret = [], PublicURL = [],
      ListenAddr = [], TrustProxy = False, DataDir = [], BrandName = [], BrandColor = [],
      BrandLogoURL = [], IKuaiIPKeys = [], IKuaiMACKeys = [], DuoIKey = [], DuoSKey = [],
      DuoClientID = [], DuoClientSecret = [], DuoAPIHost = [], AllowedEmailDomains = [],
      AdminEmails = [], AdminGroupIDs = [], AuthEmailFailsShort = 0, AuthEmailWindowShort = 0,
      AuthEmailFailsLong = 0, AuthEmailWindowLong = 0, GuestCodeMacFails = 0,
      GuestCodeMacWindow = 0, IPFailsLimit = 0, IPFailsWindow = 0, IPBanDuration = 0,
      IPBanEscalateAt = 0, AuthProceedTTL = 0, EventLogRetention = 0, LocalAdminEnabled = False,
      LocalAdminAllowedFrom = [], TLSMode = [], TLSDomain = [], TLSListenAddr = [],
      TLSRedirectHTTP = False, ACMEEnabled = False, ACMEEmail = [], ACMEStaging = False\<rparr>"

definition runtime_Config :: "(string \<Rightarrow> string option) \<Rightarrow> BootstrapConfig \<Rightarrow> Values \<Rightarrow> Config" where
  "runtime_Config hostname boot v = applyRuntimeSettings hostname v (applyBootstrap boot zero_Config)"


section \<open>Validation\<close>

record ConfigProblem =
  cp_section :: string
  cp_key :: string
  cp_message :: string
  cp_fatal :: bool

definition problem :: "string \<Rightarrow> string \<Rightarrow> string \<Rightarrow> bool \<Rightarrow> ConfigProblem" where
  "problem sec key msg fatal =
     \<lparr>cp_section = sec, cp_key = key, cp_message = msg, cp_fatal = fatal\<rparr>"

definition problem_String :: "ConfigProblem \<Rightarrow> string" where
  "problem_String p =
     (if cp_key p \<noteq> [] then Key (cp_section p) (cp_key p) else cp_section p) @ '': '' @ cp_message p"

definition duo_fields :: "Config \<Rightarrow> (string \<times> string) list" where
  "duo_fields cfg =
     [(''ikey'', DuoIKey cfg), (''skey'', DuoSKey cfg), (''client_id'', DuoClientID cfg),
      (''client_secret'', DuoClientSecret cfg), (''api_host'', DuoAPIHost cfg)]"

definition duo_problems :: "Config \<Rightarrow> ConfigProblem list" where
  "duo_problems cfg =
     (let missing = sort (map fst (filter (\<lambda>e. snd e = []) (duo_fields cfg)));
          filled = length (filter (\<lambda>e. snd e \<noteq> []) (duo_fields cfg))
      in if filled > 0 \<and> missing \<noteq> []
         then [problem secDuo [] (''partially configured, so Duo stays disabled; missing: '' @ join '', '' missing) False]
         else [])"

definition url_problems :: "Config \<Rightarrow> ConfigProblem list" where
  "url_problems cfg =
     (if PublicURL cfg = []
      then [problem secPortal ''public_url''
              ''not set; OIDC redirects and the same-origin CSRF check cannot work'' True]
      else if \<not> has_prefix (PublicURL cfg) ''https://''
      then [problem secPortal ''public_url''
              ''does not start with https://; Entra will reject the redirect URI and cookies marked Secure will not be sent'' False]
      else [])"

definition tls_problems :: "(string \<Rightarrow> string option) \<Rightarrow> Config \<Rightarrow> ConfigProblem list" where
  "tls_problems hostname cfg =
     (let host = hostFromURL hostname (PublicURL cfg)
      in (if TLSMode cfg = TLSModeStandalone \<and> TLSDomain cfg \<noteq> [] \<and> PublicURL cfg \<noteq> [] \<and>
             host \<noteq> [] \<and> \<not> equal_fold host (TLSDomain cfg)
          then [problem secTLS ''domain''
                  (''the portal serves TLS for '' @ TLSDomain cfg @ '' but portal.public_url points at '' @ host @
                   ''; sign-in redirects will return users to the wrong address'') False] else []) @
         (if TLSMode cfg = TLSModeStandalone \<and> TLSDomain cfg = []
          then [problem secTLS ''domain''
                  ''standalone TLS is on but no domain is set; no certificate can be issued or looked up'' False] else []))"

definition validateRuntimeConfig :: "(string \<Rightarrow> string option) \<Rightarrow> Config \<Rightarrow> ConfigProblem list" where
  "validateRuntimeConfig hostname cfg =
     (if TenantID cfg = [] \<or> ClientID cfg = [] \<or> ClientSecret cfg = []
      then [problem secOIDC []
              ''Entra SSO is not fully configured (tenant, client ID and client secret are all required); sign-in will fail until it is'' False] else []) @
     (if IKuaiAppKey cfg = []
      then [problem secIKuai ''app_key''
              ''no iKuai app key: authenticated devices cannot be allow-listed on the router'' False] else []) @
     url_problems cfg @ duo_problems cfg @
     (if IsDuoEnabled cfg \<and> AllowedEmailDomains cfg = []
      then [problem secAuth ''allowed_email_domains''
              ''Duo is enabled but no email domains are allowed; every address would be sent to Duo for preauth'' False] else []) @
     tls_problems hostname cfg"

text \<open>The variables \<open>warnIgnoredRuntimeEnv\<close> names, given the environment.\<close>

definition ignored_env :: "(string \<Rightarrow> string) \<Rightarrow> string list" where
  "ignored_env getenv =
     sort (map (\<lambda>d. sd_env d @ '' (now '' @ Key (sd_section d) (sd_key d) @ '')'')
       (filter (\<lambda>d. sd_env d \<noteq> [] \<and> getenv (sd_env d) \<noteq> []) settingRegistry))"

end
