(* ===== verification/LegacyImport.thy ===== *)
theory LegacyImport
  imports GuestCodeReports Denylist IKuaiPolicy IpBan EventLog Registry
begin

text \<open>
  The one-time import of \<open>portal/migrate_legacy.go\<close>: the environment and the five JSON files of an
  installation that predates the database.  The disk maps a path to what reading it gives; the JSON
  decoders are parameters, \<open>None\<close> when the text does not decode; the statements of the import are named,
  so that each can fail.  Connections run without GORM's default transaction, so the batches of one
  \<open>CreateInBatches\<close> are separate statements.
\<close>

section \<open>Files\<close>

datatype disk_file = NoFile | Unreadable | Bytes string

type_synonym disk = "string \<Rightarrow> disk_file"

record dataPaths =
  GuestCodes :: string
  DenylistFile :: string
  IKuaiPolicyFile :: string
  BanHistoryFile :: string
  EventLogFile :: string

text \<open>\<open>path\<close> is \<open>filepath.Join\<close> on the data directory.\<close>

definition makeDataPaths :: "(string \<Rightarrow> string) \<Rightarrow> dataPaths" where
  "makeDataPaths path =
     \<lparr>GuestCodes = path ''guest-codes.json'', DenylistFile = path ''denylist.json'',
      IKuaiPolicyFile = path ''ikuai-policy.json'', BanHistoryFile = path ''ratelimit-state.json'',
      EventLogFile = path ''events.jsonl''\<rparr>"

text \<open>\<open>None\<close> is a read error; a missing file reads as empty.\<close>

definition readLegacyFile :: "disk \<Rightarrow> string \<Rightarrow> string option" where
  "readLegacyFile d path =
     (if path = [] then Some []
      else (case d path of NoFile \<Rightarrow> Some [] | Unreadable \<Rightarrow> None | Bytes s \<Rightarrow> Some s))"

definition markMigrated :: "bool \<Rightarrow> string \<Rightarrow> disk \<Rightarrow> disk" where
  "markMigrated flt path d =
     (if path = [] \<or> flt then d else d(path @ ''.migrated'' := d path, path := NoFile))"

record legacyCodeUse =
  lu_at :: time
  lu_mac :: string
  lu_ip :: string
  lu_upn :: string

record legacyGuestCode =
  lc_code :: string
  lc_created :: time
  lc_expires :: time
  lc_duration :: int
  lc_max :: int
  lc_note :: string
  lc_uses :: "legacyCodeUse list"

record legacyDeniedMAC =
  ld_mac :: string
  ld_reason :: string
  ld_created :: time
  ld_by :: string

record legacyEvent =
  le_time :: time
  le_kind :: string
  le_subject :: string
  le_result :: string
  le_method :: string
  le_mac :: string
  le_ip :: string
  le_detail :: string


section \<open>The database of an import\<close>

datatype import_stmt =
    CountSettings | SaveDefaults string | SaveEnv string | InsertCodes nat | InsertUses nat
  | InsertMACs nat | InsertPolicies | InsertHistory nat | InsertEvents nat | RenameFile string

record import_world =
  im_flt :: "import_stmt \<Rightarrow> bool"
  im_now :: time
  im_env :: "string \<Rightarrow> string"
  im_store :: store
  im_nonce :: "string \<Rightarrow> nat \<Rightarrow> string option"
  im_order :: "(string \<times> Values) list \<Rightarrow> (string \<times> Values) list"
  im_codes :: "string \<Rightarrow> legacyGuestCode list option"
  im_macs :: "string \<Rightarrow> legacyDeniedMAC list option"
  im_policies :: "string \<Rightarrow> (string \<times> IKuaiPolicy) list option"
  im_history :: "string \<Rightarrow> (string \<times> int) list option"
  im_event :: "string \<Rightarrow> legacyEvent option"

record import_db =
  idb_settings :: "settingRow list"
  idb_codes :: gcDB
  idb_macs :: "DeniedMAC list"
  idb_policies :: "policyRow list"
  idb_history :: "banHistoryRow list"
  idb_events :: eventTable
  idb_disk :: disk

text \<open>An \<open>INSERT\<close> of several rows is refused as a whole when a key is taken.\<close>

definition insert_rows :: "('r \<Rightarrow> 'k) \<Rightarrow> 'r list \<Rightarrow> 'r list \<Rightarrow> 'r list option" where
  "insert_rows key rows tbl = (if unique_by key (tbl @ rows) then Some (tbl @ rows) else None)"

text \<open>\<open>CreateInBatches\<close>: one statement for each \<open>n\<close> rows, up to the first that fails.\<close>

function create_batches ::
  "('r list \<Rightarrow> 'db \<Rightarrow> 'db option) \<Rightarrow> nat \<Rightarrow> (nat \<Rightarrow> bool) \<Rightarrow> nat \<Rightarrow> 'r list \<Rightarrow> 'db \<Rightarrow> bool \<times> 'db" where
  "create_batches ins n flt i rows db =
     (if rows = [] \<or> n = 0 then (True, db)
      else if flt i then (False, db)
      else (case ins (take n rows) db of
              None \<Rightarrow> (False, db)
            | Some db' \<Rightarrow> create_batches ins n flt (Suc i) (drop n rows) db'))"
  by pat_completeness auto
termination by (relation "measure (\<lambda>(ins, n, flt, i, rows, db). length rows)") auto

declare create_batches.simps [simp del]

lemma create_batches_Nil [simp]: "create_batches ins n flt i [] db = (True, db)"
  by (simp add: create_batches.simps)

definition insert_codes :: "time \<Rightarrow> gcRow list \<Rightarrow> gcDB \<Rightarrow> gcDB option" where
  "insert_codes now rows db =
     map_option (\<lambda>rs. db\<lparr>db_codes := rs\<rparr>) (insert_rows r_lower (map (code_before_save now) rows) (db_codes db))"

definition insert_uses :: "time \<Rightarrow> useRow list \<Rightarrow> gcDB \<Rightarrow> gcDB option" where
  "insert_uses now uses db =
     (if u_code ` set uses \<subseteq> r_code ` set (db_codes db) then Some (add_uses now uses db) else None)"


section \<open>The five files\<close>

definition legacy_row :: "legacyGuestCode \<Rightarrow> gcRow" where
  "legacy_row c =
     \<lparr>r_code = lc_code c, r_lower = [], r_created = lc_created c,
      r_expires = (if is_zero (lc_expires c) then None else Some (lc_expires c)),
      r_duration = lc_duration c, r_max = lc_max c, r_note = lc_note c\<rparr>"

definition legacy_use :: "string \<Rightarrow> legacyCodeUse \<Rightarrow> useRow" where
  "legacy_use code u =
     \<lparr>u_id = 0, u_code = code, u_at = lu_at u, u_mac = lu_mac u, u_ip = lu_ip u, u_upn = lu_upn u\<rparr>"

definition legacy_uses :: "legacyGuestCode \<Rightarrow> useRow list" where
  "legacy_uses c = map (legacy_use (lc_code c)) (lc_uses c)"

text \<open>What an import does with the content of its file: nothing when it is missing, empty or unreadable.\<close>

definition with_file :: "string \<Rightarrow> (string \<Rightarrow> import_db \<Rightarrow> import_db) \<Rightarrow> import_db \<Rightarrow> import_db" where
  "with_file path k s =
     (case readLegacyFile (idb_disk s) path of
        None \<Rightarrow> s
      | Some data \<Rightarrow> if data = [] then s else k data s)"

definition file_done :: "import_world \<Rightarrow> string \<Rightarrow> import_db \<Rightarrow> import_db" where
  "file_done w path s = s\<lparr>idb_disk := markMigrated (im_flt w (RenameFile path)) path (idb_disk s)\<rparr>"

definition importGuestCodes :: "import_world \<Rightarrow> string \<Rightarrow> import_db \<Rightarrow> import_db" where
  "importGuestCodes w path = with_file path (\<lambda>data s.
     (case im_codes w data of
        None \<Rightarrow> s
      | Some codes \<Rightarrow>
          (case create_batches (insert_codes (im_now w)) 200 (\<lambda>i. im_flt w (InsertCodes i)) 0
                  (map legacy_row codes) (idb_codes s) of
             (False, db) \<Rightarrow> s\<lparr>idb_codes := db\<rparr>
           | (True, db) \<Rightarrow>
               file_done w path (s\<lparr>idb_codes :=
                 snd (create_batches (insert_uses (im_now w)) 500 (\<lambda>i. im_flt w (InsertUses i)) 0
                        (concat (map legacy_uses codes)) db)\<rparr>))))"

definition denied_row :: "time \<Rightarrow> legacyDeniedMAC \<Rightarrow> DeniedMAC" where
  "denied_row now it =
     \<lparr>dm_mac = ld_mac it, dm_reason = ld_reason it,
      dm_created = (if is_zero (ld_created it) then now else ld_created it), dm_by = ld_by it\<rparr>"

definition importDenylist :: "import_world \<Rightarrow> string \<Rightarrow> import_db \<Rightarrow> import_db" where
  "importDenylist w path = with_file path (\<lambda>data s.
     (case im_macs w data of
        None \<Rightarrow> s
      | Some items \<Rightarrow>
          (case create_batches (insert_rows dm_mac) 200 (\<lambda>i. im_flt w (InsertMACs i)) 0
                  (map (denied_row (im_now w)) items) (idb_macs s) of
             (False, tbl) \<Rightarrow> s\<lparr>idb_macs := tbl\<rparr>
           | (True, tbl) \<Rightarrow> file_done w path (s\<lparr>idb_macs := tbl\<rparr>))))"

definition importIKuaiPolicy :: "import_world \<Rightarrow> string \<Rightarrow> import_db \<Rightarrow> import_db" where
  "importIKuaiPolicy w path = with_file path (\<lambda>data s.
     (case im_policies w data of
        None \<Rightarrow> s
      | Some policies \<Rightarrow>
          (let rows = map (\<lambda>(profile, p). policy_row (im_now w) profile p) policies
           in if rows = [] then file_done w path s
              else if im_flt w InsertPolicies then s
              else (case insert_rows pr_profile rows (idb_policies s) of
                      None \<Rightarrow> s
                    | Some tbl \<Rightarrow> file_done w path (s\<lparr>idb_policies := tbl\<rparr>)))))"

definition importBanHistory :: "import_world \<Rightarrow> string \<Rightarrow> import_db \<Rightarrow> import_db" where
  "importBanHistory w path = with_file path (\<lambda>data s.
     (case im_history w data of
        None \<Rightarrow> s
      | Some counts \<Rightarrow>
          (case create_batches (insert_rows bh_ip) 500 (\<lambda>i. im_flt w (InsertHistory i)) 0
                  (map (\<lambda>(ip, n). \<lparr>bh_ip = ip, bh_count = n, bh_updated = im_now w\<rparr>) counts) (idb_history s) of
             (False, tbl) \<Rightarrow> s\<lparr>idb_history := tbl\<rparr>
           | (True, tbl) \<Rightarrow> file_done w path (s\<lparr>idb_history := tbl\<rparr>))))"

definition event_of :: "legacyEvent \<Rightarrow> Event" where
  "event_of ev =
     \<lparr>ev_id = 0, ev_time = le_time ev, ev_kind = le_kind ev, ev_subject = le_subject ev, ev_result = le_result ev,
      ev_method = le_method ev, ev_mac = le_mac ev, ev_ip = le_ip ev, ev_detail = le_detail ev\<rparr>"

definition insert_events :: "Event list \<Rightarrow> eventTable \<Rightarrow> eventTable" where
  "insert_events evs t =
     fold (\<lambda>ev t. t\<lparr>et_rows := et_rows t @ [ev\<lparr>ev_id := et_next t\<rparr>], et_next := Suc (et_next t)\<rparr>) evs t"

text \<open>
  The lines of the event log: \<open>batch\<close> collects up to 1000 events, \<open>i\<close> counts the batches written; the flag
  says whether every batch was written.
\<close>

fun event_lines ::
  "(string \<Rightarrow> legacyEvent option) \<Rightarrow> (nat \<Rightarrow> bool) \<Rightarrow> nat \<Rightarrow> Event list \<Rightarrow> string list \<Rightarrow> eventTable \<Rightarrow>
   bool \<times> eventTable" where
  "event_lines dec flt i batch [] t =
     (if batch = [] then (True, t) else if flt i then (False, t) else (True, insert_events batch t))"
| "event_lines dec flt i batch (l # ls) t =
     (let line = trim_space l
      in if line = [] then event_lines dec flt i batch ls t
         else (case dec line of
             None \<Rightarrow> event_lines dec flt i batch ls t
           | Some ev \<Rightarrow>
               (let batch' = batch @ [event_of ev]
                in if length batch' \<ge> 1000
                   then (if flt i then (False, t)
                         else event_lines dec flt (Suc i) [] ls (insert_events batch' t))
                   else event_lines dec flt i batch' ls t)))"

definition importEvents :: "import_world \<Rightarrow> string \<Rightarrow> import_db \<Rightarrow> import_db" where
  "importEvents w path = with_file path (\<lambda>data s.
     (case event_lines (im_event w) (\<lambda>i. im_flt w (InsertEvents i)) 0 [] (split_on (CHR 0x0A) data) (idb_events s) of
        (False, t) \<Rightarrow> s\<lparr>idb_events := t\<rparr>
      | (True, t) \<Rightarrow> file_done w path (s\<lparr>idb_events := t\<rparr>)))"

definition importLegacyStateFiles :: "import_world \<Rightarrow> dataPaths \<Rightarrow> import_db \<Rightarrow> import_db" where
  "importLegacyStateFiles w paths s =
     importEvents w (EventLogFile paths) (importBanHistory w (BanHistoryFile paths)
       (importIKuaiPolicy w (IKuaiPolicyFile paths) (importDenylist w (DenylistFile paths)
         (importGuestCodes w (GuestCodes paths) s))))"


section \<open>The import\<close>

text \<open>The sections are visited in the order of a map, which \<open>im_order\<close> chooses.\<close>

definition env_sections :: "(string \<Rightarrow> string) \<Rightarrow> (string \<times> Values) list" where
  "env_sections getenv =
     fold (\<lambda>d out.
        (let v = trim_space (getenv (sd_env d))
         in if sd_env d = [] \<or> v = [] then out
            else AList.update (sd_section d)
              (AList.update (sd_key d) v (case map_of out (sd_section d) of None \<Rightarrow> [] | Some m \<Rightarrow> m)) out))
       settingRegistry []"

definition importEnvSettings :: "import_world \<Rightarrow> settingRow list \<Rightarrow> nat \<times> settingRow list" where
  "importEnvSettings w tbl =
     fold (\<lambda>(sec, kvs) (n, t).
        (case Save (im_flt w (SaveEnv sec)) (im_store w) (im_nonce w sec) (im_now w) sec kvs ''system:env-import'' t of
           (Some _, t') \<Rightarrow> (n, t')
         | (None, t') \<Rightarrow> (n + length kvs, t')))
       (im_order w (env_sections (im_env w))) (0, tbl)"

fun import_defaults :: "import_world \<Rightarrow> (string \<times> Values) list \<Rightarrow> settingRow list \<Rightarrow> settings_error option \<times> settingRow list" where
  "import_defaults w [] tbl = (None, tbl)"
| "import_defaults w ((sec, kvs) # secs) tbl =
     (case Save (im_flt w (SaveDefaults sec)) (im_store w) (im_nonce w sec) (im_now w) sec kvs ''system:defaults'' tbl of
        (Some e, tbl') \<Rightarrow> (Some e, tbl')
      | (None, tbl') \<Rightarrow> import_defaults w secs tbl')"

datatype import_error = ImportCount | ImportDefaults settings_error

text \<open>\<open>dbstore.IsEmpty\<close>.\<close>

definition IsEmpty :: "bool \<Rightarrow> settingRow list \<Rightarrow> bool option" where
  "IsEmpty flt tbl = (if flt then None else Some (tbl = []))"

definition importLegacyState :: "import_world \<Rightarrow> dataPaths \<Rightarrow> import_db \<Rightarrow> import_error option \<times> import_db" where
  "importLegacyState w paths s =
     (case IsEmpty (im_flt w CountSettings) (idb_settings s) of
        None \<Rightarrow> (Some ImportCount, s)
      | Some False \<Rightarrow> (None, s)
      | Some True \<Rightarrow>
          (case import_defaults w (im_order w defaultSettingValues) (idb_settings s) of
             (Some e, tbl) \<Rightarrow> (Some (ImportDefaults e), s\<lparr>idb_settings := tbl\<rparr>)
           | (None, tbl) \<Rightarrow>
               (None, importLegacyStateFiles w paths
                        (s\<lparr>idb_settings := snd (importEnvSettings w tbl)\<rparr>))))"

section \<open>Batches\<close>

text \<open>An insert that can be cut into statements: what the rows do together they do one after the other.\<close>

locale batched =
  fixes ins :: "'r list \<Rightarrow> 'db \<Rightarrow> 'db option"
  assumes ins_Nil: "ins [] db = Some db' \<Longrightarrow> db' = db"
    and ins_append: "ins (xs @ ys) db = Option.bind (ins xs db) (ins ys)"
begin

lemma batches_all:
  assumes "0 < n" "ins rows db = Some db'"
  shows "create_batches ins n (\<lambda>_. False) i rows db = (True, db')"
  using assms(2)
proof (induction rows arbitrary: i db rule: measure_induct_rule [of length])
  case (less rows)
  show ?case
  proof (cases "rows = []")
    case True
    with less.prems ins_Nil have "db' = db" by blast
    with True show ?thesis by (simp add: create_batches.simps)
  next
    case False
    have "Option.bind (ins (take n rows) db) (ins (drop n rows)) = Some db'"
      using ins_append [of "take n rows" "drop n rows" db] less.prems by simp
    then obtain db1 where "ins (take n rows) db = Some db1" "ins (drop n rows) db1 = Some db'"
      by (cases "ins (take n rows) db") auto
    with less.IH [of "drop n rows"] False assms(1) show ?thesis
      by (subst create_batches.simps) simp
  qed
qed

end

lemma insert_rows_append:
  "insert_rows key (xs @ ys) tbl = Option.bind (insert_rows key xs tbl) (insert_rows key ys)"
  by (auto simp: insert_rows_def unique_by_def)

interpretation row_batches: batched "insert_rows key"
proof unfold_locales
  show "insert_rows key [] tbl = Some tbl' \<Longrightarrow> tbl' = tbl" for tbl tbl' :: "'a list"
    by (auto simp: insert_rows_def split: if_splits)
qed (rule insert_rows_append)

interpretation code_batches: batched "insert_codes now"
proof unfold_locales
  show "insert_codes now [] db = Some db' \<Longrightarrow> db' = db" for db db'
    by (auto simp: insert_codes_def insert_rows_def split: if_splits)
  show "insert_codes now (xs @ ys) db = Option.bind (insert_codes now xs db) (insert_codes now ys)" for xs ys db
    by (cases "insert_rows r_lower (map (code_before_save now) xs) (db_codes db)")
       (simp_all add: insert_codes_def insert_rows_append)
qed

lemma add_uses_append: "add_uses now (xs @ ys) db = add_uses now ys (add_uses now xs db)"
  by (induction xs arbitrary: db) simp_all

interpretation use_batches: batched "insert_uses now"
  by unfold_locales (auto simp: insert_uses_def add_uses_append split: if_splits)

section \<open>The imported codes\<close>

text \<open>A code of the file as the portal shows it, and as a row.\<close>

definition use_view :: "legacyCodeUse \<Rightarrow> CodeUse" where
  "use_view u = \<lparr>cu_at = lu_at u, cu_mac = lu_mac u, cu_ip = lu_ip u, cu_upn = lu_upn u\<rparr>"

definition code_view :: "legacyGuestCode \<Rightarrow> GuestCode" where
  "code_view c =
     \<lparr>c_code = lc_code c, c_created = lc_created c, c_expires = lc_expires c, c_duration = lc_duration c,
      c_max = lc_max c, c_note = lc_note c, c_uses = sort_key cu_at (map use_view (lc_uses c))\<rparr>"

definition imported_row :: "legacyGuestCode \<Rightarrow> gcRow" where
  "imported_row c = (legacy_row c)\<lparr>r_lower := normalizeCode (lc_code c)\<rparr>"

lemma imported_row_simps [simp]:
  "r_code (imported_row c) = lc_code c" "r_lower (imported_row c) = normalizeCode (lc_code c)"
  "r_created (imported_row c) = lc_created c" "r_duration (imported_row c) = lc_duration c"
  "r_max (imported_row c) = lc_max c" "r_note (imported_row c) = lc_note c"
  "r_expires (imported_row c) = (if is_zero (lc_expires c) then None else Some (lc_expires c))"
  by (simp_all add: imported_row_def legacy_row_def)

text \<open>A file the import can take: the keys of its codes differ and no time is missing.\<close>

definition good_codes :: "legacyGuestCode list \<Rightarrow> bool" where
  "good_codes codes \<longleftrightarrow> distinct (map (\<lambda>c. normalizeCode (lc_code c)) codes) \<and>
     (\<forall>c\<in>set codes. normalizeCode (lc_code c) \<noteq> [] \<and> \<not> is_zero (lc_created c) \<and>
        (\<forall>u\<in>set (lc_uses c). \<not> is_zero (lu_at u)))"

definition fresh_codes :: gcDB where
  "fresh_codes = \<lparr>db_codes = [], db_uses = [], db_next = 1\<rparr>"

definition codes_db :: "legacyGuestCode list \<Rightarrow> gcDB" where
  "codes_db codes = fresh_codes\<lparr>db_codes := map imported_row codes\<rparr>"

lemma good_codes_rows:
  assumes "good_codes codes"
  shows "map (code_before_save now) (map legacy_row codes) = map imported_row codes"
    and "insert_codes now (map legacy_row codes) fresh_codes = Some (codes_db codes)"
proof -
  show rows: "map (code_before_save now) (map legacy_row codes) = map imported_row codes"
    using assms by (simp add: good_codes_def code_before_save_def legacy_row_def imported_row_def)
  have "map r_lower (map imported_row codes) = map (\<lambda>c. normalizeCode (lc_code c)) codes" by simp
  then have "unique_by r_lower (map imported_row codes)"
    using assms unfolding unique_by_def good_codes_def by metis
  then show "insert_codes now (map legacy_row codes) fresh_codes = Some (codes_db codes)"
    unfolding insert_codes_def rows by (simp add: insert_rows_def codes_db_def fresh_codes_def)
qed

lemma all_uses_known:
  "u_code ` set (concat (map legacy_uses codes)) \<subseteq> r_code ` set (db_codes (codes_db codes))"
proof -
  have "r_code ` set (db_codes (codes_db codes)) = lc_code ` set codes"
    by (simp add: codes_db_def fresh_codes_def image_image)
  then show ?thesis by (auto simp: legacy_uses_def legacy_use_def)
qed

text \<open>The codes table after an import in which every statement succeeds.\<close>

lemma codes_imported:
  assumes "good_codes codes" "readLegacyFile (idb_disk s) path = Some data" "data \<noteq> []"
    and "im_codes w data = Some codes" "idb_codes s = fresh_codes" "\<And>i. \<not> im_flt w (InsertCodes i)"
  shows "(\<forall>i. \<not> im_flt w (InsertUses i)) \<Longrightarrow>
      idb_codes (importGuestCodes w path s) = add_uses (im_now w) (concat (map legacy_uses codes)) (codes_db codes)"
proof -
  have flt: "(\<lambda>i. im_flt w (InsertCodes i)) = (\<lambda>_. False)" using assms(6) by simp
  have rows: "create_batches (insert_codes (im_now w)) 200 (\<lambda>i. im_flt w (InsertCodes i)) 0
      (map legacy_row codes) (idb_codes s) = (True, codes_db codes)"
    unfolding flt by (rule code_batches.batches_all) (simp_all add: assms(5) good_codes_rows(2) [OF assms(1)])
  note step = importGuestCodes_def with_file_def file_done_def assms(2,3,4) rows
  show "(\<forall>i. \<not> im_flt w (InsertUses i)) \<Longrightarrow>
      idb_codes (importGuestCodes w path s) = add_uses (im_now w) (concat (map legacy_uses codes)) (codes_db codes)"
  proof -
    assume "\<forall>i. \<not> im_flt w (InsertUses i)"
    then have "(\<lambda>i. im_flt w (InsertUses i)) = (\<lambda>_. False)" by simp
    moreover have "create_batches (insert_uses (im_now w)) 500 (\<lambda>_. False) 0 (concat (map legacy_uses codes)) (codes_db codes) =
        (True, add_uses (im_now w) (concat (map legacy_uses codes)) (codes_db codes))"
      using all_uses_known [of codes] by (intro use_batches.batches_all) (simp_all add: insert_uses_def)
    ultimately show ?thesis by (simp add: step)
  qed
qed

lemma uses_of_add_uses:
  "map toDomainUse (uses_of code (add_uses now us db)) =
     map toDomainUse (uses_of code db) @ map (\<lambda>u. toDomainUse (use_before_save now u)) (filter (\<lambda>u. u_code u = code) us)"
  by (induction us arbitrary: db) (auto simp: uses_of_def toDomainUse_def)

lemma filter_legacy_uses:
  assumes "distinct (map lc_code codes)" "c \<in> set codes"
  shows "filter (\<lambda>u. u_code u = lc_code c) (concat (map legacy_uses codes)) = legacy_uses c"
  using assms
proof (induction codes)
  case Nil
  then show ?case by simp
next
  case (Cons d ds)
  have same: "filter (\<lambda>u. u_code u = lc_code d) (legacy_uses d) = legacy_uses d"
    by (simp add: legacy_uses_def legacy_use_def)
  have other: "filter (\<lambda>u. u_code u = lc_code x) (legacy_uses y) = []" if "lc_code x \<noteq> lc_code y" for x y
    using that by (auto simp: legacy_uses_def legacy_use_def filter_empty_conv)
  have none: "filter (\<lambda>u. u_code u = lc_code d) (concat (map legacy_uses ds)) = []"
    using Cons.prems(1) other by (force simp: filter_empty_conv)
  show ?case
  proof (cases "c = d")
    case True
    with same none show ?thesis by simp
  next
    case False
    then have "c \<in> set ds" using Cons.prems(2) by simp
    moreover from this have "lc_code c \<noteq> lc_code d" using Cons.prems(1) by (force simp: image_iff)
    ultimately have "c \<in> set ds" "lc_code c \<noteq> lc_code d" by simp_all
    with Cons other [of c d] show ?thesis by simp
  qed
qed

lemma good_codes_distinct: "good_codes codes \<Longrightarrow> distinct (map lc_code codes)"
  by (auto simp: good_codes_def distinct_map inj_on_def)

text \<open>Every code is shown as in the file, with its history or without.\<close>

definition history_db :: "time \<Rightarrow> legacyGuestCode list \<Rightarrow> gcDB" where
  "history_db now codes = add_uses now (concat (map legacy_uses codes)) (codes_db codes)"

lemma history_codes [simp]: "db_codes (history_db now codes) = map imported_row codes"
  by (simp add: history_db_def codes_db_def)

lemma history_of_code:
  assumes "good_codes codes" "c \<in> set codes"
  shows "map toDomainUse (uses_of (lc_code c) (history_db now codes)) = map use_view (lc_uses c)"
proof -
  have "toDomainUse (use_before_save now (legacy_use (lc_code c) u)) = use_view u" if "u \<in> set (lc_uses c)" for u
    using assms that by (auto simp: good_codes_def use_before_save_def legacy_use_def toDomainUse_def use_view_def)
  then show ?thesis
    by (simp add: history_db_def uses_of_add_uses filter_legacy_uses [OF good_codes_distinct [OF assms(1)] assms(2)])
       (simp add: uses_of_def codes_db_def fresh_codes_def legacy_uses_def)
qed

lemma imported_view:
  assumes "good_codes codes" "c \<in> set codes"
  shows "full_view (history_db now codes) (imported_row c) = code_view c"
proof -
  have "map toDomainUse (sort_key u_at us) = sort_key cu_at (map toDomainUse us)" for us
    by (simp add: sort_key_map) (simp add: toDomainUse_def)
  then show ?thesis
    using history_of_code [OF assms, of now]
    by (simp add: full_view_def toDomainCode_def code_view_def is_zero_def)
qed

lemma wf_codes_db: "good_codes codes \<Longrightarrow> wf_gc (codes_db codes)"
  unfolding codes_db_def
  by (intro wf_gcI) (auto simp: good_codes_def fresh_codes_def is_zero_def unique_by_def comp_def split: if_splits)

lemma wf_history_db: "good_codes codes \<Longrightarrow> wf_gc (history_db now codes)"
  unfolding history_db_def by (intro wf_add_uses wf_codes_db all_uses_known)

lemma find_imported:
  assumes "good_codes codes" "c \<in> set codes"
  shows "find (\<lambda>r. r_lower r = normalizeCode (lc_code c)) (map imported_row codes) = Some (imported_row c)"
proof (rule find_unique)
  show "unique_by r_lower (map imported_row codes)"
    using assms(1) by (simp add: unique_by_def good_codes_def comp_def)
qed (use assms(2) in auto)

lemma redeem_imported:
  assumes "good_codes codes" "c \<in> set codes" "wf_gc db" "db_codes db = map imported_row codes"
  shows "fst (Validate (\<lambda>_. False) now (lc_code c) mac ip upn db) \<noteq> None \<longleftrightarrow>
    \<not> IsExpired now (code_view c) \<and> (lc_max c > 0 \<longrightarrow> int (length (uses_of (lc_code c) db)) < lc_max c)"
proof -
  have "redeemable now db (imported_row c) \<longleftrightarrow>
      \<not> IsExpired now (code_view c) \<and> (lc_max c > 0 \<longrightarrow> int (length (uses_of (lc_code c) db)) < lc_max c)"
    by (simp add: redeemable_def IsExpired_def code_view_def after_def not_less)
  then show ?thesis
    by (simp add: Validate_library [OF assms(3)] assms(4) find_imported [OF assms(1,2)] Let_def)
qed

lemma redeem_history:
  assumes "good_codes codes" "c \<in> set codes"
  shows "fst (Validate (\<lambda>_. False) t (lc_code c) mac ip upn (history_db now codes)) \<noteq> None \<longleftrightarrow> IsActive t (code_view c)"
proof -
  have "length (uses_of (lc_code c) (history_db now codes)) = length (lc_uses c)"
    using arg_cong [OF history_of_code [OF assms, of now], of length] by simp
  then show ?thesis
    using redeem_imported [OF assms wf_history_db [OF assms(1)]]
    by (simp add: IsActive_def IsExhausted_def code_view_def not_le)
qed

text \<open>The other four files do not touch the codes, and none touches the settings.\<close>

lemma other_files [simp]:
  "idb_codes (importDenylist w path s) = idb_codes s" "idb_codes (importIKuaiPolicy w path s) = idb_codes s"
  "idb_codes (importBanHistory w path s) = idb_codes s" "idb_codes (importEvents w path s) = idb_codes s"
  by (simp_all add: importDenylist_def importIKuaiPolicy_def importBanHistory_def importEvents_def with_file_def
      file_done_def Let_def split: option.split bool.split prod.split)

lemma files_keep_settings [simp]:
  "idb_settings (importGuestCodes w path s) = idb_settings s"
  "idb_settings (importDenylist w path s) = idb_settings s" "idb_settings (importIKuaiPolicy w path s) = idb_settings s"
  "idb_settings (importBanHistory w path s) = idb_settings s" "idb_settings (importEvents w path s) = idb_settings s"
  by (simp_all add: importGuestCodes_def importDenylist_def importIKuaiPolicy_def importBanHistory_def importEvents_def
      with_file_def file_done_def Let_def split: option.split bool.split prod.split)

lemma state_files [simp]:
  "idb_settings (importLegacyStateFiles w paths s) = idb_settings s"
  "idb_codes (importLegacyStateFiles w paths s) = idb_codes (importGuestCodes w (GuestCodes paths) s)"
  by (simp_all add: importLegacyStateFiles_def)

text \<open>The other four imports do not read the codes, and leave the file of the codes where it is.\<close>

lemma other_files_frame:
  "importDenylist w path (s\<lparr>idb_codes := db\<rparr>) = (importDenylist w path s)\<lparr>idb_codes := db\<rparr>"
  "importIKuaiPolicy w path (s\<lparr>idb_codes := db\<rparr>) = (importIKuaiPolicy w path s)\<lparr>idb_codes := db\<rparr>"
  "importBanHistory w path (s\<lparr>idb_codes := db\<rparr>) = (importBanHistory w path s)\<lparr>idb_codes := db\<rparr>"
  "importEvents w path (s\<lparr>idb_codes := db\<rparr>) = (importEvents w path s)\<lparr>idb_codes := db\<rparr>"
  by (simp_all add: importDenylist_def importIKuaiPolicy_def importBanHistory_def importEvents_def with_file_def
      file_done_def Let_def split: option.split bool.split prod.split)

lemma other_files_disk:
  assumes "f \<noteq> path" "f \<noteq> path @ ''.migrated''"
  shows "idb_disk (importDenylist w path s) f = idb_disk s f" "idb_disk (importIKuaiPolicy w path s) f = idb_disk s f"
    "idb_disk (importBanHistory w path s) f = idb_disk s f" "idb_disk (importEvents w path s) f = idb_disk s f"
  using assms
  by (simp_all add: importDenylist_def importIKuaiPolicy_def importBanHistory_def importEvents_def with_file_def
      file_done_def markMigrated_def Let_def split: option.split bool.split prod.split)

lemma uses_fault_settings:
  "import_defaults (w\<lparr>im_flt := (im_flt w)(InsertUses k := b)\<rparr>) secs tbl = import_defaults w secs tbl"
  "importEnvSettings (w\<lparr>im_flt := (im_flt w)(InsertUses k := b)\<rparr>) tbl = importEnvSettings w tbl"
  by (induction secs arbitrary: tbl) (auto simp: importEnvSettings_def split: prod.split option.split)

lemma uses_fault_other:
  "importDenylist (w\<lparr>im_flt := (im_flt w)(InsertUses k := b)\<rparr>) path s = importDenylist w path s"
  "importIKuaiPolicy (w\<lparr>im_flt := (im_flt w)(InsertUses k := b)\<rparr>) path s = importIKuaiPolicy w path s"
  "importBanHistory (w\<lparr>im_flt := (im_flt w)(InsertUses k := b)\<rparr>) path s = importBanHistory w path s"
  "importEvents (w\<lparr>im_flt := (im_flt w)(InsertUses k := b)\<rparr>) path s = importEvents w path s"
  by (simp_all add: importDenylist_def importIKuaiPolicy_def importBanHistory_def importEvents_def with_file_def
      file_done_def Let_def split: option.split bool.split prod.split)

text \<open>The import of the files with the first statement of the history failing, against the one without.\<close>

lemma uses_fault_files:
  assumes "good_codes codes" "readLegacyFile (idb_disk s) (GuestCodes paths) = Some data" "data \<noteq> []"
    and "im_codes w data = Some codes" "idb_codes s = fresh_codes" "\<forall>i. \<not> im_flt w (InsertCodes i)" "im_flt w (InsertUses 0)"
    and "\<not> im_flt w (RenameFile (GuestCodes paths))" "paths = makeDataPaths ((@) dir)"
  shows "importLegacyStateFiles w paths s =
      (importLegacyStateFiles (w\<lparr>im_flt := (im_flt w)(InsertUses 0 := False)\<rparr>) paths s)\<lparr>idb_codes := codes_db codes\<rparr>"
    and "idb_disk (importLegacyStateFiles (w\<lparr>im_flt := (im_flt w)(InsertUses 0 := False)\<rparr>) paths s) (GuestCodes paths) = NoFile"
    and "idb_disk (importLegacyStateFiles (w\<lparr>im_flt := (im_flt w)(InsertUses 0 := False)\<rparr>) paths s)
      (GuestCodes paths @ ''.migrated'') = Bytes data"
proof -
  let ?w = "w\<lparr>im_flt := (im_flt w)(InsertUses 0 := False)\<rparr>"
  have flt: "(\<lambda>i. im_flt w (InsertCodes i)) = (\<lambda>_. False)" using assms(6) by simp
  have rows: "create_batches (insert_codes (im_now w)) 200 (\<lambda>i. im_flt w (InsertCodes i)) 0
      (map legacy_row codes) (idb_codes s) = (True, codes_db codes)"
    unfolding flt by (rule code_batches.batches_all) (simp_all add: assms(5) good_codes_rows(2) [OF assms(1)])
  have lost: "snd (create_batches (insert_uses (im_now w)) 500 (\<lambda>i. im_flt w (InsertUses i)) 0 us db) = db" for us db
    using assms(7) by (subst create_batches.simps) simp
  define after where "after = file_done w (GuestCodes paths) s"
  have faulty: "importGuestCodes w (GuestCodes paths) s = after\<lparr>idb_codes := codes_db codes\<rparr>"
    by (simp add: importGuestCodes_def with_file_def assms(2-4) rows lost file_done_def after_def)
  have "\<exists>db. importGuestCodes ?w (GuestCodes paths) s = after\<lparr>idb_codes := db\<rparr>"
    by (rule exI [where x = "idb_codes (importGuestCodes ?w (GuestCodes paths) s)"])
       (simp add: importGuestCodes_def with_file_def assms(2-4) rows file_done_def after_def)
  then obtain db where whole: "importGuestCodes ?w (GuestCodes paths) s = after\<lparr>idb_codes := db\<rparr>" by blast
  show "importLegacyStateFiles w paths s = (importLegacyStateFiles ?w paths s)\<lparr>idb_codes := codes_db codes\<rparr>"
    by (simp add: importLegacyStateFiles_def uses_fault_other faulty whole other_files_frame)
  have disk: "idb_disk after (GuestCodes paths) = NoFile" "idb_disk after (GuestCodes paths @ ''.migrated'') = Bytes data"
    using assms(2,3,8) by (auto simp: after_def file_done_def markMigrated_def readLegacyFile_def assms(9) makeDataPaths_def
        split: disk_file.splits if_splits)
  have apart: "idb_disk (importLegacyStateFiles ?w paths s) f = idb_disk after f"
    if "f = GuestCodes paths \<or> f = GuestCodes paths @ ''.migrated''" for f
    using that whole by (auto simp: importLegacyStateFiles_def uses_fault_other other_files_disk assms(9) makeDataPaths_def)
  show "idb_disk (importLegacyStateFiles ?w paths s) (GuestCodes paths) = NoFile"
    "idb_disk (importLegacyStateFiles ?w paths s) (GuestCodes paths @ ''.migrated'') = Bytes data"
    using apart disk by auto
qed

lemma import_defaults_not_empty:
  "import_defaults w secs tbl = (None, tbl') \<Longrightarrow> tbl \<noteq> [] \<or> (secs \<noteq> [] \<and> (\<forall>x\<in>set secs. snd x \<noteq> [])) \<Longrightarrow> tbl' \<noteq> []"
proof (induction w secs tbl rule: import_defaults.induct)
  case (1 w tbl)
  then show ?case by simp
next
  case (2 w sec kvs secs tbl)
  let ?save = "Save (im_flt w (SaveDefaults sec)) (im_store w) (im_nonce w sec) (im_now w) sec kvs ''system:defaults'' tbl"
  obtain t where t: "?save = (None, t)" using "2.prems"(1) by (cases ?save; cases "fst ?save") auto
  have "snd ?save \<noteq> []" by (rule Save_not_empty) (use t "2.prems"(2) in auto)
  then have "t \<noteq> []" by (simp add: t)
  with 2 t show ?case by simp
qed

lemma env_import_not_empty: "tbl \<noteq> [] \<Longrightarrow> snd (importEnvSettings w tbl) \<noteq> []"
proof -
  let ?f = "\<lambda>(sec, kvs) (n, t).
        (case Save (im_flt w (SaveEnv sec)) (im_store w) (im_nonce w sec) (im_now w) sec kvs ''system:env-import'' t of
           (Some _, t') \<Rightarrow> (n, t')
         | (None, t') \<Rightarrow> (n + length kvs, t'))"
  have step: "snd (?f x p) \<noteq> []" if "snd p \<noteq> []" for x p
    using that Save_not_empty [of "snd p" "snd x" "im_flt w (SaveEnv (fst x))" "im_store w" "im_nonce w (fst x)" "im_now w" "fst x" "''system:env-import''"]
    by (auto simp: case_prod_beta split: prod.split option.split)
  have "snd (fold ?f secs p) \<noteq> []" if "snd p \<noteq> []" for secs p
    using that by (induction secs arbitrary: p) (auto simp: step simp del: split_paired_All)
  then show "tbl \<noteq> [] \<Longrightarrow> snd (importEnvSettings w tbl) \<noteq> []" by (simp add: importEnvSettings_def)
qed

lemma default_sections: "defaultSettingValues \<noteq> []" "\<forall>x\<in>set defaultSettingValues. snd x \<noteq> []"
  by code_simp+

section \<open>Properties\<close>

lemma importLegacyState_ok:
  assumes "importLegacyState w paths s = (None, s')" "\<forall>kvs. set (im_order w kvs) = set kvs"
  obtains "idb_settings s \<noteq> []" "s' = s"
  | tbl where "idb_settings s = []" "tbl \<noteq> []" "s' = importLegacyStateFiles w paths (s\<lparr>idb_settings := tbl\<rparr>)"
proof (cases "idb_settings s = []")
  case True
  obtain tbl where tbl: "import_defaults w (im_order w defaultSettingValues) [] = (None, tbl)"
    "s' = importLegacyStateFiles w paths (s\<lparr>idb_settings := snd (importEnvSettings w tbl)\<rparr>)"
    using assms(1) True
    by (auto simp: importLegacyState_def IsEmpty_def split: if_splits prod.splits option.splits)
  have "set (im_order w defaultSettingValues) = set defaultSettingValues" using assms(2) by blast
  then have "im_order w defaultSettingValues \<noteq> []" "\<forall>x\<in>set (im_order w defaultSettingValues). snd x \<noteq> []"
    using default_sections by auto
  with import_defaults_not_empty [OF tbl(1)] have "tbl \<noteq> []" by blast
  with that(2) [OF True env_import_not_empty tbl(2)] show thesis by blast
next
  case False
  with assms(1) that(1) show thesis
    by (auto simp: importLegacyState_def IsEmpty_def split: if_splits)
qed

lemma import_stops: "idb_settings s \<noteq> [] \<Longrightarrow> snd (importLegacyState w paths s) = s"
  by (simp add: importLegacyState_def IsEmpty_def)

lemma failed_codes: "im_flt w (InsertCodes 0) \<Longrightarrow> idb_codes (importGuestCodes w path s) = idb_codes s"
proof -
  assume f: "im_flt w (InsertCodes 0)"
  have "create_batches (insert_codes now) 200 (\<lambda>i. im_flt w (InsertCodes i)) 0 rows db = (rows = [], db)" for now rows db
    using f by (subst create_batches.simps) simp
  then show "idb_codes (importGuestCodes w path s) = idb_codes s"
    by (auto simp: importGuestCodes_def with_file_def file_done_def split: option.split bool.split)
qed

text \<open>An installation with one code, used once of the one time it may be.\<close>

definition demo_legacy_code :: legacyGuestCode where
  "demo_legacy_code =
     \<lparr>lc_code = ''ABC1'', lc_created = 5, lc_expires = zero_time, lc_duration = 60, lc_max = 1, lc_note = [],
      lc_uses = [\<lparr>lu_at = 7, lu_mac = [], lu_ip = [], lu_upn = ''Guest-1''\<rparr>]\<rparr>"

definition demo_import :: "(import_stmt \<Rightarrow> bool) \<Rightarrow> import_world" where
  "demo_import flt =
     \<lparr>im_flt = flt, im_now = 9, im_env = (\<lambda>_. []),
      im_store = \<lparr>so_aead = demo_aead, so_keys = None, so_secrets = isSecretSetting\<rparr>, im_nonce = (\<lambda>_ _. None),
      im_order = (\<lambda>kvs. kvs), im_codes = (\<lambda>_. Some [demo_legacy_code]), im_macs = (\<lambda>_. None), im_policies = (\<lambda>_. None),
      im_history = (\<lambda>_. None), im_event = (\<lambda>_. None)\<rparr>"

definition demo_paths :: dataPaths where "demo_paths = makeDataPaths (\<lambda>name. ''/data/'' @ name)"

definition demo_import_db :: import_db where
  "demo_import_db =
     \<lparr>idb_settings = [], idb_codes = fresh_codes, idb_macs = [], idb_policies = [], idb_history = [],
      idb_events = \<lparr>et_rows = [], et_next = 1\<rparr>, idb_disk = (\<lambda>_. Bytes ''[]'')\<rparr>"

lemma demo_import_simps: "im_flt (demo_import flt) = flt" "so_keys (im_store (demo_import flt)) = None"
  "im_order (demo_import flt) = (\<lambda>kvs. kvs)"
  by (simp_all add: demo_import_def)

lemma demo_good_codes: "good_codes [demo_legacy_code]"
  by code_simp

lemma plain_defaults:
  "\<forall>sec. \<not> im_flt w (SaveDefaults sec) \<Longrightarrow> so_keys (im_store w) = None \<Longrightarrow> fst (import_defaults w secs tbl) = None"
proof (induction w secs tbl rule: import_defaults.induct)
  case (1 w tbl)
  then show ?case by simp
next
  case (2 w sec kvs secs tbl)
  then have "fst (Save (im_flt w (SaveDefaults sec)) (im_store w) (im_nonce w sec) (im_now w) sec kvs ''system:defaults'' tbl) = None"
    by (simp add: Save_keyless)
  with 2 show ?case by (auto split: prod.split option.split)
qed

lemma demo_import_ok:
  assumes "\<forall>sec. \<not> flt (SaveDefaults sec)" "\<not> flt CountSettings"
  shows "\<exists>s'. importLegacyState (demo_import flt) demo_paths demo_import_db = (None, s')"
proof -
  obtain tbl where "import_defaults (demo_import flt) (im_order (demo_import flt) defaultSettingValues) [] = (None, tbl)"
    using plain_defaults [of "demo_import flt" _ "[]"] assms(1) by (metis demo_import_simps prod.collapse)
  with assms(2) show ?thesis
    by (simp add: importLegacyState_def IsEmpty_def) (simp add: demo_import_def demo_import_db_def)
qed

text \<open>The batches are not one transaction: when the second fails, the codes of the first stay, without their
  history, and the file is left in place.\<close>

lemma half_imported:
  assumes "good_codes codes" "readLegacyFile (idb_disk s) path = Some data" "data \<noteq> []"
    and "im_codes w data = Some codes" "idb_codes s = fresh_codes" "200 < length codes"
    and "\<not> im_flt w (InsertCodes 0)" "im_flt w (InsertCodes 1)"
  shows "importGuestCodes w path s = s\<lparr>idb_codes := codes_db (take 200 codes)\<rparr>"
proof -
  have "good_codes (take 200 codes)"
    using assms(1) by (auto simp: good_codes_def take_map [symmetric] distinct_take dest: in_set_takeD)
  then have first: "insert_codes (im_now w) (take 200 (map legacy_row codes)) fresh_codes = Some (codes_db (take 200 codes))"
    using good_codes_rows(2) by (simp add: take_map)
  have rest: "drop 200 (map legacy_row codes) \<noteq> []" "map legacy_row codes \<noteq> []" using assms(6) by auto
  have second: "create_batches ins n (\<lambda>i. im_flt w (InsertCodes i)) (Suc 0) rows db = (False, db)"
    if "rows \<noteq> []" "n \<noteq> 0" for ins n and rows :: "gcRow list" and db :: gcDB
    using that assms(8) by (subst create_batches.simps) simp
  have "create_batches (insert_codes (im_now w)) 200 (\<lambda>i. im_flt w (InsertCodes i)) 0 (map legacy_row codes) fresh_codes =
      (False, codes_db (take 200 codes))"
    using first rest assms(7) second [OF rest(1)] by (subst create_batches.simps) simp
  then show ?thesis by (simp add: importGuestCodes_def with_file_def assms(2-5))
qed

text \<open>The import runs once.  A successful import leaves at least one setting behind, so no later start
  imports anything: not after the administrator deleted everything, and not when the import of a file
  had failed.  In particular guest codes whose insert failed are not imported by any later start,
  although a failed file is documented as being retried by the next start.\<close>

theorem import_once:
  assumes "importLegacyState w paths s = (None, s')" "\<forall>kvs. set (im_order w kvs) = set kvs"
  shows "idb_settings s' \<noteq> [] \<and>
    (\<forall>s2 w' paths'. idb_settings s2 = idb_settings s' \<longrightarrow> snd (importLegacyState w' paths' s2) = s2) \<and>
    (im_flt w (InsertCodes 0) \<longrightarrow> idb_codes s' = idb_codes s)"
  using assms
proof (cases rule: importLegacyState_ok [consumes 2])
  case 1
  then show ?thesis by (simp add: import_stops)
next
  case (2 tbl)
  then show ?thesis by (simp add: import_stops failed_codes)
qed

theorem import_once_witness:
  "\<exists>s'. importLegacyState (demo_import (\<lambda>st. st = InsertCodes 0)) demo_paths demo_import_db = (None, s') \<and>
     idb_codes s' = fresh_codes \<and> snd (importLegacyState (demo_import (\<lambda>_. False)) demo_paths s') = s'"
proof -
  obtain s' where s': "importLegacyState (demo_import (\<lambda>st. st = InsertCodes 0)) demo_paths demo_import_db = (None, s')"
    using demo_import_ok [of "\<lambda>st. st = InsertCodes 0"] by auto
  with import_once [OF s'] show ?thesis by (auto simp: demo_import_simps demo_import_db_def)
qed

text \<open>C38: No code is lost.  When the statements succeed and the codes of the file have different keys and no
  time is missing, however many they are, the portal lists after the import exactly the codes of the
  file, each with its expiry, limits, note and history, and accepts a code at any later time exactly when
  the file says that it is neither expired nor used up.\<close>

theorem codes_preserved:
  assumes "importLegacyState w paths s = (None, s')" "\<forall>kvs. set (im_order w kvs) = set kvs"
    and "idb_settings s = []" "idb_codes s = fresh_codes"
    and "readLegacyFile (idb_disk s) (GuestCodes paths) = Some data" "data \<noteq> []"
    and "im_codes w data = Some codes" "good_codes codes"
    and "\<forall>i. \<not> im_flt w (InsertCodes i) \<and> \<not> im_flt w (InsertUses i)"
  shows "set (List_codes False False (idb_codes s')) = code_view ` set codes \<and> wf_gc (idb_codes s') \<and>
    (\<forall>c t mac ip upn. c \<in> set codes \<longrightarrow>
       (fst (Validate (\<lambda>_. False) t (lc_code c) mac ip upn (idb_codes s')) \<noteq> None \<longleftrightarrow> IsActive t (code_view c)))"
  using assms(1,2)
proof (cases rule: importLegacyState_ok [consumes 2])
  case 1
  with assms(3) show ?thesis by simp
next
  case (2 tbl)
  have db: "idb_codes s' = history_db (im_now w) codes"
    using codes_imported [OF assms(8), of "s\<lparr>idb_settings := tbl\<rparr>" "GuestCodes paths" data w] assms
    by (simp add: 2 history_db_def)
  have "set (List_codes False False (idb_codes s')) = full_view (history_db (im_now w) codes) ` imported_row ` set codes"
    by (simp add: db List_codes_ok codes_order_def)
  also have "\<dots> = code_view ` set codes"
    using imported_view [OF assms(8), of _ "im_now w"] by (simp add: image_image)
  finally show ?thesis
    using wf_history_db [OF assms(8)] redeem_history [OF assms(8)] by (simp add: db)
qed

theorem codes_preserved_witness:
  "fst (Validate (\<lambda>_. False) 10 ''ABC1'' [] [] [] (idb_codes (snd
     (importLegacyState (demo_import (\<lambda>_. False)) demo_paths demo_import_db)))) = None"
proof -
  obtain s' where s': "importLegacyState (demo_import (\<lambda>_. False)) demo_paths demo_import_db = (None, s')"
    using demo_import_ok [of "\<lambda>_. False"] by auto
  have demo: "im_codes (demo_import (\<lambda>_. False)) ''[]'' = Some [demo_legacy_code]" "idb_settings demo_import_db = []"
    "idb_codes demo_import_db = fresh_codes" "readLegacyFile (idb_disk demo_import_db) (GuestCodes demo_paths) = Some ''[]''"
    by (simp_all add: demo_import_def demo_import_db_def readLegacyFile_def demo_paths_def makeDataPaths_def)
  have "\<not> IsActive 10 (code_view demo_legacy_code)" "lc_code demo_legacy_code = ''ABC1''"
    by (simp_all add: IsActive_def IsExhausted_def code_view_def demo_legacy_code_def)
  moreover have "fst (Validate (\<lambda>_. False) 10 (lc_code demo_legacy_code) [] [] [] (idb_codes s')) \<noteq> None \<longleftrightarrow>
      IsActive 10 (code_view demo_legacy_code)"
    using codes_preserved [OF s' _ demo(2,3,4) _ demo(1) demo_good_codes] by (simp add: demo_import_simps)
  ultimately show ?thesis by (simp add: s')
qed

text \<open>C39: A lost history readmits used codes.  Take an import that succeeds, in which every batch of codes is
  written and the file is renamed, and let the first statement of the history of the codes fail.  The
  import still succeeds and all else is the same: the settings, the other tables and the disk, where the
  file of the codes is put away although their history was not stored.  The portal then accepts every
  code of the file exactly until it expires, however often it had been used, since the limit of uses is
  counted over the history.  The five files are in one directory, there were no settings and no codes before, and the
  codes of the file have different keys and no missing time.\<close>

theorem lost_history_readmits:
  assumes "importLegacyState (w\<lparr>im_flt := (im_flt w)(InsertUses 0 := False)\<rparr>) paths s = (None, s0)"
    and "paths = makeDataPaths ((@) dir)"
    and "idb_settings s = []" "idb_codes s = fresh_codes"
    and "readLegacyFile (idb_disk s) (GuestCodes paths) = Some data" "data \<noteq> []"
    and "im_codes w data = Some codes" "good_codes codes"
    and "\<forall>i. \<not> im_flt w (InsertCodes i)" "\<not> im_flt w (RenameFile (GuestCodes paths))" "im_flt w (InsertUses 0)"
    and "c \<in> set codes"
  shows "\<exists>db. importLegacyState w paths s = (None, s0\<lparr>idb_codes := db\<rparr>) \<and>
    idb_disk s0 (GuestCodes paths) = NoFile \<and> idb_disk s0 (GuestCodes paths @ ''.migrated'') = Bytes data \<and>
    (\<forall>t mac ip upn. fst (Validate (\<lambda>_. False) t (lc_code c) mac ip upn db) \<noteq> None \<longleftrightarrow> \<not> IsExpired t (code_view c))"
proof -
  let ?w = "w\<lparr>im_flt := (im_flt w)(InsertUses 0 := False)\<rparr>"
  obtain tbl where run: "s0 = importLegacyStateFiles ?w paths (s\<lparr>idb_settings := tbl\<rparr>)"
    "importLegacyState w paths s = (None, importLegacyStateFiles w paths (s\<lparr>idb_settings := tbl\<rparr>))"
    using assms(1,3) by (auto simp: importLegacyState_def IsEmpty_def uses_fault_settings split: if_splits prod.splits option.splits)
  have read: "readLegacyFile (idb_disk (s\<lparr>idb_settings := tbl\<rparr>)) (GuestCodes paths) = Some data" "idb_codes (s\<lparr>idb_settings := tbl\<rparr>) = fresh_codes"
    using assms(4,5) by simp_all
  note files = uses_fault_files [OF assms(8) read(1) assms(6,7) read(2) assms(9,11,10,2)]
  have "uses_of (lc_code c) (codes_db codes) = []" "db_codes (codes_db codes) = map imported_row codes"
    by (simp_all add: uses_of_def codes_db_def fresh_codes_def)
  then have "\<forall>t mac ip upn. fst (Validate (\<lambda>_. False) t (lc_code c) mac ip upn (codes_db codes)) \<noteq> None \<longleftrightarrow>
      \<not> IsExpired t (code_view c)"
    using redeem_imported [OF assms(8,12) wf_codes_db [OF assms(8)]] by auto
  with run files show ?thesis by auto
qed

theorem lost_history_readmits_witness:
  "\<exists>s0 db c. importLegacyState (demo_import (\<lambda>st. st = InsertUses 0)) demo_paths demo_import_db = (None, s0\<lparr>idb_codes := db\<rparr>) \<and>
     idb_disk s0 (GuestCodes demo_paths) = NoFile \<and> fst (Validate (\<lambda>_. False) 10 ''ABC1'' [] [] [] db) = Some c"
proof -
  let ?w = "demo_import (\<lambda>st. st = InsertUses 0)"
  have other: "?w\<lparr>im_flt := (im_flt ?w)(InsertUses 0 := False)\<rparr> = demo_import (\<lambda>_. False)"
    by (simp add: demo_import_def fun_eq_iff)
  obtain s0 where s0: "importLegacyState (?w\<lparr>im_flt := (im_flt ?w)(InsertUses 0 := False)\<rparr>) demo_paths demo_import_db = (None, s0)"
    using demo_import_ok [of "\<lambda>_. False"] unfolding other by auto
  have demo: "im_codes ?w ''[]'' = Some [demo_legacy_code]" "idb_settings demo_import_db = []"
    "idb_codes demo_import_db = fresh_codes" "readLegacyFile (idb_disk demo_import_db) (GuestCodes demo_paths) = Some ''[]''"
    "\<forall>i. \<not> im_flt ?w (InsertCodes i)" "im_flt ?w (InsertUses 0)" "\<not> im_flt ?w (RenameFile (GuestCodes demo_paths))"
    "demo_paths = makeDataPaths ((@) ''/data/'')"
    by (simp_all add: demo_import_def demo_import_db_def readLegacyFile_def demo_paths_def makeDataPaths_def)
  have "\<not> IsExpired 10 (code_view demo_legacy_code)" "lc_code demo_legacy_code = ''ABC1''"
    by (simp_all add: IsExpired_def code_view_def demo_legacy_code_def is_zero_def)
  with lost_history_readmits [OF s0 demo(8,2,3,4) _ demo(1) demo_good_codes demo(5,7,6), of demo_legacy_code]
  obtain db where db: "importLegacyState ?w demo_paths demo_import_db = (None, s0\<lparr>idb_codes := db\<rparr>)"
    "idb_disk s0 (GuestCodes demo_paths) = NoFile" "fst (Validate (\<lambda>_. False) 10 ''ABC1'' [] [] [] db) \<noteq> None"
    by auto
  then show ?thesis by blast
qed

end
