(* ===== verification/Runtime.thy ===== *)
theory Runtime
  imports Registry PortalRun
begin

text \<open>
  \<open>portal/runtime.go\<close>: rebuilding the running state from the settings table.  OIDC discovery is the
  parameter \<open>discover\<close>: \<open>None\<close> when the client of a configuration could be built, otherwise the text
  of the error.  The texts of database errors are not modelled.
\<close>

datatype reload_error =
    ReloadLoad settings_error
  | ReloadOIDC string
  | ReloadNoSSO
  | ReloadProblem ConfigProblem

definition secret_text :: "secret_error \<Rightarrow> string" where
  "secret_text e = (case e of
     ErrNoKey \<Rightarrow> ''secret: no encryption key configured''
   | ErrCorrupt \<Rightarrow> ''secret: value cannot be decrypted (wrong or lost encryption key?)''
   | ErrNonce \<Rightarrow> ''secret: nonce'')"

definition settings_text :: "settings_error \<Rightarrow> string" where
  "settings_text e = (case e of
     SettingsDB \<Rightarrow> ''settings: load''
   | SettingsSecret sec key e \<Rightarrow> ''settings: '' @ Key sec key @ '': '' @ secret_text e)"

definition reload_text :: "reload_error \<Rightarrow> string" where
  "reload_text e = (case e of
     ReloadLoad e \<Rightarrow> ''load settings: '' @ settings_text e
   | ReloadOIDC m \<Rightarrow> ''OIDC init failed (sign-in will not work until this is fixed): '' @ m
   | ReloadNoSSO \<Rightarrow> ''Entra SSO is not configured''
   | ReloadProblem p \<Rightarrow> problem_String p)"

definition sso_configured :: "Config \<Rightarrow> bool" where
  "sso_configured cfg \<longleftrightarrow> TenantID cfg \<noteq> [] \<and> ClientID cfg \<noteq> [] \<and> ClientSecret cfg \<noteq> []"

text \<open>The state built from a configuration, and the first thing that is wrong with it.\<close>

definition install :: "(Config \<Rightarrow> string option) \<Rightarrow> Config \<Rightarrow> app \<Rightarrow> app" where
  "install discover cfg a =
     a\<lparr>ap_conf := cfg,
       ap_oidc := (sso_configured cfg \<and> discover cfg = None),
       ap_duo := (if IsDuoEnabled cfg then Some (newDuoClient cfg) else None),
       ap_duoUniversal := (if IsDuoEnabled cfg then Some (newDuoUniversalClient cfg) else None)\<rparr>"

definition sso_error :: "(Config \<Rightarrow> string option) \<Rightarrow> Config \<Rightarrow> reload_error option" where
  "sso_error discover cfg =
     (if sso_configured cfg then map_option ReloadOIDC (discover cfg) else Some ReloadNoSSO)"

definition first_error ::
  "(string \<Rightarrow> string option) \<Rightarrow> (Config \<Rightarrow> string option) \<Rightarrow> Config \<Rightarrow> reload_error option" where
  "first_error hostname discover cfg =
     (case sso_error discover cfg of
        Some e \<Rightarrow> Some e
      | None \<Rightarrow> map_option ReloadProblem (find cp_fatal (validateRuntimeConfig hostname cfg)))"

definition reloadRuntime ::
  "bool \<Rightarrow> (string \<Rightarrow> string option) \<Rightarrow> (Config \<Rightarrow> string option) \<Rightarrow> store \<Rightarrow> BootstrapConfig \<Rightarrow>
   settingRow list \<Rightarrow> app \<Rightarrow> reload_error option \<times> app" where
  "reloadRuntime flt hostname discover s boot tbl a =
     (case LoadAll flt s tbl of
        Inl e \<Rightarrow> (Some (ReloadLoad e), a)
      | Inr values \<Rightarrow>
          (let cfg = runtime_Config hostname boot values
           in (first_error hostname discover cfg, install discover cfg a)))"

definition oidcReady :: "app \<Rightarrow> bool" where "oidcReady a = ap_oidc a"


section \<open>Lemmas\<close>

lemma install_keeps [simp]:
  "ap_lim (install discover cfg a) = ap_lim a" "ap_usedStates (install discover cfg a) = ap_usedStates a"
  "ap_proceed (install discover cfg a) = ap_proceed a" "ap_denylist (install discover cfg a) = ap_denylist a"
  "ap_codes (install discover cfg a) = ap_codes a" "ap_policyTbl (install discover cfg a) = ap_policyTbl a"
  "ap_policies (install discover cfg a) = ap_policies a" "ap_events (install discover cfg a) = ap_events a"
  "ap_conf (install discover cfg a) = cfg"
  by (simp_all add: install_def)

lemma wf_install: "wf_app a \<Longrightarrow> wf_app (install discover cfg a)"
  by (simp add: wf_app_def)

lemma wf_reloadRuntime: "wf_app a \<Longrightarrow> wf_app (snd (reloadRuntime flt hostname discover s boot tbl a))"
  by (simp add: reloadRuntime_def wf_install Let_def split: sum.split)

lemma reload_ok:
  "LoadAll flt s tbl = Inr values \<Longrightarrow>
   reloadRuntime flt hostname discover s boot tbl a =
     (first_error hostname discover (runtime_Config hostname boot values),
      install discover (runtime_Config hostname boot values) a)"
  by (simp add: reloadRuntime_def Let_def)

lemma boot_fields [simp]:
  "SessionSecret (runtime_Config hostname boot v) = b_SessionSecret boot"
  "ListenAddr (runtime_Config hostname boot v) = b_ListenAddr boot"
  "DataDir (runtime_Config hostname boot v) = b_DataDir boot"
  "TrustProxy (runtime_Config hostname boot v) = b_TrustProxy boot"
  by (simp_all add: runtime_Config_def applyRuntimeSettings_def applyBootstrap_def Let_def)

lemma default_color: "isHexColor (default_of secBrand ''color'')"
  by code_simp

lemma runtime_color: "isHexColor (BrandColor (runtime_Config hostname boot v))"
  by (simp add: runtime_Config_def applyRuntimeSettings_def Let_def sanitizeBrandColor_safe default_color)

lemma wrap64_range: "- (2 ^ 63) \<le> wrap64 i" "wrap64 i < 2 ^ 63"
  by (simp_all add: wrap64_def)

lemma problem_fatal [simp]: "cp_fatal (problem sec key msg f) = f"
  by (simp add: problem_def)

lemma fatal_problems:
  "\<forall>p\<in>set (duo_problems cfg). \<not> cp_fatal p" "\<forall>p\<in>set (tls_problems hostname cfg). \<not> cp_fatal p"
  "(\<exists>p\<in>set (url_problems cfg). cp_fatal p) \<longleftrightarrow> PublicURL cfg = []"
  by (auto simp: duo_problems_def tls_problems_def url_problems_def Let_def)

lemma fatal_validate:
  "(\<exists>p\<in>set (validateRuntimeConfig hostname cfg). cp_fatal p) \<longleftrightarrow> PublicURL cfg = []"
  unfolding validateRuntimeConfig_def set_append bex_Un fatal_problems(3)
  using fatal_problems(1) [of cfg] fatal_problems(2) [of hostname cfg] by (simp split: if_split)

lemma first_error_None:
  "first_error hostname discover cfg = None \<longleftrightarrow>
     sso_configured cfg \<and> discover cfg = None \<and> PublicURL cfg \<noteq> []"
  using fatal_validate [of hostname cfg]
  by (auto simp: first_error_def sso_error_def find_None_iff split: option.split)

section \<open>Properties\<close>

text \<open>A reload is consistent.  Whatever strings the settings table holds and whatever the identity
  provider answers, a reload either reports that the table could not be read and changes nothing, or
  installs one configuration together with the clients built from it: the Entra client exists only for
  complete credentials whose discovery succeeded, the Duo clients exactly when all five Duo fields are
  set and with their values, the brand color is a hex color, and the signing secret, listen address and
  proxy trust stay those of the environment; codes, denylist, bans and events are untouched.  It reports
  success exactly when sign-in is ready and the public URL is set.\<close>

theorem reload_consistent:
  assumes "reloadRuntime flt hostname discover s boot tbl a = (err, a')"
  shows "(a' = a \<and> (\<exists>e. LoadAll flt s tbl = Inl e \<and> err = Some (ReloadLoad e))) \<or>
    (isHexColor (BrandColor (ap_conf a')) \<and> SessionSecret (ap_conf a') = b_SessionSecret boot \<and>
     ListenAddr (ap_conf a') = b_ListenAddr boot \<and> TrustProxy (ap_conf a') = b_TrustProxy boot \<and>
     (oidcReady a' \<longleftrightarrow> sso_configured (ap_conf a') \<and> discover (ap_conf a') = None) \<and>
     ap_duo a' = (if IsDuoEnabled (ap_conf a') then Some (newDuoClient (ap_conf a')) else None) \<and>
     ap_duoUniversal a' =
       (if IsDuoEnabled (ap_conf a') then Some (newDuoUniversalClient (ap_conf a')) else None) \<and>
     (err = None \<longleftrightarrow> oidcReady a' \<and> PublicURL (ap_conf a') \<noteq> []) \<and>
     ap_codes a' = ap_codes a \<and> ap_denylist a' = ap_denylist a \<and> ap_lim a' = ap_lim a \<and>
     ap_events a' = ap_events a)"
proof (cases "LoadAll flt s tbl")
  case (Inl e)
  with assms show ?thesis by (simp add: reloadRuntime_def)
next
  case (Inr v)
  note ok = reload_ok [OF Inr, of hostname discover boot a, unfolded assms, simplified]
  show ?thesis
    by (rule disjI2)
       (simp add: ok runtime_color first_error_None, simp add: install_def oidcReady_def conj_ac)
qed

definition demo_boot :: BootstrapConfig where
  "demo_boot = \<lparr>b_ListenAddr = ''127.0.0.1:28080'', b_SessionSecret = ''0123'', b_EncryptionKey = ''k'',
     b_DataDir = ''/data'', b_DBDSN = [], b_DBMaxOpenConns = 0, b_TrustProxy = False\<rparr>"

definition demo_setting :: "string \<Rightarrow> string \<Rightarrow> string \<Rightarrow> settingRow" where
  "demo_setting sec key v = \<lparr>sr_section = sec, sr_key = key, sr_value = v, sr_updated = 0, sr_by = ''ann''\<rparr>"

theorem reload_consistent_witness:
  "isHexColor (BrandColor (ap_conf (snd (reloadRuntime False (\<lambda>_. None) (\<lambda>_. None) demo_store demo_boot
     [demo_setting secBrand ''color'' ''red;}''] demo_app))))"
proof -
  let ?r = "reloadRuntime False (\<lambda>_. None) (\<lambda>_. None) demo_store demo_boot
     [demo_setting secBrand ''color'' ''red;}''] demo_app"
  have "\<exists>v. LoadAll False demo_store [demo_setting secBrand ''color'' ''red;}''] = Inr v"
    by (simp add: LoadAll_def row_value_def demo_store_def demo_setting_def)
  then show ?thesis
    using reload_consistent [of False "\<lambda>_. None" "\<lambda>_. None" demo_store demo_boot
        "[demo_setting secBrand ''color'' ''red;}'']" demo_app "fst ?r" "snd ?r"] by auto
qed

text \<open>The retention of a number of days, and what it does to the log.\<close>

lemma runtime_retention:
  assumes "map_of v (Key secEventLog ''retention_days'') = Some s" "s \<noteq> []" "atoi (trim_space s) = Some d"
  shows "EventLogRetention (runtime_Config hostname boot v) = wrap64 (d * (24 * hour))"
  using assms
  by (simp add: runtime_Config_def applyRuntimeSettings_def Let_def val_Int_def val_parsed_def)

lemma wrapped_days: "wrap64 (213504 * (24 * hour)) = 1526290448384"
  by (simp add: wrap64_def hour_def minute_def second_def)

text \<open>C40: A long retention wraps around.  Days are converted to nanoseconds in 64 bits without a check:
  with \<open>213504\<close> stored as the number of days to keep, a log opened with the reloaded configuration keeps
  events for less than 26 minutes, and its next sweep deletes every older one.\<close>

theorem retention_wraps:
  assumes "LoadAll flt s tbl = Inr v"
    and "map_of v (Key secEventLog ''retention_days'') = Some ''213504''"
    and "wf_events t" "length (et_rows t) \<le> 5000000"
  shows "EventLogRetention (ap_conf (snd (reloadRuntime flt hostname discover s boot tbl a))) < 26 * minute \<and>
    et_rows (snd (Prune (\<lambda>_. False) (\<lambda>_. False) now
        (EventLogRetention (ap_conf (snd (reloadRuntime flt hostname discover s boot tbl a)))) t)) =
      filter (\<lambda>ev. now - 1526290448384 \<le> ev_time ev) (et_rows t)"
proof (rule conjI)
  have "trim_space ''213504'' = ''213504''" by code_simp
  then have days: "atoi (trim_space ''213504'') = Some 213504"
    by (simp add: atoi_def digit_val_def in_int64_def)
  have "EventLogRetention (runtime_Config hostname boot v) = wrap64 (213504 * (24 * hour))"
    by (rule runtime_retention [OF assms(2) list.distinct(2) days])
  then have r: "EventLogRetention (ap_conf (snd (reloadRuntime flt hostname discover s boot tbl a))) = 1526290448384"
    by (simp only: reload_ok [OF assms(1)] snd_conv install_keeps wrapped_days)
  show "EventLogRetention (ap_conf (snd (reloadRuntime flt hostname discover s boot tbl a))) < 26 * minute"
    by (simp add: r minute_def second_def)
  have "length (filter (old_event (now - 1526290448384)) (et_rows t)) \<le> pruneMaxBatches * pruneBatch"
    using assms(4) le_trans [OF length_filter_le] by (simp add: pruneMaxBatches_def pruneBatch_def)
  then show "et_rows (snd (Prune (\<lambda>_. False) (\<lambda>_. False) now
        (EventLogRetention (ap_conf (snd (reloadRuntime flt hostname discover s boot tbl a)))) t)) =
      filter (\<lambda>ev. now - 1526290448384 \<le> ev_time ev) (et_rows t)"
    using assms(3) prune_loop_exact [of t "now - 1526290448384" pruneMaxBatches 0]
    by (simp add: r Prune_def wf_events_def not_less)
qed

theorem retention_wraps_witness:
  "EventLogRetention (ap_conf (snd (reloadRuntime False (\<lambda>_. None) (\<lambda>_. None) demo_store demo_boot
     [demo_setting secEventLog ''retention_days'' ''213504''] demo_app))) < 26 * minute"
proof (rule conjunct1 [OF retention_wraps [where t = "ap_events demo_app"]])
  show "LoadAll False demo_store [demo_setting secEventLog ''retention_days'' ''213504''] =
      Inr [(Key secEventLog ''retention_days'', ''213504'')]"
    by (simp add: LoadAll_def row_value_def demo_store_def demo_setting_def)
qed (simp_all add: wf_events_def demo_app_def)

end
