(* ===== verification/Certs.thy ===== *)
theory Certs
  imports Runtime
begin

text \<open>
  The certificate store of \<open>portal/tls.go\<close> and the issuance of \<open>portal/acme.go\<close>.  Parsing of PEM and
  X.509 and the ACME client are parameters: \<open>tlslib\<close> holds the leaf of a chain (or the text of the
  error), the check that a pair loads (\<open>None\<close>, or the text of the error) and the check that a leaf
  covers a host name; \<open>lego\<close> holds the answers of one run of the ACME client.  A certificate that is
  served is the pair of its PEM texts.  The fields of \<open>crypto\<close> are the cipher, the keyring, the nonce of the
  next encryption and the text of a database error.
\<close>

section \<open>The table\<close>

definition CertSourceACME :: string where "CertSourceACME = ''acme''"
definition CertSourceManual :: string where "CertSourceManual = ''manual''"

record certRow =
  ce_domain :: string
  ce_source :: string
  ce_cert :: string
  ce_key :: string
  ce_notBefore :: time
  ce_notAfter :: time
  ce_updated :: time
  ce_lastError :: string
  ce_lastAttempt :: "time option"
  ce_account :: string
  ce_accountURL :: string

type_synonym keypair = "string \<times> string"

record leaf =
  lf_notBefore :: time
  lf_notAfter :: time
  lf_issuer :: string
  lf_names :: "string list"

record tlslib =
  tl_leaf :: "string \<Rightarrow> string + leaf"
  tl_pair :: "string \<Rightarrow> string \<Rightarrow> string option"
  tl_covers :: "string \<Rightarrow> string \<Rightarrow> bool"

record crypto =
  cr_aead :: aead
  cr_keys :: Keyring
  cr_nonce :: "nat \<Rightarrow> string option"
  cr_dberr :: string

definition cert_before_save :: "time \<Rightarrow> certRow \<Rightarrow> certRow" where
  "cert_before_save now r =
     r\<lparr>ce_notBefore := (if is_zero (ce_notBefore r) then now else ce_notBefore r),
       ce_notAfter := (if is_zero (ce_notAfter r) then now else ce_notAfter r),
       ce_updated := (if is_zero (ce_updated r) then now else ce_updated r)\<rparr>"

definition new_cert_row :: "string \<Rightarrow> certRow" where
  "new_cert_row domain =
     \<lparr>ce_domain = domain, ce_source = CertSourceACME, ce_cert = [], ce_key = [], ce_notBefore = zero_time,
      ce_notAfter = zero_time, ce_updated = zero_time, ce_lastError = [], ce_lastAttempt = None,
      ce_account = [], ce_accountURL = []\<rparr>"

text \<open>\<open>Assign\<close> with \<open>FirstOrCreate\<close>: the row of the domain, or a new one, with some columns set.\<close>

definition assign_cert :: "time \<Rightarrow> string \<Rightarrow> (certRow \<Rightarrow> certRow) \<Rightarrow> certRow list \<Rightarrow> certRow list" where
  "assign_cert now domain f tbl =
     upsert ce_domain (\<lambda>r. (f r)\<lparr>ce_domain := ce_domain r, ce_updated := now\<rparr>)
       (cert_before_save now ((f (new_cert_row domain))\<lparr>ce_domain := domain\<rparr>)) tbl"


section \<open>Loading and saving\<close>

definition Load_cert ::
  "crypto \<Rightarrow> tlslib \<Rightarrow> bool \<Rightarrow> string \<Rightarrow> certRow list \<Rightarrow> string option \<times> keypair option \<times> certRow option" where
  "Load_cert c lib flt domain tbl =
     (if flt then (Some (cr_dberr c), None, None)
      else (case find (\<lambda>r. ce_domain r = domain) tbl of
          None \<Rightarrow> (None, None, None)
        | Some row \<Rightarrow>
            if ce_cert row = [] \<or> ce_key row = [] then (None, None, Some row)
            else (case Decrypt (cr_aead c) (cr_keys c) (ce_key row) of
                Inl e \<Rightarrow> (Some (''decrypting the private key for '' @ domain @ '': '' @ secret_text e), None, Some row)
              | Inr key \<Rightarrow>
                  (case tl_pair lib (ce_cert row) key of
                     Some e \<Rightarrow> (Some (''certificate for '' @ domain @ '' does not load: '' @ e), None, Some row)
                   | None \<Rightarrow> (None, Some (ce_cert row, key), Some row)))))"

text \<open>The row of a certificate just obtained or uploaded.\<close>

definition saved_cert :: "time \<Rightarrow> string \<Rightarrow> string \<Rightarrow> string \<Rightarrow> string \<Rightarrow> leaf \<Rightarrow> certRow" where
  "saved_cert now domain source cert enc leaf = cert_before_save now
     \<lparr>ce_domain = domain, ce_source = source, ce_cert = cert, ce_key = enc,
      ce_notBefore = lf_notBefore leaf, ce_notAfter = lf_notAfter leaf, ce_updated = now,
      ce_lastError = [], ce_lastAttempt = None, ce_account = [], ce_accountURL = []\<rparr>"

definition Save_cert ::
  "crypto \<Rightarrow> tlslib \<Rightarrow> bool \<Rightarrow> nat \<Rightarrow> time \<Rightarrow> string \<Rightarrow> string \<Rightarrow> string \<Rightarrow> string \<Rightarrow> certRow list \<Rightarrow>
   string option \<times> certRow list" where
  "Save_cert c lib flt i now domain source cert key tbl =
     (case tl_leaf lib cert of
        Inl e \<Rightarrow> (Some e, tbl)
      | Inr leaf \<Rightarrow>
          (case tl_pair lib cert key of
             Some e \<Rightarrow> (Some (''the certificate and private key do not match: '' @ e), tbl)
           | None \<Rightarrow>
               (case Encrypt (cr_aead c) (cr_keys c) (cr_nonce c i) key of
                  Inl e \<Rightarrow> (Some (''encrypting the private key: '' @ secret_text e), tbl)
                | Inr enc \<Rightarrow>
                    if flt then (Some (cr_dberr c), tbl)
                    else (None, save_row ce_domain (saved_cert now domain source cert enc leaf) tbl))))"

definition RecordFailure :: "bool \<Rightarrow> time \<Rightarrow> string \<Rightarrow> string \<Rightarrow> certRow list \<Rightarrow> certRow list" where
  "RecordFailure flt now domain reason tbl =
     (if flt then tbl
      else assign_cert now domain (\<lambda>r. r\<lparr>ce_lastError := reason, ce_lastAttempt := Some now\<rparr>) tbl)"

record certificateStatus =
  cs_domain :: string
  cs_source :: string
  cs_present :: bool
  cs_notBefore :: "time option"
  cs_notAfter :: "time option"
  cs_daysLeft :: int
  cs_lastError :: string
  cs_lastAttempt :: "time option"
  cs_issuer :: string
  cs_names :: "string list"

text \<open>Whole days of a duration, truncated towards zero.\<close>

definition whole_days :: "duration \<Rightarrow> int" where
  "whole_days d = (if d < 0 then - ((- d) div (24 * hour)) else d div (24 * hour))"

definition Status_cert :: "crypto \<Rightarrow> tlslib \<Rightarrow> bool \<Rightarrow> time \<Rightarrow> string \<Rightarrow> certRow list \<Rightarrow> certificateStatus" where
  "Status_cert c lib flt now domain tbl =
     (case Load_cert c lib flt domain tbl of
        (err, _, None) \<Rightarrow>
          \<lparr>cs_domain = domain, cs_source = [], cs_present = False, cs_notBefore = None, cs_notAfter = None,
           cs_daysLeft = 0, cs_lastError = (case err of None \<Rightarrow> [] | Some e \<Rightarrow> e), cs_lastAttempt = None,
           cs_issuer = [], cs_names = []\<rparr>
      | (err, _, Some row) \<Rightarrow>
          (let present = (ce_cert row \<noteq> []);
               leaf = tl_leaf lib (ce_cert row)
           in \<lparr>cs_domain = domain, cs_source = ce_source row, cs_present = present,
               cs_notBefore = (if present then Some (ce_notBefore row) else None),
               cs_notAfter = (if present then Some (ce_notAfter row) else None),
               cs_daysLeft = (if present then whole_days (time_sub (ce_notAfter row) now) else 0),
               cs_lastError =
                 (if ce_lastError row \<noteq> [] then ce_lastError row else (case err of None \<Rightarrow> [] | Some e \<Rightarrow> e)),
               cs_lastAttempt = ce_lastAttempt row,
               cs_issuer = (case (present, leaf) of (True, Inr l) \<Rightarrow> lf_issuer l | _ \<Rightarrow> []),
               cs_names = (case (present, leaf) of (True, Inr l) \<Rightarrow> lf_names l | _ \<Rightarrow> [])\<rparr>))"

text \<open>The provider of the listener: a handshake without a certificate is refused.\<close>

definition provider_get :: "keypair option \<Rightarrow> string + keypair" where
  "provider_get p = (case p of
     None \<Rightarrow> Inl ''no certificate is configured for this portal'' | Some c \<Rightarrow> Inr c)"

text \<open>What every caller does after a certificate was stored: install it when it loads.\<close>

definition install_cert :: "crypto \<Rightarrow> tlslib \<Rightarrow> bool \<Rightarrow> string \<Rightarrow> certRow list \<Rightarrow> keypair option \<Rightarrow> keypair option" where
  "install_cert c lib flt domain tbl served =
     (case Load_cert c lib flt domain tbl of (None, Some pair, _) \<Rightarrow> Some pair | _ \<Rightarrow> served)"


section \<open>ACME\<close>

definition renewBefore :: duration where "renewBefore = 30 * 24 * hour"

record lego =
  lg_gen :: "string + string"
  lg_parse :: "string \<Rightarrow> bool"
  lg_client :: "string option"
  lg_register :: "string + string"
  lg_resolve :: "string option"
  lg_obtain :: "string + keypair"

text \<open>Tokens of challenges in flight.\<close>

type_synonym challenges = "(string \<times> string) list"

definition Present :: "string \<Rightarrow> string \<Rightarrow> challenges \<Rightarrow> challenges" where
  "Present token keyAuth m = AList.update token keyAuth m"

definition CleanUp :: "string \<Rightarrow> challenges \<Rightarrow> challenges" where
  "CleanUp token m = AList.delete token m"

definition handleChallenge :: "string \<Rightarrow> challenges \<Rightarrow> reply" where
  "handleChallenge path m =
     (case map_of m (trim_prefix path ''/.well-known/acme-challenge/'') of
        None \<Rightarrow> ReplyText 404 ''404 page not found''
      | Some keyAuth \<Rightarrow> ReplyText 200 keyAuth)"

text \<open>The account key and the address of the account, empty for a new key.\<close>

definition loadOrCreateAccountKey ::
  "crypto \<Rightarrow> lego \<Rightarrow> bool \<Rightarrow> string \<Rightarrow> certRow list \<Rightarrow> string + (string \<times> string)" where
  "loadOrCreateAccountKey c l flt domain tbl =
     (let fresh = (case lg_gen l of Inl e \<Rightarrow> Inl e | Inr key \<Rightarrow> Inr (key, []))
      in case (if flt then None else find (\<lambda>r. ce_domain r = domain) tbl) of
           None \<Rightarrow> fresh
         | Some row \<Rightarrow>
             if ce_account row = [] then fresh
             else (case Decrypt (cr_aead c) (cr_keys c) (ce_account row) of
                 Inl e \<Rightarrow> Inl (''decrypting the ACME account key: '' @ secret_text e)
               | Inr key \<Rightarrow> if lg_parse l key then Inr (key, ce_accountURL row) else fresh))"

definition saveAccount ::
  "crypto \<Rightarrow> bool \<Rightarrow> nat \<Rightarrow> time \<Rightarrow> string \<Rightarrow> string \<Rightarrow> string \<Rightarrow> certRow list \<Rightarrow> certRow list" where
  "saveAccount c flt i now domain key url tbl =
     (case Encrypt (cr_aead c) (cr_keys c) (cr_nonce c i) key of
        Inl e \<Rightarrow> tbl
      | Inr enc \<Rightarrow>
          if flt then tbl
          else assign_cert now domain (\<lambda>r. r\<lparr>ce_account := enc, ce_accountURL := url\<rparr>) tbl)"

record acmeRequest =
  ar_domain :: string
  ar_email :: string
  ar_staging :: bool

text \<open>The registration of a new account, or the lookup of the stored one.\<close>

definition acme_account ::
  "crypto \<Rightarrow> lego \<Rightarrow> bool \<Rightarrow> time \<Rightarrow> string \<Rightarrow> string \<times> string \<Rightarrow> certRow list \<Rightarrow> string option \<times> certRow list" where
  "acme_account c l flt now domain account tbl =
     (case account of (key, url) \<Rightarrow>
        if url = [] then
          (case lg_register l of
             Inl e \<Rightarrow> (Some (''acme registration: '' @ e), tbl)
           | Inr uri \<Rightarrow> (None, saveAccount c flt 0 now domain key uri tbl))
        else (case lg_resolve l of
                Some e \<Rightarrow> (Some (''acme account resolve: '' @ e), tbl)
              | None \<Rightarrow> (None, tbl)))"

text \<open>\<open>flt\<close> fails the three statements: reading the account, storing it, storing the certificate.\<close>

definition Issue ::
  "crypto \<Rightarrow> tlslib \<Rightarrow> (string \<Rightarrow> bool \<Rightarrow> lego) \<Rightarrow> (nat \<Rightarrow> bool) \<Rightarrow> time \<Rightarrow> acmeRequest \<Rightarrow> certRow list \<Rightarrow>
   string option \<times> certRow list" where
  "Issue c lib client flt now req tbl =
     (let domain = ar_domain req; l = client (ar_email req) (ar_staging req)
      in if domain = [] then (Some ''no domain configured'', tbl)
         else if ar_email req = [] then (Some ''an account email is required for ACME'', tbl)
         else (case loadOrCreateAccountKey c l (flt 0) domain tbl of
             Inl e \<Rightarrow> (Some e, tbl)
           | Inr account \<Rightarrow>
               (case lg_client l of
                  Some e \<Rightarrow> (Some (''acme client: '' @ e), tbl)
                | None \<Rightarrow>
                    (case acme_account c l (flt 1) now domain account tbl of
                       (Some e, tbl1) \<Rightarrow> (Some e, tbl1)
                     | (None, tbl1) \<Rightarrow>
                         (case lg_obtain l of
                            Inl e \<Rightarrow> (Some (''acme obtain: '' @ e), tbl1)
                          | Inr (cert, key) \<Rightarrow>
                              Save_cert c lib (flt 2) 1 now domain CertSourceACME cert key tbl1)))))"

definition needsRenewal :: "time \<Rightarrow> certRow option \<Rightarrow> bool" where
  "needsRenewal now row =
     (case row of
        None \<Rightarrow> True
      | Some r \<Rightarrow> ce_cert r = [] \<or> time_sub (ce_notAfter r) now < renewBefore)"

text \<open>\<open>flt 0\<close> fails the first read, \<open>flt 1\<close> to \<open>flt 3\<close> the statements of the issuance, \<open>flt 4\<close> the record of a failure,
  \<open>flt 5\<close> the read that installs the result.\<close>

definition renewIfNeeded ::
  "crypto \<Rightarrow> tlslib \<Rightarrow> (string \<Rightarrow> bool \<Rightarrow> lego) \<Rightarrow> (nat \<Rightarrow> bool) \<Rightarrow> time \<Rightarrow> Config \<Rightarrow>
   keypair option \<times> certRow list \<Rightarrow> keypair option \<times> certRow list" where
  "renewIfNeeded c lib client flt now cfg st = (case st of (served, tbl) \<Rightarrow>
     (let domain = TLSDomain cfg
      in if TLSMode cfg \<noteq> TLSModeStandalone \<or> \<not> ACMEEnabled cfg then st
         else if domain = [] then st
         else (case Load_cert c lib (flt 0) domain tbl of (_, _, row) \<Rightarrow>
           if (case row of None \<Rightarrow> False | Some r \<Rightarrow> ce_source r = CertSourceManual) then st
           else if \<not> needsRenewal now row then st
           else (case Issue c lib client (\<lambda>i. flt (Suc i)) now
                        \<lparr>ar_domain = domain, ar_email = ACMEEmail cfg, ar_staging = ACMEStaging cfg\<rparr> tbl of
               (Some e, tbl1) \<Rightarrow> (served, RecordFailure (flt 4) now domain e tbl1)
             | (None, tbl1) \<Rightarrow> (install_cert c lib (flt 5) domain tbl1 served, tbl1)))))"

section \<open>Lemmas\<close>

abbreviation cert_at :: "certRow list \<Rightarrow> string \<Rightarrow> certRow option" where
  "cert_at tbl domain \<equiv> find (\<lambda>r. ce_domain r = domain) tbl"

lemma cert_before_save_simps [simp]:
  "ce_domain (cert_before_save now r) = ce_domain r" "ce_source (cert_before_save now r) = ce_source r"
  "ce_cert (cert_before_save now r) = ce_cert r" "ce_key (cert_before_save now r) = ce_key r"
  "ce_account (cert_before_save now r) = ce_account r"
  "ce_accountURL (cert_before_save now r) = ce_accountURL r"
  "ce_lastError (cert_before_save now r) = ce_lastError r"
  by (simp_all add: cert_before_save_def)

lemma saved_cert_simps [simp]:
  "ce_domain (saved_cert now domain source cert enc leaf) = domain"
  "ce_source (saved_cert now domain source cert enc leaf) = source"
  "ce_cert (saved_cert now domain source cert enc leaf) = cert"
  "ce_key (saved_cert now domain source cert enc leaf) = enc"
  "ce_account (saved_cert now domain source cert enc leaf) = []"
  by (simp_all add: saved_cert_def)

lemma find_assign_cert:
  "cert_at (assign_cert now domain f tbl) d =
     (if d = domain
      then Some (case cert_at tbl domain of
             None \<Rightarrow> cert_before_save now ((f (new_cert_row domain))\<lparr>ce_domain := domain\<rparr>)
           | Some r \<Rightarrow> (f r)\<lparr>ce_domain := ce_domain r, ce_updated := now\<rparr>)
      else cert_at tbl d)"
  unfolding assign_cert_def by (subst find_upsert) (auto split: option.split)

text \<open>Loading depends on the row of the domain only.\<close>

lemma Load_cert_cong:
  "cert_at tbl' d = cert_at tbl d \<Longrightarrow> Load_cert c lib flt d tbl' = Load_cert c lib flt d tbl"
  by (simp add: Load_cert_def)

lemma Load_cert_row:
  assumes "cert_at tbl d = Some row" "cert_at tbl' d = Some row'"
    and "ce_cert row' = ce_cert row" "ce_key row' = ce_key row"
  shows "fst (snd (Load_cert c lib flt d tbl')) = fst (snd (Load_cert c lib flt d tbl))"
  using assms by (auto simp: Load_cert_def split: sum.split option.split)

lemma Save_cert_ok:
  assumes "Save_cert c lib flt i now domain source cert key tbl = (None, tbl')"
  obtains leaf enc where "tl_leaf lib cert = Inr leaf" "tl_pair lib cert key = None"
    "Encrypt (cr_aead c) (cr_keys c) (cr_nonce c i) key = Inr enc" "\<not> flt"
    "tbl' = save_row ce_domain (saved_cert now domain source cert enc leaf) tbl"
  using assms by (auto simp: Save_cert_def split: sum.splits option.splits if_splits)

lemma Save_cert_error:
  "Save_cert c lib flt i now domain source cert key tbl = (Some e, tbl') \<Longrightarrow> tbl' = tbl"
  by (auto simp: Save_cert_def split: sum.splits option.splits if_splits)

definition good_crypto :: "crypto \<Rightarrow> bool" where
  "good_crypto c \<longleftrightarrow> aead_ok (cr_aead c) \<and> good_nonces (cr_nonce c)"

lemma Save_cert_loads:
  assumes "good_crypto c" "cert \<noteq> []" "key \<noteq> []" "\<not> has_prefix key Prefix"
    and "Save_cert c lib flt i now domain source cert key tbl = (None, tbl')"
  shows "\<exists>row. Load_cert c lib False domain tbl' = (None, Some (cert, key), Some row) \<and> ce_source row = source"
proof -
  obtain leaf enc where "tl_leaf lib cert = Inr leaf" and ok: "tl_pair lib cert key = None"
    "Encrypt (cr_aead c) (cr_keys c) (cr_nonce c i) key = Inr enc" and "\<not> flt" and tbl':
    "tbl' = save_row ce_domain (saved_cert now domain source cert enc leaf) tbl"
    by (rule Save_cert_ok [OF assms(5)])
  have "Decrypt (cr_aead c) (cr_keys c) enc = Inr key"
    using assms(1,4) ok(2) by (intro Decrypt_Encrypt) (auto simp: good_crypto_def good_nonces_def)
  moreover from this have "enc \<noteq> []" using assms(3) by (auto simp: Decrypt_def)
  ultimately show ?thesis using assms(2) ok(1) by (simp add: Load_cert_def tbl' find_save_row)
qed

lemma Save_cert_other:
  assumes "Save_cert c lib flt i now domain source cert key tbl = (err, tbl')" "d \<noteq> domain"
  shows "cert_at tbl' d = cert_at tbl d"
proof (cases err)
  case None
  with assms(1) have "Save_cert c lib flt i now domain source cert key tbl = (None, tbl')" by simp
  then show ?thesis by (rule Save_cert_ok) (use assms(2) in \<open>simp add: find_save_row\<close>)
next
  case (Some e)
  with assms(1) Save_cert_error show ?thesis by blast
qed

text \<open>The steps of an issuance before the certificate is stored leave the certificate and its key.\<close>

lemma saveAccount_keeps:
  "cert_at tbl domain = Some row \<Longrightarrow>
     \<exists>row'. cert_at (saveAccount c flt i now domain key url tbl) domain = Some row' \<and>
       ce_cert row' = ce_cert row \<and> ce_key row' = ce_key row \<and> ce_source row' = ce_source row"
  by (auto simp: saveAccount_def find_assign_cert split: sum.split)

lemma acme_account_keeps:
  assumes "cert_at tbl domain = Some row" "acme_account c l flt now domain account tbl = (err, tbl')"
  shows "\<exists>row'. cert_at tbl' domain = Some row' \<and> ce_cert row' = ce_cert row \<and> ce_key row' = ce_key row \<and>
    ce_source row' = ce_source row"
  using assms saveAccount_keeps [OF assms(1)]
  by (cases account) (auto simp: acme_account_def split: if_splits sum.splits option.splits)

lemma Issue_cases:
  assumes "Issue c lib client flt now req tbl = (err, tbl')"
  obtains (early) "err \<noteq> None" "tbl' = tbl"
  | (refused) acc err' where "err \<noteq> None"
      "acme_account c (client (ar_email req) (ar_staging req)) (flt 1) now (ar_domain req) acc tbl = (err', tbl')"
      "loadOrCreateAccountKey c (client (ar_email req) (ar_staging req)) (flt 0) (ar_domain req) tbl = Inr acc"
  | (saved) acc tbl1 cert key where
      "acme_account c (client (ar_email req) (ar_staging req)) (flt 1) now (ar_domain req) acc tbl = (None, tbl1)"
      "lg_obtain (client (ar_email req) (ar_staging req)) = Inr (cert, key)"
      "Save_cert c lib (flt 2) 1 now (ar_domain req) CertSourceACME cert key tbl1 = (err, tbl')"
      "loadOrCreateAccountKey c (client (ar_email req) (ar_staging req)) (flt 0) (ar_domain req) tbl = Inr acc"
proof -
  let ?l = "client (ar_email req) (ar_staging req)"
  let ?guards = "ar_domain req = [] \<or> ar_email req = [] \<or> lg_client ?l \<noteq> None \<or>
    (\<exists>e. loadOrCreateAccountKey c ?l (flt 0) (ar_domain req) tbl = Inl e)"
  show thesis
  proof (cases ?guards)
    case True
    then have "err \<noteq> None \<and> tbl' = tbl"
      using assms by (auto simp: Issue_def Let_def split: if_splits sum.splits option.splits)
    then show thesis using early by blast
  next
    case False
    then obtain acc where acc: "loadOrCreateAccountKey c ?l (flt 0) (ar_domain req) tbl = Inr acc"
      by (cases "loadOrCreateAccountKey c ?l (flt 0) (ar_domain req) tbl") auto
    obtain e1 tbl1 where a: "acme_account c ?l (flt 1) now (ar_domain req) acc tbl = (e1, tbl1)" by fastforce
    show thesis
    proof (cases "e1 = None \<and> (\<exists>pair. lg_obtain ?l = Inr pair)")
      case True
      then obtain cert key where "lg_obtain ?l = Inr (cert, key)" by auto
      with True assms False acc a show thesis by (intro saved) (auto simp: Issue_def Let_def)
    next
      case no: False
      have "err \<noteq> None \<and> tbl' = tbl1"
        using no assms False acc a by (cases e1; cases "lg_obtain ?l") (auto simp: Issue_def Let_def)
      with a acc refused show thesis by blast
    qed
  qed
qed

text \<open>An issuance changes only the row of its domain, and there only the certificate it obtained.\<close>

lemma Issue_row:
  assumes "Issue c lib client flt now req tbl = (err, tbl')" "cert_at tbl (ar_domain req) = Some row"
  shows "(err \<noteq> None \<and> (\<exists>row'. cert_at tbl' (ar_domain req) = Some row' \<and> ce_cert row' = ce_cert row \<and>
            ce_key row' = ce_key row \<and> ce_source row' = ce_source row)) \<or>
    (\<exists>tbl1 cert key. lg_obtain (client (ar_email req) (ar_staging req)) = Inr (cert, key) \<and> err = None \<and>
       Save_cert c lib (flt 2) 1 now (ar_domain req) CertSourceACME cert key tbl1 = (None, tbl'))"
  using assms(1)
proof (cases rule: Issue_cases)
  case early
  with assms(2) show ?thesis by auto
next
  case (refused acc err')
  with acme_account_keeps [OF assms(2) refused(2)] show ?thesis by blast
next
  case (saved acc tbl1 cert key)
  note kept = acme_account_keeps [OF assms(2) saved(1)]
  show ?thesis
  proof (cases err)
    case None
    with saved show ?thesis by auto
  next
    case (Some e)
    with saved(3) Save_cert_error have "tbl' = tbl1" by blast
    with kept Some show ?thesis by blast
  qed
qed


text \<open>The last step of a renewal: the failure is recorded, or the certificate installed.\<close>

lemma renewal_step:
  assumes "good_crypto c"
    and "\<forall>m s cert key. lg_obtain (client m s) = Inr (cert, key) \<longrightarrow> cert \<noteq> [] \<and> key \<noteq> [] \<and> \<not> has_prefix key Prefix"
    and "cert_at tbl domain = Some row" "fst (snd (Load_cert c lib False domain tbl)) = Some pair"
    and "Issue c lib client flt now req tbl = (err, tbl1)" "domain = ar_domain req"
    and "(served', tbl') = (case err of
         Some e \<Rightarrow> (served, RecordFailure f1 now domain e tbl1)
       | None \<Rightarrow> (install_cert c lib f2 domain tbl1 served, tbl1))"
  shows "\<exists>pair'. fst (snd (Load_cert c lib False domain tbl')) = Some pair' \<and>
    (pair' = pair \<or> lg_obtain (client (ar_email req) (ar_staging req)) = Inr pair') \<and>
    (served' = served \<or> served' = Some pair')"
proof (cases err)
  case (Some e)
  then obtain row' where row': "cert_at tbl1 domain = Some row'" "ce_cert row' = ce_cert row" "ce_key row' = ce_key row"
    using Issue_row [OF assms(5)] assms(3,6) by auto
  have "\<exists>row2. cert_at tbl' domain = Some row2 \<and> ce_cert row2 = ce_cert row \<and> ce_key row2 = ce_key row"
    using row' assms(7) Some by (auto simp: RecordFailure_def find_assign_cert)
  then have "fst (snd (Load_cert c lib False domain tbl')) = Some pair"
    using Load_cert_row [OF assms(3)] assms(4) by metis
  with assms(7) Some show ?thesis by auto
next
  case None
  then obtain tbl0 cert key where obtained: "lg_obtain (client (ar_email req) (ar_staging req)) = Inr (cert, key)"
    and saved: "Save_cert c lib (flt 2) 1 now domain CertSourceACME cert key tbl0 = (None, tbl1)"
    using Issue_row [OF assms(5)] assms(3,6) by auto
  obtain row' where load: "Load_cert c lib False domain tbl1 = (None, Some (cert, key), Some row')"
    using Save_cert_loads [OF assms(1) _ _ _ saved] assms(2) obtained by blast
  have "served' = served \<or> served' = Some (cert, key)" "tbl' = tbl1"
    using assms(7) None load by (cases f2; simp add: install_cert_def Load_cert_def)+
  with load obtained show ?thesis by auto
qed


section \<open>Properties\<close>

definition demo_leaf :: leaf where
  "demo_leaf = \<lparr>lf_notBefore = 0, lf_notAfter = 90 * 24 * hour, lf_issuer = ''CA'', lf_names = [''p.org'']\<rparr>"

definition demo_lib :: tlslib where
  "demo_lib = \<lparr>tl_leaf = (\<lambda>_. Inr demo_leaf), tl_pair = (\<lambda>_ _. None), tl_covers = (\<lambda>_ _. True)\<rparr>"

definition demo_crypto :: crypto where
  "demo_crypto = \<lparr>cr_aead = demo_aead, cr_keys = Some ''k'', cr_nonce = (\<lambda>_. Some ''abcdefghijkl''), cr_dberr = ''db''\<rparr>"

definition demo_lego :: lego where
  "demo_lego = \<lparr>lg_gen = Inr ''newkey'', lg_parse = (\<lambda>_. True), lg_client = None, lg_register = Inr ''acct/1'',
     lg_resolve = None, lg_obtain = Inr (''chain'', ''private'')\<rparr>"

lemma demo_crypto_good: "good_crypto demo_crypto"
  by (simp add: good_crypto_def demo_crypto_def demo_aead_ok good_nonces_def nonce_size_def)

text \<open>C30: A certificate is stored as a pair that loads.  A certificate and key whose storage is reported
  as done are loaded again, the key through encryption and decryption, with their source; no other
  domain's certificate changes; and when storage reports an error, of the chain, of a pair that does not
  match, of the encryption or of the database, the whole table is as before.\<close>

theorem certificate_read_back:
  assumes "good_crypto c" "cert \<noteq> []" "key \<noteq> []" "\<not> has_prefix key Prefix"
    and "Save_cert c lib flt i now domain source cert key tbl = (err, tbl')"
  shows "(case err of
      Some e \<Rightarrow> tbl' = tbl
    | None \<Rightarrow> \<exists>row. Load_cert c lib False domain tbl' = (None, Some (cert, key), Some row) \<and>
        ce_source row = source) \<and>
    (\<forall>d. d \<noteq> domain \<longrightarrow> Load_cert c lib False d tbl' = Load_cert c lib False d tbl)"
proof (rule conjI)
  show "case err of
      Some e \<Rightarrow> tbl' = tbl
    | None \<Rightarrow> \<exists>row. Load_cert c lib False domain tbl' = (None, Some (cert, key), Some row) \<and> ce_source row = source"
    using Save_cert_loads [OF assms(1-4)] Save_cert_error assms(5) by (cases err) auto
  show "\<forall>d. d \<noteq> domain \<longrightarrow> Load_cert c lib False d tbl' = Load_cert c lib False d tbl"
    using Save_cert_other [OF assms(5)] Load_cert_cong by blast
qed

lemma demo_keys: "\<not> has_prefix ''private'' Prefix" "\<not> has_prefix ''newkey'' Prefix"
  by (simp_all add: has_prefix_def Prefix_def)

theorem certificate_read_back_witness:
  "\<exists>row tbl'. Save_cert demo_crypto demo_lib False 0 5 ''p.org'' CertSourceManual ''chain'' ''private'' [] = (None, tbl') \<and>
     Load_cert demo_crypto demo_lib False ''p.org'' tbl' = (None, Some (''chain'', ''private''), Some row)"
proof -
  obtain tbl' where sv: "Save_cert demo_crypto demo_lib False 0 5 ''p.org'' CertSourceManual ''chain'' ''private'' [] = (None, tbl')"
    by (auto simp: Save_cert_def demo_lib_def demo_crypto_def Encrypt_def demo_keys)
  show ?thesis
    using certificate_read_back [OF demo_crypto_good _ _ demo_keys(1) sv] sv by auto
qed

text \<open>Every issuance forgets the account.  The account key is stored before a certificate is ordered so
  that renewals reuse it; but storing the certificate writes every column of the row, the two of the
  account as empty.  After an issuance that succeeds the next one finds no account: it generates a key
  and registers again.\<close>

theorem issue_forgets_account:
  assumes "Issue c lib client flt now req tbl = (None, tbl')"
  shows "\<exists>row. cert_at tbl' (ar_domain req) = Some row \<and> ce_account row = [] \<and>
    (\<forall>l key. lg_gen l = Inr key \<longrightarrow>
       loadOrCreateAccountKey c l False (ar_domain req) tbl' = Inr (key, []))"
  using assms
proof (cases rule: Issue_cases)
  case (saved acc tbl1 cert key)
  from saved(3) obtain leaf enc where
    "tbl' = save_row ce_domain (saved_cert now (ar_domain req) CertSourceACME cert enc leaf) tbl1"
    by (rule Save_cert_ok)
  then show ?thesis by (simp add: find_save_row loadOrCreateAccountKey_def)
qed simp_all

definition demo_acme :: acmeRequest where
  "demo_acme = \<lparr>ar_domain = ''p.org'', ar_email = ''a@p.org'', ar_staging = False\<rparr>"

theorem issue_forgets_account_witness:
  "\<exists>tbl'. Issue demo_crypto demo_lib (\<lambda>_ _. demo_lego) (\<lambda>_. False) 5 demo_acme [] = (None, tbl') \<and>
     loadOrCreateAccountKey demo_crypto demo_lego False ''p.org'' tbl' = Inr (''newkey'', [])"
proof -
  obtain tbl' where ok: "Issue demo_crypto demo_lib (\<lambda>_ _. demo_lego) (\<lambda>_. False) 5 demo_acme [] = (None, tbl')"
    by (auto simp: Issue_def demo_acme_def loadOrCreateAccountKey_def demo_lego_def acme_account_def
        saveAccount_def Save_cert_def demo_lib_def demo_crypto_def Encrypt_def demo_keys Let_def)
  have "lg_gen demo_lego = Inr ''newkey''" by (simp add: demo_lego_def)
  with issue_forgets_account [OF ok] ok show ?thesis by (auto simp: demo_acme_def)
qed

text \<open>A renewal does not take the certificate away.  When the stored certificate of the domain can be
  read and loads, then after a run of the renewal loop, whatever the certificate authority and the
  database answer, a certificate of the domain still loads: the same one, or the one just obtained,
  which happens only to a certificate that was not uploaded by hand and has less than thirty days left.
  What the listener serves is left alone or becomes the certificate that loads.\<close>

theorem renewal_keeps_certificate:
  assumes "good_crypto c" "\<not> flt 0" "Load_cert c lib False (TLSDomain cfg) tbl = (None, Some pair, Some row)"
    and "\<forall>m s cert key. lg_obtain (client m s) = Inr (cert, key) \<longrightarrow> cert \<noteq> [] \<and> key \<noteq> [] \<and> \<not> has_prefix key Prefix"
    and "renewIfNeeded c lib client flt now cfg (served, tbl) = (served', tbl')"
  shows "\<exists>pair'. fst (snd (Load_cert c lib False (TLSDomain cfg) tbl')) = Some pair' \<and>
    (pair' = pair \<or> ce_source row \<noteq> CertSourceManual \<and> needsRenewal now (Some row) \<and>
       lg_obtain (client (ACMEEmail cfg) (ACMEStaging cfg)) = Inr pair') \<and>
    (served' = served \<or> served' = Some pair')"
proof -
  let ?req = "\<lparr>ar_domain = TLSDomain cfg, ar_email = ACMEEmail cfg, ar_staging = ACMEStaging cfg\<rparr>"
  have row: "cert_at tbl (TLSDomain cfg) = Some row"
    using assms(3) by (auto simp: Load_cert_def split: option.splits sum.splits if_splits)
  have pair: "fst (snd (Load_cert c lib False (TLSDomain cfg) tbl)) = Some pair" by (simp add: assms(3))
  show ?thesis
  proof (cases "(served', tbl') = (served, tbl)")
    case True
    with pair show ?thesis by auto
  next
    case False
    have first: "Load_cert c lib (flt 0) (TLSDomain cfg) tbl = (None, Some pair, Some row)"
      using assms(2,3) by simp
    obtain err tbl1 where issue: "Issue c lib client (\<lambda>i. flt (Suc i)) now ?req tbl = (err, tbl1)" by fastforce
    have run: "ce_source row \<noteq> CertSourceManual" "needsRenewal now (Some row)"
      "(served', tbl') = (case err of
         Some e \<Rightarrow> (served, RecordFailure (flt 4) now (TLSDomain cfg) e tbl1)
       | None \<Rightarrow> (install_cert c lib (flt 5) (TLSDomain cfg) tbl1 served, tbl1))"
      using assms(5) False unfolding renewIfNeeded_def prod.case Let_def first issue
      by (auto split: if_splits option.splits)
    have "TLSDomain cfg = ar_domain ?req" by simp
    from renewal_step [OF assms(1,4) row pair issue this run(3)] run(1,2) show ?thesis by auto
  qed
qed

definition demo_standalone :: Config where
  "demo_standalone = demo_Config\<lparr>TLSMode := TLSModeStandalone, TLSDomain := ''p.org'', ACMEEnabled := True,
     ACMEEmail := ''a@p.org''\<rparr>"

definition demo_cert :: "string \<Rightarrow> certRow" where
  "demo_cert source = \<lparr>ce_domain = ''p.org'', ce_source = source, ce_cert = ''old'', ce_key = ''oldkey'', ce_notBefore = 0,
     ce_notAfter = hour, ce_updated = 0, ce_lastError = [], ce_lastAttempt = None, ce_account = [],
     ce_accountURL = []\<rparr>"

lemma demo_cert_loads:
  "Load_cert demo_crypto demo_lib False ''p.org'' [demo_cert source] =
     (None, Some (''old'', ''oldkey''), Some (demo_cert source))"
  by (simp add: Load_cert_def demo_cert_def demo_crypto_def demo_lib_def Decrypt_def has_prefix_def Prefix_def)

theorem renewal_keeps_certificate_witness:
  "\<exists>pair. fst (snd (Load_cert demo_crypto demo_lib False ''p.org''
     (snd (renewIfNeeded demo_crypto demo_lib (\<lambda>_ _. demo_lego) (\<lambda>_. False) 5 demo_standalone
        (None, [demo_cert CertSourceACME]))))) = Some pair"
proof -
  let ?run = "renewIfNeeded demo_crypto demo_lib (\<lambda>_ _. demo_lego) (\<lambda>_. False) 5 demo_standalone
        (None, [demo_cert CertSourceACME])"
  have "\<forall>m s cert key. lg_obtain ((\<lambda>_ _. demo_lego) m s) = Inr (cert, key) \<longrightarrow>
      cert \<noteq> [] \<and> key \<noteq> [] \<and> \<not> has_prefix key Prefix"
    by (auto simp: demo_lego_def demo_keys)
  moreover have dom: "TLSDomain demo_standalone = ''p.org''" by (simp add: demo_standalone_def)
  ultimately show ?thesis
    using renewal_keeps_certificate [OF demo_crypto_good, of "\<lambda>_. False" demo_lib demo_standalone
        "[demo_cert CertSourceACME]" "(''old'', ''oldkey'')" "demo_cert CertSourceACME" "\<lambda>_ _. demo_lego" 5 None
        "fst ?run" "snd ?run"] demo_cert_loads by (auto simp: dom)
qed

text \<open>When the read of the row fails, the loop does not know the source: it orders a certificate and
  stores it over one that was uploaded by hand.\<close>

lemma read_fault_replaces_manual:
  "\<exists>row. cert_at (snd (renewIfNeeded demo_crypto demo_lib (\<lambda>_ _. demo_lego) (\<lambda>i. i = 0) 5 demo_standalone
     (None, [demo_cert CertSourceManual]))) ''p.org'' = Some row \<and>
     ce_cert row = ''chain'' \<and> ce_source row = CertSourceACME"
  by (simp add: renewIfNeeded_def demo_standalone_def Load_cert_def needsRenewal_def Issue_def Let_def
      loadOrCreateAccountKey_def demo_lego_def acme_account_def demo_cert_def Save_cert_def demo_lib_def
      demo_crypto_def Encrypt_def demo_keys find_save_row)

end
