(* ===== verification/Listeners.thy ===== *)
theory Listeners
  imports Certs
begin

text \<open>
  \<open>portal/listeners.go\<close> and the second half of \<open>portal/tls.go\<close>: the listeners as a function of the
  configuration, the changes that could lock the operator out, and their rollback unless confirmed.
  The state \<open>server\<close> puts the application together with the settings, the certificates and the
  listeners; \<open>env\<close> is what one request finds outside.  A running HTTPS listener is the address it is bound
  to, the front of the plain listener is the domain it redirects to.
\<close>

section \<open>State\<close>

text \<open>The rollback of a pending change: the section to restore and the author of the change.\<close>

type_synonym rollback = "Values \<times> string"

record listenerCommit =
  lc_pending :: bool
  lc_deadline :: time
  lc_rollback :: "rollback option"
  lc_timer :: "time option"

record server =
  sv_app :: app
  sv_settings :: "settingRow list"
  sv_certs :: "certRow list"
  sv_served :: "keypair option"
  sv_tlsAddr :: "string option"
  sv_front :: "string option"
  sv_commit :: listenerCommit

text \<open>
  The environment: that of the sign-in handlers, the bootstrap configuration, the settings store, host
  names of URLs, discovery, certificates, the listening socket (\<open>None\<close> when the address can be bound,
  or the text of the error), the nonces of a save, the statements that fail, numbered in the order a
  handler issues them, the printing of times, the resolver (each address with whether it is loopback,
  private or link-local), and the
  connectivity check.
\<close>

record env =
  en_world :: world
  en_boot :: BootstrapConfig
  en_store :: store
  en_hostname :: "string \<Rightarrow> string option"
  en_discover :: "Config \<Rightarrow> string option"
  en_crypto :: crypto
  en_lib :: tlslib
  en_lego :: "string \<Rightarrow> bool \<Rightarrow> lego"
  en_bind :: "string \<Rightarrow> string option"
  en_nonce :: "nat \<Rightarrow> string option"
  en_flt :: "nat \<Rightarrow> bool"
  en_fmt :: "time \<Rightarrow> string"
  en_resolve :: "string \<Rightarrow> string + (string \<times> bool) list"
  en_dial :: "string \<Rightarrow> string option"

definition conf :: "server \<Rightarrow> Config" where "conf s = ap_conf (sv_app s)"

definition log_server :: "env \<Rightarrow> string \<Rightarrow> string \<Rightarrow> string \<Rightarrow> string \<Rightarrow> server \<Rightarrow> server" where
  "log_server e upn ip result detail s = s\<lparr>sv_app := log_admin (en_world e) upn ip result detail (sv_app s)\<rparr>"

text \<open>\<open>reloadRuntime\<close> on the settings of the server.\<close>

definition reload :: "env \<Rightarrow> bool \<Rightarrow> server \<Rightarrow> reload_error option \<times> server" where
  "reload e flt s =
     (case reloadRuntime flt (en_hostname e) (en_discover e) (en_store e) (en_boot e) (sv_settings s) (sv_app s) of
        (err, a) \<Rightarrow> (err, s\<lparr>sv_app := a\<rparr>))"


section \<open>The listeners\<close>

definition stopTLS :: "server \<Rightarrow> server" where "stopTLS s = s\<lparr>sv_tlsAddr := None\<rparr>"
definition setFront :: "string option \<Rightarrow> server \<Rightarrow> server" where "setFront f s = s\<lparr>sv_front := f\<rparr>"

text \<open>The stored certificate is loaded first, the address bound second, the old listener released last.\<close>

definition startTLS :: "env \<Rightarrow> bool \<Rightarrow> Config \<Rightarrow> server \<Rightarrow> string option \<times> server" where
  "startTLS e flt cfg s =
     (let s1 = s\<lparr>sv_served := install_cert (en_crypto e) (en_lib e) flt (TLSDomain cfg) (sv_certs s) (sv_served s)\<rparr>
      in case en_bind e (TLSListenAddr cfg) of
           Some err \<Rightarrow> (Some (''HTTPS cannot listen on '' @ TLSListenAddr cfg @ '': '' @ err), s1)
         | None \<Rightarrow> (None, (stopTLS s1)\<lparr>sv_tlsAddr := Some (TLSListenAddr cfg)\<rparr>))"

definition apply_listeners :: "env \<Rightarrow> bool \<Rightarrow> Config \<Rightarrow> server \<Rightarrow> string option \<times> server" where
  "apply_listeners e flt cfg s =
     (if TLSMode cfg \<noteq> TLSModeStandalone then (None, setFront None (stopTLS s))
      else (case (if sv_tlsAddr s \<noteq> Some (TLSListenAddr cfg) then startTLS e flt cfg s else (None, s)) of
          (err, s1) \<Rightarrow>
            (err, setFront (if TLSRedirectHTTP cfg \<and> sv_tlsAddr s1 \<noteq> None then Some (TLSDomain cfg) else None) s1)))"

definition running :: "server \<Rightarrow> string \<times> bool" where
  "running s = (case sv_tlsAddr s of None \<Rightarrow> ([], False) | Some a \<Rightarrow> (a, True))"

definition listenerRisky :: "Config \<Rightarrow> Config \<Rightarrow> bool" where
  "listenerRisky prev nxt =
     (if TLSMode prev = TLSModeStandalone \<and> TLSMode nxt \<noteq> TLSModeStandalone then True
      else if TLSRedirectHTTP nxt \<and> \<not> TLSRedirectHTTP prev then True
      else if TLSMode nxt = TLSModeStandalone \<and> TLSMode prev = TLSModeStandalone \<and>
              TLSListenAddr prev \<noteq> TLSListenAddr nxt then True
      else if TLSRedirectHTTP nxt \<and> TLSDomain prev \<noteq> TLSDomain nxt then True
      else False)"


section \<open>Commit or roll back\<close>

definition listenerConfirmWindow :: duration where "listenerConfirmWindow = 2 * minute"

definition no_commit :: listenerCommit where
  "no_commit = \<lparr>lc_pending = False, lc_deadline = zero_time, lc_rollback = None, lc_timer = None\<rparr>"

text \<open>The new timer replaces the previous one.\<close>

definition commit_begin :: "time \<Rightarrow> rollback \<Rightarrow> listenerCommit \<Rightarrow> time \<times> listenerCommit" where
  "commit_begin now rb l =
     (now + listenerConfirmWindow,
      \<lparr>lc_pending = True, lc_deadline = now + listenerConfirmWindow, lc_rollback = Some rb,
       lc_timer = Some (now + listenerConfirmWindow)\<rparr>)"

definition commit_confirm :: "listenerCommit \<Rightarrow> bool \<times> listenerCommit" where
  "commit_confirm l =
     (if \<not> lc_pending l then (False, l)
      else (True, l\<lparr>lc_pending := False, lc_timer := None, lc_rollback := None\<rparr>))"

definition commit_status :: "listenerCommit \<Rightarrow> bool \<times> time" where
  "commit_status l = (lc_pending l, lc_deadline l)"

text \<open>The values of the section that was in force, a default for every key without a row.\<close>

definition restore_values :: "Values \<Rightarrow> Values" where
  "restore_values prevSection =
     fold (\<lambda>(k, v). AList.update k v) prevSection (map (\<lambda>d. (sd_key d, sd_default d)) (sectionKeys secTLS))"

text \<open>The closure of the rollback: \<open>flt 0\<close> fails the save, \<open>flt 1\<close> the reload, \<open>flt 2\<close> the certificate.\<close>

definition do_rollback :: "env \<Rightarrow> rollback \<Rightarrow> server \<Rightarrow> server" where
  "do_rollback e rb s = (case rb of (restore, updatedBy) \<Rightarrow>
     (case Save (en_flt e 0) (en_store e) (en_nonce e) (w_now (en_world e)) secTLS restore ''rollback'' (sv_settings s) of
        (Some err, tbl) \<Rightarrow> s\<lparr>sv_settings := tbl\<rparr>
      | (None, tbl) \<Rightarrow>
          (let s1 = snd (reload e (en_flt e 1) (s\<lparr>sv_settings := tbl\<rparr>));
               s2 = log_server e updatedBy [] ResultError ''listener change rolled back unconfirmed'' s1
           in snd (apply_listeners e (en_flt e 2) (conf s2) s2))))"

text \<open>What the timer does when its time has come, with its callback at once; CommitRace lets other steps in between.\<close>

definition commit_tick :: "env \<Rightarrow> server \<Rightarrow> server" where
  "commit_tick e s =
     (case lc_timer (sv_commit s) of
        None \<Rightarrow> s
      | Some t \<Rightarrow>
          if w_now (en_world e) < t then s
          else if \<not> lc_pending (sv_commit s) then s\<lparr>sv_commit := (sv_commit s)\<lparr>lc_timer := None\<rparr>\<rparr>
          else (let s1 = s\<lparr>sv_commit := (sv_commit s)\<lparr>lc_pending := False, lc_timer := None\<rparr>\<rparr>
                in case lc_rollback (sv_commit s) of None \<Rightarrow> s1 | Some rb \<Rightarrow> do_rollback e rb s1))"

definition applyListenerChange ::
  "env \<Rightarrow> bool \<Rightarrow> Config \<Rightarrow> Values \<Rightarrow> string \<Rightarrow> server \<Rightarrow> (bool \<times> time \<times> string option) \<times> server" where
  "applyListenerChange e flt prev prevSection updatedBy s =
     (let nxt = conf s
      in case apply_listeners e flt nxt s of
           (applyErr, s1) \<Rightarrow>
             if \<not> listenerRisky prev nxt then ((False, zero_time, applyErr), s1)
             else if applyErr \<noteq> None then ((False, zero_time, applyErr), s1)
             else (case commit_begin (w_now (en_world e)) (restore_values prevSection, updatedBy) (sv_commit s1) of
                     (deadline, l) \<Rightarrow> ((True, deadline, None), s1\<lparr>sv_commit := l\<rparr>)))"


section \<open>Snippets\<close>

definition nl :: string where "nl = [CHR 0x0A]"
definition tab :: string where "tab = [CHR 0x09]"

definition proxySnippet :: "string \<Rightarrow> string \<Rightarrow> string \<Rightarrow> string" where
  "proxySnippet kind domain listenAddr =
     (let upstream = (if has_prefix listenAddr ''0.0.0.0:''
            then ''127.0.0.1:'' @ trim_prefix listenAddr ''0.0.0.0:'' else listenAddr)
      in if kind = ''caddy''
         then domain @ '' {'' @ nl @ tab @ ''reverse_proxy '' @ upstream @ '' {'' @ nl @
              tab @ tab @ ''header_up X-Real-IP {remote_host}'' @ nl @ tab @ ''}'' @ nl @ ''}'' @ nl
         else ''server {'' @ nl @
              ''    listen 443 ssl;'' @ nl @
              ''    http2 on;'' @ nl @
              ''    server_name '' @ domain @ '';'' @ nl @ nl @
              ''    # ssl_certificate / ssl_certificate_key are managed by your proxy.'' @ nl @ nl @
              ''    location / {'' @ nl @
              ''        proxy_pass http://'' @ upstream @ '';'' @ nl @
              ''        proxy_set_header Host              $host;'' @ nl @
              ''        proxy_set_header X-Real-IP         $remote_addr;'' @ nl @
              ''        proxy_set_header X-Forwarded-For   $proxy_add_x_forwarded_for;'' @ nl @
              ''        proxy_set_header X-Forwarded-Proto $scheme;'' @ nl @
              ''    }'' @ nl @ ''}'' @ nl)"

section \<open>Lemmas\<close>

lemma conf_simps [simp]:
  "conf (s\<lparr>sv_app := a\<rparr>) = ap_conf a" "conf (s\<lparr>sv_settings := t\<rparr>) = conf s" "conf (s\<lparr>sv_certs := c\<rparr>) = conf s"
  "conf (s\<lparr>sv_served := p\<rparr>) = conf s" "conf (s\<lparr>sv_commit := l\<rparr>) = conf s"
  "conf (s\<lparr>sv_tlsAddr := t'\<rparr>) = conf s" "conf (s\<lparr>sv_front := f\<rparr>) = conf s"
  by (simp_all add: conf_def)

lemma log_server_keeps [simp]:
  "sv_settings (log_server e u ip r d s) = sv_settings s" "sv_certs (log_server e u ip r d s) = sv_certs s"
  "sv_served (log_server e u ip r d s) = sv_served s" "sv_tlsAddr (log_server e u ip r d s) = sv_tlsAddr s"
  "sv_front (log_server e u ip r d s) = sv_front s" "sv_commit (log_server e u ip r d s) = sv_commit s"
  "conf (log_server e u ip r d s) = conf s"
  by (simp_all add: log_server_def log_admin_def conf_def)

lemma reload_keeps [simp]:
  "sv_settings (snd (reload e flt s)) = sv_settings s" "sv_certs (snd (reload e flt s)) = sv_certs s"
  "sv_served (snd (reload e flt s)) = sv_served s" "sv_tlsAddr (snd (reload e flt s)) = sv_tlsAddr s"
  "sv_front (snd (reload e flt s)) = sv_front s" "sv_commit (snd (reload e flt s)) = sv_commit s"
  by (simp_all add: reload_def case_prod_beta)

lemma reload_conf:
  "LoadAll flt (en_store e) (sv_settings s) = Inr v \<Longrightarrow>
     conf (snd (reload e flt s)) = runtime_Config (en_hostname e) (en_boot e) v"
  by (simp add: reload_def reload_ok)

lemma startTLS_keeps [simp]:
  "sv_settings (snd (startTLS e flt cfg s)) = sv_settings s" "sv_certs (snd (startTLS e flt cfg s)) = sv_certs s"
  "sv_commit (snd (startTLS e flt cfg s)) = sv_commit s" "sv_app (snd (startTLS e flt cfg s)) = sv_app s"
  by (simp_all add: startTLS_def stopTLS_def Let_def split: option.split)

lemma startTLS_addr [simp]:
  "fst (startTLS e flt cfg s) = None \<longleftrightarrow> en_bind e (TLSListenAddr cfg) = None"
  "sv_tlsAddr (snd (startTLS e flt cfg s)) =
     (if en_bind e (TLSListenAddr cfg) = None then Some (TLSListenAddr cfg) else sv_tlsAddr s)"
  by (simp_all add: startTLS_def stopTLS_def Let_def split: option.split)

lemma apply_keeps [simp]:
  "sv_settings (snd (apply_listeners e flt cfg s)) = sv_settings s"
  "sv_certs (snd (apply_listeners e flt cfg s)) = sv_certs s"
  "sv_commit (snd (apply_listeners e flt cfg s)) = sv_commit s"
  "sv_app (snd (apply_listeners e flt cfg s)) = sv_app s"
  by (simp_all add: apply_listeners_def setFront_def stopTLS_def case_prod_beta)

lemma apply_app_conf [simp]: "conf (snd (apply_listeners e flt cfg s)) = conf s"
  by (simp add: conf_def)

text \<open>The address the configuration asks for, and the redirect.\<close>

definition wanted :: "Config \<Rightarrow> string option \<times> string option" where
  "wanted cfg =
     (if TLSMode cfg = TLSModeStandalone
      then (Some (TLSListenAddr cfg), if TLSRedirectHTTP cfg then Some (TLSDomain cfg) else None)
      else (None, None))"

lemma apply_wanted:
  "apply_listeners e flt cfg s = (None, s') \<Longrightarrow> (sv_tlsAddr s', sv_front s') = wanted cfg"
  by (auto simp: apply_listeners_def wanted_def setFront_def stopTLS_def case_prod_beta prod_eq_iff
      split: if_splits)

lemma apply_binds:
  "TLSMode cfg \<noteq> TLSModeStandalone \<or> en_bind e (TLSListenAddr cfg) = None \<or> sv_tlsAddr s = Some (TLSListenAddr cfg) \<Longrightarrow>
     fst (apply_listeners e flt cfg s) = None"
  by (auto simp: apply_listeners_def case_prod_beta)

lemma apply_idle:
  assumes "(sv_tlsAddr s, sv_front s) = wanted cfg"
  shows "apply_listeners e flt cfg s = (None, s)"
  using assms by (auto simp: apply_listeners_def wanted_def setFront_def stopTLS_def split: if_splits)


subsection \<open>The restored section\<close>

lemma map_of_updates:
  "distinct (map fst kvs) \<Longrightarrow> map_of (fold (\<lambda>(k, v). AList.update k v) kvs m) = map_of m ++ map_of kvs"
proof (induction kvs arbitrary: m)
  case (Cons e kvs)
  obtain k v where e: "e = (k, v)" by (cases e)
  have "map_of kvs k = None" using Cons.prems by (simp add: e map_of_eq_None_iff)
  with Cons show ?case by (auto simp: e update_conv map_add_def fun_eq_iff split: option.split)
qed simp

lemma distinct_updates: "distinct (map fst m) \<Longrightarrow> distinct (map fst (fold (\<lambda>(k, v). AList.update k v) kvs m))"
  by (induction kvs arbitrary: m) (auto simp: distinct_update split: prod.split)

lemma tls_defaults: "distinct (map fst (map (\<lambda>d. (sd_key d, sd_default d)) (sectionKeys secTLS)))"
  by code_simp

lemma tls_default: "d \<in> set (sectionKeys secTLS) \<Longrightarrow>
    map_of (map (\<lambda>d. (sd_key d, sd_default d)) (sectionKeys secTLS)) (sd_key d) = Some (sd_default d)"
  using tls_defaults by (intro map_of_is_SomeI) auto

lemma restore_lookup:
  assumes "distinct (map fst prev)" "d \<in> set (sectionKeys secTLS)"
  shows "map_of (restore_values prev) (sd_key d) =
    Some (case map_of prev (sd_key d) of None \<Rightarrow> sd_default d | Some v \<Rightarrow> v)"
  using tls_default [OF assms(2)] map_of_updates [OF assms(1)]
  by (simp add: restore_values_def map_add_def split: option.split)

lemma restore_distinct: "distinct (map fst (restore_values prev))"
  unfolding restore_values_def by (rule distinct_updates [OF tls_defaults])

lemma tls_not_secret: "\<not> isSecretSetting secTLS k"
proof -
  have "\<forall>d\<in>set settingRegistry. sd_secret d \<longrightarrow> hd (sd_section d) \<noteq> CHR ''t'' \<and> sd_section d \<noteq> []"
    by code_simp
  moreover have "hd (Key secTLS k) = CHR ''t''" by (simp add: Key_def secTLS_def)
  ultimately have "\<not> sd_secret d" if "d \<in> set settingRegistry" "Key (sd_section d) (sd_key d) = Key secTLS k" for d
    using that by (metis Key_def hd_append2)
  then show ?thesis
    by (auto simp: isSecretSetting_def settingIndex_def split: option.split dest!: find_SomeD)
qed

text \<open>A section without secrets is saved whenever the database works.\<close>

lemma save_rows_plain:
  assumes "\<And>k. \<not> so_secrets s sec k"
  shows "\<exists>rows. save_rows s rnd now sec by i kvs = Inr rows"
proof (induction kvs arbitrary: i)
  case (Cons e kvs)
  from Cons [of "Suc i"] obtain rows where "save_rows s rnd now sec by (Suc i) kvs = Inr rows" ..
  with assms show ?case by (cases e) simp
qed simp

lemma Save_plain:
  assumes "\<And>k. \<not> so_secrets s sec k"
  obtains tbl' where "Save False s rnd now sec kvs by tbl = (None, tbl')"
proof -
  let ?sorted = "map (\<lambda>k. (k, the (map_of kvs k))) (sort (map fst kvs))"
  obtain rows where "save_rows s rnd now sec (if by = [] then ''system'' else by) 0 ?sorted = Inr rows"
    using save_rows_plain [OF assms] by blast
  then show thesis using that by (cases "rows = []") (auto simp: Save_def Let_def)
qed

lemma save_rows_Nil: "save_rows s rnd now sec author i kvs = Inr [] \<Longrightarrow> kvs = []"
  by (cases kvs) (auto split: sum.splits)

text \<open>When the statement fails, the table stays.\<close>

lemma Save_plain_fault:
  assumes "\<And>k. \<not> so_secrets s sec k" "kvs \<noteq> []"
  shows "Save True s rnd now sec kvs author tbl = (Some SettingsDB, tbl)"
proof -
  let ?sorted = "map (\<lambda>k. (k, the (map_of kvs k))) (sort (map fst kvs))"
  obtain rows where rows: "save_rows s rnd now sec (if author = [] then ''system'' else author) 0 ?sorted = Inr rows"
    using save_rows_plain [OF assms(1)] by blast
  have "?sorted \<noteq> []"
  proof
    assume "?sorted = []"
    then have "length ?sorted = 0" by (simp only: list.size)
    with assms(2) show False by simp
  qed
  then have "rows \<noteq> []" using rows save_rows_Nil by blast
  with rows show ?thesis by (simp add: Save_def Let_def)
qed

lemma updates_length: "length m \<le> length (fold (\<lambda>(k, v). AList.update k v) kvs m)"
proof (induction kvs arbitrary: m)
  case (Cons e kvs)
  obtain k v where e: "e = (k, v)" by (cases e)
  have "length m \<le> length (AList.update k v m)" by (induction m) auto
  with Cons [of "AList.update k v m"] show ?case by (simp add: e)
qed simp

lemma restore_not_empty: "restore_values prev \<noteq> []"
proof
  let ?defaults = "map (\<lambda>d. (sd_key d, sd_default d)) (sectionKeys secTLS)"
  assume "restore_values prev = []"
  with updates_length [of ?defaults prev] have "length ?defaults \<le> 0" by (simp only: restore_values_def list.size)
  moreover have "sectionKeys secTLS \<noteq> []" by code_simp
  ultimately show False by simp
qed

lemma unique_Save_result:
  "unique_by setting_pk tbl \<Longrightarrow> Save flt s rnd now sec kvs by tbl = (err, tbl') \<Longrightarrow> unique_by setting_pk tbl'"
  using unique_Save [of tbl flt s rnd now sec kvs "by"] by simp

text \<open>An armed change: the rollback holds the section as it was just before.\<close>

lemma armed_change:
  assumes "applyListenerChange e f prev stored by s = ((True, deadline, err), s1)"
  shows "deadline = w_now (en_world e) + listenerConfirmWindow" "lc_pending (sv_commit s1)"
    "lc_timer (sv_commit s1) = Some deadline" "lc_rollback (sv_commit s1) = Some (restore_values stored, by)"
    "listenerRisky prev (conf s)" "(sv_tlsAddr s1, sv_front s1) = wanted (conf s)"
proof -
  let ?apply = "apply_listeners e f (conf s) s"
  have ok: "fst ?apply = None" "listenerRisky prev (conf s)"
    using assms by (auto simp: applyListenerChange_def case_prod_beta Let_def split: if_splits)
  with assms have s1: "s1 = (snd ?apply)\<lparr>sv_commit := snd (commit_begin (w_now (en_world e)) (restore_values stored, by) (sv_commit (snd ?apply)))\<rparr>"
    and "deadline = w_now (en_world e) + listenerConfirmWindow"
    by (auto simp: applyListenerChange_def case_prod_beta commit_begin_def Let_def)
  then show "deadline = w_now (en_world e) + listenerConfirmWindow" "lc_pending (sv_commit s1)"
    "lc_timer (sv_commit s1) = Some deadline" "lc_rollback (sv_commit s1) = Some (restore_values stored, by)"
    by (simp_all add: commit_begin_def)
  show "listenerRisky prev (conf s)" by (rule ok)
  show "(sv_tlsAddr s1, sv_front s1) = wanted (conf s)"
    using apply_wanted [of e f "conf s" s "snd ?apply"] ok(1) by (simp add: s1 prod_eq_iff)
qed

text \<open>A change made while an earlier one waits for its confirmation takes the earlier rollback away.\<close>

lemma superseded_change_permanent:
  assumes "applyListenerChange e1 f1 prev1 stored1 by1 s = ((True, d1, err1), s1)"
    and "applyListenerChange e2 f2 prev2 stored2 by2 s2 = ((True, d2, err2), s3)"
  shows "lc_rollback (sv_commit s3) = Some (restore_values stored2, by2)" "lc_timer (sv_commit s3) = Some d2"
  using armed_change [OF assms(2)] by simp_all

lemma rollback_saves:
  assumes "Save (en_flt e 0) (en_store e) (en_nonce e) (w_now (en_world e)) secTLS restore ''rollback'' (sv_settings s) = (None, tbl)"
  shows "sv_settings (do_rollback e (restore, author) s) = tbl"
    "sv_commit (do_rollback e (restore, author) s) = sv_commit s"
    "LoadAll (en_flt e 1) (en_store e) tbl = Inr v \<Longrightarrow>
       conf (do_rollback e (restore, author) s) = runtime_Config (en_hostname e) (en_boot e) v"
    "(\<And>a. en_bind e a = None) \<Longrightarrow>
       (sv_tlsAddr (do_rollback e (restore, author) s), sv_front (do_rollback e (restore, author) s)) =
         wanted (conf (do_rollback e (restore, author) s))"
proof -
  define s1 where "s1 = snd (reload e (en_flt e 1) (s\<lparr>sv_settings := tbl\<rparr>))"
  define s2 where "s2 = log_server e author [] ResultError ''listener change rolled back unconfirmed'' s1"
  have eq: "do_rollback e (restore, author) s = snd (apply_listeners e (en_flt e 2) (conf s2) s2)"
    using assms by (simp add: do_rollback_def s1_def s2_def Let_def)
  show "sv_settings (do_rollback e (restore, author) s) = tbl"
    "sv_commit (do_rollback e (restore, author) s) = sv_commit s"
    by (simp_all add: eq s2_def s1_def)
  show "conf (do_rollback e (restore, author) s) = runtime_Config (en_hostname e) (en_boot e) v"
    if "LoadAll (en_flt e 1) (en_store e) tbl = Inr v"
    using reload_conf [of "en_flt e 1" e "s\<lparr>sv_settings := tbl\<rparr>"] that by (simp add: eq s2_def s1_def)
  show "(sv_tlsAddr (do_rollback e (restore, author) s), sv_front (do_rollback e (restore, author) s)) =
      wanted (conf (do_rollback e (restore, author) s))" if "\<And>a. en_bind e a = None"
    using apply_wanted [of e "en_flt e 2" "conf s2" s2] apply_binds [of "conf s2" e s2] that
    by (simp add: eq) (metis prod.collapse)
qed



section \<open>Properties\<close>

text \<open>C37: Reconfiguring and restarting agree.  When the listeners were brought into line with a
  configuration without an error, from whatever state, the HTTPS address and the redirect are those a
  freshly started portal has under that configuration: the configured address and domain in standalone
  mode, nothing behind a proxy.  Doing it again changes nothing, even if the address could no longer be
  bound.\<close>

theorem listeners_restart_equiv:
  assumes "apply_listeners e flt cfg s = (None, s')"
    and "sv_tlsAddr fresh = None" "sv_front fresh = None" "en_bind e0 (TLSListenAddr cfg) = None"
  shows "(sv_tlsAddr s', sv_front s') =
      (if TLSMode cfg = TLSModeStandalone
       then (Some (TLSListenAddr cfg), if TLSRedirectHTTP cfg then Some (TLSDomain cfg) else None)
       else (None, None)) \<and>
    (\<exists>started. apply_listeners e0 flt cfg fresh = (None, started) \<and>
       sv_tlsAddr started = sv_tlsAddr s' \<and> sv_front started = sv_front s') \<and>
    apply_listeners e1 flt1 cfg s' = (None, s')"
proof -
  note now = apply_wanted [OF assms(1)]
  have "fst (apply_listeners e0 flt cfg fresh) = None" using assms(4) by (intro apply_binds) simp
  then obtain started where st: "apply_listeners e0 flt cfg fresh = (None, started)" by (metis prod.collapse)
  have "sv_tlsAddr started = sv_tlsAddr s'" "sv_front started = sv_front s'"
    using now apply_wanted [OF st] by (metis prod.inject)+
  with st now apply_idle [OF now] show ?thesis by (simp add: wanted_def)
qed

definition demo_env :: "time \<Rightarrow> env" where
  "demo_env now =
     \<lparr>en_world = demo_world now, en_boot = demo_boot,
      en_store = \<lparr>so_aead = demo_aead, so_keys = Some ''k'', so_secrets = isSecretSetting\<rparr>,
      en_hostname = (\<lambda>_. None), en_discover = (\<lambda>_. None), en_crypto = demo_crypto, en_lib = demo_lib,
      en_lego = (\<lambda>_ _. demo_lego), en_bind = (\<lambda>_. None), en_nonce = (\<lambda>_. Some ''abcdefghijkl''),
      en_flt = (\<lambda>_. False), en_fmt = (\<lambda>_. ''t''), en_resolve = (\<lambda>_. Inr []), en_dial = (\<lambda>_. None)\<rparr>"

definition demo_server :: "Config \<Rightarrow> server" where
  "demo_server cfg =
     \<lparr>sv_app = demo_app\<lparr>ap_conf := cfg\<rparr>, sv_settings = [], sv_certs = [], sv_served = None, sv_tlsAddr = None,
      sv_front = None, sv_commit = no_commit\<rparr>"

lemma demo_env_simps [simp]:
  "en_bind (demo_env t) a = None" "en_flt (demo_env t) i = False" "w_now (en_world (demo_env t)) = t"
  "so_secrets (en_store (demo_env t)) = isSecretSetting" "so_aead (en_store (demo_env t)) = demo_aead"
  "good_nonces (en_nonce (demo_env t))"
  by (simp_all add: demo_env_def good_nonces_def nonce_size_def)

lemma demo_server_simps [simp]:
  "sv_tlsAddr (demo_server cfg) = None" "sv_front (demo_server cfg) = None" "conf (demo_server cfg) = cfg"
  "sv_settings (demo_server cfg) = []"
  by (simp_all add: demo_server_def conf_def)

theorem listeners_restart_equiv_witness:
  "\<exists>s'. apply_listeners (demo_env 0) False demo_standalone (demo_server demo_standalone) = (None, s') \<and>
     apply_listeners (demo_env 1) False demo_standalone s' = (None, s')"
proof -
  let ?s = "demo_server demo_standalone"
  have "fst (apply_listeners (demo_env 0) False demo_standalone ?s) = None"
    by (intro apply_binds) simp
  then obtain s' where s': "apply_listeners (demo_env 0) False demo_standalone ?s = (None, s')" by (metis prod.collapse)
  have fresh: "sv_tlsAddr ?s = None" "sv_front ?s = None" "en_bind (demo_env 0) (TLSListenAddr demo_standalone) = None"
    by simp_all
  have "apply_listeners (demo_env 1) False demo_standalone s' = (None, s')"
    using listeners_restart_equiv [OF s' fresh, of "demo_env 1" False] by blast
  with s' show ?thesis by blast
qed

text \<open>A change that could not be applied still takes the console away.  When a portal that serves HTTPS on
  one address is told to move to an address that cannot be bound and to redirect plain HTTP, the change is
  reported as failed and no rollback is armed, as for a portal that serves what it served before; but the
  redirect is installed, so every plain request is sent to the new domain.\<close>

theorem failed_change_redirects:
  assumes "TLSMode (conf s) = TLSModeStandalone" "TLSRedirectHTTP (conf s)" "sv_tlsAddr s = Some old"
    and "TLSListenAddr (conf s) \<noteq> old" "en_bind e (TLSListenAddr (conf s)) = Some err"
  shows "\<exists>s'. applyListenerChange e f prev prevSection by s =
      ((False, zero_time, Some (''HTTPS cannot listen on '' @ TLSListenAddr (conf s) @ '': '' @ err)), s') \<and>
    sv_front s' = Some (TLSDomain (conf s)) \<and> sv_tlsAddr s' = Some old \<and>
    sv_commit s' = sv_commit s \<and> sv_settings s' = sv_settings s"
  using assms
  by (auto simp: applyListenerChange_def apply_listeners_def startTLS_def setFront_def stopTLS_def Let_def)

theorem failed_change_redirects_witness:
  "\<exists>s'. applyListenerChange ((demo_env 0)\<lparr>en_bind := (\<lambda>_. Some ''in use'')\<rparr>) False demo_standalone [] ''ann''
       ((demo_server (demo_standalone\<lparr>TLSListenAddr := '':8443'', TLSRedirectHTTP := True\<rparr>))\<lparr>sv_tlsAddr := Some '':443''\<rparr>) =
       ((False, zero_time, Some ''HTTPS cannot listen on :8443: in use''), s') \<and>
     sv_front s' = Some ''p.org''"
  using failed_change_redirects [of "(demo_server (demo_standalone\<lparr>TLSListenAddr := '':8443'', TLSRedirectHTTP := True\<rparr>))\<lparr>sv_tlsAddr := Some '':443''\<rparr>"
      "'':443''" "(demo_env 0)\<lparr>en_bind := (\<lambda>_. Some ''in use'')\<rparr>" "''in use''" False demo_standalone "[]" "''ann''"]
  by (auto simp: demo_standalone_def)

text \<open>C16: An unconfirmed change is rolled back, when the rollback can be saved.  A listener change that was armed
  waits two minutes; while nobody confirms it and no other change is armed, the timer does nothing before the
  deadline.  At or after it nothing is pending any more, and the TLS section reads as just before the change,
  defaults filled in for keys it had no row for, whatever was saved in the meantime; every other section is
  kept, the running configuration is that of the table if the reload can read it, and the listeners are those
  it asks for if every address can be bound.  Only when the statement that saves the old values fails is the
  rollback given up: settings, configuration and listeners stay those of the unconfirmed change, and it is not
  tried again.  This is for a TLS section that can be read and a cipher that decrypts what it encrypted with
  nonces of its size, and it holds whatever was pending before: a second change made before the first is confirmed is rolled back to the
  unconfirmed values of the first.\<close>

theorem unconfirmed_rolled_back:
  assumes "applyListenerChange e f prev stored by s = ((True, deadline, err), s1)" "distinct (map fst stored)"
    and "sv_commit s2 = sv_commit s1" "unique_by setting_pk (sv_settings s2)"
    and "LoadSection False (en_store e') secTLS (sv_settings s2) = Inr cur"
    and "aead_ok (so_aead (en_store e'))" "good_nonces (en_nonce e')" "so_secrets (en_store e') = isSecretSetting"
    and "s3 = commit_tick e' s2"
  shows "deadline = w_now (en_world e) + 2 * minute \<and>
    (w_now (en_world e') < deadline \<longrightarrow> s3 = s2) \<and>
    (deadline \<le> w_now (en_world e') \<longrightarrow>
       \<not> lc_pending (sv_commit s3) \<and>
       (en_flt e' 0 \<longrightarrow> s3 = s2\<lparr>sv_commit := sv_commit s3\<rparr>) \<and>
       (\<not> en_flt e' 0 \<longrightarrow>
          (\<exists>m. LoadSection False (en_store e') secTLS (sv_settings s3) = Inr m \<and>
             (\<forall>d. d \<in> set (sectionKeys secTLS) \<longrightarrow> map_of m (sd_key d) =
                Some (case map_of stored (sd_key d) of None \<Rightarrow> sd_default d | Some v \<Rightarrow> v))) \<and>
          (\<forall>sec. sec \<noteq> secTLS \<longrightarrow> LoadSection False (en_store e') sec (sv_settings s3) =
             LoadSection False (en_store e') sec (sv_settings s2)) \<and>
          (\<forall>v. \<not> en_flt e' 1 \<and> LoadAll False (en_store e') (sv_settings s3) = Inr v \<longrightarrow>
             conf s3 = runtime_Config (en_hostname e') (en_boot e') v) \<and>
          ((\<forall>a. en_bind e' a = None) \<longrightarrow> (sv_tlsAddr s3, sv_front s3) = wanted (conf s3))))"
proof -
  note armed = armed_change [OF assms(1)]
  let ?st = "en_store e'"
  let ?s = "s2\<lparr>sv_commit := (sv_commit s2)\<lparr>lc_pending := False, lc_timer := None\<rparr>\<rparr>"
  have plain: "\<And>k. \<not> so_secrets ?st secTLS k" by (simp add: assms(8) tls_not_secret)
  obtain tbl where sv: "Save False ?st (en_nonce e') (w_now (en_world e')) secTLS (restore_values stored) ''rollback''
      (sv_settings s2) = (None, tbl)"
    by (rule Save_plain [OF plain])
  have "storable ?st secTLS (restore_values stored)" using plain by (simp add: storable_def)
  from Save_read_back [OF assms(6,7,4,5) this restore_distinct, of False "w_now (en_world e')" "''rollback''", unfolded sv]
  obtain m where m: "LoadSection False ?st secTLS tbl = Inr m" "map_of m = map_of cur ++ map_of (restore_values stored)"
    and others: "\<forall>sec. sec \<noteq> secTLS \<longrightarrow> LoadSection False ?st sec tbl = LoadSection False ?st sec (sv_settings s2)"
    by auto
  have vals: "map_of m (sd_key d) = Some (case map_of stored (sd_key d) of None \<Rightarrow> sd_default d | Some v \<Rightarrow> v)"
    if "d \<in> set (sectionKeys secTLS)" for d
    using restore_lookup [OF assms(2) that] by (simp add: m(2) map_add_def)
  show ?thesis
  proof (cases "w_now (en_world e') < deadline")
    case True
    then have "s3 = s2" using armed by (simp add: assms(3,9) commit_tick_def)
    with True armed(1) show ?thesis by (simp add: listenerConfirmWindow_def)
  next
    case False
    then have s3: "s3 = do_rollback e' (restore_values stored, by) ?s"
      using armed by (simp add: assms(3,9) commit_tick_def Let_def)
    show ?thesis
    proof (cases "en_flt e' 0")
      case True
      then have "s3 = ?s"
        using Save_plain_fault [OF plain restore_not_empty] by (simp add: s3 do_rollback_def)
      with True False armed(1) show ?thesis by (simp add: listenerConfirmWindow_def)
    next
      case False
      then have "Save (en_flt e' 0) ?st (en_nonce e') (w_now (en_world e')) secTLS (restore_values stored) ''rollback''
          (sv_settings ?s) = (None, tbl)"
        using sv by simp
      note rb = rollback_saves [OF this, where author = "by", folded s3]
      have "conf s3 = runtime_Config (en_hostname e') (en_boot e') v"
        if "\<not> en_flt e' 1" "LoadAll False ?st (sv_settings s3) = Inr v" for v
        using rb(1,3) that by simp
      with False \<open>\<not> w_now (en_world e') < deadline\<close> armed(1) m(1) vals others rb(1,2,4) show ?thesis
        by (simp add: listenerConfirmWindow_def)
    qed
  qed
qed

definition demo_redirecting :: Config where
  "demo_redirecting = demo_standalone\<lparr>TLSRedirectHTTP := True\<rparr>"

lemma demo_armed:
  "\<exists>s1. applyListenerChange (demo_env 0) False demo_Config [] ''ann'' (demo_server demo_redirecting) =
     ((True, 2 * minute, None), s1) \<and> sv_settings s1 = []"
proof -
  let ?apply = "apply_listeners (demo_env 0) False demo_redirecting (demo_server demo_redirecting)"
  have "fst ?apply = None" by (intro apply_binds) simp
  moreover have "listenerRisky demo_Config demo_redirecting"
    by (simp add: listenerRisky_def demo_redirecting_def demo_Config_def)
  ultimately show ?thesis
    by (simp add: applyListenerChange_def case_prod_beta commit_begin_def listenerConfirmWindow_def)
qed

theorem unconfirmed_rolled_back_witness:
  "\<exists>s1 m. applyListenerChange (demo_env 0) False demo_Config [] ''ann'' (demo_server demo_redirecting) =
     ((True, 2 * minute, None), s1) \<and>
     LoadSection False (en_store (demo_env 0)) secTLS (sv_settings (commit_tick (demo_env (2 * minute)) s1)) = Inr m \<and>
     map_of m ''mode'' = Some TLSModeProxy"
proof -
  obtain s1 where armed: "applyListenerChange (demo_env 0) False demo_Config [] ''ann'' (demo_server demo_redirecting) =
     ((True, 2 * minute, None), s1)" and tbl: "sv_settings s1 = []"
    using demo_armed by blast
  have store: "en_store (demo_env (2 * minute)) = en_store (demo_env 0)" by (simp add: demo_env_def)
  have hyps: "distinct (map fst ([] :: Values))" "sv_commit s1 = sv_commit s1" "unique_by setting_pk (sv_settings s1)"
    "LoadSection False (en_store (demo_env (2 * minute))) secTLS (sv_settings s1) = Inr []"
    "aead_ok (so_aead (en_store (demo_env (2 * minute))))" "good_nonces (en_nonce (demo_env (2 * minute)))"
    "so_secrets (en_store (demo_env (2 * minute))) = isSecretSetting"
    by (simp_all add: tbl unique_by_def LoadSection_def demo_aead_ok)
  let ?mode = "setting secTLS ''mode'' [] TLSModeProxy False"
  have mode: "?mode \<in> set (sectionKeys secTLS)" by (simp add: sectionKeys_def settingRegistry_def setting_def)
  have fields: "sd_key ?mode = ''mode''" "sd_default ?mode = TLSModeProxy" by (simp_all add: setting_def)
  have "2 * minute \<le> w_now (en_world (demo_env (2 * minute)))" "\<not> en_flt (demo_env (2 * minute)) 0" by simp_all
  then obtain m where "LoadSection False (en_store (demo_env 0)) secTLS
      (sv_settings (commit_tick (demo_env (2 * minute)) s1)) = Inr m"
    and "\<forall>d. d \<in> set (sectionKeys secTLS) \<longrightarrow> map_of m (sd_key d) =
      Some (case map_of [] (sd_key d) of None \<Rightarrow> sd_default d | Some v \<Rightarrow> v)"
    using unconfirmed_rolled_back [OF armed hyps refl] unfolding store by blast
  with mode fields armed show ?thesis by (metis map_of.simps(1) option.simps(4))
qed

end
