(* ===== verification/LocalAdmin.thy ===== *)
theory LocalAdmin
  imports Secret Table PortalRun
begin

text \<open>
  \<open>portal/localadmin.go\<close>: the break-glass administrator.  The key derivation \<open>argon2.IDKey\<close> is the
  parameter \<open>argon\<close> (password, salt, passes, memory, lanes and length of the key); the salt of a new
  hash is \<open>None\<close> when the random source fails.  \<open>net.ParseCIDR\<close> is a parameter that gives the
  membership predicate of the network, on the canonical text of an address.
\<close>

section \<open>Scanning a parameter list\<close>

text \<open>\<open>fmt.Sscanf\<close> with a format of literals and \<open>%d\<close>: literals match exactly, numbers may follow
  blanks, text after the last verb is ignored.\<close>

definition scan_lit :: "string \<Rightarrow> string \<Rightarrow> string option" where
  "scan_lit lit s = (if has_prefix s lit then Some (drop (length lit) s) else None)"

definition scan_blanks :: "string \<Rightarrow> string" where
  "scan_blanks = dropWhile (\<lambda>c. is_space c \<and> byte c \<noteq> 10)"

definition scan_digits :: "string \<Rightarrow> (nat \<times> string) option" where
  "scan_digits s =
     (if takeWhile is_digit s = [] then None
      else map_option (\<lambda>n. (n, dropWhile is_digit s)) (digits_val 0 (takeWhile is_digit s)))"

definition scan_uint :: "nat \<Rightarrow> string \<Rightarrow> (nat \<times> string) option" where
  "scan_uint bits s =
     (case scan_digits (scan_blanks s) of
        None \<Rightarrow> None
      | Some (n, rest) \<Rightarrow> if n < 2 ^ bits then Some (n, rest) else None)"

definition scan_int :: "string \<Rightarrow> (int \<times> string) option" where
  "scan_int s =
     (let t = scan_blanks s;
          neg = (t \<noteq> [] \<and> hd t = CHR ''-'');
          u = (if t \<noteq> [] \<and> hd t \<in> {CHR ''-'', CHR ''+''} then tl t else t)
      in case scan_digits u of
           None \<Rightarrow> None
         | Some (n, rest) \<Rightarrow>
             (let i = (if neg then - int n else int n) in if in_int64 i then Some (i, rest) else None))"


section \<open>Passwords\<close>

definition argonTime :: nat where "argonTime = 3"
definition argonMemory :: nat where "argonMemory = 65536"
definition argonThreads :: nat where "argonThreads = 4"
definition argonKeyLen :: nat where "argonKeyLen = 32"
definition argonSaltLen :: nat where "argonSaltLen = 16"
definition argonVersion :: int where "argonVersion = 19"

type_synonym argon = "string \<Rightarrow> string \<Rightarrow> nat \<Rightarrow> nat \<Rightarrow> nat \<Rightarrow> nat \<Rightarrow> string"

definition hashPassword :: "argon \<Rightarrow> string option \<Rightarrow> string \<Rightarrow> string option" where
  "hashPassword argon rnd password =
     (case rnd of
        None \<Rightarrow> None
      | Some salt \<Rightarrow>
          (let key = argon password salt argonTime argonMemory argonThreads argonKeyLen
           in Some (''$argon2id$v='' @ itoa argonVersion @ ''$m='' @ itoa (int argonMemory) @ '',t='' @
                itoa (int argonTime) @ '',p='' @ itoa (int argonThreads) @ ''$'' @ raw_std_encode salt @
                ''$'' @ raw_std_encode key)))"

definition scan_version :: "string \<Rightarrow> int option" where
  "scan_version s =
     (case scan_lit ''v='' s of None \<Rightarrow> None | Some r \<Rightarrow> map_option fst (scan_int r))"

definition scan_params :: "string \<Rightarrow> (nat \<times> nat \<times> nat) option" where
  "scan_params s =
     (case scan_lit ''m='' s of None \<Rightarrow> None | Some r1 \<Rightarrow>
      (case scan_uint 32 r1 of None \<Rightarrow> None | Some (memory, r2) \<Rightarrow>
       (case scan_lit '',t='' r2 of None \<Rightarrow> None | Some r3 \<Rightarrow>
        (case scan_uint 32 r3 of None \<Rightarrow> None | Some (timeCost, r4) \<Rightarrow>
         (case scan_lit '',p='' r4 of None \<Rightarrow> None | Some r5 \<Rightarrow>
          (case scan_uint 8 r5 of None \<Rightarrow> None | Some (threads, r6) \<Rightarrow>
             Some (memory, timeCost, threads)))))))"

definition verifyPassword :: "argon \<Rightarrow> string \<Rightarrow> string \<Rightarrow> bool" where
  "verifyPassword argon password encoded =
     (case split_on CHR ''$'' encoded of
        [_, kind, version, params, salt64, key64] \<Rightarrow>
          if kind \<noteq> ''argon2id'' then False
          else if scan_version version \<noteq> Some argonVersion then False
          else (case scan_params params of
              None \<Rightarrow> False
            | Some (memory, timeCost, threads) \<Rightarrow>
                (case raw_std_decode salt64 of None \<Rightarrow> False | Some salt \<Rightarrow>
                 (case raw_std_decode key64 of None \<Rightarrow> False | Some want \<Rightarrow>
                    argon password salt timeCost memory threads (length want) = want)))
      | _ \<Rightarrow> False)"

definition checkPasswordStrength :: "string \<Rightarrow> bool" where
  "checkPasswordStrength password \<longleftrightarrow> \<not> rune_count password < 12"


section \<open>Accounts\<close>

record localAdmin =
  la_user :: string
  la_hash :: string
  la_enabled :: bool
  la_created :: time
  la_login :: "time option"
  la_failed :: int
  la_locked :: "time option"

datatype create_error = NoUsername | WeakPassword | HashFailed | CreateDB

definition createLocalAdmin ::
  "argon \<Rightarrow> bool \<Rightarrow> string option \<Rightarrow> time \<Rightarrow> string \<Rightarrow> string \<Rightarrow> localAdmin list \<Rightarrow>
   create_error option \<times> localAdmin list" where
  "createLocalAdmin argon flt rnd now username0 password tbl =
     (let username = to_lower (trim_space username0)
      in if username = [] then (Some NoUsername, tbl)
         else if \<not> checkPasswordStrength password then (Some WeakPassword, tbl)
         else (case hashPassword argon rnd password of
             None \<Rightarrow> (Some HashFailed, tbl)
           | Some hash \<Rightarrow>
               if flt then (Some CreateDB, tbl)
               else (None, save_row la_user \<lparr>la_user = username, la_hash = hash, la_enabled = True,
                       la_created = now, la_login = None, la_failed = 0, la_locked = None\<rparr> tbl)))"

definition deleteLocalAdmin :: "bool \<Rightarrow> string \<Rightarrow> localAdmin list \<Rightarrow> bool \<times> localAdmin list" where
  "deleteLocalAdmin flt username tbl =
     (if flt then (False, tbl)
      else (case delete_where (\<lambda>r. la_user r = to_lower (trim_space username)) tbl of
              (n, tbl') \<Rightarrow> (n > 0, tbl')))"

definition listLocalAdmins :: "bool \<Rightarrow> localAdmin list \<Rightarrow> localAdmin list" where
  "listLocalAdmins flt tbl = (if flt then [] else sort_key la_user tbl)"


section \<open>Authentication\<close>

definition localAdminMaxFailures :: int where "localAdminMaxFailures = 10"
definition localAdminLockout :: duration where "localAdminLockout = 15 * minute"

datatype auth_error = AuthDB | InvalidCredentials | LocalAdminDisabled | AccountLocked time

text \<open>The row after a wrong password, and after a right one.\<close>

definition failed_row :: "time \<Rightarrow> localAdmin \<Rightarrow> localAdmin" where
  "failed_row now row =
     (if la_failed row + 1 \<ge> localAdminMaxFailures
      then row\<lparr>la_failed := 0, la_locked := Some (now + localAdminLockout)\<rparr>
      else row\<lparr>la_failed := la_failed row + 1\<rparr>)"

definition login_row :: "time \<Rightarrow> localAdmin \<Rightarrow> localAdmin" where
  "login_row now row = row\<lparr>la_failed := 0, la_locked := None, la_login := Some now\<rparr>"

definition is_locked :: "time \<Rightarrow> localAdmin \<Rightarrow> bool" where
  "is_locked now row \<longleftrightarrow> (case la_locked row of None \<Rightarrow> False | Some t \<Rightarrow> before now t)"

definition save_unless :: "bool \<Rightarrow> localAdmin \<Rightarrow> localAdmin list \<Rightarrow> localAdmin list" where
  "save_unless flt row tbl = (if flt then tbl else save_row la_user row tbl)"

definition authenticateLocalAdmin ::
  "argon \<Rightarrow> bool \<Rightarrow> bool \<Rightarrow> time \<Rightarrow> string \<Rightarrow> string \<Rightarrow> localAdmin list \<Rightarrow>
   (auth_error + string) \<times> localAdmin list" where
  "authenticateLocalAdmin argon fltRead fltSave now username0 password tbl =
     (let username = to_lower (trim_space username0)
      in if fltRead then (Inl AuthDB, tbl)
         else (case find (\<lambda>r. la_user r = username) tbl of
             None \<Rightarrow> (Inl InvalidCredentials, tbl)
           | Some row \<Rightarrow>
               if \<not> la_enabled row then (Inl LocalAdminDisabled, tbl)
               else if is_locked now row then (Inl (AccountLocked (the (la_locked row))), tbl)
               else if \<not> verifyPassword argon password (la_hash row)
               then (Inl InvalidCredentials, save_unless fltSave (failed_row now row) tbl)
               else (Inr (la_user row), save_unless fltSave (login_row now row) tbl)))"

definition localAdminUPN :: "string \<Rightarrow> string" where
  "localAdminUPN username = username @ ''@local''"


section \<open>The source restriction\<close>

type_synonym network = "string \<Rightarrow> bool"

text \<open>\<open>is4\<close> tells the addresses with a four-byte form.\<close>

definition cidr_of :: "(string \<Rightarrow> string option) \<Rightarrow> (string \<Rightarrow> bool) \<Rightarrow> string \<Rightarrow> string" where
  "cidr_of parse_ip is4 part =
     (if CHR ''/'' \<in> set part then part
      else (case parse_ip part of
              None \<Rightarrow> part
            | Some ip \<Rightarrow> part @ ''/'' @ itoa (if is4 ip then 32 else 128)))"

fun parse_networks ::
  "(string \<Rightarrow> string option) \<Rightarrow> (string \<Rightarrow> bool) \<Rightarrow> (string \<Rightarrow> network option) \<Rightarrow> string list \<Rightarrow> network list option" where
  "parse_networks parse_ip is4 parse_cidr [] = Some []"
| "parse_networks parse_ip is4 parse_cidr (p # ps) =
     (if trim_space p = [] then parse_networks parse_ip is4 parse_cidr ps
      else (case parse_cidr (cidr_of parse_ip is4 (trim_space p)) of
              None \<Rightarrow> None
            | Some n \<Rightarrow> map_option ((#) n) (parse_networks parse_ip is4 parse_cidr ps)))"

definition localAdminAllowedFrom ::
  "(string \<Rightarrow> string option) \<Rightarrow> (string \<Rightarrow> bool) \<Rightarrow> (string \<Rightarrow> network option) \<Rightarrow> string \<Rightarrow> network list option" where
  "localAdminAllowedFrom parse_ip is4 parse_cidr spec =
     (if trim_space spec = [] then Some []
      else parse_networks parse_ip is4 parse_cidr (split_on CHR '','' (trim_space spec)))"

definition ipAllowed :: "(string \<Rightarrow> string option) \<Rightarrow> network list \<Rightarrow> string \<Rightarrow> bool" where
  "ipAllowed parse_ip nets addr =
     (if nets = [] then True
      else (case parse_ip addr of None \<Rightarrow> False | Some ip \<Rightarrow> list_ex (\<lambda>n. n ip) nets))"


section \<open>The handler\<close>

record login_env =
  le_argon :: argon
  le_is4 :: "string \<Rightarrow> bool"
  le_cidr :: "string \<Rightarrow> network option"
  le_fltRead :: bool
  le_fltSave :: bool

definition not_found :: reply where "not_found = ReplyText 404 ''404 page not found''"

definition handleLocalAdminLogin ::
  "world \<Rightarrow> login_env \<Rightarrow> request \<Rightarrow> app \<times> localAdmin list \<Rightarrow>
   reply \<times> cookie list \<times> app \<times> localAdmin list" where
  "handleLocalAdminLogin w e r st = (case st of (a, tbl) \<Rightarrow>
     (let cfg = ap_conf a; client = req_ip w a r
      in if \<not> LocalAdminEnabled cfg then (not_found, [], a, tbl)
         else (case localAdminAllowedFrom (w_parse_ip w) (le_is4 e) (le_cidr e) (LocalAdminAllowedFrom cfg) of
             None \<Rightarrow> (not_found, [], a, tbl)
           | Some nets \<Rightarrow>
               if \<not> ipAllowed (w_parse_ip w) nets client then (not_found, [], a, tbl)
               else if rq_method r = ''GET'' then (ReplyPage 200 (pickLang r) ''localLogin'', [], a, tbl)
               else if rq_method r \<noteq> ''POST'' then (reply_error 405 ''method_not_allowed'', [], a, tbl)
               else if \<not> isSameOriginRequest (w_parse_url w) cfg r
               then (reply_error 403 ''cross_origin'', [], a, tbl)
               else (let username = trim_space (form_value r ''username'');
                         password = form_value r ''password'';
                         (banned, l) = lim_isBanned (w_flt_lim w) (w_now w) client (ap_lim a);
                         a1 = a\<lparr>ap_lim := l\<rparr>
                     in if banned then (reply_error 429 ''rate_limited'', [], a1, tbl)
                        else (case authenticateLocalAdmin (le_argon e) (le_fltRead e) (le_fltSave e)
                                     (w_now w) username password tbl of
                            (Inl _, tbl') \<Rightarrow>
                              (reply_error 401 ''invalid_credentials'', [],
                               log_admin w (localAdminUPN username) client ResultDenied
                                 ''local admin login failed''
                                 (a1\<lparr>ap_lim := recordIPFailure cfg (w_flt_lim w) (w_now w) client (ap_lim a1)\<rparr>),
                               tbl')
                          | (Inr upn, tbl') \<Rightarrow>
                              (let sess = \<lparr>a_UPN = localAdminUPN upn, a_Exp = unix (w_now w + adminSessionTTL)\<rparr>
                               in (ReplyJSON 200 [(''redirect'', RStr ''/admin'')],
                                   [adminCookie (w_hmac w) (SessionSecret cfg) sess
                                      (has_prefix (PublicURL cfg) ''https://'')],
                                   log_admin w (a_UPN sess) client ResultSuccess
                                     ''local admin login (break-glass)'' a1,
                                   tbl')))))))"

section \<open>Lemmas\<close>

definition version_text :: string where "version_text = ''v='' @ itoa argonVersion"

definition params_text :: string where
  "params_text = ''m='' @ itoa (int argonMemory) @ '',t='' @ itoa (int argonTime) @ '',p='' @ itoa (int argonThreads)"

lemma digit_chars:
  "digit_char 0 = CHR ''0''" "digit_char (Suc 0) = CHR ''1''" "digit_char 2 = CHR ''2''" "digit_char 3 = CHR ''3''"
  "digit_char 4 = CHR ''4''" "digit_char 5 = CHR ''5''" "digit_char 6 = CHR ''6''" "digit_char 7 = CHR ''7''"
  "digit_char 8 = CHR ''8''" "digit_char 9 = CHR ''9''"
  by code_simp+

lemma hash_literals: "version_text = ''v=19''" "params_text = ''m=65536,t=3,p=4''"
  by (simp_all add: version_text_def params_text_def itoa_def nat_digits.simps digit_chars
      argonVersion_def argonMemory_def argonTime_def argonThreads_def)

lemma scan_literals:
  "scan_version ''v=19'' = Some 19" "scan_params ''m=65536,t=3,p=4'' = Some (65536, 3, 4)"
  by (simp_all add: scan_version_def scan_params_def scan_lit_def has_prefix_def scan_int_def scan_uint_def
      scan_blanks_def is_space_def scan_digits_def is_digit_def in_range_def digit_val_def in_int64_def)

lemma hashPassword_eq:
  "hashPassword argon (Some salt) password = Some (CHR ''$'' # ''argon2id'' @ CHR ''$'' # version_text @ CHR ''$'' #
     params_text @ CHR ''$'' # raw_std_encode salt @ CHR ''$'' #
     raw_std_encode (argon password salt argonTime argonMemory argonThreads argonKeyLen))"
  by (simp add: hashPassword_def Let_def version_text_def params_text_def)

lemma split_hash:
  assumes "hashPassword argon (Some salt) password = Some h"
  shows "split_on CHR ''$'' h = [[], ''argon2id'', ''v=19'', ''m=65536,t=3,p=4'', raw_std_encode salt,
    raw_std_encode (argon password salt argonTime argonMemory argonThreads argonKeyLen)]"
proof -
  have salt: "CHR ''$'' \<notin> set (raw_std_encode s)" for s
    using raw_std_chars(3) by blast
  have "h = CHR ''$'' # ''argon2id'' @ CHR ''$'' # ''v=19'' @ CHR ''$'' # ''m=65536,t=3,p=4'' @ CHR ''$'' #
      raw_std_encode salt @ CHR ''$'' #
      raw_std_encode (argon password salt argonTime argonMemory argonThreads argonKeyLen)"
    using assms unfolding hashPassword_eq hash_literals by simp
  moreover have "split_on c (c # xs) = [] # split_on c xs" for c xs by simp
  ultimately show ?thesis
    by (simp only:) (simp add: split_on_append split_on_no_sep salt del: append_Cons append_Nil split_on.simps)
qed

lemma verify_hash:
  assumes "hashPassword argon (Some salt) password = Some h"
  shows "verifyPassword argon password' h \<longleftrightarrow>
    argon password' salt 3 65536 4 (length (argon password salt 3 65536 4 32)) = argon password salt 3 65536 4 32"
  unfolding verifyPassword_def split_hash [OF assms]
  by (simp add: scan_literals raw_std_roundtrip argonVersion_def argonTime_def argonMemory_def
      argonThreads_def argonKeyLen_def)

section \<open>Guessing\<close>

text \<open>
  Attempts with their times, against a working database: how many passwords are compared with the
  hash of the account \<open>u\<close> and are wrong, and how many are right.
\<close>

fun tested :: "argon \<Rightarrow> string \<Rightarrow> (time \<times> string \<times> string) list \<Rightarrow> localAdmin list \<Rightarrow> nat \<times> nat" where
  "tested argon u [] tbl = (0, 0)"
| "tested argon u ((now, username, password) # rest) tbl =
     (case authenticateLocalAdmin argon False False now username password tbl of (res, tbl') \<Rightarrow>
       (case tested argon u rest tbl' of (wrong, right) \<Rightarrow>
         (case res of
            Inr user \<Rightarrow> (wrong, if user = u then Suc right else right)
          | Inl err \<Rightarrow>
              (if err = InvalidCredentials \<and> to_lower (trim_space username) = u then Suc wrong else wrong, right))))"

lemma row_users [simp]: "la_user (failed_row now r) = la_user r" "la_user (login_row now r) = la_user r"
  by (simp_all add: failed_row_def login_row_def)

text \<open>An attempt leaves the rows of other accounts alone.\<close>

lemma auth_other:
  assumes "authenticateLocalAdmin argon fr fs now username password tbl = (res, tbl')"
    and "to_lower (trim_space username) \<noteq> u"
  shows "find (\<lambda>r. la_user r = u) tbl' = find (\<lambda>r. la_user r = u) tbl" "res \<noteq> Inr u"
proof -
  have "la_user r \<noteq> u" if "find (\<lambda>r. la_user r = to_lower (trim_space username)) tbl = Some r" for r
    using find_SomeD [OF that] assms(2) by simp
  with assms(1) show "find (\<lambda>r. la_user r = u) tbl' = find (\<lambda>r. la_user r = u) tbl" "res \<noteq> Inr u"
    by (auto simp: authenticateLocalAdmin_def Let_def save_unless_def find_save_row
        split: if_splits option.splits)
qed

text \<open>The attempts on an account whose row is known.\<close>

lemma auth_known:
  assumes "find (\<lambda>r. la_user r = to_lower (trim_space username)) tbl = Some row"
  shows "authenticateLocalAdmin argon False False now username password tbl =
    (if \<not> la_enabled row then (Inl LocalAdminDisabled, tbl)
     else if is_locked now row then (Inl (AccountLocked (the (la_locked row))), tbl)
     else if verifyPassword argon password (la_hash row)
     then (Inr (la_user row), save_row la_user (login_row now row) tbl)
     else (Inl InvalidCredentials, save_row la_user (failed_row now row) tbl))"
  using assms by (simp add: authenticateLocalAdmin_def save_unless_def)

lemma tested_other:
  assumes "to_lower (trim_space username) \<noteq> u"
  obtains tbl' where "tested argon u ((now, username, password) # rest) tbl = tested argon u rest tbl'"
    "find (\<lambda>r. la_user r = u) tbl' = find (\<lambda>r. la_user r = u) tbl"
proof -
  obtain res tbl' where auth: "authenticateLocalAdmin argon False False now username password tbl = (res, tbl')"
    by fastforce
  note other = auth_other [OF auth assms]
  have "tested argon u ((now, username, password) # rest) tbl = tested argon u rest tbl'"
    using auth other(2) assms by (cases "tested argon u rest tbl'") (auto split: sum.split)
  then show thesis using other(1) by (rule that)
qed

lemma locked_out:
  assumes "find (\<lambda>r. la_user r = u) tbl = Some row" "la_locked row = Some t"
    and "\<forall>e\<in>set atts. fst e < t"
  shows "tested argon u atts tbl = (0, 0)"
  using assms
proof (induction atts arbitrary: tbl)
  case (Cons e rest)
  obtain now username password where e: "e = (now, username, password)" by (cases e)
  show ?case
  proof (cases "to_lower (trim_space username) = u")
    case True
    with Cons show ?thesis by (simp add: e auth_known is_locked_def before_def)
  next
    case False
    then obtain tbl' where "tested argon u (e # rest) tbl = tested argon u rest tbl'"
      "find (\<lambda>r. la_user r = u) tbl' = find (\<lambda>r. la_user r = u) tbl"
      unfolding e by (rule tested_other)
    with Cons show ?thesis by simp
  qed
qed simp

text \<open>A right password clears the counter, so nine more wrong ones may follow it.\<close>

lemma guesses_left:
  assumes "find (\<lambda>r. la_user r = u) tbl = Some row" "0 \<le> la_failed row" "la_failed row < 10"
    and "\<forall>e\<in>set atts. t0 \<le> fst e \<and> fst e < t0 + localAdminLockout"
    and "tested argon u atts tbl = (wrong, right)"
  shows "int wrong \<le> 10 - la_failed row + 9 * int right"
  using assms
proof (induction atts arbitrary: tbl row wrong right)
  case (Cons e rest)
  obtain now username password where e: "e = (now, username, password)" by (cases e)
  have u: "la_user row = u" using find_SomeD [OF Cons.prems(1)] by simp
  have times: "\<forall>e\<in>set rest. t0 \<le> fst e \<and> fst e < t0 + localAdminLockout" "t0 \<le> now"
    using Cons.prems(4) by (simp_all add: e)
  note IH = Cons.IH [OF _ _ _ times(1)]
  show ?case
  proof (cases "to_lower (trim_space username) = u")
    case False
    then obtain tbl' where "tested argon u (e # rest) tbl = tested argon u rest tbl'"
      "find (\<lambda>r. la_user r = u) tbl' = find (\<lambda>r. la_user r = u) tbl"
      unfolding e by (rule tested_other)
    with Cons.prems IH show ?thesis by simp
  next
    case True
    note known = auth_known [of username tbl row argon now password, unfolded True, OF Cons.prems(1)]
    consider (shut) "tested argon u rest tbl = (wrong, right)"
      | (right) right' where "tested argon u rest (save_row la_user (login_row now row) tbl) = (wrong, right')" "right = Suc right'"
      | (wrong) wrong' where "tested argon u rest (save_row la_user (failed_row now row) tbl) = (wrong', right)" "wrong = Suc wrong'"
      using Cons.prems(5) True u
      by (auto simp: e known split: prod.splits if_splits)
    then show ?thesis
    proof cases
      case shut
      with Cons.prems(1-3) IH show ?thesis by simp
    next
      case right
      have "find (\<lambda>r. la_user r = u) (save_row la_user (login_row now row) tbl) = Some (login_row now row)"
        by (simp add: find_save_row u)
      from IH [OF this _ _ right(1)] right(2) Cons.prems(3) show ?thesis by (simp add: login_row_def)
    next
      case wrong
      have row': "find (\<lambda>r. la_user r = u) (save_row la_user (failed_row now row) tbl) = Some (failed_row now row)"
        by (simp add: find_save_row u)
      show ?thesis
      proof (cases "la_failed row = 9")
        case True
        have "la_locked (failed_row now row) = Some (now + localAdminLockout)"
          by (simp add: failed_row_def True localAdminMaxFailures_def)
        moreover have "\<forall>e\<in>set rest. fst e < now + localAdminLockout" using times by fastforce
        ultimately show ?thesis using locked_out [OF row'] wrong True by simp
      next
        case False
        then have "la_failed (failed_row now row) = la_failed row + 1"
          using Cons.prems(3) by (simp add: failed_row_def localAdminMaxFailures_def)
        then show ?thesis using IH [OF row' _ _ wrong(1)] Cons.prems(2,3) wrong(2) False by simp
      qed
    qed
  qed
qed simp

section \<open>Attempts at the same time\<close>

text \<open>
  The same attempts interleaved: the statements of \<open>authenticateLocalAdmin\<close> are a read of the row and
  a write of the whole row computed from it, with nothing that ties them together.  A state is the row,
  the copies read by the attempts that are still comparing, and the number of passwords compared; all
  passwords are wrong.
\<close>

type_synonym guesses = "localAdmin \<times> localAdmin list \<times> nat"

inductive guess_step :: "time \<Rightarrow> guesses \<Rightarrow> guesses \<Rightarrow> bool" where
  ReadRow: "la_enabled row \<Longrightarrow> \<not> is_locked now row \<Longrightarrow> guess_step now (row, open, n) (row, row # open, n)"
| WriteRow: "guess_step now (row, before_copies @ c # after_copies, n)
    (failed_row now c, before_copies @ after_copies, Suc n)"

inductive_simps guess_step_idle: "guess_step now (row, [], n) s"

lemma reads_pile_up:
  assumes "la_enabled row" "\<not> is_locked now row"
  shows "(guess_step now)\<^sup>*\<^sup>* (row, open, n) (row, replicate k row @ open, n)"
proof (induction k)
  case (Suc k)
  have "guess_step now (row, replicate k row @ open, n) (row, row # replicate k row @ open, n)"
    using assms by (rule ReadRow)
  with Suc show ?case by (simp add: rtranclp.rtrancl_into_rtrancl)
qed simp

lemma writes_drain:
  assumes "la_failed row + 1 < localAdminMaxFailures"
  shows "(guess_step now)\<^sup>*\<^sup>* (failed_row now row, replicate k row, n) (failed_row now row, [], n + k)"
proof (induction k arbitrary: n)
  case (Suc k)
  have "guess_step now (failed_row now row, [] @ row # replicate k row, n)
      (failed_row now row, [] @ replicate k row, Suc n)"
    by (rule WriteRow)
  with Suc [of "Suc n"] show ?case by (simp add: converse_rtranclp_into_rtranclp)
qed simp

text \<open>What an accepted sign-in has passed.\<close>

lemma authenticate_ok:
  assumes "authenticateLocalAdmin argon fr fs now username password tbl = (Inr upn, tbl')"
  obtains row where "row \<in> set tbl" "la_user row = upn" "upn = to_lower (trim_space username)" "la_enabled row"
    "\<not> is_locked now row" "verifyPassword argon password (la_hash row)"
proof -
  from assms obtain row where row: "find (\<lambda>r. la_user r = to_lower (trim_space username)) tbl = Some row"
    and rest: "la_user row = upn" "la_enabled row" "\<not> is_locked now row" "verifyPassword argon password (la_hash row)"
    by (auto simp: authenticateLocalAdmin_def Let_def split: if_splits option.splits)
  from row rest(1) have "row \<in> set tbl" "upn = to_lower (trim_space username)" by (auto dest: find_SomeD)
  with rest show thesis by (intro that) auto
qed

lemma login_ok:
  assumes "handleLocalAdminLogin w e r (a, tbl) = (ReplyJSON 200 body, cks, a', tbl')"
  obtains nets row where "LocalAdminEnabled (ap_conf a)"
    "localAdminAllowedFrom (w_parse_ip w) (le_is4 e) (le_cidr e) (LocalAdminAllowedFrom (ap_conf a)) = Some nets"
    "ipAllowed (w_parse_ip w) nets (req_ip w a r)" "rq_method r = ''POST''"
    "isSameOriginRequest (w_parse_url w) (ap_conf a) r"
    "\<not> fst (lim_isBanned (w_flt_lim w) (w_now w) (req_ip w a r) (ap_lim a))"
    "row \<in> set tbl" "la_enabled row" "\<not> is_locked (w_now w) row"
    "verifyPassword (le_argon e) (form_value r ''password'') (la_hash row)"
    "cks = [adminCookie (w_hmac w) (SessionSecret (ap_conf a))
       \<lparr>a_UPN = localAdminUPN (la_user row), a_Exp = unix (w_now w + adminSessionTTL)\<rparr>
       (has_prefix (PublicURL (ap_conf a)) ''https://'')]"
    "ap_conf a' = ap_conf a"
proof -
  let ?lim = "lim_isBanned (w_flt_lim w) (w_now w) (req_ip w a r) (ap_lim a)"
  let ?auth = "authenticateLocalAdmin (le_argon e) (le_fltRead e) (le_fltSave e) (w_now w)
    (trim_space (form_value r ''username'')) (form_value r ''password'') tbl"
  from assms obtain nets where nets:
    "localAdminAllowedFrom (w_parse_ip w) (le_is4 e) (le_cidr e) (LocalAdminAllowedFrom (ap_conf a)) = Some nets"
    and guards: "LocalAdminEnabled (ap_conf a)" "ipAllowed (w_parse_ip w) nets (req_ip w a r)"
      "rq_method r = ''POST''" "isSameOriginRequest (w_parse_url w) (ap_conf a) r" "\<not> fst ?lim"
    by (auto simp: handleLocalAdminLogin_def not_found_def reply_error_def Let_def case_prod_beta
        split: if_splits option.splits)
  obtain upn t where auth: "?auth = (Inr upn, t)"
    using assms guards nets
    by (cases ?auth; cases "fst ?auth")
       (simp_all add: handleLocalAdminLogin_def reply_error_def Let_def case_prod_beta)
  obtain row where row: "row \<in> set tbl" "la_user row = upn" "la_enabled row" "\<not> is_locked (w_now w) row"
    "verifyPassword (le_argon e) (form_value r ''password'') (la_hash row)"
    using authenticate_ok [OF auth] by metis
  have "cks = [adminCookie (w_hmac w) (SessionSecret (ap_conf a))
       \<lparr>a_UPN = localAdminUPN upn, a_Exp = unix (w_now w + adminSessionTTL)\<rparr>
       (has_prefix (PublicURL (ap_conf a)) ''https://'')]" "ap_conf a' = ap_conf a"
    using assms guards nets auth
    by (auto simp: handleLocalAdminLogin_def Let_def case_prod_beta log_admin_def)
  with nets guards row show thesis by (intro that) auto
qed

section \<open>Properties\<close>

definition demo_argon :: argon where
  "demo_argon password salt t m p n = take n (password @ salt @ replicate n CHR ''x'')"

definition demo_row :: localAdmin where
  "demo_row = \<lparr>la_user = ''root'',
     la_hash = the (hashPassword demo_argon (Some ''0123456789abcdef'') ''correct horse''),
     la_enabled = True, la_created = 0, la_login = None, la_failed = 0, la_locked = None\<rparr>"

text \<open>A stored password is verified by its own parameters.  The hash of a password is read back,
  parameters, salt and key, whatever bytes the salt and the key consist of; a password is accepted
  exactly when the key derivation gives the same key under that salt, so the right password always is.\<close>

theorem password_verifies:
  assumes "\<forall>p s t m l n. length (argon p s t m l n) = n"
    and "hashPassword argon (Some salt) password = Some h"
  shows "verifyPassword argon password h \<and>
    (verifyPassword argon guess h \<longleftrightarrow> argon guess salt 3 65536 4 32 = argon password salt 3 65536 4 32)"
  using assms(1) by (simp add: verify_hash [OF assms(2)])

theorem password_verifies_witness:
  "verifyPassword demo_argon ''correct horse'' (la_hash demo_row) \<and>
   \<not> verifyPassword demo_argon ''wrong'' (la_hash demo_row)"
proof -
  have len: "\<forall>p s t m l n. length (demo_argon p s t m l n) = n" by (auto simp: demo_argon_def min_def)
  have h: "hashPassword demo_argon (Some ''0123456789abcdef'') ''correct horse'' = Some (la_hash demo_row)"
    by (simp add: demo_row_def hashPassword_eq)
  show ?thesis
    using password_verifies [OF len h, of "''wrong''"] by (simp add: demo_argon_def)
qed

text \<open>C17: Guessing is bounded.  When attempts are answered one after the other and the database works,
  then of the passwords tried for an account within any quarter of an hour at most ten wrong ones, fewer when
  failures were recorded before, are compared with its hash while no right one is given, whatever names the
  attempts use and in whatever order their times are; each right password in between, which clears the
  counter, admits at most nine wrong ones more.  Wrong passwords beyond that are not compared.\<close>

theorem guesses_bounded:
  assumes "find (\<lambda>r. la_user r = u) tbl = Some row" "0 \<le> la_failed row" "la_failed row < 10"
    and "\<forall>e\<in>set attempts. t0 \<le> fst e \<and> fst e < t0 + 15 * minute"
    and "tested argon u attempts tbl = (wrong, right)"
  shows "int wrong \<le> 10 - la_failed row + 9 * int right"
  using guesses_left [OF assms(1-3), of attempts t0 argon] assms(4,5) by (simp add: localAdminLockout_def)

theorem guesses_bounded_witness:
  "case tested demo_argon ''root'' (replicate 50 (minute, ''Root '', ''guess'')) [demo_row] of
     (wrong, right) \<Rightarrow> int wrong \<le> 10 + 9 * int right"
  using guesses_bounded [of "''root''" "[demo_row]" demo_row "replicate 50 (minute, ''Root '', ''guess'')" 0 demo_argon]
  by (simp add: demo_row_def minute_def second_def split: prod.split)

text \<open>C19: Parallel guesses escape the lockout.  The failure counter is read, incremented and written back
  without a lock: for any number of attempts that are under way at the same time there is an
  interleaving of their statements in which every one of them compares its password, and afterwards a
  single failure is recorded and the account is not locked.\<close>

theorem lockout_race:
  assumes "la_enabled row" "la_locked row = None" "la_failed row = 0"
  shows "(guess_step now)\<^sup>*\<^sup>* (row, [], 0) (row\<lparr>la_failed := 1\<rparr>, [], Suc k)"
proof -
  have once: "failed_row now row = row\<lparr>la_failed := 1\<rparr>"
    using assms(3) by (simp add: failed_row_def localAdminMaxFailures_def)
  have "(guess_step now)\<^sup>*\<^sup>* (row, [], 0) (row, replicate (Suc k) row, 0)"
    using reads_pile_up [of row now "[]" 0 "Suc k"] assms by (simp add: is_locked_def)
  also have "guess_step now (row, replicate (Suc k) row, 0) (failed_row now row, replicate k row, Suc 0)"
    using WriteRow [of now row "[]" row "replicate k row" 0] by simp
  also have "(guess_step now)\<^sup>*\<^sup>* (failed_row now row, replicate k row, Suc 0) (failed_row now row, [], Suc k)"
    using writes_drain [of row now k "Suc 0"] assms(3) by (simp add: localAdminMaxFailures_def)
  finally show ?thesis by (simp only: once)
qed

theorem lockout_race_witness:
  "(guess_step 0)\<^sup>*\<^sup>* (demo_row, [], 0) (demo_row\<lparr>la_failed := 1\<rparr>, [], 1000)"
  using lockout_race [of demo_row 0 999] by (simp add: demo_row_def)

text \<open>C18: The break-glass sign-in.  The portal answers a local sign-in with a cookie only for a POST of
  its own origin while local sign-in is enabled, from an address inside the configured networks that is
  not banned, for an enabled account that is not locked and whose password was given.  The cookie is
  read back as that account under the suffix \<open>@local\<close> until it expires.  It opens the console
  only where an Entra administrator or group is configured: with both lists empty, as on a fresh
  installation, every request that carries it is answered that the console is disabled.\<close>

theorem local_login_sound:
  assumes "handleLocalAdminLogin w e r (a, tbl) = (ReplyJSON 200 body, cks, a', tbl')"
    and "in_int64 (unix (w_now w + adminSessionTTL))"
  shows "LocalAdminEnabled (ap_conf a) \<and> rq_method r = ''POST'' \<and>
    isSameOriginRequest (w_parse_url w) (ap_conf a) r \<and>
    \<not> fst (lim_isBanned (w_flt_lim w) (w_now w) (req_ip w a r) (ap_lim a)) \<and>
    (\<exists>nets. localAdminAllowedFrom (w_parse_ip w) (le_is4 e) (le_cidr e) (LocalAdminAllowedFrom (ap_conf a)) = Some nets \<and>
       ipAllowed (w_parse_ip w) nets (req_ip w a r)) \<and>
    (\<exists>row c. row \<in> set tbl \<and> la_enabled row \<and> \<not> is_locked (w_now w) row \<and>
       verifyPassword (le_argon e) (form_value r ''password'') (la_hash row) \<and> cks = [c] \<and>
       (\<forall>t. unix t \<le> unix (w_now w + adminSessionTTL) \<longrightarrow>
          readAdminCookie (w_hmac w) (SessionSecret (ap_conf a)) t [(ck_name c, ck_value c)] =
            Inr \<lparr>a_UPN = localAdminUPN (la_user row), a_Exp = unix (w_now w + adminSessionTTL)\<rparr>)) \<and>
    (AdminEmails (ap_conf a) = [] \<and> AdminGroupIDs (ap_conf a) = [] \<longrightarrow>
       (\<forall>w' r'. requireAdmin w' True r' a' = Inl (reply_error 503 ''admin_disabled'')))"
proof -
  obtain nets row where checks: "LocalAdminEnabled (ap_conf a)"
    "localAdminAllowedFrom (w_parse_ip w) (le_is4 e) (le_cidr e) (LocalAdminAllowedFrom (ap_conf a)) = Some nets"
    "ipAllowed (w_parse_ip w) nets (req_ip w a r)" "rq_method r = ''POST''"
    "isSameOriginRequest (w_parse_url w) (ap_conf a) r"
    "\<not> fst (lim_isBanned (w_flt_lim w) (w_now w) (req_ip w a r) (ap_lim a))"
    and row: "row \<in> set tbl" "la_enabled row" "\<not> is_locked (w_now w) row"
    "verifyPassword (le_argon e) (form_value r ''password'') (la_hash row)"
    and cks: "cks = [adminCookie (w_hmac w) (SessionSecret (ap_conf a))
       \<lparr>a_UPN = localAdminUPN (la_user row), a_Exp = unix (w_now w + adminSessionTTL)\<rparr>
       (has_prefix (PublicURL (ap_conf a)) ''https://'')]"
    and conf: "ap_conf a' = ap_conf a"
    by (rule login_ok [OF assms(1)])
  let ?s = "\<lparr>a_UPN = localAdminUPN (la_user row), a_Exp = unix (w_now w + adminSessionTTL)\<rparr>"
  have "readAdminCookie (w_hmac w) (SessionSecret (ap_conf a)) t [(ck_name (hd cks), ck_value (hd cks))] = Inr ?s"
    if "unix t \<le> unix (w_now w + adminSessionTTL)" for t
    using assms(2) that by (intro read_admin_cookie) (simp_all add: cks, simp_all add: adminCookie_def)
  moreover have "requireAdmin w' True r' a' = Inl (reply_error 503 ''admin_disabled'')"
    if "AdminEmails (ap_conf a) = []" "AdminGroupIDs (ap_conf a) = []" for w' r'
    using that by (simp add: requireAdmin_def conf IsAdminEnabled_def)
  ultimately show ?thesis using checks row cks by (auto intro!: exI [of _ row])
qed

text \<open>A portal with one account and no Entra administrator.\<close>

definition glass_app :: app where
  "glass_app = demo_app\<lparr>ap_conf := demo_Config\<lparr>LocalAdminEnabled := True, AdminEmails := [],
     LocalAdminAllowedFrom := []\<rparr>\<rparr>"

definition glass_request :: request where
  "glass_request =
     \<lparr>rq_method = ''POST'', rq_host = ''p'', rq_tls = True, rq_remote = ''10.0.0.9:1234'',
      rq_headers = [(''Origin'', ''https://p'')], rq_query = [],
      rq_form = [(''username'', ''root''), (''password'', ''correct horse'')], rq_cookies = []\<rparr>"

definition glass_env :: login_env where
  "glass_env = \<lparr>le_argon = demo_argon, le_is4 = (\<lambda>_. True), le_cidr = (\<lambda>_. None),
     le_fltRead = False, le_fltSave = False\<rparr>"

lemma glass_login:
  "fst (handleLocalAdminLogin (demo_world second) glass_env glass_request (glass_app, [demo_row])) =
     ReplyJSON 200 [(''redirect'', RStr ''/admin'')]"
proof -
  let ?cfg = "ap_conf glass_app"
  have len: "\<forall>p s t m l n. length (demo_argon p s t m l n) = n" by (auto simp: demo_argon_def min_def)
  have hash: "hashPassword demo_argon (Some ''0123456789abcdef'') ''correct horse'' = Some (la_hash demo_row)"
    by (simp add: demo_row_def hashPassword_eq)
  then have "verifyPassword demo_argon ''correct horse'' (la_hash demo_row)"
    using len by (simp add: verify_hash)
  moreover have "to_lower (trim_space ''root'') = ''root''" "trim_space ''root'' = ''root''" by code_simp+
  ultimately have auth: "\<exists>t. authenticateLocalAdmin demo_argon False False second ''root'' ''correct horse'' [demo_row] =
      (Inr ''root'', t)"
    by (simp add: authenticateLocalAdmin_def demo_row_def is_locked_def Let_def)
  have banned: "\<not> fst (lim_isBanned f n ip (ap_lim glass_app))" for f n ip
    using lim_isBanned_none [OF no_bans_demo] by (simp add: glass_app_def)
  have origin: "isSameOriginRequest (w_parse_url (demo_world second)) ?cfg glass_request"
    unfolding isSameOriginRequest_def demo_world_def demo_Config_def glass_request_def glass_app_def by code_simp
  have cfg: "LocalAdminEnabled ?cfg" "LocalAdminAllowedFrom ?cfg = []"
    by (simp_all add: glass_app_def)
  have form: "form_value glass_request ''username'' = ''root''" "form_value glass_request ''password'' = ''correct horse''"
    "rq_method glass_request = ''POST''"
    by (simp_all add: glass_request_def form_value_def get_value_def)
  have nets: "localAdminAllowedFrom p i c [] = Some []" for p i c
    by (simp add: localAdminAllowedFrom_def trim_space_def trim_left_def trim_right_def)
  from auth show ?thesis
    using banned origin \<open>trim_space ''root'' = ''root''\<close>
    by (auto simp: handleLocalAdminLogin_def glass_env_def cfg form nets ipAllowed_def Let_def case_prod_beta)
qed

theorem local_login_sound_witness:
  "\<forall>w' r'. requireAdmin w' True r'
     (fst (snd (snd (handleLocalAdminLogin (demo_world second) glass_env glass_request (glass_app, [demo_row]))))) =
     Inl (reply_error 503 ''admin_disabled'')"
proof -
  let ?resp = "handleLocalAdminLogin (demo_world second) glass_env glass_request (glass_app, [demo_row])"
  obtain cks a' t where resp: "?resp = (ReplyJSON 200 [(''redirect'', RStr ''/admin'')], cks, a', t)"
    using glass_login by (metis prod.collapse)
  have exp: "in_int64 (unix (w_now (demo_world second) + adminSessionTTL))"
    by (simp add: unix_def adminSessionTTL_def duration_defs in_int64_def)
  have "AdminEmails (ap_conf glass_app) = []" "AdminGroupIDs (ap_conf glass_app) = []"
    by (simp_all add: glass_app_def demo_Config_def)
  with local_login_sound [OF resp exp] show ?thesis by (simp add: resp)
qed

end
