(* ===== verification/Dsn.thy ===== *)
theory Dsn
  imports GuestCodeRace
begin

text \<open>
  Opening the database: \<open>portal/internal/dbstore/dbstore.go\<close>.  A single string selects and addresses the
  backend; the part of it that is logged must not carry the password.  Parsing and printing of URLs,
  connecting and pinging are parameters.
\<close>

section \<open>Strings\<close>

definition has_suffix :: "string \<Rightarrow> string \<Rightarrow> bool" where
  "has_suffix s t \<longleftrightarrow> has_prefix (rev s) (rev t)"

text \<open>\<open>strings.Fields\<close>: the maximal runs of characters that are not blank.\<close>

fun words_acc :: "string \<Rightarrow> string \<Rightarrow> string list" where
  "words_acc w [] = (if w = [] then [] else [w])"
| "words_acc w (c # cs) =
     (if is_space c then (if w = [] then words_acc [] cs else w # words_acc [] cs)
      else words_acc (w @ [c]) cs)"

definition words_of :: "string \<Rightarrow> string list" where
  "words_of = words_acc []"

text \<open>The texts before and after the last, and the first, occurrence of a character.\<close>

definition cut_last :: "char \<Rightarrow> string \<Rightarrow> (string \<times> string) option" where
  "cut_last c s =
     (if c \<in> set s
      then Some (rev (tl (dropWhile (\<lambda>x. x \<noteq> c) (rev s))), rev (takeWhile (\<lambda>x. x \<noteq> c) (rev s)))
      else None)"

definition cut_first :: "char \<Rightarrow> string \<Rightarrow> (string \<times> string) option" where
  "cut_first c s =
     (if c \<in> set s then Some (takeWhile (\<lambda>x. x \<noteq> c) s, tl (dropWhile (\<lambda>x. x \<noteq> c) s)) else None)"


section \<open>The backend of a DSN\<close>

record Options =
  op_DSN :: string
  op_DataDir :: string
  op_MaxOpenConns :: int
  op_SlowQueryThreshold :: duration
  op_Debug :: bool

definition detectDriver :: "string \<Rightarrow> driver \<times> string" where
  "detectDriver dsn =
     (let s = trim_space dsn
      in if s = [] then (DriverSQLite, [])
         else if has_prefix s ''sqlite:'' then (DriverSQLite, trim_prefix s ''sqlite:'')
         else if has_prefix s ''file:'' then (DriverSQLite, s)
         else if has_prefix s ''postgres://'' \<or> has_prefix s ''postgresql://'' then (DriverPostgres, s)
         else if has_prefix s ''host='' \<or> contains s '' host='' then (DriverPostgres, s)
         else if has_suffix s ''.db'' \<or> has_suffix s ''.sqlite'' \<or> has_suffix s ''.sqlite3'' then (DriverSQLite, s)
         else (DriverMySQL, s))"

text \<open>A parsed URL: its scheme, the user name with the password, if any, and the rest.\<close>

record parsed_url =
  pu_scheme :: string
  pu_user :: "(string \<times> string option) option"
  pu_rest :: string

record url_lib =
  ul_parse :: "string \<Rightarrow> parsed_url option"
  ul_string :: "parsed_url \<Rightarrow> string"

definition redactDSN :: "url_lib \<Rightarrow> driver \<Rightarrow> string \<Rightarrow> string" where
  "redactDSN lib d dsn =
     (case d of
        DriverSQLite \<Rightarrow> dsn
      | DriverMySQL \<Rightarrow>
          (case cut_last CHR ''@'' dsn of
             None \<Rightarrow> dsn
           | Some (cred, addr) \<Rightarrow>
               if cred = [] then dsn
               else (case cut_first CHR '':'' cred of
                       None \<Rightarrow> dsn
                     | Some (user, _) \<Rightarrow> user @ '':***'' @ CHR ''@'' # addr))
      | DriverPostgres \<Rightarrow>
          (case ul_parse lib dsn of
             Some u \<Rightarrow>
               if pu_scheme u \<noteq> []
               then ul_string lib (u\<lparr>pu_user := map_option (\<lambda>(name, _). (name, None)) (pu_user u)\<rparr>)
               else join '' '' (map (\<lambda>f. if has_prefix f ''password='' then ''password=***'' else f) (words_of dsn))
           | None \<Rightarrow> join '' '' (map (\<lambda>f. if has_prefix f ''password='' then ''password=***'' else f) (words_of dsn))))"

definition sqliteDSN :: "string \<Rightarrow> string" where
  "sqliteDSN path = path @ ''?'' @ ''_pragma=journal_mode(WAL)'' @ ''&_pragma=busy_timeout(5000)'' @
     ''&_pragma=foreign_keys(1)'' @ ''&_pragma=synchronous(NORMAL)''"


section \<open>Opening\<close>

text \<open>The limits of the connection pool; zero is no limit.\<close>

record pool =
  pl_maxOpen :: int
  pl_maxIdle :: int
  pl_lifetime :: duration
  pl_idleTime :: duration

definition tune :: "driver \<Rightarrow> int \<Rightarrow> pool" where
  "tune d opt =
     (if d = DriverSQLite then \<lparr>pl_maxOpen = 1, pl_maxIdle = 1, pl_lifetime = 0, pl_idleTime = 0\<rparr>
      else (let mx = (if opt \<le> 0 then 25 else opt); idle = mx div 4
            in \<lparr>pl_maxOpen = mx, pl_maxIdle = (if idle < 2 then 2 else idle),
                pl_lifetime = 30 * minute, pl_idleTime = 5 * minute\<rparr>))"

datatype log_level = LogWarn | LogInfo

definition newGormLogger :: "Options \<Rightarrow> log_level \<times> duration" where
  "newGormLogger opts =
     (if op_Debug opts then LogInfo else LogWarn,
      if op_SlowQueryThreshold opts \<le> 0 then 300 * (second div 1000) else op_SlowQueryThreshold opts)"

record DB =
  db_driver :: driver
  db_redacted :: string
  db_pool :: pool

datatype open_error = NoDataDir | ConnectFailed driver string string | PingFailed driver string string

text \<open>Connecting and pinging: the driver with its connection string, \<open>None\<close> when it succeeds.\<close>

record db_net =
  dn_connect :: "driver \<Rightarrow> string \<Rightarrow> string option"
  dn_ping :: "driver \<Rightarrow> string \<Rightarrow> string option"

definition database_dsn :: "Options \<Rightarrow> (driver \<times> string) option" where
  "database_dsn opts =
     (case detectDriver (op_DSN opts) of (d, dsn) \<Rightarrow>
        if d = DriverSQLite \<and> dsn = [] then
          (if op_DataDir opts = [] then None
           else Some (d, trim_right (\<lambda>c. c = CHR ''/'') (op_DataDir opts) @ ''/portal.db''))
        else Some (d, dsn))"

definition connection_string :: "driver \<Rightarrow> string \<Rightarrow> string" where
  "connection_string d dsn = (if d = DriverSQLite then sqliteDSN dsn else dsn)"

definition Open :: "url_lib \<Rightarrow> db_net \<Rightarrow> Options \<Rightarrow> open_error + DB" where
  "Open lib net opts =
     (case database_dsn opts of
        None \<Rightarrow> Inl NoDataDir
      | Some (d, dsn) \<Rightarrow>
          (let redacted = redactDSN lib d dsn
           in case dn_connect net d (connection_string d dsn) of
                Some err \<Rightarrow> Inl (ConnectFailed d redacted err)
              | None \<Rightarrow>
                  (case dn_ping net d (connection_string d dsn) of
                     Some err \<Rightarrow> Inl (PingFailed d redacted err)
                   | None \<Rightarrow> Inr \<lparr>db_driver = d, db_redacted = redacted, db_pool = tune d (op_MaxOpenConns opts)\<rparr>)))"

section \<open>Lemmas\<close>

lemma cut_last_append: "c \<notin> set t \<Longrightarrow> cut_last c (s @ c # t) = Some (s, t)"
  by (simp add: cut_last_def takeWhile_append1 dropWhile_append1 takeWhile_eq_all_conv [THEN iffD2] dropWhile_append takeWhile_append)

lemma cut_first_append: "c \<notin> set s \<Longrightarrow> cut_first c (s @ c # t) = Some (s, t)"
  by (simp add: cut_first_def dropWhile_append takeWhile_append)

lemma redact_mysql:
  assumes "user \<noteq> []" "CHR '':'' \<notin> set user" "CHR ''@'' \<notin> set addr"
  shows "redactDSN lib DriverMySQL (user @ '':'' @ password @ ''@'' @ addr) = user @ '':***@'' @ addr"
proof -
  have "cut_last CHR ''@'' ((user @ CHR '':'' # password) @ CHR ''@'' # addr) = Some (user @ CHR '':'' # password, addr)"
    by (rule cut_last_append) (rule assms(3))
  moreover have "cut_first CHR '':'' (user @ CHR '':'' # password) = Some (user, password)"
    by (rule cut_first_append) (rule assms(2))
  ultimately show ?thesis by (simp add: redactDSN_def)
qed

lemma has_prefix_shorter: "has_prefix s (p @ q) \<Longrightarrow> has_prefix s p"
proof -
  assume "has_prefix s (p @ q)"
  then have "take (length p) (take (length (p @ q)) s) = take (length p) (p @ q)" by (simp add: has_prefix_def)
  then show "has_prefix s p" by (simp add: has_prefix_def min_def)
qed

text \<open>The suffixes that make a DSN a file, and a DSN of no form with a recognised beginning.\<close>

definition file_suffix :: "string \<Rightarrow> bool" where
  "file_suffix s \<longleftrightarrow> has_suffix s ''.db'' \<or> has_suffix s ''.sqlite'' \<or> has_suffix s ''.sqlite3''"

definition plain_dsn :: "string \<Rightarrow> bool" where
  "plain_dsn s \<longleftrightarrow> s \<noteq> [] \<and> trim_space s = s \<and>
     list_all (\<lambda>p. \<not> has_prefix s p) [''sqlite:'', ''file:'', ''postgres://'', ''postgresql://'', ''host=''] \<and>
     \<not> contains s '' host=''"

lemma detect_plain:
  "plain_dsn s \<Longrightarrow> detectDriver s = (if file_suffix s then DriverSQLite else DriverMySQL, s)"
  by (simp add: plain_dsn_def detectDriver_def file_suffix_def Let_def)


section \<open>Properties\<close>

text \<open>What the log shows of a MySQL DSN.  For a DSN \<open>user:password@address\<close> that has none of the
  recognised beginnings, the backend is MySQL and the logged form has stars for the password, whatever
  characters the password has.  But a DSN whose database name ends in \<open>.db\<close> or \<open>.sqlite\<close> is taken for the
  path of a file, and is logged as it is, with the password.\<close>

theorem dsn_redaction:
  assumes "dsn = user @ '':'' @ password @ ''@'' @ addr" "user \<noteq> []" "CHR '':'' \<notin> set user" "CHR ''@'' \<notin> set addr"
    and "plain_dsn dsn" "op_DSN opts = dsn"
  shows "database_dsn opts = Some (if file_suffix dsn then DriverSQLite else DriverMySQL, dsn) \<and>
    (case Open lib net opts of
       Inl NoDataDir \<Rightarrow> False
     | Inl (ConnectFailed d logged err) \<Rightarrow> logged = (if file_suffix dsn then dsn else user @ '':***@'' @ addr)
     | Inl (PingFailed d logged err) \<Rightarrow> logged = (if file_suffix dsn then dsn else user @ '':***@'' @ addr)
     | Inr db \<Rightarrow> db_redacted db = (if file_suffix dsn then dsn else user @ '':***@'' @ addr))"
proof -
  have "redactDSN lib DriverMySQL dsn = user @ '':***@'' @ addr" "redactDSN lib DriverSQLite dsn = dsn"
    using redact_mysql [OF assms(2-4)] by (simp_all add: assms(1) redactDSN_def)
  moreover have "dsn \<noteq> []" using assms(5) by (simp add: plain_dsn_def)
  then have "database_dsn opts = Some (if file_suffix dsn then DriverSQLite else DriverMySQL, dsn)"
    by (simp add: database_dsn_def assms(6) detect_plain [OF assms(5)])
  ultimately show ?thesis by (auto simp: Open_def Let_def split: option.split)
qed

definition demo_url_lib :: url_lib where
  "demo_url_lib = \<lparr>ul_parse = (\<lambda>_. None), ul_string = (\<lambda>u. pu_rest u)\<rparr>"

definition demo_net :: db_net where
  "demo_net = \<lparr>dn_connect = (\<lambda>_ _. Some ''refused''), dn_ping = (\<lambda>_ _. None)\<rparr>"

definition demo_options :: "string \<Rightarrow> Options" where
  "demo_options dsn =
     \<lparr>op_DSN = dsn, op_DataDir = ''/data'', op_MaxOpenConns = 0, op_SlowQueryThreshold = 0, op_Debug = False\<rparr>"

theorem dsn_redaction_witness:
  "Open demo_url_lib demo_net (demo_options ''psp:hunter2@tcp(db)/wifi'') =
     Inl (ConnectFailed DriverMySQL ''psp:***@tcp(db)/wifi'' ''refused'') \<and>
   Open demo_url_lib demo_net (demo_options ''psp:hunter2@tcp(db)/wifi.db'') =
     Inl (ConnectFailed DriverSQLite ''psp:hunter2@tcp(db)/wifi.db'' ''refused'')"
proof -
  have plain: "plain_dsn ''psp:hunter2@tcp(db)/wifi''" "plain_dsn ''psp:hunter2@tcp(db)/wifi.db''"
    "\<not> file_suffix ''psp:hunter2@tcp(db)/wifi''" "file_suffix ''psp:hunter2@tcp(db)/wifi.db''"
    by code_simp+
  have "op_DSN (demo_options d) = d" for d by (simp add: demo_options_def)
  note res = dsn_redaction [OF _ _ _ _ plain(1) this, of "''psp''" "''hunter2''" "''tcp(db)/wifi''" demo_url_lib demo_net]
    dsn_redaction [OF _ _ _ _ plain(2) this, of "''psp''" "''hunter2''" "''tcp(db)/wifi.db''" demo_url_lib demo_net]
  show ?thesis using res plain(3,4) by (auto simp: Open_def demo_net_def Let_def)
qed

text \<open>A handle is well formed.  Whatever the options, the database is one of the three backends with the
  pool made for it: a handle that was opened has at least one connection and the number of connections
  that the concurrent redemption of codes relies on, one for SQLite; and no DSN opens a file without a name.\<close>

theorem open_typed:
  "(case Open lib net opts of
      Inl NoDataDir \<Rightarrow> op_DataDir opts = [] \<and> snd (detectDriver (op_DSN opts)) = []
    | Inl (ConnectFailed d logged err) \<Rightarrow> fst (detectDriver (op_DSN opts)) = d
    | Inl (PingFailed d logged err) \<Rightarrow> fst (detectDriver (op_DSN opts)) = d
    | Inr db \<Rightarrow> db_driver db = fst (detectDriver (op_DSN opts)) \<and>
        pl_maxOpen (db_pool db) = maxOpenConns (db_driver db) (op_MaxOpenConns opts) \<and> 0 < pl_maxOpen (db_pool db) \<and>
        (\<exists>dsn. dsn \<noteq> [] \<and> database_dsn opts = Some (db_driver db, dsn)))"
proof -
  have "database_dsn opts = Some (d, dsn) \<Longrightarrow> d = fst (detectDriver (op_DSN opts)) \<and> dsn \<noteq> []" for d dsn
    by (auto simp: database_dsn_def detectDriver_def Let_def split: if_splits)
  moreover have "database_dsn opts = None \<Longrightarrow> op_DataDir opts = [] \<and> snd (detectDriver (op_DSN opts)) = []"
    by (auto simp: database_dsn_def split: if_splits prod.splits)
  ultimately show ?thesis
    by (auto simp: Open_def Let_def tune_def maxOpenConns_def split: option.split)
qed

end
