(* ===== verification/Cli.thy ===== *)
theory Cli
  imports LocalAdmin Listeners Dsn
begin

text \<open>
  The subcommands of \<open>portal/cli.go\<close>, which work on the database and never start the server.  A command
  gives its exit code, the lines it prints, the lines of its errors, and the next state.  The terminal, the
  environment, the text of the errors of the database, the random source and
  \<open>net.ParseCIDR\<close>, quoting with \<open>%q\<close> and the printing of times are inputs.
\<close>

datatype cli_line = UsageText | Line string

record cli_db =
  cd_settings :: "settingRow list"
  cd_admins :: "localAdmin list"

type_synonym cli_result = "int \<times> cli_line list \<times> string list \<times> cli_db"

text \<open>What the command finds on standard input: a pipe, or a terminal with the two answers (an error text or a line).\<close>

datatype stdin = Pipe string | Terminal "string + string" "string + string"

record cli_env =
  cl_getenv :: "string \<Rightarrow> string"
  cl_urls :: url_lib
  cl_net :: db_net
  cl_migrate :: "string option"
  cl_aead :: aead
  cl_nonce :: "nat \<Rightarrow> string option"
  cl_flt :: bool
  cl_dberr :: string
  cl_neterr :: "string \<Rightarrow> string"
  cl_now :: time
  cl_argon :: argon
  cl_salt :: "string option"
  cl_ip :: "string \<Rightarrow> string option"
  cl_is4 :: "string \<Rightarrow> bool"
  cl_cidr :: "string \<Rightarrow> network option"
  cl_quote :: "string \<Rightarrow> string"
  cl_time :: "string \<Rightarrow> time \<Rightarrow> string"
  cl_stdin :: stdin

definition envOr :: "(string \<Rightarrow> string) \<Rightarrow> string \<Rightarrow> string \<Rightarrow> string" where
  "envOr getenv key fallback = (if getenv key \<noteq> [] then getenv key else fallback)"

definition cliError :: "string \<Rightarrow> cli_db \<Rightarrow> cli_result" where
  "cliError msg s = (1, [], [''wifi-portal: '' @ msg], s)"

definition cli_ok :: "string list \<Rightarrow> cli_db \<Rightarrow> cli_result" where
  "cli_ok out s = (0, map Line out, [], s)"

definition cli_usage :: "cli_db \<Rightarrow> cli_result" where
  "cli_usage s = (2, [UsageText], [], s)"

definition driver_text :: "driver \<Rightarrow> string" where
  "driver_text d = (case d of DriverSQLite \<Rightarrow> ''sqlite'' | DriverMySQL \<Rightarrow> ''mysql'' | DriverPostgres \<Rightarrow> ''postgres'')"

definition open_text :: "open_error \<Rightarrow> string" where
  "open_text e = (case e of
     NoDataDir \<Rightarrow> ''dbstore: DataDir is required when no DSN is set''
   | ConnectFailed d logged err \<Rightarrow> ''dbstore: connect '' @ driver_text d @ '' ('' @ logged @ ''): '' @ err
   | PingFailed d logged err \<Rightarrow> ''dbstore: ping '' @ driver_text d @ '' ('' @ logged @ ''): '' @ err)"

definition openForCLI :: "cli_env \<Rightarrow> string + store" where
  "openForCLI e =
     (case Open (cl_urls e) (cl_net e)
             \<lparr>op_DSN = trim_space (envOr (cl_getenv e) ''DB_DSN'' []), op_DataDir = envOr (cl_getenv e) ''DATA_DIR'' ''/data'',
              op_MaxOpenConns = 0, op_SlowQueryThreshold = 0, op_Debug = False\<rparr> of
        Inl err \<Rightarrow> Inl (open_text err)
      | Inr db \<Rightarrow>
          (case cl_migrate e of
             Some err \<Rightarrow> Inl (''dbstore: migrate: '' @ err)
           | None \<Rightarrow> Inr \<lparr>so_aead = cl_aead e,
                          so_keys = NewKeyring (cl_aead e) (trim_space (envOr (cl_getenv e) ''ENCRYPTION_KEY'' [])),
                          so_secrets = isSecretSetting\<rparr>))"

definition with_db :: "cli_env \<Rightarrow> cli_db \<Rightarrow> (store \<Rightarrow> cli_result) \<Rightarrow> cli_result" where
  "with_db e s k =
     (case openForCLI e of
        Inl err \<Rightarrow> cliError (''cannot open the database: '' @ err) s
      | Inr store \<Rightarrow> k store)"

text \<open>\<open>strings.Cut\<close> at the first dot.\<close>

definition splitSettingKey :: "string \<Rightarrow> (string \<times> string) option" where
  "splitSettingKey s =
     (case cut_first CHR ''.'' (trim_space s) of
        None \<Rightarrow> None
      | Some (sec, key) \<Rightarrow> if sec = [] \<or> key = [] then None else Some (sec, key))"

text \<open>The dash of the messages, in UTF-8.\<close>

definition dash :: string where "dash = [CHR 0xE2, CHR 0x80, CHR 0x94]"

text \<open>\<open>%-ns\<close> counts runes.\<close>

definition pad :: "nat \<Rightarrow> string \<Rightarrow> string" where
  "pad n s = s @ replicate (n - rune_count s) CHR '' ''"


section \<open>Settings\<close>

definition value_of :: "Values \<Rightarrow> string \<Rightarrow> string" where
  "value_of v k = (case map_of v k of None \<Rightarrow> [] | Some s \<Rightarrow> s)"

definition list_line :: "Values \<Rightarrow> string \<Rightarrow> string" where
  "list_line v k =
     (case settingIndex k of
        None \<Rightarrow> pad 40 k @ '' '' @ value_of v k
      | Some d \<Rightarrow>
          (let x = (if value_of v k = [] then sd_default d else value_of v k)
           in pad 40 k @ '' '' @ (if sd_secret d then Mask x else x)))"

definition config_list :: "cli_env \<Rightarrow> cli_db \<Rightarrow> store \<Rightarrow> cli_result" where
  "config_list e s st =
     (case LoadAll (cl_flt e) st (cd_settings s) of
        Inl err \<Rightarrow> cliError (''reading settings: '' @ settings_text err) s
      | Inr v \<Rightarrow> cli_ok (map (list_line v) (sort (map (\<lambda>d. Key (sd_section d) (sd_key d)) settingRegistry))) s)"

definition config_get :: "cli_env \<Rightarrow> string \<Rightarrow> cli_db \<Rightarrow> store \<Rightarrow> cli_result" where
  "config_get e arg s st =
     (case splitSettingKey arg of
        None \<Rightarrow> cliError (''expected section.key, got '' @ cl_quote e arg) s
      | Some (sec, key) \<Rightarrow>
          (case LoadAll (cl_flt e) st (cd_settings s) of
             Inl err \<Rightarrow> cliError (''reading settings: '' @ settings_text err) s
           | Inr v \<Rightarrow>
               (let x = value_of v (Key sec key)
                in cli_ok [if isSecretSetting sec key then Mask x else x] s)))"

text \<open>Both \<open>set\<close> and \<open>unset\<close> store one value.\<close>

definition store_one :: "cli_env \<Rightarrow> string \<Rightarrow> string \<Rightarrow> string \<Rightarrow> string list \<Rightarrow> cli_db \<Rightarrow> store \<Rightarrow> cli_result" where
  "store_one e sec key v out s st =
     (case SetOne (cl_flt e) st (cl_nonce e) (cl_now e) sec key v ''cli'' (cd_settings s) of
        (Some err, tbl) \<Rightarrow> cliError (''saving: '' @ settings_text err) (s\<lparr>cd_settings := tbl\<rparr>)
      | (None, tbl) \<Rightarrow> cli_ok out (s\<lparr>cd_settings := tbl\<rparr>))"

definition config_set :: "cli_env \<Rightarrow> string \<Rightarrow> string \<Rightarrow> cli_db \<Rightarrow> store \<Rightarrow> cli_result" where
  "config_set e arg v s st =
     (case splitSettingKey arg of
        None \<Rightarrow> cliError (''expected section.key, got '' @ cl_quote e arg) s
      | Some (sec, key) \<Rightarrow>
          if settingIndex (Key sec key) = None
          then cliError (''unknown setting '' @ cl_quote e arg @ '' '' @ dash @ '' run `wifi-portal config list` for the valid names'') s
          else store_one e sec key v
                 [''set '' @ sec @ ''.'' @ key @ '' '' @ dash @ '' restart the portal for it to take effect''] s st)"

definition config_unset :: "cli_env \<Rightarrow> string \<Rightarrow> cli_db \<Rightarrow> store \<Rightarrow> cli_result" where
  "config_unset e arg s st =
     (case splitSettingKey arg of
        None \<Rightarrow> cliError (''expected section.key, got '' @ cl_quote e arg) s
      | Some (sec, key) \<Rightarrow>
          (case settingIndex (Key sec key) of
             None \<Rightarrow> cliError (''unknown setting '' @ cl_quote e arg) s
           | Some d \<Rightarrow> store_one e sec key (sd_default d)
               [''reset '' @ sec @ ''.'' @ key @ '' to its default ('' @ cl_quote e (sd_default d) @ '')''] s st))"

fun config_cmd :: "cli_env \<Rightarrow> string \<Rightarrow> string list \<Rightarrow> cli_db \<Rightarrow> store \<Rightarrow> cli_result" where
  "config_cmd e cmd args s st =
     (if cmd = ''list'' then config_list e s st
      else if cmd = ''get'' then
        (case args of [] \<Rightarrow> cliError ''usage: config get <section.key>'' s | a # _ \<Rightarrow> config_get e a s st)
      else if cmd = ''set'' then
        (case args of a # v # _ \<Rightarrow> config_set e a v s st
         | _ \<Rightarrow> cliError ''usage: config set <section.key> <value>'' s)
      else if cmd = ''unset'' then
        (case args of [] \<Rightarrow> cliError ''usage: config unset <section.key>'' s | a # _ \<Rightarrow> config_unset e a s st)
      else cli_usage s)"

definition runConfigCmd :: "cli_env \<Rightarrow> string list \<Rightarrow> cli_db \<Rightarrow> cli_result" where
  "runConfigCmd e args s =
     (case args of [] \<Rightarrow> cli_usage s | cmd # rest \<Rightarrow> with_db e s (config_cmd e cmd rest s))"


section \<open>Accounts\<close>

definition newline :: char where "newline = CHR 0x0A"

text \<open>A piped password needs the newline: without one, reading ends with an error.  The prompts of the terminal
  are left out.\<close>

definition promptPassword :: "stdin \<Rightarrow> string + string" where
  "promptPassword input =
     (case input of
        Pipe s \<Rightarrow>
          (case cut_first newline s of
             None \<Rightarrow> Inl ''EOF''
           | Some (line, _) \<Rightarrow> Inr (trim_right (\<lambda>c. c = CHR 0x0D \<or> c = newline) line))
      | Terminal first again \<Rightarrow>
          (case first of
             Inl err \<Rightarrow> Inl err
           | Inr p \<Rightarrow>
               (case again of
                  Inl err \<Rightarrow> Inl err
                | Inr q \<Rightarrow> if p \<noteq> q then Inl ''passwords do not match'' else Inr p)))"

definition create_text :: "cli_env \<Rightarrow> create_error \<Rightarrow> string" where
  "create_text e err = (case err of
     NoUsername \<Rightarrow> ''username is required''
   | WeakPassword \<Rightarrow> ''password must be at least 12 characters''
   | HashFailed \<Rightarrow> cl_dberr e
   | CreateDB \<Rightarrow> cl_dberr e)"

definition admin_line :: "cli_env \<Rightarrow> localAdmin \<Rightarrow> string" where
  "admin_line e r =
     pad 24 (la_user r) @ '' '' @ pad 8 (if la_enabled r then ''enabled'' else ''disabled'') @ '' last-login='' @
     (case la_login r of None \<Rightarrow> ''never'' | Some t \<Rightarrow> cl_time e ''2006-01-02 15:04'' t) @
     (case la_locked r of None \<Rightarrow> [] | Some t \<Rightarrow> '' locked-until='' @ cl_time e ''15:04'' t)"

definition admin_list :: "cli_env \<Rightarrow> cli_db \<Rightarrow> cli_result" where
  "admin_list e s =
     (if cl_flt e then cliError (''reading accounts: '' @ cl_dberr e) s
      else (let rows = listLocalAdmins False (cd_admins s)
            in if rows = [] then cli_ok [''no local accounts (create one with `wifi-portal admin add <username>`)''] s
               else cli_ok (map (admin_line e) rows) s))"

definition admin_add :: "cli_env \<Rightarrow> string \<Rightarrow> cli_db \<Rightarrow> store \<Rightarrow> cli_result" where
  "admin_add e user s st =
     (case promptPassword (cl_stdin e) of
        Inl err \<Rightarrow> cliError err s
      | Inr password \<Rightarrow>
          (case createLocalAdmin (cl_argon e) (cl_flt e) (cl_salt e) (cl_now e) user password (cd_admins s) of
             (Some err, tbl) \<Rightarrow> cliError (create_text e err) (s\<lparr>cd_admins := tbl\<rparr>)
           | (None, tbl) \<Rightarrow>
               (let enabled = (case LoadAll (cl_flt e) st (cd_settings s) of
                      Inl _ \<Rightarrow> False
                    | Inr v \<Rightarrow> val_Bool v secLocalAdmin ''enabled'' False)
                in cli_ok ([''account '' @ cl_quote e (to_lower user) @ '' saved''] @
                     (if enabled then [] else
                       [''note: local login is currently disabled '' @ dash @ '' run `wifi-portal admin enable` to turn it on'']))
                     (s\<lparr>cd_admins := tbl\<rparr>))))"

definition admin_delete :: "cli_env \<Rightarrow> string \<Rightarrow> cli_db \<Rightarrow> cli_result" where
  "admin_delete e user s =
     (if cl_flt e then cliError (cl_dberr e) s
      else (case deleteLocalAdmin False user (cd_admins s) of
              (removed, tbl) \<Rightarrow>
                if removed then cli_ok [''account '' @ cl_quote e (to_lower user) @ '' removed''] (s\<lparr>cd_admins := tbl\<rparr>)
                else cliError (''no such account: '' @ user) (s\<lparr>cd_admins := tbl\<rparr>)))"

definition admin_enable :: "cli_env \<Rightarrow> string list \<Rightarrow> cli_db \<Rightarrow> store \<Rightarrow> cli_result" where
  "admin_enable e args s st =
     (let allowed = (case args of [] \<Rightarrow> [] | a # _ \<Rightarrow> a)
      in if args \<noteq> [] \<and> localAdminAllowedFrom (cl_ip e) (cl_is4 e) (cl_cidr e) allowed = None
         then cliError (cl_neterr e allowed) s
         else (case Save (cl_flt e) st (cl_nonce e) (cl_now e) secLocalAdmin
                      [(''enabled'', ''true''), (''allowed_from'', allowed)] ''cli'' (cd_settings s) of
             (Some err, tbl) \<Rightarrow> cliError (''saving: '' @ settings_text err) (s\<lparr>cd_settings := tbl\<rparr>)
           | (None, tbl) \<Rightarrow>
               cli_ok [''local login enabled at /admin/login/local, reachable from '' @
                         (if allowed \<noteq> [] then allowed else ''any address''),
                       ''restart the portal for it to take effect''] (s\<lparr>cd_settings := tbl\<rparr>)))"

fun admin_cmd :: "cli_env \<Rightarrow> string \<Rightarrow> string list \<Rightarrow> cli_db \<Rightarrow> store \<Rightarrow> cli_result" where
  "admin_cmd e cmd args s st =
     (if cmd = ''list'' then admin_list e s
      else if cmd = ''add'' \<or> cmd = ''passwd'' then
        (case args of [] \<Rightarrow> cliError (''usage: admin '' @ cmd @ '' <username>'') s | a # _ \<Rightarrow> admin_add e a s st)
      else if cmd = ''delete'' then
        (case args of [] \<Rightarrow> cliError ''usage: admin delete <username>'' s | a # _ \<Rightarrow> admin_delete e a s)
      else if cmd = ''enable'' then admin_enable e args s st
      else if cmd = ''disable'' then
        store_one e secLocalAdmin ''enabled'' ''false''
          [''local login disabled '' @ dash @ '' restart the portal for it to take effect''] s st
      else cli_usage s)"

definition runAdminCmd :: "cli_env \<Rightarrow> string list \<Rightarrow> cli_db \<Rightarrow> cli_result" where
  "runAdminCmd e args s =
     (case args of [] \<Rightarrow> cli_usage s | cmd # rest \<Rightarrow> with_db e s (admin_cmd e cmd rest s))"

text \<open>\<open>None\<close> when the arguments are no subcommand, and the portal starts.\<close>

definition runCLI :: "cli_env \<Rightarrow> string list \<Rightarrow> cli_db \<Rightarrow> cli_result option" where
  "runCLI e args s =
     (case args of
        [] \<Rightarrow> None
      | cmd # rest \<Rightarrow>
          if cmd \<in> {''help'', ''-h'', ''--help''} then Some (0, [UsageText], [], s)
          else if cmd = ''config'' then Some (runConfigCmd e rest s)
          else if cmd = ''admin'' then Some (runAdminCmd e rest s)
          else None)"

section \<open>Properties\<close>

lemma openForCLI_store:
  "openForCLI e = Inr st \<Longrightarrow> so_aead st = cl_aead e \<and> so_secrets st = isSecretSetting"
  by (auto simp: openForCLI_def split: sum.splits option.splits)

lemma runConfigCmd_open: "openForCLI e = Inr st \<Longrightarrow> runConfigCmd e (cmd # args) s = config_cmd e cmd args s st"
  by (simp add: runConfigCmd_def with_db_def)

lemma LoadAll_unreadable:
  "r0 \<in> set tbl \<Longrightarrow> \<not> readable st r0 \<Longrightarrow> \<exists>err. LoadAll flt st tbl = Inl err"
  using load_rows_unreadable by (fastforce simp: LoadAll_def)

lemma SetOne_ok:
  assumes "rnd 0 \<noteq> None"
  shows "fst (SetOne False st rnd now sec key v author tbl) = None"
  using assms by (auto simp: SetOne_def Save_def Let_def Encrypt_def split: sum.split option.split)

text \<open>The table after one value was stored.\<close>

lemma SetOne_table:
  assumes "SetOne False st rnd now sec key v author tbl = (None, tbl')" "unique_by setting_pk tbl"
    and "aead_ok (so_aead st)" "good_nonces rnd" "\<not> has_prefix v Prefix"
  shows "setting_at st tbl' sec key = Some v"
    and "pk \<noteq> (sec, key) \<Longrightarrow> find (\<lambda>r. setting_pk r = pk) tbl' = find (\<lambda>r. setting_pk r = pk) tbl"
    and "\<forall>r\<in>set tbl'. readable st r \<or> (r \<in> set tbl \<and> setting_pk r \<noteq> (sec, key))"
proof -
  have sv: "Save False st rnd now sec [(key, v)] author tbl = (None, tbl')" using assms(1) by (simp add: SetOne_def)
  have "storable st sec [(key, v)]" using assms(5) by (simp add: storable_def)
  from Save_None [OF assms(3,4) this _ sv] obtain rows where rows: "tbl' = upsert_settings rows tbl"
    "distinct (map setting_pk rows)" "\<forall>r\<in>set rows. readable st r \<and> sr_section r = sec"
    "\<forall>k. map_option (row_plain st) (find (\<lambda>r. setting_pk r = (sec, k)) rows) = map_of [(key, v)] k"
    by auto
  note found = find_upsert_settings [OF rows(2), of _ tbl, folded rows(1)]
  have uniq: "unique_by setting_pk tbl'" using unique_Save_result [OF assms(2) sv] .
  have only: "find (\<lambda>r. setting_pk r = pk) rows = None" if "pk \<noteq> (sec, key)" for pk
  proof (cases "fst pk = sec")
    case True
    then have "pk = (sec, snd pk)" "snd pk \<noteq> key" using that by (auto simp: prod_eq_iff)
    with rows(4) [rule_format, of "snd pk"] show ?thesis by simp
  next
    case False
    with rows(3) show ?thesis by (auto simp: find_None_iff setting_pk_def)
  qed
  obtain n where n: "find (\<lambda>r. setting_pk r = (sec, key)) rows = Some n" "row_plain st n = v"
    using rows(4) [rule_format, of key] by auto
  then have n_ok: "readable st n" "setting_pk n = (sec, key)" using rows(3) find_SomeD [OF n(1)] by auto
  obtain n' where n': "find (\<lambda>r. setting_pk r = (sec, key)) tbl' = Some n'" "row_value st n' = row_value st n"
    using found [of "(sec, key)"] n(1) n_ok(2) row_value_set_setting
    by (cases "find (\<lambda>r. setting_pk r = (sec, key)) tbl") (auto dest!: find_SomeD)
  show "setting_at st tbl' sec key = Some v"
    using n(2) n' by (simp add: setting_at_def row_plain_def)
  show "pk \<noteq> (sec, key) \<Longrightarrow> find (\<lambda>r. setting_pk r = pk) tbl' = find (\<lambda>r. setting_pk r = pk) tbl" for pk
    using found [of pk] only [of pk] by simp
  show "\<forall>r\<in>set tbl'. readable st r \<or> (r \<in> set tbl \<and> setting_pk r \<noteq> (sec, key))"
  proof
    fix r assume r: "r \<in> set tbl'"
    have fr: "find (\<lambda>x. setting_pk x = setting_pk r) tbl' = Some r" by (rule find_unique [OF uniq r refl])
    show "readable st r \<or> (r \<in> set tbl \<and> setting_pk r \<noteq> (sec, key))"
    proof (cases "setting_pk r = (sec, key)")
      case True
      with fr n'(1) have "r = n'" by simp
      with n'(2) n_ok(1) show ?thesis by (simp add: readable_def)
    next
      case False
      with fr found [of "setting_pk r"] only have "find (\<lambda>x. setting_pk x = setting_pk r) tbl = Some r" by simp
      from find_SomeD [OF this] False show ?thesis by simp
    qed
  qed
qed


definition demo_cli :: "string \<Rightarrow> cli_env" where
  "demo_cli piped =
     \<lparr>cl_getenv = (\<lambda>k. if k = ''ENCRYPTION_KEY'' then ''k'' else []), cl_urls = demo_url_lib,
      cl_net = \<lparr>dn_connect = (\<lambda>_ _. None), dn_ping = (\<lambda>_ _. None)\<rparr>, cl_migrate = None, cl_aead = demo_aead,
      cl_nonce = (\<lambda>_. Some ''abcdefghijkl''), cl_flt = False, cl_dberr = [], cl_neterr = (\<lambda>s. s), cl_now = 5,
      cl_argon = demo_argon, cl_salt = Some ''0123456789abcdef'', cl_ip = (\<lambda>_. None), cl_is4 = (\<lambda>_. False),
      cl_cidr = (\<lambda>_. None), cl_quote = (\<lambda>s. s), cl_time = (\<lambda>_ _. []), cl_stdin = Pipe piped\<rparr>"

definition demo_broken :: cli_db where
  "demo_broken = \<lparr>cd_settings = [demo_setting secOIDC ''client_secret'' ''enc:v1:''], cd_admins = []\<rparr>"

lemma demo_open: "\<exists>st. openForCLI (demo_cli piped) = Inr st \<and> so_keys st \<noteq> None"
proof -
  have "trim_space ''k'' = ''k''" by code_simp
  then show ?thesis
    by (simp add: openForCLI_def Open_def database_dsn_def detectDriver_def demo_cli_def envOr_def NewKeyring_def Let_def)
qed


end
