(* ===== verification/Startup.thy ===== *)
theory Startup
  imports LegacyImport Listeners Cli AdminRun
begin

text \<open>
  The start of the portal, \<open>main\<close> in \<open>portal/main.go\<close> with \<open>loadBootstrap\<close> in \<open>portal/config.go\<close>: the
  bootstrap variables, the database, the one-time import, the first reload, the stores and counters, and
  the listeners.  A start ends in the error the process logs before it exits, in a panic, or in a running
  server.
\<close>

section \<open>Bootstrap variables\<close>

text \<open>\<open>None\<close> is the fatal exit.\<close>

definition mustEnv :: "(string \<Rightarrow> string) \<Rightarrow> string \<Rightarrow> string option" where
  "mustEnv getenv key = (if getenv key = [] then None else Some (getenv key))"

definition loadBootstrap :: "(string \<Rightarrow> string) \<Rightarrow> BootstrapConfig option" where
  "loadBootstrap getenv =
     (case (envOrInt (getenv ''DB_MAX_OPEN_CONNS'') 0, envOrBool (getenv ''TRUST_PROXY'') True,
            Option.bind (mustEnv getenv ''SESSION_SECRET'') hex_decode) of
        (Some conns, Some trust, Some sec) \<Rightarrow>
          (let key = trim_space (envOr getenv ''ENCRYPTION_KEY'' [])
           in if length sec < 32 then None
              else if key \<noteq> [] \<and> length key < 32 then None
              else Some \<lparr>b_ListenAddr = envOr getenv ''LISTEN_ADDR'' ''127.0.0.1:28080'', b_SessionSecret = sec,
                         b_EncryptionKey = key, b_DataDir = envOr getenv ''DATA_DIR'' ''/data'',
                         b_DBDSN = trim_space (envOr getenv ''DB_DSN'' []), b_DBMaxOpenConns = conns,
                         b_TrustProxy = trust\<rparr>)
      | _ \<Rightarrow> None)"

definition legacy_vars :: "string list" where
  "legacy_vars = [''TENANT_ID'', ''CLIENT_ID'', ''CLIENT_SECRET'', ''IKUAI_APPKEY'', ''PUBLIC_URL'', ''ENCRYPTION_KEY'', ''DB_DSN'']"

definition looksUninitialized :: "(string \<Rightarrow> string) \<Rightarrow> bool" where
  "looksUninitialized getenv \<longleftrightarrow>
     trim_space (getenv ''SESSION_SECRET'') = [] \<and> list_all (\<lambda>k. trim_space (getenv k) = []) legacy_vars"

text \<open>\<open>split\<close> is \<open>net.SplitHostPort\<close> (the host), \<open>loopback\<close> whether the text is a loopback address.\<close>

definition isLoopbackListen :: "(string \<Rightarrow> string option) \<Rightarrow> (string \<Rightarrow> bool) \<Rightarrow> string \<Rightarrow> bool" where
  "isLoopbackListen split loopback addr =
     (case split addr of
        None \<Rightarrow> False
      | Some host \<Rightarrow> if host = [] then False else if host = ''localhost'' then True else loopback host)"

text \<open>The variables that were settings once, with the setting each became.\<close>

definition warnIgnoredRuntimeEnv :: "(string \<Rightarrow> string) \<Rightarrow> string list" where
  "warnIgnoredRuntimeEnv getenv =
     sort (map (\<lambda>d. sd_env d @ '' (now '' @ Key (sd_section d) (sd_key d) @ '')'')
       (filter (\<lambda>d. sd_env d \<noteq> [] \<and> getenv (sd_env d) \<noteq> []) settingRegistry))"

text \<open>The default policies from the environment; \<open>None\<close> is the fatal exit.\<close>

definition env_policy :: "(string \<Rightarrow> string) \<Rightarrow> string \<Rightarrow> bool \<Rightarrow> IKuaiPolicy option" where
  "env_policy getenv name timed =
     (case (envOrNonNegativeInt (getenv (''IKUAI_'' @ name @ ''_UPLOAD'')) 0,
            envOrNonNegativeInt (getenv (''IKUAI_'' @ name @ ''_DOWNLOAD'')) 0,
            if timed then envOrNonNegativeInt (getenv (''IKUAI_'' @ name @ ''_TIMEOUT'')) 0 else Some 0) of
        (Some up, Some down, Some t) \<Rightarrow>
          Some \<lparr>p_upload = up, p_download = down, p_timeout = t,
                p_comment = trim_space (envOr getenv (''IKUAI_'' @ name @ ''_COMMENT'') [])\<rparr>
      | _ \<Rightarrow> None)"

definition defaultIKuaiPoliciesFromEnv :: "(string \<Rightarrow> string) \<Rightarrow> (IKuaiAuthProfile \<times> IKuaiPolicy) list option" where
  "defaultIKuaiPoliciesFromEnv getenv =
     (case (env_policy getenv ''SSO'' True, env_policy getenv ''DUO'' True, env_policy getenv ''GUEST'' False) of
        (Some s, Some d, Some g) \<Rightarrow> Some [(IKuaiProfileSSO, s), (IKuaiProfileDuo, d), (IKuaiProfileGuest, g)]
      | _ \<Rightarrow> None)"

text \<open>Every policy made from the environment is valid.\<close>

lemma env_nonneg: "envOrNonNegativeInt raw d = Some n \<Longrightarrow> 0 \<le> n"
  by (simp add: envOrNonNegativeInt_def split: option.splits if_splits)

lemma env_policy_valid: "env_policy getenv name timed = Some p \<Longrightarrow> 0 \<le> p_upload p \<and> 0 \<le> p_download p \<and> 0 \<le> p_timeout p"
  by (cases timed) (auto simp: env_policy_def dest!: env_nonneg split: option.splits)

lemma env_policies_valid:
  "defaultIKuaiPoliciesFromEnv getenv = Some ps \<Longrightarrow> (k, p) \<in> set ps \<Longrightarrow> 0 \<le> p_upload p \<and> 0 \<le> p_download p \<and> 0 \<le> p_timeout p"
  using env_policy_valid [of getenv]
  by (auto simp: defaultIKuaiPoliciesFromEnv_def split: option.splits)


section \<open>The start\<close>

record persisted =
  pd_import :: import_db
  pd_bans :: "ipBanRow list"
  pd_certs :: "certRow list"

datatype start_stmt =
    DataDirCheck | MigrateTables | HasCodeTables | HasEventTable | LoadBans | LoadSettings | SeedPolicies | LoadPolicies
  | LoadCertificate

record start_world =
  sw_getenv :: "string \<Rightarrow> string"
  sw_urls :: url_lib
  sw_net :: db_net
  sw_flt :: "start_stmt \<Rightarrow> bool"
  sw_import :: import_world
  sw_paths :: "string \<Rightarrow> string \<Rightarrow> string"
  sw_env :: env

datatype start_error =
    BadBootstrap | DataDirNotWritable | OpenFailed open_error | MigrateFailed | ImportFailed import_error
  | SchemaFailed | PolicyFailed

datatype outcome = Fatal start_error | Panic | Started server

definition boot_store :: "start_world \<Rightarrow> BootstrapConfig \<Rightarrow> store" where
  "boot_store w boot =
     \<lparr>so_aead = so_aead (en_store (sw_env w)), so_keys = NewKeyring (so_aead (en_store (sw_env w))) (b_EncryptionKey boot),
      so_secrets = isSecretSetting\<rparr>"

text \<open>The settings and the certificates share the keys derived from the bootstrap key.\<close>

definition boot_env :: "start_world \<Rightarrow> BootstrapConfig \<Rightarrow> env" where
  "boot_env w boot =
     (sw_env w)\<lparr>en_boot := boot, en_store := boot_store w boot,
       en_crypto := (en_crypto (sw_env w))\<lparr>cr_keys := so_keys (boot_store w boot)\<rparr>\<rparr>"

text \<open>The stores over the opened database, before the first configuration; the counters come after it.\<close>

definition fresh_app :: "start_world \<Rightarrow> persisted \<Rightarrow> app" where
  "fresh_app w p =
     \<lparr>ap_conf = zero_Config, ap_oidc = False, ap_duo = None, ap_duoUniversal = None,
      ap_lim = \<lparr>l_emailFails = newFailCounter 0, l_guestFails = newFailCounter 0, l_ipFails = newFailCounter 0,
                l_bans = newIPBanList (sw_flt w LoadBans) (w_now (en_world (sw_env w))) (pd_bans p),
                l_banTbl = pd_bans p, l_historyTbl = idb_history (pd_import p)\<rparr>,
      ap_usedStates = newUsedStateSet sessionTTL, ap_proceed = newProceedTokenStore 0,
      ap_denylist = idb_macs (pd_import p), ap_codes = idb_codes (pd_import p),
      ap_policyTbl = idb_policies (pd_import p), ap_policies = \<lparr>st_defaults = [], st_cache = []\<rparr>,
      ap_events = idb_events (pd_import p)\<rparr>"

text \<open>The counters take their windows from the configuration.\<close>

definition sized_app :: "IKuaiPolicyStore \<Rightarrow> policyRow list \<Rightarrow> app \<Rightarrow> app" where
  "sized_app policies tbl a =
     a\<lparr>ap_policies := policies, ap_policyTbl := tbl,
       ap_lim := (ap_lim a)\<lparr>l_emailFails := newFailCounter (AuthEmailWindowLong (ap_conf a)),
                             l_guestFails := newFailCounter (GuestCodeMacWindow (ap_conf a)),
                             l_ipFails := newFailCounter (IPFailsWindow (ap_conf a))\<rparr>,
       ap_proceed := newProceedTokenStore (AuthProceedTTL (ap_conf a))\<rparr>"

definition server_of :: "app \<Rightarrow> persisted \<Rightarrow> server" where
  "server_of a p =
     \<lparr>sv_app = a, sv_settings = idb_settings (pd_import p), sv_certs = pd_certs p, sv_served = None,
      sv_tlsAddr = None, sv_front = None, sv_commit = no_commit\<rparr>"

text \<open>
  From the first reload on.  Until it succeeds there is no runtime state, and the configuration that \<open>main\<close>
  asks for next is behind a nil pointer.
\<close>

definition start_app :: "start_world \<Rightarrow> BootstrapConfig \<Rightarrow> persisted \<Rightarrow> outcome" where
  "start_app w boot p =
     (let e = boot_env w boot
      in case reloadRuntime (sw_flt w LoadSettings) (en_hostname e) (en_discover e) (en_store e) boot
                (idb_settings (pd_import p)) (fresh_app w p) of
           (Some (ReloadLoad err), a) \<Rightarrow> Panic
         | (err, a) \<Rightarrow>
             (case newIKuaiPolicyStore (sw_flt w SeedPolicies) (sw_flt w LoadPolicies) (w_now (en_world e))
                     (IKuaiPolicyDefaults (ap_conf a)) (ap_policyTbl a) of
                (None, tbl) \<Rightarrow> Fatal PolicyFailed
              | (Some policies, tbl) \<Rightarrow>
                  if sw_flt w HasEventTable then Fatal SchemaFailed
                  else (let a' = sized_app policies tbl a
                        in Started (snd (apply_listeners e (sw_flt w LoadCertificate) (ap_conf a') (server_of a' p))))))"

definition start :: "start_world \<Rightarrow> persisted \<Rightarrow> outcome" where
  "start w p =
     (case loadBootstrap (sw_getenv w) of
        None \<Rightarrow> Fatal BadBootstrap
      | Some boot \<Rightarrow>
          if sw_flt w DataDirCheck then Fatal DataDirNotWritable
          else (case Open (sw_urls w) (sw_net w)
                        \<lparr>op_DSN = b_DBDSN boot, op_DataDir = b_DataDir boot, op_MaxOpenConns = b_DBMaxOpenConns boot,
                         op_SlowQueryThreshold = 0, op_Debug = False\<rparr> of
              Inl err \<Rightarrow> Fatal (OpenFailed err)
            | Inr db \<Rightarrow>
                if sw_flt w MigrateTables then Fatal MigrateFailed
                else (case importLegacyState ((sw_import w)\<lparr>im_store := boot_store w boot\<rparr>)
                              (makeDataPaths (sw_paths w (b_DataDir boot))) (pd_import p) of
                    (Some err, s) \<Rightarrow> Fatal (ImportFailed err)
                  | (None, s) \<Rightarrow>
                      if sw_flt w HasCodeTables then Fatal SchemaFailed
                      else start_app w boot (p\<lparr>pd_import := s\<rparr>))))"

section \<open>Properties\<close>

text \<open>The tables of a database the portal has written.\<close>

definition wf_persisted :: "persisted \<Rightarrow> bool" where
  "wf_persisted p \<longleftrightarrow> idb_settings (pd_import p) \<noteq> [] \<and> wf_gc (idb_codes (pd_import p)) \<and> wf_macs (idb_macs (pd_import p)) \<and>
     wf_policies (idb_policies (pd_import p)) \<and> unique_by bh_ip (idb_history (pd_import p)) \<and>
     wf_events (idb_events (pd_import p)) \<and> wf_bans (pd_bans p)"

lemma start_app_load_error:
  "LoadAll (sw_flt w LoadSettings) (boot_store w boot) (idb_settings (pd_import p)) = Inl err \<Longrightarrow> start_app w boot p = Panic"
  by (simp add: start_app_def reloadRuntime_def boot_env_def Let_def)

lemma start_existing:
  assumes "start w p = Started s \<or> start w p = Panic" "idb_settings (pd_import p) \<noteq> []"
  obtains boot where "loadBootstrap (sw_getenv w) = Some boot" "start w p = start_app w boot p"
  using assms import_stops [OF assms(2)]
  by (cases "loadBootstrap (sw_getenv w)")
     (auto simp: start_def importLegacyState_def IsEmpty_def split: if_splits sum.splits option.splits prod.splits)

lemma newIKuaiPolicyStore_wf:
  "newIKuaiPolicyStore fs fl now d tbl = (Some policies, tbl') \<Longrightarrow> wf_policies tbl \<Longrightarrow> wf_policies tbl'"
  using wf_seedMissing [of tbl fs now d] by (auto simp: newIKuaiPolicyStore_def split: prod.splits if_splits)

lemma sized_app_wf:
  "wf_app (a\<lparr>ap_policyTbl := tbl\<rparr>) \<Longrightarrow> wf_app (sized_app policies tbl a)"
  by (simp add: sized_app_def wf_app_def wf_limiter_def wf_newFailCounter wf_newProceedTokenStore)

lemma install_keeps_wf: "wf_app (install d cfg a) \<longleftrightarrow> wf_app a"
  by (simp add: install_def wf_app_def)

lemma fresh_app_wf: "wf_persisted p \<Longrightarrow> wf_app (fresh_app w p)"
  by (simp add: fresh_app_def wf_app_def wf_limiter_def wf_newFailCounter wf_newProceedTokenStore wf_newUsedStateSet wf_persisted_def)

lemma start_app_Started:
  assumes "start_app w boot p = Started s" "wf_persisted p"
  obtains v where "LoadAll False (boot_store w boot) (idb_settings (pd_import p)) = Inr v"
    "conf s = runtime_Config (en_hostname (sw_env w)) boot v" "wf_app (sv_app s)"
    "sv_settings s = idb_settings (pd_import p)" "ap_codes (sv_app s) = idb_codes (pd_import p)"
    "ap_denylist (sv_app s) = idb_macs (pd_import p)" "ap_events (sv_app s) = idb_events (pd_import p)"
    "ap_proceed (sv_app s) = newProceedTokenStore (AuthProceedTTL (conf s))"
proof -
  obtain v where v: "LoadAll (sw_flt w LoadSettings) (boot_store w boot) (idb_settings (pd_import p)) = Inr v"
    using assms(1) start_app_load_error by (cases "LoadAll (sw_flt w LoadSettings) (boot_store w boot) (idb_settings (pd_import p))") auto
  then have load: "LoadAll False (boot_store w boot) (idb_settings (pd_import p)) = Inr v"
    by (auto simp: LoadAll_def split: if_splits)
  let ?cfg = "runtime_Config (en_hostname (sw_env w)) boot v"
  let ?a = "install (en_discover (sw_env w)) ?cfg (fresh_app w p)"
  obtain policies tbl f cfg where pol: "newIKuaiPolicyStore (sw_flt w SeedPolicies) (sw_flt w LoadPolicies) (w_now (en_world (sw_env w)))
        (IKuaiPolicyDefaults ?cfg) (idb_policies (pd_import p)) = (Some policies, tbl)"
    and s: "s = snd (apply_listeners (boot_env w boot) f cfg (server_of (sized_app policies tbl ?a) p))"
    using assms(1)
    by (auto simp: start_app_def reloadRuntime_def boot_env_def v Let_def install_def fresh_app_def
        split: option.splits reload_error.splits prod.splits if_splits)
  have "wf_policies tbl"
    using newIKuaiPolicyStore_wf [OF pol] assms(2) by (simp add: wf_persisted_def)
  moreover have "wf_app ?a" using fresh_app_wf [OF assms(2)] by (simp add: install_keeps_wf)
  ultimately have "wf_app (?a\<lparr>ap_policyTbl := tbl\<rparr>)" by (simp add: wf_app_def)
  then have "wf_app (sv_app s)" using sized_app_wf by (simp add: s server_of_def)
  then show thesis
    by (intro that [OF load]) (simp_all add: s server_of_def conf_def sized_app_def install_def fresh_app_def)
qed

text \<open>C31: What a started portal is.  A portal that starts on a database it has written runs the
  configuration of the stored settings over the bootstrap variables, with a session key of at least 32
  bytes and an encryption key that is absent or at least 32 characters; it has the codes, the denylist and
  the events of the database, and satisfies the invariant of the whole state that every request keeps.\<close>

theorem started_ok:
  assumes "start w p = Started s" "wf_persisted p"
  shows "\<exists>boot v. loadBootstrap (sw_getenv w) = Some boot \<and>
    LoadAll False (boot_store w boot) (idb_settings (pd_import p)) = Inr v \<and>
    conf s = runtime_Config (en_hostname (sw_env w)) boot v \<and>
    32 \<le> length (b_SessionSecret boot) \<and> (b_EncryptionKey boot = [] \<or> 32 \<le> length (b_EncryptionKey boot)) \<and>
    ap_codes (sv_app s) = idb_codes (pd_import p) \<and> ap_denylist (sv_app s) = idb_macs (pd_import p) \<and>
    ap_events (sv_app s) = idb_events (pd_import p) \<and> wf_app (console_run evs (sv_app s))"
proof -
  have "idb_settings (pd_import p) \<noteq> []" using assms(2) by (simp add: wf_persisted_def)
  with start_existing assms(1) obtain boot where boot: "loadBootstrap (sw_getenv w) = Some boot" "start_app w boot p = Started s"
    by metis
  then have "32 \<le> length (b_SessionSecret boot)" "b_EncryptionKey boot = [] \<or> 32 \<le> length (b_EncryptionKey boot)"
    by (auto simp: loadBootstrap_def Let_def split: option.splits if_splits)
  moreover obtain v where "LoadAll False (boot_store w boot) (idb_settings (pd_import p)) = Inr v"
    "conf s = runtime_Config (en_hostname (sw_env w)) boot v" "wf_app (sv_app s)"
    "ap_codes (sv_app s) = idb_codes (pd_import p)"
    "ap_denylist (sv_app s) = idb_macs (pd_import p)" "ap_events (sv_app s) = idb_events (pd_import p)"
    by (rule start_app_Started [OF boot(2) assms(2)])
  moreover from this(3) have "wf_app (console_run evs (sv_app s))" by (rule wf_console_run)
  ultimately show ?thesis using boot(1) by blast
qed

text \<open>A portal with one plain setting.\<close>

definition demo_getenv :: "string \<Rightarrow> string" where
  "demo_getenv k =
     (if k = ''SESSION_SECRET'' then ''00112233445566778899aabbccddeeff00112233445566778899aabbccddeeff'' else [])"

definition demo_start :: start_world where
  "demo_start =
     \<lparr>sw_getenv = demo_getenv, sw_urls = demo_url_lib, sw_net = \<lparr>dn_connect = (\<lambda>_ _. None), dn_ping = (\<lambda>_ _. None)\<rparr>,
      sw_flt = (\<lambda>_. False), sw_import = demo_import (\<lambda>_. False), sw_paths = (\<lambda>dir name. dir @ ''/'' @ name),
      sw_env = demo_env second\<rparr>"

definition demo_persisted :: "settingRow \<Rightarrow> persisted" where
  "demo_persisted row =
     \<lparr>pd_import = demo_import_db\<lparr>idb_settings := [row]\<rparr>, pd_bans = [], pd_certs = []\<rparr>"

definition demo_boot_config :: BootstrapConfig where
  "demo_boot_config =
     \<lparr>b_ListenAddr = ''127.0.0.1:28080'',
      b_SessionSecret = the (hex_decode ''00112233445566778899aabbccddeeff00112233445566778899aabbccddeeff''),
      b_EncryptionKey = [], b_DataDir = ''/data'', b_DBDSN = [], b_DBMaxOpenConns = 0, b_TrustProxy = True\<rparr>"

lemma demo_bootstrap: "loadBootstrap (sw_getenv demo_start) = Some demo_boot_config"
proof -
  have "map_option length (hex_decode ''00112233445566778899aabbccddeeff00112233445566778899aabbccddeeff'') = Some 32"
    by code_simp
  then show ?thesis
    by (auto simp: loadBootstrap_def demo_start_def demo_getenv_def mustEnv_def envOr_def envOrInt_def envOrBool_def
        demo_boot_config_def Let_def)
qed

lemma demo_boot_store: "so_keys (boot_store demo_start demo_boot_config) = None" "so_secrets (boot_store demo_start demo_boot_config) = isSecretSetting"
  by (simp_all add: boot_store_def demo_boot_config_def NewKeyring_def)

lemma demo_database:
  "\<exists>db. Open (sw_urls demo_start) (sw_net demo_start)
     \<lparr>op_DSN = b_DBDSN demo_boot_config, op_DataDir = b_DataDir demo_boot_config, op_MaxOpenConns = b_DBMaxOpenConns demo_boot_config,
      op_SlowQueryThreshold = 0, op_Debug = False\<rparr> = Inr db"
  by (simp add: Open_def database_dsn_def detectDriver_def demo_start_def demo_boot_config_def Let_def)

lemma demo_start_world: "\<forall>st. \<not> sw_flt demo_start st" "\<not> im_flt (sw_import demo_start) CountSettings"
  by (simp_all add: demo_start_def demo_import_simps)

lemma demo_persisted_wf: "wf_persisted (demo_persisted row)"
  by (simp add: wf_persisted_def demo_persisted_def demo_import_db_def wf_gc_def fresh_codes_def wf_macs_def wf_policies_def
      wf_events_def)

lemma demo_started: "\<exists>s. start demo_start (demo_persisted (demo_setting secBrand ''name'' ''X'')) = Started s"
proof -
  let ?p = "demo_persisted (demo_setting secBrand ''name'' ''X'')"
  have "\<not> isSecretSetting secBrand ''name''" by code_simp
  then obtain v where v: "LoadAll False (boot_store demo_start demo_boot_config) (idb_settings (pd_import ?p)) = Inr v"
    by (auto simp: LoadAll_def row_value_def demo_boot_store demo_persisted_def demo_setting_def)
  have "\<exists>s. start_app demo_start demo_boot_config ?p = Started s"
    using v demo_start_world(1)
    by (auto simp: start_app_def reloadRuntime_def boot_env_def newIKuaiPolicyStore_def seedMissing_def Refresh_def Let_def
        first_error_def sso_error_def split: option.split reload_error.split prod.split)
  moreover have "idb_settings (pd_import ?p) \<noteq> []" by (simp add: demo_persisted_def)
  ultimately show ?thesis
    using demo_database demo_start_world by (auto simp: start_def demo_bootstrap importLegacyState_def IsEmpty_def demo_persisted_def)
qed

theorem started_ok_witness:
  "\<exists>s. start demo_start (demo_persisted (demo_setting secBrand ''name'' ''X'')) = Started s \<and> wf_app (console_run [] (sv_app s))"
proof -
  obtain s where s: "start demo_start (demo_persisted (demo_setting secBrand ''name'' ''X'')) = Started s" using demo_started by blast
  from started_ok [OF s demo_persisted_wf, of "[]"] s show ?thesis by blast
qed

text \<open>C32: A lost key keeps the portal from starting.  When a stored credential cannot be decrypted with the
  bootstrap key, because the key was changed or is no longer set, the start ends in a panic: the first
  reload installs nothing, and the configuration is read through a nil pointer; the comment at the call
  says that a failed reload is not fatal and that the portal comes up degraded.\<close>

theorem lost_key_panics:
  assumes "loadBootstrap (sw_getenv w) = Some boot" "\<forall>st. \<not> sw_flt w st" "\<not> im_flt (sw_import w) CountSettings"
    and "Open (sw_urls w) (sw_net w)
           \<lparr>op_DSN = b_DBDSN boot, op_DataDir = b_DataDir boot, op_MaxOpenConns = b_DBMaxOpenConns boot,
            op_SlowQueryThreshold = 0, op_Debug = False\<rparr> = Inr db"
    and "r0 \<in> set (idb_settings (pd_import p))" "\<not> readable (boot_store w boot) r0"
  shows "start w p = Panic"
proof -
  obtain err where "LoadAll (sw_flt w LoadSettings) (boot_store w boot) (idb_settings (pd_import p)) = Inl err"
    using LoadAll_unreadable [OF assms(5,6)] by blast
  then have "start_app w boot p = Panic" by (rule start_app_load_error)
  moreover have "idb_settings (pd_import p) \<noteq> []" using assms(5) by auto
  ultimately show ?thesis
    using assms(1-4) by (simp add: start_def importLegacyState_def IsEmpty_def)
qed

theorem lost_key_panics_witness:
  "start demo_start (demo_persisted (demo_setting secOIDC ''client_secret'' ''enc:v1:AAAA'')) = Panic"
proof -
  let ?row = "demo_setting secOIDC ''client_secret'' ''enc:v1:AAAA''"
  obtain db where db: "Open (sw_urls demo_start) (sw_net demo_start)
     \<lparr>op_DSN = b_DBDSN demo_boot_config, op_DataDir = b_DataDir demo_boot_config, op_MaxOpenConns = b_DBMaxOpenConns demo_boot_config,
      op_SlowQueryThreshold = 0, op_Debug = False\<rparr> = Inr db"
    using demo_database by blast
  have "isSecretSetting secOIDC ''client_secret''" by code_simp
  then have "\<not> readable (boot_store demo_start demo_boot_config) ?row"
    by (simp add: readable_def row_value_def demo_setting_def demo_boot_store Decrypt_def has_prefix_def Prefix_def)
  moreover have "?row \<in> set (idb_settings (pd_import (demo_persisted ?row)))" by (simp add: demo_persisted_def)
  ultimately show ?thesis
    using lost_key_panics [OF demo_bootstrap demo_start_world db] by blast
qed

end
