(* ===== verification/ServerApi.thy ===== *)
theory ServerApi
  imports Listeners AdminRun
begin

text \<open>
  \<open>portal/admin_settings.go\<close> and \<open>portal/admin_tls.go\<close>: the console's handlers for the settings, the
  certificate and the listeners.  The decoded JSON body is a parameter, \<open>None\<close> when it does not decode or
  is too large; the keys of a decoded object are distinct.  A handler gives its reply and the next state.
\<close>

type_synonym server_response = "reply \<times> server"

definition server_error :: "int \<Rightarrow> string \<Rightarrow> server \<Rightarrow> server_response" where
  "server_error status err s = (reply_error status err, s)"

definition with_admin :: "env \<Rightarrow> request \<Rightarrow> server \<Rightarrow> (AdminSession \<Rightarrow> server_response) \<Rightarrow> server_response" where
  "with_admin e r s k =
     (case requireAdmin (en_world e) True r (sv_app s) of Inl rep \<Rightarrow> (rep, s) | Inr admin \<Rightarrow> k admin)"

definition audit_server :: "env \<Rightarrow> request \<Rightarrow> string \<Rightarrow> string \<Rightarrow> string \<Rightarrow> server \<Rightarrow> server" where
  "audit_server e r upn result detail s =
     log_server e upn (req_ip (en_world e) (sv_app s) r) result detail s"

definition trim_slashes :: "string \<Rightarrow> string" where
  "trim_slashes s = trim_right (\<lambda>c. c = CHR ''/'') (trim_left (\<lambda>c. c = CHR ''/'') s)"


section \<open>Settings\<close>

text \<open>An object with its keys in order, as maps are encoded.\<close>

definition obj_of :: "('a \<Rightarrow> rval) \<Rightarrow> (string \<times> 'a) list \<Rightarrow> rval" where
  "obj_of f kvs = RObj (map (\<lambda>(k, v). (k, f v)) (sort_key fst kvs))"

definition settingKeyInfo :: "settingDef \<Rightarrow> rval" where
  "settingKeyInfo d = RObj ([(''key'', RStr (sd_key d)), (''secret'', RBool (sd_secret d)),
      (''default'', RStr (sd_default d))] @ (if sd_env d \<noteq> [] then [(''legacyEnv'', RStr (sd_env d))] else []))"

definition settingProblem :: "ConfigProblem \<Rightarrow> rval" where
  "settingProblem p = RObj ([(''section'', RStr (cp_section p))] @
     (if cp_key p \<noteq> [] then [(''key'', RStr (cp_key p))] else []) @
     [(''message'', RStr (cp_message p)), (''fatal'', RBool (cp_fatal p))])"

definition toSettingProblems :: "ConfigProblem list \<Rightarrow> rval" where
  "toSettingProblems ps = RArr (map settingProblem ps)"

definition section_infos :: "string \<Rightarrow> rval" where
  "section_infos sec = RArr (map settingKeyInfo (sectionKeys sec))"

definition writeSettingsIndex :: reply where
  "writeSettingsIndex = ReplyJSON 200 [(''sections'',
     RArr (map (\<lambda>sec. RObj [(''section'', RStr sec), (''keys'', section_infos sec)]) knownSections))]"

text \<open>The stored values with the default of every key without a row.\<close>

definition fill_defaults :: "string \<Rightarrow> Values \<Rightarrow> Values" where
  "fill_defaults sec stored =
     fold (\<lambda>d m. if map_of m (sd_key d) = None then AList.update (sd_key d) (sd_default d) m else m)
       (sectionKeys sec) stored"

definition getSettingsSection :: "env \<Rightarrow> string \<Rightarrow> server \<Rightarrow> server_response" where
  "getSettingsSection e sec s =
     (case LoadSection (en_flt e 0) (en_store e) sec (sv_settings s) of
        Inl err \<Rightarrow> server_error 500 ''load_failed'' s
      | Inr stored \<Rightarrow>
          (case Redact (en_store e) sec (fill_defaults sec stored) of
             (shown, present) \<Rightarrow>
               (ReplyJSON 200 [(''section'', RStr sec), (''fields'', obj_of RStr shown),
                  (''secretsPresent'', obj_of RBool present), (''keys'', section_infos sec),
                  (''problems'', toSettingProblems
                     (filter (\<lambda>p. cp_section p = sec) (validateRuntimeConfig (en_hostname e) (conf s))))], s)))"

definition known_fields :: "string \<Rightarrow> Values \<Rightarrow> Values" where
  "known_fields sec submitted = filter (\<lambda>kv. fst kv \<in> sd_key ` set (sectionKeys sec)) submitted"

text \<open>What a saved section answers: \<open>warning\<close> is the error of the reload, replaced by that of the listeners.\<close>

definition save_reply ::
  "env \<Rightarrow> string option \<Rightarrow> (bool \<times> time) \<Rightarrow> server \<Rightarrow> reply" where
  "save_reply e warning commit s =
     ReplyJSON 200 ([(''ok'', RBool True),
        (''problems'', toSettingProblems (validateRuntimeConfig (en_hostname e) (conf s)))] @
       (case warning of None \<Rightarrow> [] | Some m \<Rightarrow> [(''warning'', RStr m)]) @
       (if fst commit then [(''pendingCommit'', RBool True), (''commitDeadline'', RStr (en_fmt e (snd commit)))] else []))"

definition save_detail :: "string \<Rightarrow> Values \<Rightarrow> string" where
  "save_detail sec filtered =
     ''settings save section='' @ sec @ '' keys='' @ join '','' (sort (map fst filtered))"

definition saveSettingsSection ::
  "env \<Rightarrow> Values option \<Rightarrow> string \<Rightarrow> string \<Rightarrow> request \<Rightarrow> server \<Rightarrow> server_response" where
  "saveSettingsSection e body sec updatedBy r s =
     (case body of
        None \<Rightarrow> server_error 400 ''invalid_body'' s
      | Some submitted \<Rightarrow>
          (let filtered = known_fields sec submitted
           in if filtered = [] then server_error 400 ''no_known_fields'' s
              else (case LoadSection (en_flt e 0) (en_store e) sec (sv_settings s) of
                  Inl err \<Rightarrow> server_error 500 ''load_failed'' s
                | Inr stored \<Rightarrow>
                    (case Save (en_flt e 1) (en_store e) (en_nonce e) (w_now (en_world e)) sec
                            (ApplySecretUpdates (en_store e) sec stored filtered) updatedBy (sv_settings s) of
                       (Some err, tbl) \<Rightarrow> server_error 500 ''save_failed'' (s\<lparr>sv_settings := tbl\<rparr>)
                     | (None, tbl) \<Rightarrow>
                         (let s1 = audit_server e r updatedBy ResultSuccess (save_detail sec filtered)
                                (s\<lparr>sv_settings := tbl\<rparr>)
                          in case reload e (en_flt e 2) s1 of
                               (reloadErr, s2) \<Rightarrow>
                                 if sec = secTLS then
                                   (case applyListenerChange e (en_flt e 3) (conf s) stored updatedBy s2 of
                                      ((armed, deadline, err), s3) \<Rightarrow>
                                        (save_reply e (case err of Some m \<Rightarrow> Some m
                                             | None \<Rightarrow> map_option reload_text reloadErr) (armed, deadline) s3, s3))
                                 else (save_reply e (map_option reload_text reloadErr) (False, zero_time) s2, s2))))))"

definition handleAdminSettings :: "env \<Rightarrow> Values option \<Rightarrow> string \<Rightarrow> request \<Rightarrow> server \<Rightarrow> server_response" where
  "handleAdminSettings e body path r s = with_admin e r s (\<lambda>admin.
     (let sec = trim_slashes (trim_prefix path ''/admin/api/settings'')
      in if sec = [] then (writeSettingsIndex, s)
         else if sectionKeys sec = [] then server_error 404 ''unknown_section'' s
         else if rq_method r = ''GET'' then getSettingsSection e sec s
         else if rq_method r = ''POST'' then saveSettingsSection e body sec (a_UPN admin) r s
         else server_error 405 ''method_not_allowed'' s))"


section \<open>TLS\<close>

definition opt_field :: "string \<Rightarrow> ('a \<Rightarrow> rval) \<Rightarrow> 'a option \<Rightarrow> (string \<times> rval) list" where
  "opt_field k f v = (case v of None \<Rightarrow> [] | Some x \<Rightarrow> [(k, f x)])"

definition str_field :: "string \<Rightarrow> string \<Rightarrow> (string \<times> rval) list" where
  "str_field k v = (if v = [] then [] else [(k, RStr v)])"

definition status_rval :: "(time \<Rightarrow> string) \<Rightarrow> certificateStatus \<Rightarrow> rval" where
  "status_rval fmt st = RObj
     ([(''domain'', RStr (cs_domain st))] @ str_field ''source'' (cs_source st) @
      [(''present'', RBool (cs_present st))] @
      opt_field ''notBefore'' (\<lambda>t. RStr (fmt t)) (cs_notBefore st) @
      opt_field ''notAfter'' (\<lambda>t. RStr (fmt t)) (cs_notAfter st) @
      [(''daysLeft'', RInt (cs_daysLeft st))] @ str_field ''lastError'' (cs_lastError st) @
      opt_field ''lastAttempt'' (\<lambda>t. RStr (fmt t)) (cs_lastAttempt st) @
      str_field ''issuer'' (cs_issuer st) @
      (if cs_names st = [] then [] else [(''dnsNames'', RList (cs_names st))]))"

definition cert_status :: "env \<Rightarrow> nat \<Rightarrow> server \<Rightarrow> rval" where
  "cert_status e i s = status_rval (en_fmt e)
     (Status_cert (en_crypto e) (en_lib e) (en_flt e i) (w_now (en_world e)) (TLSDomain (conf s)) (sv_certs s))"

text \<open>The self-check of the page, when asked for.\<close>

definition reachable_fields :: "env \<Rightarrow> request \<Rightarrow> Config \<Rightarrow> (string \<times> rval) list" where
  "reachable_fields e r cfg =
     (if query r ''check'' = ''1'' then
        (case en_dial e (if TLSMode cfg = TLSModeProxy then ListenAddr cfg else TLSListenAddr cfg) of
           Some err \<Rightarrow> (''reachable'', RBool False) # str_field ''reachableError'' err
         | None \<Rightarrow> [(''reachable'', RBool True)])
      else [])"

text \<open>Whether the HTTP-01 challenge can reach the portal: not when the public host is private.\<close>

definition http01Viability :: "env \<Rightarrow> string \<Rightarrow> bool \<times> string" where
  "http01Viability e publicURL =
     (let host = hostFromURL (en_hostname e) publicURL
      in if host = [] then (False, ''no public URL is configured'')
         else (case en_resolve e host of
             Inl err \<Rightarrow> (False, host @ '' does not resolve: '' @ err)
           | Inr ips \<Rightarrow>
               (case find snd ips of
                  None \<Rightarrow> (True, [])
                | Some (ip, _) \<Rightarrow> (False, host @ '' resolves to '' @ ip @
                    '', which Let's Encrypt cannot reach. Upload a certificate obtained elsewhere, or use a DNS-01 capable tool and paste the result here.''))))"

definition writeTLSStatus :: "env \<Rightarrow> request \<Rightarrow> server \<Rightarrow> server_response" where
  "writeTLSStatus e r s =
     (let cfg = conf s;
          (pending, deadline) = commit_status (sv_commit s);
          (boundAddr, listening) = running s;
          (viable, note) = http01Viability e (PublicURL cfg)
      in (ReplyJSON 200
           ([(''mode'', RStr (TLSMode cfg)), (''domain'', RStr (TLSDomain cfg)),
             (''listenAddr'', RStr (TLSListenAddr cfg)), (''httpListen'', RStr (ListenAddr cfg)),
             (''redirectHttp'', RBool (TLSRedirectHTTP cfg)), (''acmeEnabled'', RBool (ACMEEnabled cfg)),
             (''acmeEmail'', RStr (ACMEEmail cfg)), (''acmeStaging'', RBool (ACMEStaging cfg)),
             (''publicUrl'', RStr (PublicURL cfg)), (''certificate'', cert_status e 0 s),
             (''listening'', RBool listening)] @ str_field ''listeningAddr'' boundAddr @
            [(''snippets'', RObj [(''caddy'', RStr (proxySnippet ''caddy'' (TLSDomain cfg) (ListenAddr cfg))),
               (''nginx'', RStr (proxySnippet ''nginx'' (TLSDomain cfg) (ListenAddr cfg)))]),
             (''pendingCommit'', RBool pending),
             (''commitDeadline'', RStr (en_fmt e (if pending then deadline else zero_time)))] @
            reachable_fields e r cfg @
            [(''http01Viable'', RBool viable)] @ str_field ''http01Note'' note), s))"

text \<open>Statements 0 to 2 are those of the issuance, 3 the record of a failure, 4 the load, 5 the status.\<close>

definition tlsIssue :: "env \<Rightarrow> request \<Rightarrow> string \<Rightarrow> server \<Rightarrow> server_response" where
  "tlsIssue e r upn s =
     (let cfg = conf s; domain = TLSDomain cfg
      in if domain = [] then server_error 400 ''no_domain'' s
         else if ACMEEmail cfg = [] then server_error 400 ''no_acme_email'' s
         else (let s1 = audit_server e r upn ResultStarted (''acme issue domain='' @ domain) s
               in case Issue (en_crypto e) (en_lib e) (en_lego e) (en_flt e) (w_now (en_world e))
                         \<lparr>ar_domain = domain, ar_email = ACMEEmail cfg, ar_staging = ACMEStaging cfg\<rparr> (sv_certs s1) of
                    (Some err, tbl) \<Rightarrow>
                      (ReplyJSON 200 [(''ok'', RBool False), (''error'', RStr err)],
                       audit_server e r upn ResultError (''acme issue failed: '' @ err)
                         (s1\<lparr>sv_certs := RecordFailure (en_flt e 3) (w_now (en_world e)) domain err tbl\<rparr>))
                  | (None, tbl) \<Rightarrow>
                      (let s2 = audit_server e r upn ResultSuccess (''acme issue succeeded domain='' @ domain)
                             (s1\<lparr>sv_certs := tbl,
                                sv_served := install_cert (en_crypto e) (en_lib e) (en_flt e 4) domain tbl (sv_served s1)\<rparr>)
                       in (ReplyJSON 200 [(''ok'', RBool True), (''certificate'', cert_status e 5 s2)], s2))))"

definition host_warning :: "tlslib \<Rightarrow> string \<Rightarrow> string \<Rightarrow> (string \<times> rval) list" where
  "host_warning lib cert domain =
     (case tl_leaf lib cert of
        Inl _ \<Rightarrow> []
      | Inr leaf \<Rightarrow>
          if tl_covers lib cert domain then []
          else [(''warning'', RStr (''the certificate does not cover '' @ domain @ '' (it lists '' @
                  join '', '' (lf_names leaf) @ '')''))])"

definition tlsUpload :: "env \<Rightarrow> (string \<times> string) option \<Rightarrow> request \<Rightarrow> string \<Rightarrow> server \<Rightarrow> server_response" where
  "tlsUpload e body r upn s =
     (case body of
        None \<Rightarrow> server_error 400 ''invalid_body'' s
      | Some (rawCert, rawKey) \<Rightarrow>
          (let domain = TLSDomain (conf s); cert = trim_space rawCert; key = trim_space rawKey
           in if domain = [] then server_error 400 ''no_domain'' s
              else if cert = [] \<or> key = [] then server_error 400 ''empty_pem'' s
              else (case Save_cert (en_crypto e) (en_lib e) (en_flt e 0) 0 (w_now (en_world e)) domain
                            CertSourceManual cert key (sv_certs s) of
                  (Some err, tbl) \<Rightarrow>
                    (ReplyJSON 400 [(''ok'', RBool False), (''error'', RStr err)], s\<lparr>sv_certs := tbl\<rparr>)
                | (None, tbl) \<Rightarrow>
                    (let s1 = audit_server e r upn ResultSuccess (''certificate uploaded domain='' @ domain)
                           (s\<lparr>sv_certs := tbl,
                              sv_served := install_cert (en_crypto e) (en_lib e) (en_flt e 1) domain tbl (sv_served s)\<rparr>)
                     in (ReplyJSON 200 ([(''ok'', RBool True), (''certificate'', cert_status e 2 s1)] @
                           host_warning (en_lib e) cert domain), s1)))))"

definition tlsConfirm :: "env \<Rightarrow> request \<Rightarrow> string \<Rightarrow> server \<Rightarrow> server_response" where
  "tlsConfirm e r upn s =
     (case commit_confirm (sv_commit s) of
        (True, l) \<Rightarrow> (ReplyJSON 200 [(''ok'', RBool True)],
           audit_server e r upn ResultSuccess ''listener change confirmed'' (s\<lparr>sv_commit := l\<rparr>))
      | (False, l) \<Rightarrow> (ReplyJSON 200 [(''ok'', RBool False), (''error'', RStr ''no_pending_change'')],
           s\<lparr>sv_commit := l\<rparr>))"

definition handleAdminTLS ::
  "env \<Rightarrow> (string \<times> string) option \<Rightarrow> string \<Rightarrow> request \<Rightarrow> server \<Rightarrow> server_response" where
  "handleAdminTLS e body path r s = with_admin e r s (\<lambda>admin.
     (let action = trim_slashes (trim_prefix path ''/admin/api/tls'')
      in if rq_method r = ''GET'' \<and> action = [] then writeTLSStatus e r s
         else if rq_method r = ''POST'' \<and> action = ''issue'' then tlsIssue e r (a_UPN admin) s
         else if rq_method r = ''POST'' \<and> action = ''upload'' then tlsUpload e body r (a_UPN admin) s
         else if rq_method r = ''POST'' \<and> action = ''confirm'' then tlsConfirm e r (a_UPN admin) s
         else server_error 404 ''unknown_action'' s))"



section \<open>Secrets stay inside\<close>

text \<open>Tables that differ at most in the values of secrets, set in both or in neither.\<close>

definition hidden_eq :: "store \<Rightarrow> settingRow \<Rightarrow> settingRow \<Rightarrow> bool" where
  "hidden_eq st r r' \<longleftrightarrow> setting_pk r = setting_pk r' \<and>
     (if so_secrets st (sr_section r) (sr_key r)
      then readable st r \<and> readable st r' \<and> (row_plain st r = [] \<longleftrightarrow> row_plain st r' = [])
      else sr_value r = sr_value r')"

definition value_eq :: "store \<Rightarrow> string \<Rightarrow> string \<times> string \<Rightarrow> string \<times> string \<Rightarrow> bool" where
  "value_eq st sec kv kv' \<longleftrightarrow> fst kv = fst kv' \<and>
     (if so_secrets st sec (fst kv) then (snd kv = [] \<longleftrightarrow> snd kv' = []) else snd kv = snd kv')"

lemma update_value_eq:
  "list_all2 (value_eq st sec) m m' \<Longrightarrow> value_eq st sec (k, v) (k, v') \<Longrightarrow>
     list_all2 (value_eq st sec) (AList.update k v m) (AList.update k v' m')"
proof (induction m arbitrary: m')
  case (Cons e m)
  then obtain e' rest where m': "m' = e' # rest" "value_eq st sec e e'" "list_all2 (value_eq st sec) m rest"
    by (auto simp: list_all2_Cons1)
  with Cons show ?case by (cases e; cases e') (auto simp: value_eq_def)
qed simp

lemma load_value_eq:
  assumes "list_all2 (hidden_eq st) rs rs'" "\<forall>r\<in>set rs. sr_section r = sec"
    and "list_all2 (value_eq st sec) out out'"
  shows "rel_sum (=) (list_all2 (value_eq st sec)) (load_rows st sr_key rs out) (load_rows st sr_key rs' out')"
  using assms
proof (induction rs arbitrary: rs' out out')
  case Nil
  then show ?case by simp
next
  case (Cons r rs)
  then obtain r' rest where rs': "rs' = r' # rest" "hidden_eq st r r'" "list_all2 (hidden_eq st) rs rest"
    by (auto simp: list_all2_Cons1)
  have key: "sr_key r' = sr_key r" "sr_section r' = sec" "sr_section r = sec"
    using rs'(2) Cons.prems(2) by (auto simp: hidden_eq_def setting_pk_def)
  have "\<exists>v v'. row_value st r = Inr v \<and> row_value st r' = Inr v' \<and> value_eq st sec (sr_key r, v) (sr_key r, v')"
    using rs'(2) key by (auto simp: hidden_eq_def value_eq_def row_value_def readable_def row_plain_def split: if_splits)
  then obtain v v' where v: "row_value st r = Inr v" "row_value st r' = Inr v'"
    "value_eq st sec (sr_key r, v) (sr_key r, v')" by blast
  from Cons.IH [OF rs'(3) _ update_value_eq [OF Cons.prems(3) v(3)]] Cons.prems(2)
  show ?case by (simp add: rs'(1) v(1,2) key(1))
qed

lemma fill_value_eq:
  "list_all2 (value_eq st sec) m m' \<Longrightarrow> list_all2 (value_eq st sec) (fill_defaults sec m) (fill_defaults sec m')"
proof -
  have same: "map_of m k = None \<longleftrightarrow> map_of m' k = None" if "list_all2 (value_eq st sec) m m'" for m m' k
    using that by (induction rule: list_all2_induct) (auto simp: value_eq_def split: prod.splits if_splits)
  have "list_all2 (value_eq st sec)
      (fold (\<lambda>d m. if map_of m (sd_key d) = None then AList.update (sd_key d) (sd_default d) m else m) ds m)
      (fold (\<lambda>d m. if map_of m (sd_key d) = None then AList.update (sd_key d) (sd_default d) m else m) ds m')"
    if "list_all2 (value_eq st sec) m m'" for ds
    using that
  proof (induction ds arbitrary: m m')
    case (Cons d ds)
    have "value_eq st sec (sd_key d, sd_default d) (sd_key d, sd_default d)" by (simp add: value_eq_def)
    from update_value_eq [OF Cons.prems this] show ?case
      using Cons same [OF Cons.prems] by simp
  qed simp
  then show "list_all2 (value_eq st sec) m m' \<Longrightarrow> list_all2 (value_eq st sec) (fill_defaults sec m) (fill_defaults sec m')"
    by (simp add: fill_defaults_def)
qed

lemma Redact_value_eq:
  "list_all2 (value_eq st sec) m m' \<Longrightarrow> Redact st sec m = Redact st sec m'"
  by (induction rule: list_all2_induct) (auto simp: Redact_def value_eq_def prod_eq_iff)

lemma section_value_eq:
  assumes "list_all2 (hidden_eq st) tbl tbl'"
  shows "rel_sum (=) (list_all2 (value_eq st sec)) (LoadSection flt st sec tbl) (LoadSection flt st sec tbl')"
proof -
  have "list_all2 (hidden_eq st) (filter (\<lambda>r. sr_section r = sec) tbl) (filter (\<lambda>r. sr_section r = sec) tbl')"
    using assms by (induction rule: list_all2_induct) (auto simp: hidden_eq_def setting_pk_def)
  from load_value_eq [OF this, of sec "[]" "[]"] show ?thesis by (simp add: LoadSection_def)
qed

lemma get_section_hides:
  assumes "list_all2 (hidden_eq (en_store e)) (sv_settings s) (sv_settings s')" "conf s = conf s'"
  shows "fst (getSettingsSection e sec s) = fst (getSettingsSection e sec s')"
proof -
  let ?load = "\<lambda>s. LoadSection (en_flt e 0) (en_store e) sec (sv_settings s)"
  have rel: "rel_sum (=) (list_all2 (value_eq (en_store e) sec)) (?load s) (?load s')"
    by (rule section_value_eq [OF assms(1)])
  show ?thesis
  proof (cases "?load s")
    case (Inl err)
    with rel show ?thesis by (cases "?load s'") (auto simp: getSettingsSection_def server_error_def)
  next
    case (Inr m)
    with rel obtain m' where m': "?load s' = Inr m'" "list_all2 (value_eq (en_store e) sec) m m'"
      by (cases "?load s'") auto
    with Redact_value_eq [OF fill_value_eq [OF m'(2)]] Inr assms(2) show ?thesis
      by (simp add: getSettingsSection_def case_prod_beta)
  qed
qed


section \<open>What a save does\<close>

lemma audit_server_keeps [simp]:
  "sv_settings (audit_server e r u re d s) = sv_settings s" "sv_commit (audit_server e r u re d s) = sv_commit s"
  "sv_certs (audit_server e r u re d s) = sv_certs s" "conf (audit_server e r u re d s) = conf s"
  by (simp_all add: audit_server_def)

lemma change_keeps [simp]:
  "sv_settings (snd (applyListenerChange e f p ps u s)) = sv_settings s"
  "sv_app (snd (applyListenerChange e f p ps u s)) = sv_app s"
  by (simp_all add: applyListenerChange_def case_prod_beta commit_begin_def Let_def)

lemma change_conf [simp]: "conf (snd (applyListenerChange e f p ps u s)) = conf s"
  by (simp add: conf_def)

definition merged_fields :: "env \<Rightarrow> string \<Rightarrow> Values \<Rightarrow> Values \<Rightarrow> Values" where
  "merged_fields e sec old submitted = ApplySecretUpdates (en_store e) sec old (known_fields sec submitted)"

lemma save_ok:
  assumes "saveSettingsSection e body sec by r s = (ReplyJSON 200 kvs, s')"
  obtains submitted old s1 where "body = Some submitted"
    "LoadSection (en_flt e 0) (en_store e) sec (sv_settings s) = Inr old"
    "Save (en_flt e 1) (en_store e) (en_nonce e) (w_now (en_world e)) sec (merged_fields e sec old submitted) by
       (sv_settings s) = (None, sv_settings s')"
    "s1 = audit_server e r by ResultSuccess (save_detail sec (known_fields sec submitted)) (s\<lparr>sv_settings := sv_settings s'\<rparr>)"
    "sv_app s' = sv_app (snd (reload e (en_flt e 2) s1))"
proof -
  obtain submitted where body: "body = Some submitted"
    using assms by (cases body) (auto simp: saveSettingsSection_def server_error_def reply_error_def)
  have some: "known_fields sec submitted \<noteq> []"
    using assms by (auto simp: saveSettingsSection_def body server_error_def reply_error_def)
  obtain old where old: "LoadSection (en_flt e 0) (en_store e) sec (sv_settings s) = Inr old"
    using assms some
    by (cases "LoadSection (en_flt e 0) (en_store e) sec (sv_settings s)")
       (auto simp: saveSettingsSection_def body server_error_def reply_error_def)
  let ?save = "Save (en_flt e 1) (en_store e) (en_nonce e) (w_now (en_world e)) sec (merged_fields e sec old submitted) by
       (sv_settings s)"
  obtain tbl where save: "?save = (None, tbl)"
    using assms some old
    by (cases ?save; cases "fst ?save")
       (auto simp: saveSettingsSection_def body merged_fields_def server_error_def reply_error_def)
  let ?s1 = "audit_server e r by ResultSuccess (save_detail sec (known_fields sec submitted)) (s\<lparr>sv_settings := tbl\<rparr>)"
  obtain err s2 where s2: "reload e (en_flt e 2) ?s1 = (err, s2)" by fastforce
  have "s' = s2 \<or> (\<exists>f p ps u. s' = snd (applyListenerChange e f p ps u s2))"
    using assms some old save s2
    by (auto simp: saveSettingsSection_def body merged_fields_def case_prod_beta Let_def split: if_splits)
  moreover have "sv_settings s2 = tbl" using reload_keeps(1) [of e "en_flt e 2" ?s1] s2 by simp
  ultimately have "sv_settings s' = tbl" "sv_app s' = sv_app s2" by auto
  with body old save s2 show thesis by (intro that) auto
qed

lemma merged_storable:
  assumes "\<forall>k v. map_of old k = Some v \<longrightarrow> \<not> has_prefix v Prefix"
    and "\<forall>k v. (k, v) \<in> set submitted \<longrightarrow> \<not> has_prefix v Prefix"
  shows "storable (en_store e) sec (merged_fields e sec old submitted)"
  using assms
  by (auto simp: storable_def merged_fields_def ApplySecretUpdates_def known_fields_def split: option.splits)

lemma merged_keys: "map fst (merged_fields e sec old submitted) = map fst (known_fields sec submitted)"
  by (simp add: merged_fields_def ApplySecretUpdates_def comp_def)

lemma merged_lookup:
  "map_of (merged_fields e sec old submitted) k =
     (case map_of (known_fields sec submitted) k of
        None \<Rightarrow> None
      | Some v \<Rightarrow> Some (if so_secrets (en_store e) sec k \<and> trim_space v = []
          then (case map_of old k of Some prev \<Rightarrow> prev | None \<Rightarrow> v) else v))"
proof -
  have "map_of (map (\<lambda>e. (fst e, f (fst e) (snd e))) kvs) k = map_option (f k) (map_of kvs k)"
    for f :: "string \<Rightarrow> string \<Rightarrow> string" and kvs
    by (induction kvs) auto
  from this [of "\<lambda>k v. if so_secrets (en_store e) sec k \<and> trim_space v = []
          then (case map_of old k of Some prev \<Rightarrow> prev | None \<Rightarrow> v) else v"]
  show ?thesis by (simp add: merged_fields_def ApplySecretUpdates_def split: option.split)
qed

lemma known_lookup:
  "map_of (known_fields sec submitted) k =
     (if k \<in> sd_key ` set (sectionKeys sec) then map_of submitted k else None)"
  by (induction submitted) (auto simp: known_fields_def)

text \<open>A request that is answered with success came from an administrator.\<close>

lemma with_admin_ok:
  "with_admin e r s k = (ReplyJSON 200 kvs, s') \<Longrightarrow>
     \<exists>admin. requireAdmin (en_world e) True r (sv_app s) = Inr admin \<and> k admin = (ReplyJSON 200 kvs, s')"
  by (auto simp: with_admin_def requireAdmin_def reply_error_def split: sum.splits if_splits)

text \<open>Without an administrator nothing changes.\<close>

lemma server_guarded:
  assumes "handleAdminSettings e body path r s = (rep, s') \<or> handleAdminTLS e pem path r s = (rep, s')" "s' \<noteq> s"
  shows "\<exists>admin. requireAdmin (en_world e) True r (sv_app s) = Inr admin"
  using assms by (auto simp: handleAdminSettings_def handleAdminTLS_def with_admin_def split: sum.splits)


lemma audit_server_rows:
  "et_rows (ap_events (sv_app (audit_server e r upn ResultSuccess d s))) =
     et_rows (ap_events (sv_app s)) @ (if w_flt_event (en_world e) then []
       else [admin_entry (et_next (ap_events (sv_app s))) (w_now (en_world e)) upn (req_ip (en_world e) (sv_app s) r) d])"
  by (simp add: audit_server_def log_server_def log_admin_def logAdminAction_def Append_def admin_entry_def is_zero_def)

lemma reload_events [simp]: "ap_events (sv_app (snd (reload e flt s))) = ap_events (sv_app s)"
  by (simp add: reload_def reloadRuntime_def case_prod_beta Let_def split: sum.split)

section \<open>Properties\<close>

text \<open>C15: Credentials do not leave the server.  For two portals whose settings tables differ at most in the
  values of secrets, each set in both or in neither, and that run the same configuration, every GET of
  the settings API gives the same reply: no client can tell the stored credentials apart.\<close>

theorem settings_secrets_hidden:
  assumes "list_all2 (hidden_eq (en_store e)) (sv_settings s) (sv_settings s')" "sv_app s = sv_app s'"
    and "rq_method r = ''GET''"
  shows "fst (handleAdminSettings e body path r s) = fst (handleAdminSettings e body path r s')"
proof -
  have "conf s = conf s'" using assms(2) by (simp add: conf_def)
  from get_section_hides [OF assms(1) this] assms(2,3) show ?thesis
    by (simp add: handleAdminSettings_def with_admin_def server_error_def Let_def split: sum.split)
qed

definition demo_secret_row :: "string \<Rightarrow> settingRow" where
  "demo_secret_row v = demo_setting secOIDC ''client_secret'' v"

definition demo_get :: request where "demo_get = demo_admin_req ''GET'' []"

theorem settings_secrets_hidden_witness:
  "fst (handleAdminSettings (demo_env second) None ''/admin/api/settings/oidc'' demo_get
       ((demo_server demo_Config)\<lparr>sv_settings := [demo_secret_row ''hunter2'']\<rparr>)) =
   fst (handleAdminSettings (demo_env second) None ''/admin/api/settings/oidc'' demo_get
       ((demo_server demo_Config)\<lparr>sv_settings := [demo_secret_row ''other'']\<rparr>))"
proof -
  have plain: "Decrypt (so_aead st) (so_keys st) ''hunter2'' = Inr ''hunter2''"
    "Decrypt (so_aead st) (so_keys st) ''other'' = Inr ''other''" for st
    by (simp_all add: Decrypt_def has_prefix_def Prefix_def)
  have "isSecretSetting secOIDC ''client_secret''" by code_simp
  then have "hidden_eq (en_store (demo_env second)) (demo_secret_row ''hunter2'') (demo_secret_row ''other'')"
    using plain [of "en_store (demo_env second)"]
    by (simp add: hidden_eq_def demo_secret_row_def demo_setting_def setting_pk_def readable_def row_plain_def row_value_def)
  then show ?thesis
    by (intro settings_secrets_hidden) (simp_all add: demo_get_def demo_admin_req_def)
qed

text \<open>The value of a key after a save.\<close>

definition saved_value :: "env \<Rightarrow> string \<Rightarrow> Values \<Rightarrow> Values \<Rightarrow> string \<Rightarrow> string option" where
  "saved_value e sec old submitted k =
     (case (if k \<in> sd_key ` set (sectionKeys sec) then map_of submitted k else None) of
        None \<Rightarrow> map_of old k
      | Some v \<Rightarrow> Some (if so_secrets (en_store e) sec k \<and> trim_space v = []
          then (case map_of old k of Some prev \<Rightarrow> prev | None \<Rightarrow> v) else v))"

lemma Save_works: "Save flt st rnd now sec kvs author tbl = (None, tbl') \<Longrightarrow> Save False st rnd now sec kvs author tbl = (None, tbl')"
  by (auto simp: Save_def Let_def split: sum.splits if_splits)

lemma saved_table:
  assumes "Save False (en_store e) (en_nonce e) now sec (merged_fields e sec old submitted) author tbl = (None, tbl')"
    and "distinct (map fst submitted)" "unique_by setting_pk tbl"
    and "LoadSection False (en_store e) sec tbl = Inr old"
    and "aead_ok (so_aead (en_store e))" "good_nonces (en_nonce e)"
    and "\<forall>k v. map_of old k = Some v \<or> (k, v) \<in> set submitted \<longrightarrow> \<not> has_prefix v Prefix"
  shows "(\<exists>m. LoadSection False (en_store e) sec tbl' = Inr m \<and> (\<forall>k. map_of m k = saved_value e sec old submitted k)) \<and>
    (\<forall>sec'. sec' \<noteq> sec \<longrightarrow> LoadSection False (en_store e) sec' tbl' = LoadSection False (en_store e) sec' tbl)"
proof -
  let ?new = "merged_fields e sec old submitted"
  have "storable (en_store e) sec ?new" using assms(7) by (intro merged_storable) auto
  moreover have "distinct (map fst ?new)"
    using assms(2) by (simp add: merged_keys known_fields_def distinct_map_filter)
  moreover have "(map_of old ++ map_of ?new) k = saved_value e sec old submitted k" for k
    by (simp add: map_add_def merged_lookup known_lookup saved_value_def split: option.split)
  ultimately show ?thesis
    using Save_read_back [OF assms(5,6,3,4), of ?new False now author] assms(1) by auto
qed

text \<open>C14: Saving a settings page.  When the console answers that a section was saved, the request came from
  an administrator, whose name, address and the names of the submitted keys are the one line the event
  log grew by, unless the insert of that line failed, which the answer does not tell; the section reads as
  before with exactly the submitted keys that are settings of the section replaced, a blank credential
  counting as unchanged; every other section is kept; and the running configuration is the one of the new
  table, if the reload can read it.  This is for a section that could be read before, whose values and the
  submitted ones do not start with the prefix \<open>enc:v1:\<close> of encrypted values, each key submitted once, and
  for a cipher that decrypts what it encrypted with nonces of its size; other statements may fail.\<close>

theorem console_save_exact:
  assumes "handleAdminSettings e (Some submitted) path r s = (ReplyJSON 200 kvs, s')"
    and "rq_method r = ''POST''" "sec = trim_slashes (trim_prefix path ''/admin/api/settings'')" "sec \<noteq> []"
    and "distinct (map fst submitted)" "unique_by setting_pk (sv_settings s)"
    and "LoadSection False (en_store e) sec (sv_settings s) = Inr old"
    and "aead_ok (so_aead (en_store e))" "good_nonces (en_nonce e)"
    and "\<forall>k v. map_of old k = Some v \<or> (k, v) \<in> set submitted \<longrightarrow> \<not> has_prefix v Prefix"
  shows "(\<exists>admin. read_admin (en_world e) (sv_app s) r = Inr admin \<and>
      et_rows (ap_events (sv_app s')) = et_rows (ap_events (sv_app s)) @ (if w_flt_event (en_world e) then []
        else [admin_entry (et_next (ap_events (sv_app s))) (w_now (en_world e)) (a_UPN admin)
           (req_ip (en_world e) (sv_app s) r) (save_detail sec (known_fields sec submitted))])) \<and>
    (\<exists>m. LoadSection False (en_store e) sec (sv_settings s') = Inr m \<and>
      (\<forall>k. map_of m k = saved_value e sec old submitted k)) \<and>
    (\<forall>sec'. sec' \<noteq> sec \<longrightarrow> LoadSection False (en_store e) sec' (sv_settings s') =
       LoadSection False (en_store e) sec' (sv_settings s)) \<and>
    (\<forall>v. \<not> en_flt e 2 \<and> LoadAll False (en_store e) (sv_settings s') = Inr v \<longrightarrow>
       conf s' = runtime_Config (en_hostname e) (en_boot e) v)"
proof -
  obtain admin where admin: "requireAdmin (en_world e) True r (sv_app s) = Inr admin"
    and body: "saveSettingsSection e (Some submitted) sec (a_UPN admin) r s = (ReplyJSON 200 kvs, s')"
    using with_admin_ok [OF assms(1) [unfolded handleAdminSettings_def]] assms(2-4)
    by (auto simp: server_error_def reply_error_def Let_def split: if_splits)
  obtain submitted' old' s1 where s1: "Some submitted = Some submitted'"
    "LoadSection (en_flt e 0) (en_store e) sec (sv_settings s) = Inr old'"
    "Save (en_flt e 1) (en_store e) (en_nonce e) (w_now (en_world e)) sec (merged_fields e sec old' submitted') (a_UPN admin)
       (sv_settings s) = (None, sv_settings s')"
    "s1 = audit_server e r (a_UPN admin) ResultSuccess (save_detail sec (known_fields sec submitted'))
       (s\<lparr>sv_settings := sv_settings s'\<rparr>)"
    "sv_app s' = sv_app (snd (reload e (en_flt e 2) s1))"
    by (rule save_ok [OF body])
  have load: "\<not> en_flt e 0" using s1(2) by (auto simp: LoadSection_def)
  then have same: "submitted' = submitted" "old' = old" using s1(1,2) assms(7) by auto
  have table: "(\<exists>m. LoadSection False (en_store e) sec (sv_settings s') = Inr m \<and>
      (\<forall>k. map_of m k = saved_value e sec old submitted k)) \<and>
    (\<forall>sec'. sec' \<noteq> sec \<longrightarrow> LoadSection False (en_store e) sec' (sv_settings s') =
       LoadSection False (en_store e) sec' (sv_settings s))"
    using Save_works [OF s1(3)] by (intro saved_table [OF _ assms(5-10)]) (simp add: same)
  have "conf s' = runtime_Config (en_hostname e) (en_boot e) v" if "\<not> en_flt e 2" "LoadAll False (en_store e) (sv_settings s') = Inr v" for v
    using reload_conf [of "en_flt e 2" e s1 v] that s1(4,5) by (simp add: conf_def)
  moreover have "et_rows (ap_events (sv_app s')) = et_rows (ap_events (sv_app s)) @ (if w_flt_event (en_world e) then []
        else [admin_entry (et_next (ap_events (sv_app s))) (w_now (en_world e)) (a_UPN admin)
           (req_ip (en_world e) (sv_app s) r) (save_detail sec (known_fields sec submitted))])"
    using s1(4,5) by (simp add: audit_server_rows same)
  ultimately show ?thesis using requireAdminD(2) [OF admin] table by blast
qed

text \<open>Setting the brand of the portal.\<close>

definition demo_save :: "server_response" where
  "demo_save = handleAdminSettings (demo_env second) (Some [(''name'', ''X'')]) ''/admin/api/settings/brand''
     (demo_admin_req ''POST'' []) (demo_server demo_Config)"

lemma demo_save_ok: "\<exists>kvs s'. demo_save = (ReplyJSON 200 kvs, s')"
proof -
  have sec: "trim_slashes (trim_prefix ''/admin/api/settings/brand'' ''/admin/api/settings'') = ''brand''" by code_simp
  have known: "sectionKeys ''brand'' \<noteq> []" "known_fields ''brand'' [(''name'', ''X'')] = [(''name'', ''X'')]"
    "\<not> isSecretSetting ''brand'' ''name''" "''brand'' \<noteq> secTLS"
    by code_simp+
  have admin: "requireAdmin (en_world (demo_env second)) True (demo_admin_req ''POST'' []) (sv_app (demo_server demo_Config)) = Inr demo_admin"
    using demo_requireAdmin [of second] by (simp add: demo_env_def demo_server_def)
  have load: "LoadSection False st sec [] = Inr []" for st sec by (simp add: LoadSection_def)
  have merged: "ApplySecretUpdates (en_store (demo_env second)) ''brand'' [] [(''name'', ''X'')] = [(''name'', ''X'')]"
    by (simp add: ApplySecretUpdates_def known)
  have save: "fst (Save False (en_store (demo_env second)) rnd now ''brand'' [(''name'', ''X'')] by []) = None" for rnd now "by"
    by (simp add: Save_def Let_def known)
  show ?thesis
    unfolding demo_save_def handleAdminSettings_def with_admin_def sec admin
    using save known(1,4) by (auto simp: saveSettingsSection_def known load merged demo_admin_req_def save_reply_def case_prod_beta Let_def
        split: option.split prod.split)
qed

theorem console_save_exact_witness:
  "\<exists>m. LoadSection False (en_store (demo_env second)) ''brand'' (sv_settings (snd demo_save)) = Inr m \<and>
     map_of m ''name'' = Some ''X''"
proof -
  have sec: "''brand'' = trim_slashes (trim_prefix ''/admin/api/settings/brand'' ''/admin/api/settings'')" by code_simp
  have known: "''name'' \<in> sd_key ` set (sectionKeys ''brand'')" "\<not> isSecretSetting ''brand'' ''name''" by code_simp+
  have load: "LoadSection False (en_store (demo_env second)) ''brand'' [] = Inr []" by (simp add: LoadSection_def)
  obtain kvs s' where ok: "demo_save = (ReplyJSON 200 kvs, s')" using demo_save_ok by blast
  have "\<exists>m. LoadSection False (en_store (demo_env second)) ''brand'' (sv_settings s') = Inr m \<and>
      (\<forall>k. map_of m k = saved_value (demo_env second) ''brand'' [] [(''name'', ''X'')] k)"
    using console_save_exact [OF ok [unfolded demo_save_def] _ sec, of "[]"] load
    by (simp add: demo_admin_req_def unique_by_def demo_aead_ok has_prefix_def Prefix_def)
  then show ?thesis using known by (auto simp: ok saved_value_def)
qed

section \<open>An unreadable credential\<close>

type_synonym settings_call = "env \<times> Values option \<times> string \<times> request"

definition settings_run :: "settings_call list \<Rightarrow> server \<Rightarrow> server" where
  "settings_run calls s = fold (\<lambda>(e, body, path, r) s. snd (handleAdminSettings e body path r s)) calls s"

lemma unreadable_load:
  "r0 \<in> set tbl \<Longrightarrow> \<not> readable st r0 \<Longrightarrow> \<exists>err. LoadSection flt st (sr_section r0) tbl = Inl err"
  using load_rows_unreadable [of r0 "filter (\<lambda>r. sr_section r = sr_section r0) tbl" st] by (simp add: LoadSection_def)

lemma Save_other_rows:
  assumes "r0 \<in> set tbl" "sr_section r0 \<noteq> sec"
  shows "r0 \<in> set (snd (Save flt st rnd now sec kvs author tbl))"
proof -
  have "r0 \<in> set (filter (\<lambda>r. sr_section r = sr_section r0) tbl)" using assms(1) by simp
  then have "r0 \<in> set (filter (\<lambda>r. sr_section r = sr_section r0) (snd (Save flt st rnd now sec kvs author tbl)))"
    by (simp only: Save_other [OF assms(2)])
  then show ?thesis by simp
qed

lemma save_section_keeps:
  assumes "r0 \<in> set (sv_settings s)" "\<not> readable (en_store e) r0"
  shows "r0 \<in> set (sv_settings (snd (saveSettingsSection e body sec author r s)))"
proof (cases "sr_section r0 = sec")
  case True
  with unreadable_load [OF assms] obtain err where "LoadSection (en_flt e 0) (en_store e) sec (sv_settings s) = Inl err" by blast
  with assms(1) show ?thesis
    by (simp add: saveSettingsSection_def server_error_def Let_def split: option.split)
next
  case False
  note kept = Save_other_rows [OF assms(1) False]
  show ?thesis
    using kept assms(1)
    by (auto simp: saveSettingsSection_def server_error_def Let_def case_prod_beta split: option.split sum.split)
qed

lemma settings_keeps_unreadable:
  "r0 \<in> set (sv_settings s) \<Longrightarrow> \<not> readable (en_store e) r0 \<Longrightarrow>
     r0 \<in> set (sv_settings (snd (handleAdminSettings e body path r s)))"
  using save_section_keeps [of r0 s e]
  by (auto simp: handleAdminSettings_def with_admin_def server_error_def getSettingsSection_def Let_def case_prod_beta
      split: sum.split)

lemma settings_run_keeps:
  "r0 \<in> set (sv_settings s) \<Longrightarrow> \<not> readable st r0 \<Longrightarrow> en_store ` fst ` set calls \<subseteq> {st} \<Longrightarrow>
     r0 \<in> set (sv_settings (settings_run calls s))"
  by (induction calls arbitrary: s) (auto simp: settings_run_def settings_keeps_unreadable)

text \<open>C20: A credential that cannot be decrypted cannot be re-entered.  Once a stored value of a section is
  unreadable, no sequence of requests to the settings pages repairs it: after every one of them, each
  further request for that section, a save with a new value included, is refused and changes nothing,
  although the error is documented as fixed by entering the credential again.\<close>

theorem corrupt_secret_stuck:
  assumes "r0 \<in> set (sv_settings s)" "\<not> readable st r0" "en_store ` fst ` set calls \<subseteq> {st}" "en_store e = st"
    and "sr_section r0 \<noteq> []" "trim_slashes (trim_prefix path ''/admin/api/settings'') = sr_section r0"
    and "s' = settings_run calls s"
  shows "snd (handleAdminSettings e body path r s') = s' \<and> (\<forall>kvs. fst (handleAdminSettings e body path r s') \<noteq> ReplyJSON 200 kvs)"
proof -
  have "r0 \<in> set (sv_settings s')" using settings_run_keeps assms by blast
  with unreadable_load obtain err where
    err: "LoadSection (en_flt e 0) (en_store e) (sr_section r0) (sv_settings s') = Inl err" using assms(2,4) by blast
  have "snd (saveSettingsSection e body (sr_section r0) author r s') = s' \<and>
      (\<forall>kvs. fst (saveSettingsSection e body (sr_section r0) author r s') \<noteq> ReplyJSON 200 kvs)" for author
    by (simp add: saveSettingsSection_def server_error_def reply_error_def err Let_def split: option.split)
  moreover have "getSettingsSection e (sr_section r0) s' = server_error 500 ''load_failed'' s'"
    by (simp add: getSettingsSection_def err)
  ultimately show ?thesis
    using assms(5) with_admin_ok [of e r s']
    by (auto simp: handleAdminSettings_def with_admin_def requireAdmin_def assms(6) server_error_def reply_error_def Let_def
        split: sum.splits if_splits)
qed

theorem corrupt_secret_stuck_witness:
  "fst (handleAdminSettings (demo_env second) (Some [(''client_secret'', ''new'')]) ''/admin/api/settings/oidc'' (demo_admin_req ''POST'' [])
     (settings_run [(demo_env second, None, ''/admin/api/settings/oidc'', demo_get)]
       ((demo_server demo_Config)\<lparr>sv_settings := [demo_secret_row ''enc:v1:'']\<rparr>))) \<noteq> ReplyJSON 200 []"
proof -
  have "isSecretSetting secOIDC ''client_secret''" by code_simp
  moreover have "raw_std_values [] = Some []" by code_simp
  then have "Decrypt c (Some ''k'') ''enc:v1:'' = Inl ErrCorrupt" for c
    by (simp add: Decrypt_def has_prefix_def Prefix_def trim_prefix_def std_decode_def nonce_size_def)
  ultimately have "\<not> readable (en_store (demo_env second)) (demo_secret_row ''enc:v1:'')"
    by (simp add: readable_def row_value_def demo_secret_row_def demo_setting_def demo_env_def)
  moreover have "trim_slashes (trim_prefix ''/admin/api/settings/oidc'' ''/admin/api/settings'') = sr_section (demo_secret_row ''enc:v1:'')"
    unfolding demo_secret_row_def demo_setting_def secOIDC_def by code_simp
  moreover have "sr_section (demo_secret_row ''enc:v1:'') \<noteq> []"
    by (simp add: demo_secret_row_def demo_setting_def secOIDC_def)
  ultimately show ?thesis
    using corrupt_secret_stuck [of "demo_secret_row ''enc:v1:''" "(demo_server demo_Config)\<lparr>sv_settings := [demo_secret_row ''enc:v1:'']\<rparr>"
        "en_store (demo_env second)"] by auto
qed

end
