(* ===== verification/Pages.thy ===== *)
theory Pages
  imports Dsn LocalAdmin Registry
begin

text \<open>
  The pages and the static files: \<open>portal/spa.go\<close> with the page renderers of \<open>portal/main.go\<close>.  The
  bundle is built once from the embedded files; a page is a built document with a head spliced in, which
  carries the configuration of the page as JSON.  The table of MIME types, SHA-256 and the reading of a
  quality value as a number are parameters.
\<close>

section \<open>Replies with headers\<close>

record page =
  pg_status :: int
  pg_headers :: "(string \<times> string) list"
  pg_body :: string

text \<open>\<open>http.Error\<close> and \<open>http.NotFound\<close>.\<close>

definition http_error :: "(string \<times> string) list \<Rightarrow> string \<Rightarrow> int \<Rightarrow> page" where
  "http_error headers msg status =
     \<lparr>pg_status = status,
      pg_headers = headers @ [(''Content-Type'', ''text/plain; charset=utf-8''), (''X-Content-Type-Options'', ''nosniff'')],
      pg_body = msg @ [CHR 0x0A]\<rparr>"

definition http_not_found :: page where
  "http_not_found = http_error [] ''404 page not found'' 404"

text \<open>A body is sent unless the request asks for the headers only.\<close>

definition send_body :: "request \<Rightarrow> string \<Rightarrow> string" where
  "send_body r body = (if rq_method r = ''HEAD'' then [] else body)"


section \<open>Escaping and paths\<close>

definition html_char :: "char \<Rightarrow> string" where
  "html_char c =
     (if c = CHR ''&'' then ''&amp;''
      else if c = CHR 0x27 then ''&#39;''
      else if c = CHR ''<'' then ''&lt;''
      else if c = CHR ''>'' then ''&gt;''
      else if c = CHR 0x22 then ''&#34;''
      else [c])"

definition html_escape :: "string \<Rightarrow> string" where
  "html_escape s = concat (map html_char s)"

text \<open>\<open>url.PathEscape\<close>.\<close>

definition path_char :: "char \<Rightarrow> string" where
  "path_char c =
     (if unreserved c \<or> c \<in> set ''$&+:=@'' then [c] else CHR ''%'' # hex_byte upper_hex_digit c)"

definition path_escape :: "string \<Rightarrow> string" where
  "path_escape s = concat (map path_char s)"

text \<open>\<open>bytes.Replace\<close> with the count 1.\<close>

fun replace_first :: "string \<Rightarrow> string \<Rightarrow> string \<Rightarrow> string" where
  "replace_first old new [] = (if old = [] then new else [])"
| "replace_first old new (c # cs) =
     (if has_prefix (c # cs) old then new @ drop (length old) (c # cs) else c # replace_first old new cs)"

text \<open>\<open>path.Clean\<close>: the elements kept so far are in reverse.\<close>

fun clean_parts :: "bool \<Rightarrow> string list \<Rightarrow> string list \<Rightarrow> string list" where
  "clean_parts rooted out [] = rev out"
| "clean_parts rooted out (e # es) =
     (if e = [] \<or> e = ''.'' then clean_parts rooted out es
      else if e = ''..'' then
        (case out of
           [] \<Rightarrow> clean_parts rooted (if rooted then [] else [e]) es
         | p # ps \<Rightarrow> clean_parts rooted (if p = ''..'' then e # out else ps) es)
      else clean_parts rooted (e # out) es)"

definition path_clean :: "string \<Rightarrow> string" where
  "path_clean p =
     (if p = [] then ''.''
      else (let rooted = (hd p = CHR ''/'');
                out = join ''/'' (clean_parts rooted [] (split_on CHR ''/'' p))
            in if rooted then CHR ''/'' # out else if out = [] then ''.'' else out))"

definition path_base :: "string \<Rightarrow> string" where
  "path_base p = (case cut_last CHR ''/'' p of None \<Rightarrow> p | Some (_, name) \<Rightarrow> name)"

definition path_ext :: "string \<Rightarrow> string" where
  "path_ext p = (case cut_last CHR ''.'' (path_base p) of None \<Rightarrow> [] | Some (_, ext) \<Rightarrow> CHR ''.'' # ext)"


section \<open>The bundle\<close>

record spaAsset =
  sa_body :: string
  sa_type :: string
  sa_brotli :: "string option"
  sa_gzip :: "string option"
  sa_etag :: string

record spaBundle =
  sb_assets :: "(string \<times> spaAsset) list"
  sb_built :: bool

text \<open>The files of the walk that are kept; the content of one that cannot be read is \<open>None\<close>.\<close>

fun raw_files :: "(string \<times> string option) list \<Rightarrow> (string \<times> string) list" where
  "raw_files [] = []"
| "raw_files ((p, content) # fs) =
     (if path_base p = ''.gitkeep'' then raw_files fs
      else (case content of None \<Rightarrow> raw_files fs | Some d \<Rightarrow> (p, d) # raw_files fs))"

definition smaller_variant :: "(string \<times> string) list \<Rightarrow> string \<Rightarrow> string \<Rightarrow> string option" where
  "smaller_variant raw p data =
     (case map_of raw p of Some v \<Rightarrow> (if length v < length data then Some v else None) | None \<Rightarrow> None)"

definition spa_asset :: "(string \<Rightarrow> string) \<Rightarrow> (string \<Rightarrow> string) \<Rightarrow> (string \<times> string) list \<Rightarrow> string \<Rightarrow> string \<Rightarrow> spaAsset" where
  "spa_asset mime sha256 raw p data =
     (let ct = mime (path_ext p)
      in \<lparr>sa_body = data,
          sa_type = (if ct = [] then ''application/octet-stream'' else ct),
          sa_brotli = smaller_variant raw (p @ ''.br'') data,
          sa_gzip = smaller_variant raw (p @ ''.gz'') data,
          sa_etag = [CHR 0x22] @ b64_encode (take 16 (sha256 data)) @ [CHR 0x22]\<rparr>)"

definition loadSPA :: "(string \<Rightarrow> string) \<Rightarrow> (string \<Rightarrow> string) \<Rightarrow> (string \<times> string option) list \<Rightarrow> spaBundle" where
  "loadSPA mime sha256 files =
     (let raw = raw_files files;
          assets = map (\<lambda>(p, data). (p, spa_asset mime sha256 raw p data))
            (filter (\<lambda>(p, data). \<not> (has_suffix p ''.br'' \<or> has_suffix p ''.gz'')) raw)
      in \<lparr>sb_assets = assets,
          sb_built = (map_of assets ''portal.html'' \<noteq> None \<and> map_of assets ''admin.html'' \<noteq> None)\<rparr>)"

definition accepts_part :: "(string \<Rightarrow> bool) \<Rightarrow> string \<Rightarrow> string \<Rightarrow> bool" where
  "accepts_part zero enc part =
     (let p = trim_space part
      in if p = [] then False
         else (case (case cut_first CHR '';'' p of None \<Rightarrow> (p, []) | Some np \<Rightarrow> np) of (name, params) \<Rightarrow>
           let name = trim_space name; params = trim_space params
           in if name \<noteq> enc \<and> name \<noteq> ''*'' then False
              else \<not> (has_prefix params ''q='' \<and> zero (trim_space (trim_prefix params ''q='')))))"

definition acceptsEncoding :: "(string \<Rightarrow> bool) \<Rightarrow> string \<Rightarrow> string \<Rightarrow> bool" where
  "acceptsEncoding zero ae enc = list_ex (accepts_part zero enc) (split_on CHR '','' ae)"

text \<open>The representation that is sent: its encoding and its bytes.\<close>

definition pick_body :: "(string \<Rightarrow> bool) \<Rightarrow> string \<Rightarrow> spaAsset \<Rightarrow> string option \<times> string" where
  "pick_body zero ae a =
     (case sa_brotli a of
        Some v \<Rightarrow> if acceptsEncoding zero ae ''br'' then (Some ''br'', v)
                  else (case sa_gzip a of
                          Some g \<Rightarrow> if acceptsEncoding zero ae ''gzip'' then (Some ''gzip'', g) else (None, sa_body a)
                        | None \<Rightarrow> (None, sa_body a))
      | None \<Rightarrow> (case sa_gzip a of
                   Some g \<Rightarrow> if acceptsEncoding zero ae ''gzip'' then (Some ''gzip'', g) else (None, sa_body a)
                 | None \<Rightarrow> (None, sa_body a)))"

definition etag_matches :: "string \<Rightarrow> string \<Rightarrow> bool" where
  "etag_matches match etag =
     (match \<noteq> [] \<and> list_ex (\<lambda>tag. let t = trim_prefix (trim_space tag) ''W/'' in t = etag \<or> t = ''*'')
                          (split_on CHR '','' match))"

definition writeAsset :: "(string \<Rightarrow> bool) \<Rightarrow> request \<Rightarrow> spaAsset \<Rightarrow> string \<Rightarrow> page" where
  "writeAsset zero r a cache =
     (let base = [(''Content-Type'', sa_type a), (''Cache-Control'', cache), (''ETag'', sa_etag a), (''Vary'', ''Accept-Encoding'')]
      in if etag_matches (header r ''If-None-Match'') (sa_etag a)
         then \<lparr>pg_status = 304, pg_headers = base, pg_body = []\<rparr>
         else (case pick_body zero (header r ''Accept-Encoding'') a of
             (enc, body) \<Rightarrow>
               \<lparr>pg_status = 200,
                pg_headers = base @ (case enc of None \<Rightarrow> [] | Some x \<Rightarrow> [(''Content-Encoding'', x)]) @
                  [(''Content-Length'', itoa (int (length body)))],
                pg_body = send_body r body\<rparr>))"

definition handleAssets :: "(string \<Rightarrow> bool) \<Rightarrow> spaBundle \<Rightarrow> request \<Rightarrow> string \<Rightarrow> page" where
  "handleAssets zero bundle r path =
     (if rq_method r \<noteq> ''GET'' \<and> rq_method r \<noteq> ''HEAD''
      then http_error [(''Allow'', ''GET, HEAD'')] ''method not allowed'' 405
      else (let name = trim_prefix (path_clean path) ''/''
            in case map_of (sb_assets bundle) name of
                 None \<Rightarrow> http_not_found
               | Some asset \<Rightarrow>
                   if \<not> has_prefix name ''assets/'' then http_not_found
                   else writeAsset zero r asset ''public, max-age=31536000, immutable''))"


section \<open>Pages\<close>

definition headMarker :: string where "headMarker = ''<!--PORTAL_HEAD-->''"
definition langPlaceholder :: string where "langPlaceholder = ''__PORTAL_LANG__''"
definition cfgElementID :: string where "cfgElementID = ''__portal_cfg__''"

record spaBrand =
  br_Name :: string
  br_Color :: string
  br_LogoURL :: string
  br_Initial :: string

record spaPageData =
  sp_Page :: string
  sp_Lang :: string
  sp_Brand :: spaBrand
  sp_NowYear :: int
  sp_GuestEnabled :: bool
  sp_AllowedDomainsHint :: string
  sp_Message :: string
  sp_AdminUPN :: string

text \<open>\<open>json.Marshal\<close> of these two structures; empty optional fields are left out.\<close>

definition json_object :: "(string \<times> string) list \<Rightarrow> string" where
  "json_object ms = ''{'' @ join '','' (map (\<lambda>(k, v). json_quote k @ '':'' @ v) ms) @ ''}''"

definition brand_json :: "spaBrand \<Rightarrow> string" where
  "brand_json b =
     json_object [(''name'', json_quote (br_Name b)), (''color'', json_quote (br_Color b)),
       (''logoUrl'', json_quote (br_LogoURL b)), (''initial'', json_quote (br_Initial b))]"

definition page_json :: "spaPageData \<Rightarrow> string" where
  "page_json d =
     json_object ([(''page'', json_quote (sp_Page d)), (''lang'', json_quote (sp_Lang d)), (''brand'', brand_json (sp_Brand d)),
       (''nowYear'', itoa (sp_NowYear d)), (''guestEnabled'', if sp_GuestEnabled d then ''true'' else ''false''),
       (''allowedDomainsHint'', json_quote (sp_AllowedDomainsHint d))] @
       (if sp_Message d = [] then [] else [(''message'', json_quote (sp_Message d))]) @
       (if sp_AdminUPN d = [] then [] else [(''adminUPN'', json_quote (sp_AdminUPN d))]))"

text \<open>\<open>fmt.Sprintf\<close> with one string; the texts have no other verb.\<close>

fun sprintf_s :: "string \<Rightarrow> string option \<Rightarrow> string" where
  "sprintf_s [] arg = (case arg of None \<Rightarrow> [] | Some a \<Rightarrow> ''%!(EXTRA string='' @ a @ '')'')"
| "sprintf_s [c] arg = (if c = CHR ''%'' then ''%!(NOVERB)'' @ sprintf_s [] arg else c # sprintf_s [] arg)"
| "sprintf_s (c # d # cs) arg =
     (if c \<noteq> CHR ''%'' then c # sprintf_s (d # cs) arg
      else if d = CHR ''%'' then d # sprintf_s cs arg
      else (case arg of
              None \<Rightarrow> ''%!'' @ [d] @ ''(MISSING)'' @ sprintf_s cs None
            | Some a \<Rightarrow>
                (if d = CHR ''s'' \<or> d = CHR ''v'' then a else ''%!'' @ [d] @ ''(string='' @ a @ '')'') @ sprintf_s cs None))"

type_synonym texts = "(string \<times> (string \<times> string) list) list"

text \<open>\<open>T\<close> with an argument: a key that is missing everywhere is not formatted.\<close>

definition T_format :: "texts \<Rightarrow> string \<Rightarrow> string \<Rightarrow> string \<Rightarrow> string" where
  "T_format tr lang key arg =
     (let table = (\<lambda>l. case map_of tr l of None \<Rightarrow> [] | Some m \<Rightarrow> m)
      in if map_of (table lang) key = None \<and> map_of (table LangEN) key = None then key
         else sprintf_s (T tr lang key) (Some arg))"

text \<open>The middle dot, in UTF-8.\<close>

definition spaTitle :: "texts \<Rightarrow> Config \<Rightarrow> spaPageData \<Rightarrow> string" where
  "spaTitle tr cfg d =
     (if sp_Page d = ''error'' then T tr (sp_Lang d) ''errors.title'' @ '' '' @ [CHR 0xC2, CHR 0xB7] @ '' '' @ BrandName cfg
      else if sp_Page d = ''adminLogin'' then T_format tr (sp_Lang d) ''admin.login.title'' (BrandName cfg)
      else if sp_Page d = ''admin'' then T_format tr (sp_Lang d) ''admin.pageTitle'' (BrandName cfg)
      else T_format tr (sp_Lang d) ''login.title'' (BrandName cfg))"

text \<open>The first rune; a byte that starts none becomes the replacement character.\<close>

definition brandInitial :: "string \<Rightarrow> string" where
  "brandInitial name = (if name = [] then ''?'' else first_rune name)"

definition favicon_svg :: "Config \<Rightarrow> string" where
  "favicon_svg cfg =
     ''<svg xmlns=\"http://www.w3.org/2000/svg\" viewBox=\"0 0 64 64\">'' @
     ''<rect width=\"64\" height=\"64\" rx=\"14\" fill=\"'' @ BrandColor cfg @ ''\"/>'' @
     ''<text x=\"32\" y=\"44\" font-size=\"38\" font-family=\"system-ui,sans-serif\" '' @
     ''font-weight=\"600\" fill=\"#fff\" text-anchor=\"middle\">'' @
     html_escape (brandInitial (BrandName cfg)) @ ''</text></svg>''"

definition faviconLink :: "Config \<Rightarrow> string" where
  "faviconLink cfg =
     (if BrandLogoURL cfg \<noteq> [] then ''<link rel=\"icon\" href=\"'' @ html_escape (BrandLogoURL cfg) @ ''\">''
      else ''<link rel=\"icon\" href=\"data:image/svg+xml,'' @ html_escape (path_escape (favicon_svg cfg)) @ ''\">'')"

definition spa_head :: "texts \<Rightarrow> Config \<Rightarrow> spaPageData \<Rightarrow> string" where
  "spa_head tr cfg d =
     ''<title>'' @ html_escape (spaTitle tr cfg d) @ ''</title>'' @
     ''<style>:root{--brand-color:'' @ html_escape (BrandColor cfg) @ ''}</style>'' @
     faviconLink cfg @
     ''<script type=\"application/json\" id=\"'' @ cfgElementID @ ''\">'' @ page_json d @ ''</script>''"

definition renderSPA :: "texts \<Rightarrow> spaBundle \<Rightarrow> Config \<Rightarrow> request \<Rightarrow> string \<Rightarrow> spaPageData \<Rightarrow> int \<Rightarrow> page" where
  "renderSPA tr bundle cfg r doc d status =
     (case map_of (sb_assets bundle) doc of
        None \<Rightarrow> http_error []
          ''frontend bundle not built: run `cd portal/web-react && npm ci && npm run build`, then rebuild the binary'' 500
      | Some asset \<Rightarrow>
          (let body = replace_first langPlaceholder (sp_Lang d) (replace_first headMarker (spa_head tr cfg d) (sa_body asset))
           in \<lparr>pg_status = status,
               pg_headers = [(''Content-Type'', ''text/html; charset=utf-8''), (''Cache-Control'', ''no-store''),
                 (''Content-Length'', itoa (int (length body)))],
               pg_body = send_body r body\<rparr>))"

definition baseSPAData :: "Config \<Rightarrow> int \<Rightarrow> string \<Rightarrow> string \<Rightarrow> spaPageData" where
  "baseSPAData cfg year name lang =
     \<lparr>sp_Page = name, sp_Lang = lang,
      sp_Brand = \<lparr>br_Name = BrandName cfg, br_Color = BrandColor cfg, br_LogoURL = BrandLogoURL cfg,
                  br_Initial = brandInitial (BrandName cfg)\<rparr>,
      sp_NowYear = year, sp_GuestEnabled = False, sp_AllowedDomainsHint = [], sp_Message = [], sp_AdminUPN = []\<rparr>"

definition firstAllowedDomain :: "Config \<Rightarrow> string" where
  "firstAllowedDomain cfg = (case AllowedEmailDomains cfg of [] \<Rightarrow> ''example.com'' | d # _ \<Rightarrow> d)"

text \<open>The three cards of the portal document, and the console.\<close>

definition renderLogin :: "texts \<Rightarrow> spaBundle \<Rightarrow> Config \<Rightarrow> int \<Rightarrow> request \<Rightarrow> string \<Rightarrow> page" where
  "renderLogin tr b cfg year r lang =
     renderSPA tr b cfg r ''portal.html''
       ((baseSPAData cfg year ''login'' lang)\<lparr>sp_GuestEnabled := IsAdminEnabled cfg, sp_AllowedDomainsHint := firstAllowedDomain cfg\<rparr>) 200"

definition renderAdminLogin :: "texts \<Rightarrow> spaBundle \<Rightarrow> Config \<Rightarrow> int \<Rightarrow> request \<Rightarrow> string \<Rightarrow> page" where
  "renderAdminLogin tr b cfg year r lang =
     renderSPA tr b cfg r ''portal.html'' (baseSPAData cfg year ''adminLogin'' lang) 200"

definition render_error_page :: "texts \<Rightarrow> spaBundle \<Rightarrow> Config \<Rightarrow> int \<Rightarrow> request \<Rightarrow> string \<Rightarrow> string \<Rightarrow> int \<Rightarrow> page" where
  "render_error_page tr b cfg year r lang msg code =
     renderSPA tr b cfg r ''portal.html'' ((baseSPAData cfg year ''error'' lang)\<lparr>sp_Message := msg\<rparr>) code"

definition renderAdmin :: "texts \<Rightarrow> spaBundle \<Rightarrow> Config \<Rightarrow> int \<Rightarrow> request \<Rightarrow> string \<Rightarrow> page" where
  "renderAdmin tr b cfg year r upn =
     renderSPA tr b cfg r ''admin.html'' ((baseSPAData cfg year ''admin'' (pickLang r))\<lparr>sp_AdminUPN := upn\<rparr>) 200"


section \<open>No value leaves its place\<close>

definition is_angle :: "char \<Rightarrow> bool" where "is_angle c \<longleftrightarrow> c = CHR ''<'' \<or> c = CHR ''>''"
definition is_quote :: "char \<Rightarrow> bool" where "is_quote c \<longleftrightarrow> c = CHR 0x22"

lemma angle_byte: "is_angle c \<longleftrightarrow> byte c = 60 \<or> byte c = 62"
proof -
  have "c = CHR ''<'' \<longleftrightarrow> byte c = byte (CHR ''<'')" "c = CHR ''>'' \<longleftrightarrow> byte c = byte (CHR ''>'')"
    by (metis char_byte)+
  then show ?thesis by (simp add: is_angle_def)
qed

lemma html_char_plain: "x \<in> set (html_char c) \<Longrightarrow> \<not> is_angle x \<and> \<not> is_quote x"
  by (auto simp: html_char_def is_angle_def is_quote_def split: if_splits)

lemma html_escape_plain: "filter is_angle (html_escape s) = []" "filter is_quote (html_escape s) = []"
  using html_char_plain by (auto simp: html_escape_def filter_empty_conv)

lemma hex_digit_plain: "n < 16 \<Longrightarrow> \<not> is_angle (hex_digit n)"
  by (auto simp: hex_digit_def angle_byte)

lemma json_escape_plain: "x \<in> set (json_escape c) \<Longrightarrow> \<not> is_angle x"
proof -
  have "\<not> is_angle x" if "x \<in> set (hex_byte hex_digit c)"
    using that by (auto simp: hex_byte_def hex_digit_plain byte_div_less)
  moreover have "\<not> is_angle x" if "x \<in> set ([CHR 0x5C, CHR ''u'', CHR ''0'', CHR ''0''] @ ''\"bfnrt'')"
    using that by (auto simp: is_angle_def)
  moreover assume "x \<in> set (json_escape c)"
  then have "x \<in> set ([CHR 0x5C, CHR ''u'', CHR ''0'', CHR ''0''] @ ''\"bfnrt'') \<or> x \<in> set (hex_byte hex_digit c) \<or>
      x = c \<and> \<not> is_angle c"
    unfolding json_escape_def is_angle_def by (simp split: if_split_asm) auto
  ultimately show ?thesis by blast
qed

lemma json_quote_plain: "filter is_angle (json_quote s) = []"
  using json_escape_plain by (auto simp: json_quote_def filter_empty_conv is_angle_def)

lemma nat_digits_plain: "filter is_angle (nat_digits n) = []"
proof (induction n rule: nat_digits.induct)
  case (1 n)
  have "\<not> is_angle (digit_char d)" if "d < 10" for d
    using that by (simp add: digit_char_def angle_byte)
  with 1 show ?case by (subst nat_digits.simps) simp
qed

lemma itoa_plain: "filter is_angle (itoa i) = []"
  by (simp add: itoa_def nat_digits_plain is_angle_def)

lemma set_join: "set (join sep ss) \<subseteq> set sep \<union> (\<Union>s\<in>set ss. set s)"
  by (induction sep ss rule: join.induct) auto

lemma json_object_plain:
  assumes "\<forall>v\<in>snd ` set ms. filter is_angle v = []"
  shows "filter is_angle (json_object ms) = []"
proof -
  have "\<not> is_angle c" if m: "(k, v) \<in> set ms" and c: "c \<in> set (json_quote k @ '':'' @ v)" for k v c
  proof -
    have "filter is_angle v = []" using assms m by force
    with json_quote_plain [of k] c show ?thesis by (auto simp: filter_empty_conv is_angle_def)
  qed
  then have "\<forall>s\<in>set (map (\<lambda>(k, v). json_quote k @ '':'' @ v) ms). \<forall>c\<in>set s. \<not> is_angle c" by auto
  moreover have "\<forall>c\<in>set '',''. \<not> is_angle c" by (simp add: is_angle_def)
  ultimately have "\<forall>c\<in>set (join '','' (map (\<lambda>(k, v). json_quote k @ '':'' @ v) ms)). \<not> is_angle c"
    using set_join [of "'',''" "map (\<lambda>(k, v). json_quote k @ '':'' @ v) ms"] by blast
  then show ?thesis by (simp add: json_object_def filter_empty_conv is_angle_def)
qed

lemma page_json_plain: "filter is_angle (page_json d) = []"
proof -
  have "filter is_angle (brand_json b) = []" for b
    unfolding brand_json_def by (rule json_object_plain) (simp add: json_quote_plain)
  moreover have "filter is_angle ''true'' = []" "filter is_angle ''false'' = []" by (simp_all add: is_angle_def)
  ultimately show ?thesis
    unfolding page_json_def by (intro json_object_plain) (auto simp: json_quote_plain itoa_plain)
qed

lemma faviconLink_plain: "filter is_angle (faviconLink cfg) = ''<>''" "filter is_quote (faviconLink cfg) = replicate 4 CHR 0x22"
  by (simp_all add: faviconLink_def html_escape_plain is_angle_def is_quote_def eval_nat_numeral)

lemma spa_head_plain: "filter is_angle (spa_head tr cfg d) = concat (replicate 7 ''<>'')"
  by (simp add: spa_head_def html_escape_plain faviconLink_plain page_json_plain cfgElementID_def is_angle_def
      eval_nat_numeral)

lemma has_prefix_split: "has_prefix s p \<Longrightarrow> s = p @ drop (length p) s"
  unfolding has_prefix_def by (metis append_take_drop_id)

lemma filter_replace_first:
  "filter P n1 = filter P n2 \<Longrightarrow> filter P (replace_first old n1 s) = filter P (replace_first old n2 s)"
  by (induction old n1 s rule: replace_first.induct) auto

lemma filter_replace_plain:
  "filter P new = [] \<Longrightarrow> filter P old = [] \<Longrightarrow> filter P (replace_first old new s) = filter P s"
proof (induction old new s rule: replace_first.induct)
  case (2 old new c cs)
  show ?case
  proof (cases "has_prefix (c # cs) old")
    case True
    from arg_cong [OF has_prefix_split [OF this], of "filter P"] 2(2,3) True show ?thesis by simp
  next
    case False
    with 2 show ?thesis by simp
  qed
qed simp

lemma supported_plain: "lang \<in> set supportedLangs \<Longrightarrow> filter is_angle lang = []"
  by (auto simp: supportedLangs_def LangZHCN_def LangZHTW_def LangEN_def is_angle_def)

lemma filter_replace_lang:
  "lang \<in> set supportedLangs \<Longrightarrow> filter is_angle (replace_first langPlaceholder lang s) = filter is_angle s"
  by (rule filter_replace_plain) (simp_all add: supported_plain langPlaceholder_def is_angle_def)

section \<open>Paths\<close>

definition plain_part :: "string \<Rightarrow> bool" where
  "plain_part e \<longleftrightarrow> e \<noteq> [] \<and> e \<noteq> ''.'' \<and> e \<noteq> ''..'' \<and> CHR ''/'' \<notin> set e"

lemma plain_partI: "CHR ''/'' \<notin> set e \<Longrightarrow> \<not> (e = [] \<or> e = ''.'') \<Longrightarrow> e \<noteq> ''..'' \<Longrightarrow> plain_part e"
  unfolding plain_part_def by blast

lemma clean_parts_plain:
  "rooted \<Longrightarrow> \<forall>e\<in>set out. plain_part e \<Longrightarrow> \<forall>e\<in>set es. CHR ''/'' \<notin> set e \<Longrightarrow>
     \<forall>e\<in>set (clean_parts rooted out es). plain_part e"
proof (induction rooted out es rule: clean_parts.induct)
  case (1 rooted out)
  then show ?case by simp
next
  case (2 rooted out e es)
  have rest: "\<forall>e\<in>set es. CHR ''/'' \<notin> set e" "CHR ''/'' \<notin> set e" using 2(7) by simp_all
  consider "e = [] \<or> e = ''.''" | "\<not> (e = [] \<or> e = ''.'')" "e = ''..''" "out = []" |
    q qs where "\<not> (e = [] \<or> e = ''.'')" "e = ''..''" "out = q # qs" | "\<not> (e = [] \<or> e = ''.'')" "e \<noteq> ''..''"
    by (cases out) blast+
  then show ?case
  proof cases
    case 1
    with 2(1) [OF 1] 2(5,6) rest(1) show ?thesis by simp
  next
    case 2
    with "2.IH"(2) [OF 2] "2.prems" rest(1) show ?thesis by simp
  next
    case 3
    then have "q \<noteq> ''..''" using "2.prems"(2) by (simp add: plain_part_def)
    with "2.IH"(3) [OF 3] "2.prems" rest(1) 3 show ?thesis by simp
  next
    case 4
    with "2.IH"(4) [OF 4] "2.prems" rest plain_partI [OF rest(2) 4] show ?thesis by simp
  qed
qed

lemma split_on_parts: "e \<in> set (split_on c s) \<Longrightarrow> c \<notin> set e"
  by (induction s arbitrary: e) (auto split: list.splits if_splits)

lemma split_on_join: "\<forall>e\<in>set es. c \<notin> set e \<Longrightarrow> es \<noteq> [] \<Longrightarrow> split_on c (join [c] es) = es"
proof (induction "[c]" es rule: join.induct)
  case (3 s t ts)
  then show ?case using split_on_append [of c s "join [c] (t # ts)"] by simp
qed (simp_all add: split_on_no_sep)

lemma path_clean_rooted:
  assumes "has_prefix p ''/''"
  obtains es where "path_clean p = CHR ''/'' # join ''/'' es" "\<forall>e\<in>set es. plain_part e"
proof -
  have "p \<noteq> []" "hd p = CHR ''/''" using assms by (cases p; simp add: has_prefix_def)+
  then have "path_clean p = CHR ''/'' # join ''/'' (clean_parts True [] (split_on CHR ''/'' p))"
    by (simp add: path_clean_def Let_def)
  moreover have "\<forall>e\<in>set (clean_parts True [] (split_on CHR ''/'' p)). plain_part e"
    by (rule clean_parts_plain) (auto dest: split_on_parts)
  ultimately show thesis by (rule that)
qed


section \<open>Properties\<close>

lemma map_of_map_filter_Some:
  "map_of (map (\<lambda>(p, x). (p, f p x)) (filter (\<lambda>(p, x). Q p) kvs)) k = Some y \<Longrightarrow>
     Q k \<and> (\<exists>x. map_of kvs k = Some x \<and> y = f k x)"
  by (induction kvs) (auto split: if_splits)

lemma loadSPA_asset:
  assumes "map_of (sb_assets (loadSPA mime sha files)) name = Some a"
  obtains data where "map_of (raw_files files) name = Some data" "a = spa_asset mime sha (raw_files files) name data"
    "\<not> has_suffix name ''.br''" "\<not> has_suffix name ''.gz''"
  using map_of_map_filter_Some [where Q = "\<lambda>p. \<not> (has_suffix p ''.br'' \<or> has_suffix p ''.gz'')"] assms
  by (fastforce simp: loadSPA_def Let_def)

lemma smaller_variant_Some:
  "smaller_variant raw p data = Some v \<longleftrightarrow> map_of raw p = Some v \<and> length v < length data"
  by (auto simp: smaller_variant_def split: option.splits)

subsection \<open>Accepted encodings\<close>

text \<open>
  What a request accepts, said without the code's loop: some element of the header, a piece between commas,
  has a name before its semicolon that is the encoding or a star, and is not given the quality zero.
\<close>

definition element_of :: "string \<Rightarrow> string \<Rightarrow> bool" where
  "element_of part ae \<longleftrightarrow> CHR '','' \<notin> set part \<and>
     (\<exists>pre post. ae = pre @ part @ post \<and> (pre = [] \<or> last pre = CHR '','') \<and> (post = [] \<or> hd post = CHR '',''))"

definition allows :: "(string \<Rightarrow> bool) \<Rightarrow> string \<Rightarrow> string \<Rightarrow> bool" where
  "allows zero e part \<longleftrightarrow>
     (\<exists>name params. (trim_space part = name \<and> params = [] \<or> trim_space part = name @ CHR '';'' # params) \<and>
        CHR '';'' \<notin> set name \<and> trim_space name \<in> {e, ''*''} \<and>
        (\<forall>q. trim_space params = ''q='' @ q \<longrightarrow> \<not> zero (trim_space q)))"

definition accepted :: "(string \<Rightarrow> bool) \<Rightarrow> string \<Rightarrow> string \<Rightarrow> bool" where
  "accepted zero ae e \<longleftrightarrow> (\<exists>part. element_of part ae \<and> allows zero e part)"

lemma join_split: "join [c] (split_on c s) = s"
proof (induction s)
  case (Cons x s)
  obtain p ps where "split_on c s = p # ps" by (cases "split_on c s") auto
  with Cons show ?case by (cases ps) auto
qed simp

lemma split_on_cut: "split_on c (s @ c # t) = split_on c s @ split_on c t"
proof (induction s)
  case (Cons x s)
  obtain p ps where "split_on c s = p # ps" by (cases "split_on c s") auto
  with Cons show ?case by simp
qed simp

lemma split_on_element: "part \<in> set (split_on CHR '','' ae) \<longleftrightarrow> element_of part ae"
proof
  assume part: "part \<in> set (split_on CHR '','' ae)"
  then obtain as bs where parts: "split_on CHR '','' ae = as @ part # bs" by (meson split_list)
  have tail: "\<exists>post. join [CHR '',''] (part # bs) = part @ post \<and> (post = [] \<or> hd post = CHR '','')"
    by (cases bs) auto
  have "\<exists>pre. join [CHR '',''] (as @ part # bs) = pre @ join [CHR '',''] (part # bs) \<and> (pre = [] \<or> last pre = CHR '','')"
  proof (induction as)
    case (Cons a as)
    then obtain pre where pre: "join [CHR '',''] (as @ part # bs) = pre @ join [CHR '',''] (part # bs)"
      "pre = [] \<or> last pre = CHR '',''" by blast
    have "join [CHR '',''] ((a # as) @ part # bs) = (a @ CHR '','' # pre) @ join [CHR '',''] (part # bs)"
      using pre(1) by (cases "as @ part # bs") auto
    with pre(2) show ?case by (intro exI [of _ "a @ CHR '','' # pre"]) auto
  qed simp
  with tail join_split [of "CHR '',''" ae] have "\<exists>pre post. ae = pre @ part @ post \<and>
      (pre = [] \<or> last pre = CHR '','') \<and> (post = [] \<or> hd post = CHR '','')"
    unfolding parts by (metis append.assoc)
  with split_on_parts [OF part] show "element_of part ae" by (simp add: element_of_def)
next
  assume "element_of part ae"
  then obtain pre post where ae: "ae = pre @ part @ post" "CHR '','' \<notin> set part"
    "pre = [] \<or> last pre = CHR '',''" "post = [] \<or> hd post = CHR '',''"
    by (auto simp: element_of_def)
  have "part \<in> set (split_on CHR '','' (part @ post))"
  proof (cases post)
    case Nil
    with ae(2) show ?thesis by (simp add: split_on_no_sep)
  next
    case (Cons x xs)
    with ae(2,4) show ?thesis by (simp add: split_on_append split_on_no_sep)
  qed
  moreover have "\<exists>pre'. pre = pre' @ [CHR '','']" if "pre \<noteq> []" using that ae(3) by (metis append_butlast_last_id)
  ultimately show "part \<in> set (split_on CHR '','' ae)"
    unfolding ae(1) by (cases "pre = []") (auto simp: split_on_cut)
qed

lemma cut_first_cases:
  "(cut_first c s = None \<and> c \<notin> set s) \<or> (\<exists>a b. cut_first c s = Some (a, b) \<and> s = a @ c # b \<and> c \<notin> set a)"
proof (cases "c \<in> set s")
  case True
  then obtain a b where "s = a @ c # b" "c \<notin> set a" by (meson split_list_first)
  then show ?thesis by (auto simp: cut_first_append)
next
  case False
  then show ?thesis by (simp add: cut_first_def)
qed

lemma first_cut_unique:
  fixes c :: char
  assumes "a @ c # b = a' @ c # b'" "c \<notin> set a" "c \<notin> set a'"
  shows "a = a' \<and> b = b'"
proof -
  have "Some (a, b) = Some (a', b')"
    unfolding cut_first_append [OF assms(2), symmetric] cut_first_append [OF assms(3), symmetric] assms(1) ..
  then show ?thesis by simp
qed

lemma prefix_q: "(\<forall>q. params = pre @ q \<longrightarrow> \<not> zero (trim_space q)) \<longleftrightarrow>
    \<not> (has_prefix params pre \<and> zero (trim_space (trim_prefix params pre)))"
proof (cases "has_prefix params pre")
  case True
  then have "params = pre @ drop (length pre) params"
    using append_take_drop_id [of "length pre" params] by (simp add: has_prefix_def)
  then obtain q where "params = pre @ q" by blast
  then show ?thesis by (simp add: has_prefix_def trim_prefix_def)
qed (auto simp: has_prefix_def)

lemma accepts_part_iff:
  assumes "e \<noteq> []"
  shows "accepts_part zero e part \<longleftrightarrow> allows zero e part"
proof (cases "CHR '';'' \<in> set (trim_space part)")
  case True
  then obtain a b where cut: "cut_first CHR '';'' (trim_space part) = Some (a, b)" "trim_space part = a @ CHR '';'' # b"
    "CHR '';'' \<notin> set a" using cut_first_cases [of "CHR '';''" "trim_space part"] by blast
  have only: "name = a \<and> params = b"
    if "trim_space part = name \<and> params = [] \<or> trim_space part = name @ CHR '';'' # params" "CHR '';'' \<notin> set name" for name params
    using that(1)
  proof
    assume "trim_space part = name \<and> params = []"
    then have "CHR '';'' \<in> set name" unfolding cut(2) by auto
    with that(2) show ?thesis by simp
  next
    assume "trim_space part = name @ CHR '';'' # params"
    with cut(2) have "a @ CHR '';'' # b = name @ CHR '';'' # params" by metis
    from first_cut_unique [OF this cut(3) that(2)] show ?thesis by simp
  qed
  have "allows zero e part \<longleftrightarrow>
      trim_space a \<in> {e, ''*''} \<and> (\<forall>q. trim_space b = ''q='' @ q \<longrightarrow> \<not> zero (trim_space q))" (is "_ \<longleftrightarrow> ?ok")
  proof
    assume "allows zero e part"
    with only show ?ok unfolding allows_def by blast
  next
    assume ?ok
    with cut(2,3) show "allows zero e part" unfolding allows_def by blast
  qed
  moreover have "trim_space part \<noteq> []" using cut(2) by simp
  ultimately show ?thesis unfolding prefix_q using cut(1) by (simp add: accepts_part_def Let_def)
next
  case False
  have only: "name = trim_space part \<and> params = []"
    if "trim_space part = name \<and> params = [] \<or> trim_space part = name @ CHR '';'' # params" for name params
    using that False by auto
  have none: "\<forall>q. trim_space [] = ''q='' @ q \<longrightarrow> \<not> zero (trim_space q)"
    by (simp add: trim_space_def trim_left_def trim_right_def)
  have "allows zero e part \<longleftrightarrow> trim_space (trim_space part) \<in> {e, ''*''}" (is "_ \<longleftrightarrow> ?ok")
  proof
    assume "allows zero e part"
    with only show ?ok unfolding allows_def by blast
  next
    assume ?ok
    with False none show "allows zero e part" unfolding allows_def by blast
  qed
  moreover have "cut_first CHR '';'' (trim_space part) = None"
    using False cut_first_cases [of "CHR '';''" "trim_space part"] by auto
  moreover have "trim_space [] = []" "\<not> has_prefix [] ''q=''"
    by (simp_all add: trim_space_def trim_left_def trim_right_def has_prefix_def)
  ultimately show ?thesis using assms by (auto simp: accepts_part_def Let_def)
qed

lemma acceptsEncoding_iff: "e \<noteq> [] \<Longrightarrow> acceptsEncoding zero ae e \<longleftrightarrow> accepted zero ae e"
  by (simp add: acceptsEncoding_def accepted_def list_ex_iff Bex_def split_on_element accepts_part_iff)

text \<open>A compressed sibling that may be sent, and the one that is: brotli before gzip before the bytes themselves.\<close>

definition offered :: "(string \<Rightarrow> bool) \<Rightarrow> string \<Rightarrow> (string \<times> string) list \<Rightarrow> string \<Rightarrow> string \<Rightarrow> string \<Rightarrow> string \<Rightarrow> bool" where
  "offered zero ae raw name data e body \<longleftrightarrow>
     (e = ''br'' \<and> map_of raw (name @ ''.br'') = Some body \<or> e = ''gzip'' \<and> map_of raw (name @ ''.gz'') = Some body) \<and>
     length body < length data \<and> accepted zero ae e"

definition served_variant :: "(string \<Rightarrow> bool) \<Rightarrow> string \<Rightarrow> (string \<times> string) list \<Rightarrow> string \<Rightarrow> string \<Rightarrow> string option \<Rightarrow> string \<Rightarrow> bool" where
  "served_variant zero ae raw name data enc body \<longleftrightarrow>
     (case enc of
        None \<Rightarrow> body = data \<and> (\<forall>e b. \<not> offered zero ae raw name data e b)
      | Some e \<Rightarrow> offered zero ae raw name data e body \<and> (e = ''br'' \<or> (\<forall>b. \<not> offered zero ae raw name data ''br'' b)))"

lemma pick_body_variant:
  "pick_body zero ae (spa_asset mime sha raw name data) = (enc, body) \<Longrightarrow> served_variant zero ae raw name data enc body"
  by (auto simp: pick_body_def spa_asset_def Let_def served_variant_def offered_def smaller_variant_def acceptsEncoding_iff
      split: option.splits if_splits)

text \<open>C35: What the static route serves.  For a request of any path that begins with a slash and any file tree, an answer with status
  200 carries a file of the bundle under \<open>assets/\<close>, found at the cleaned path, none of whose elements is
  empty, a dot or two dots.  What is sent is its brotli sibling, else its gzip sibling, if that is smaller and
  the request accepts the encoding, and is announced as such; else its own bytes; the length that is announced
  is that of what is sent.  A request accepts an encoding when some element of its header names it, or is a
  star, without the quality zero: so a star accepts an encoding that another element of the same header
  refuses by name, although the comment in the code says that such a refusal must not be treated as support.\<close>

theorem assets_served:
  assumes "handleAssets zero (loadSPA mime sha files) r path = p" "pg_status p = 200" "has_prefix path ''/''"
  shows "\<exists>name data enc body. path_clean path = CHR ''/'' # name \<and> has_prefix name ''assets/'' \<and>
    list_all plain_part (split_on CHR ''/'' name) \<and> map_of (raw_files files) name = Some data \<and>
    served_variant zero (header r ''Accept-Encoding'') (raw_files files) name data enc body \<and>
    map_of (pg_headers p) ''Content-Encoding'' = enc \<and> map_of (pg_headers p) ''Content-Length'' = Some (itoa (int (length body))) \<and>
    pg_body p = (if rq_method r = ''HEAD'' then [] else body)"
proof -
  obtain es where es: "path_clean path = CHR ''/'' # join ''/'' es" "\<forall>e\<in>set es. plain_part e"
    using path_clean_rooted [OF assms(3)] by blast
  define name where "name = join ''/'' es"
  obtain a where a: "map_of (sb_assets (loadSPA mime sha files)) name = Some a" "has_prefix name ''assets/''"
    and p: "p = writeAsset zero r a ''public, max-age=31536000, immutable''"
    using assms(1,2)
    by (auto simp: handleAssets_def http_error_def http_not_found_def Let_def es(1) name_def trim_prefix_def has_prefix_def
        split: if_splits option.splits)
  obtain data where data: "map_of (raw_files files) name = Some data" "a = spa_asset mime sha (raw_files files) name data"
    using loadSPA_asset [OF a(1)] by metis
  obtain enc body where pick: "pick_body zero (header r ''Accept-Encoding'') a = (enc, body)" by fastforce
  have "\<not> etag_matches (header r ''If-None-Match'') (sa_etag a)" using assms(2) p by (auto simp: writeAsset_def Let_def split: prod.splits)
  then have reply: "map_of (pg_headers p) ''Content-Encoding'' = enc"
    "map_of (pg_headers p) ''Content-Length'' = Some (itoa (int (length body)))" "pg_body p = (if rq_method r = ''HEAD'' then [] else body)"
    by (auto simp: p writeAsset_def Let_def pick send_body_def split: option.splits)
  have "es \<noteq> []" using a(2) by (auto simp: name_def has_prefix_def)
  then have "list_all plain_part (split_on CHR ''/'' name)"
    using split_on_join [of es "CHR ''/''"] es(2) by (auto simp: name_def plain_part_def list_all_iff)
  moreover have "served_variant zero (header r ''Accept-Encoding'') (raw_files files) name data enc body"
    using pick_body_variant pick unfolding data(2) by blast
  ultimately show ?thesis using es(1) a(2) data(1) reply unfolding name_def by blast
qed

definition demo_files :: "(string \<times> string option) list" where
  "demo_files =
     [(''assets/a.js'', Some ''alert(1)''), (''assets/a.js.br'', Some ''x''), (''assets/b.js'', None), (''.gitkeep'', Some []),
      (''portal.html'', Some ''<html lang=\"__PORTAL_LANG__\"><!--PORTAL_HEAD--></html>'')]"

definition demo_get :: "string \<Rightarrow> request" where
  "demo_get ae =
     \<lparr>rq_method = ''GET'', rq_host = ''p'', rq_tls = True, rq_remote = ''1.2.3.4:5'', rq_headers = [(''Accept-Encoding'', ae)],
      rq_query = [], rq_form = [], rq_cookies = []\<rparr>"

definition demo_bundle :: spaBundle where
  "demo_bundle = loadSPA (\<lambda>_. []) (\<lambda>s. s) demo_files"

theorem assets_served_witness:
  "map_option pg_body (Some (handleAssets (\<lambda>_. False) demo_bundle (demo_get ''gzip, br'') ''/assets/../x/.././assets/a.js'')) = Some ''x'' \<and>
   (\<exists>name data enc body. has_prefix name ''assets/'' \<and> map_of (raw_files demo_files) name = Some data \<and>
     served_variant (\<lambda>_. False) ''gzip, br'' (raw_files demo_files) name data enc body)"
proof -
  have run: "(pg_status (handleAssets (\<lambda>_. False) demo_bundle (demo_get ''gzip, br'') ''/assets/../x/.././assets/a.js''),
    pg_body (handleAssets (\<lambda>_. False) demo_bundle (demo_get ''gzip, br'') ''/assets/../x/.././assets/a.js'')) = (200, ''x'')"
    by code_simp
  have "has_prefix ''/assets/../x/.././assets/a.js'' ''/''" "header (demo_get ''gzip, br'') ''Accept-Encoding'' = ''gzip, br''"
    by code_simp+
  with assets_served [OF refl, of "\<lambda>_. False" "\<lambda>_. []" "\<lambda>s. s" demo_files, folded demo_bundle_def, of "demo_get ''gzip, br''" "''/assets/../x/.././assets/a.js''"] run show ?thesis
    by auto
qed

text \<open>An explicit refusal does not count when the list also has a star.\<close>

lemma star_overrides_refusal: "acceptsEncoding (\<lambda>q. q = ''0'') ''br;q=0, *'' ''br''"
  by code_simp

text \<open>C36: No value leaves its place in a page.  The angle brackets of a served document, and so its
  elements, depend only on the built document: whatever the brand, the message, the name of the signed-in
  administrator, the texts and the configuration are, two renderings of one document have the same ones.
  The head adds seven pairs, none of them inside a value, and the link of the icon has exactly the
  four quotes of its two attributes.\<close>

theorem page_structure_fixed:
  assumes "sp_Lang d \<in> set supportedLangs" "sp_Lang d' \<in> set supportedLangs" "rq_method r = rq_method r'"
  shows "filter is_angle (pg_body (renderSPA tr b cfg r doc d st)) = filter is_angle (pg_body (renderSPA tr' b cfg' r' doc d' st')) \<and>
    filter is_angle (spa_head tr cfg d) = concat (replicate 7 ''<>'') \<and> filter is_angle (page_json d) = [] \<and>
    filter is_quote (faviconLink cfg) = replicate 4 CHR 0x22"
  using filter_replace_first [of is_angle "spa_head tr cfg d" "spa_head tr' cfg' d'"] assms
  by (simp add: renderSPA_def spa_head_plain page_json_plain faviconLink_plain filter_replace_lang send_body_def Let_def split: option.split)

theorem page_structure_fixed_witness:
  "filter is_angle (pg_body (renderSPA [] demo_bundle (zero_Config\<lparr>BrandName := ''<b>''\<rparr>) (demo_get []) ''portal.html''
       ((baseSPAData zero_Config 2026 ''error'' LangEN)\<lparr>sp_Message := ''</script><script>''\<rparr>) 403)) =
   filter is_angle (pg_body (renderSPA [] demo_bundle zero_Config (demo_get []) ''portal.html'' (baseSPAData zero_Config 2026 ''login'' LangZHTW) 200)) \<and>
   map_of (sb_assets demo_bundle) ''portal.html'' \<noteq> None"
proof -
  have "map_option sa_type (map_of (sb_assets demo_bundle) ''portal.html'') = Some ''application/octet-stream''" by code_simp
  then have "map_of (sb_assets demo_bundle) ''portal.html'' \<noteq> None" by auto
  moreover have "sp_Lang ((baseSPAData zero_Config 2026 ''error'' LangEN)\<lparr>sp_Message := ''</script><script>''\<rparr>) \<in> set supportedLangs"
    "sp_Lang (baseSPAData zero_Config 2026 ''login'' LangZHTW) \<in> set supportedLangs"
    by (simp_all add: baseSPAData_def supportedLangs_def)
  ultimately show ?thesis using page_structure_fixed by blast
qed

end
