(* ===== verification/Serve.thy ===== *)
theory Serve
  imports Startup ServerApi Pages
begin

text \<open>
  The HTTP server as a whole: the routes of \<open>main\<close>, the middleware, the redirect to HTTPS
  (\<open>portal/main.go\<close>) and the two listeners (\<open>portal/listeners.go\<close>).  One request goes through the middleware
  and, on the plain listener, the redirect when one is installed, then to the handler of its path.  The
  path of a request has no percent escapes; CONNECT is left out, and so are the files under \<open>/static/\<close>, which
  the library serves.
\<close>

section \<open>Requests and answers\<close>

record portal =
  po_server :: server
  po_admins :: "localAdmin list"

text \<open>What one request brings along: the environments of the handlers, the decoded bodies, the challenges in
  flight, the bundle with the test of a zero quality, and the file server.\<close>

record call =
  ca_env :: env
  ca_api :: api
  ca_login :: login_env
  ca_fields :: "Values option"
  ca_pem :: "(string \<times> string) option"
  ca_challenges :: challenges
  ca_bundle :: spaBundle
  ca_zero :: "string \<Rightarrow> bool"
  ca_static :: "request \<Rightarrow> string \<Rightarrow> page"

text \<open>An answer is that of a handler with its cookies, a page with its headers, or a permanent redirect.\<close>

datatype answer = Handled reply "cookie list" | Sent page | Moved string

definition answer_status :: "answer \<Rightarrow> int" where
  "answer_status x =
     (case x of
        Handled rep _ \<Rightarrow> (case rep of ReplyJSON st _ \<Rightarrow> st | ReplyRedirect _ \<Rightarrow> 302 | ReplyPage st _ _ \<Rightarrow> st
                         | ReplyText st _ \<Rightarrow> st | _ \<Rightarrow> 200)
      | Sent p \<Rightarrow> pg_status p
      | Moved _ \<Rightarrow> 301)"

definition healthz :: page where
  "healthz = \<lparr>pg_status = 200, pg_headers = [(''Content-Type'', ''text/plain'')], pg_body = ''ok'' @ [CHR 0x0A]\<rparr>"

definition robotsTxt :: page where
  "robotsTxt =
     \<lparr>pg_status = 200,
      pg_headers = [(''Content-Type'', ''text/plain; charset=utf-8''), (''Cache-Control'', ''public, max-age=86400'')],
      pg_body = ''User-agent: *'' @ [CHR 0x0A] @ ''Disallow: /'' @ [CHR 0x0A]\<rparr>"


section \<open>The routes\<close>

datatype route =
    Healthz | Robots | SignIn handler | ConsoleApi api_handler | SettingsApi | TLSApi | LocalLogin | StaticFiles
  | AssetFiles | Challenges

text \<open>The patterns in the order of \<open>main\<close>; one that ends in a slash is a subtree.\<close>

definition routes :: "(string \<times> route) list" where
  "routes =
     [(''/healthz'', Healthz), (''/robots.txt'', Robots), (''/portal'', SignIn HPortal),
      (''/auth/start'', SignIn HAuthStart), (''/auth/proceed'', SignIn HAuthProceed), (''/login'', SignIn HLogin),
      (''/auth/callback'', SignIn HCallback), (''/auth/duo-callback'', SignIn HDuoCallback),
      (''/auth/guest-code'', SignIn HGuestCode), (''/admin'', ConsoleApi AAdmin),
      (''/admin/api/state'', ConsoleApi AAdminState), (''/admin/api/codes'', ConsoleApi AAdminCodes),
      (''/admin/api/macs'', ConsoleApi AAdminMACs), (''/admin/api/settings/'', SettingsApi),
      (''/admin/api/settings'', SettingsApi), (''/admin/api/tls'', TLSApi), (''/admin/api/tls/'', TLSApi),
      (''/admin/login'', SignIn HAdminLogin), (''/admin/login/local'', LocalLogin),
      (''/admin/login/start'', SignIn HAdminLoginStart), (''/admin/logout'', SignIn HAdminLogout),
      (''/admin/codes/create'', ConsoleApi ACodeCreate), (''/admin/codes/batch'', ConsoleApi ACodeBatch),
      (''/admin/codes/delete'', ConsoleApi ACodeDelete), (''/admin/codes/delete-bulk'', ConsoleApi ACodeDeleteBulk),
      (''/admin/codes/delete-inactive'', ConsoleApi ACodeDeleteInactive),
      (''/admin/codes/delete-expired'', ConsoleApi ACodeDeleteInactive), (''/admin/codes/edit'', ConsoleApi ACodeEdit),
      (''/admin/ratelimit/status'', ConsoleApi ARateLimitStatus), (''/admin/ratelimit/reset'', ConsoleApi ARateLimitReset),
      (''/admin/ratelimit/reset-all'', ConsoleApi ARateLimitResetAll),
      (''/admin/denylist/macs/create'', ConsoleApi ADenyMACCreate), (''/admin/denylist/macs/delete'', ConsoleApi ADenyMACDelete),
      (''/admin/denylist/macs/delete-all'', ConsoleApi ADenyMACDeleteAll),
      (''/admin/ikuai-policy/update'', ConsoleApi AIKuaiPolicyUpdate), (''/admin/events/query'', ConsoleApi AEventsQuery),
      (''/admin/events/export.csv'', ConsoleApi AEventsExportCSV),
      (''/admin/denylist/export.csv'', ConsoleApi ADenylistExportCSV),
      (''/admin/denylist/import'', ConsoleApi ADenylistImportCSV), (''/static/'', StaticFiles), (''/assets/'', AssetFiles),
      (''/.well-known/acme-challenge/'', Challenges)]"

definition matches :: "string \<Rightarrow> string \<Rightarrow> bool" where
  "matches pat path = (if has_suffix pat ''/'' then has_prefix path pat else path = pat)"

text \<open>\<open>http.ServeMux\<close>: the longest pattern that matches wins.\<close>

definition mux_find :: "string \<Rightarrow> (string \<times> route) option" where
  "mux_find path =
     fold (\<lambda>(pat, h) best.
         if matches pat path \<and> (case best of None \<Rightarrow> True | Some (q, _) \<Rightarrow> length q < length pat) then Some (pat, h) else best)
       routes None"

definition mux_clean :: "string \<Rightarrow> string" where
  "mux_clean p =
     (if p = [] then ''/''
      else (let p' = (if hd p = CHR ''/'' then p else CHR ''/'' # p); np = path_clean p'
            in if has_suffix p' ''/'' \<and> np \<noteq> ''/'' then np @ ''/'' else np))"

datatype target = RedirectTo string | Route route | NoRoute

text \<open>A path that is a subtree without its slash is redirected to it, and one that is not clean to its clean form.\<close>

definition mux_match :: "string \<Rightarrow> target" where
  "mux_match path =
     (let clean = mux_clean path; found = mux_find clean
      in if map_of routes clean = None \<and> \<not> has_suffix clean ''/'' \<and> map_of routes (clean @ ''/'') \<noteq> None
         then RedirectTo (clean @ ''/'')
         else if clean \<noteq> path then RedirectTo clean
         else (case found of None \<Rightarrow> NoRoute | Some (_, h) \<Rightarrow> Route h))"


section \<open>The handlers are finitely many\<close>

lemma UNIV_handler:
  "UNIV = {HPortal, HAuthStart, HAuthProceed, HLogin, HCallback, HDuoCallback, HGuestCode, HAdminLogin, HAdminLoginStart, HAdminLogout}"
  by (auto intro: handler.exhaust)

instantiation handler :: enum
begin

definition enum_handler :: "handler list" where
  "enum_handler =
     [HPortal, HAuthStart, HAuthProceed, HLogin, HCallback, HDuoCallback, HGuestCode, HAdminLogin, HAdminLoginStart, HAdminLogout]"

definition enum_all_handler :: "(handler \<Rightarrow> bool) \<Rightarrow> bool" where
  "enum_all_handler P \<longleftrightarrow> list_all P enum_class.enum"

definition enum_ex_handler :: "(handler \<Rightarrow> bool) \<Rightarrow> bool" where
  "enum_ex_handler P \<longleftrightarrow> list_ex P enum_class.enum"

instance
  by standard (simp_all add: enum_handler_def enum_all_handler_def enum_ex_handler_def UNIV_handler list_all_iff list_ex_iff)

end

lemma UNIV_api_handler:
  "UNIV = {ACodeCreate, ACodeBatch, ACodeDelete, ACodeDeleteInactive, ACodeDeleteBulk, ACodeEdit, ARateLimitStatus, ARateLimitReset,
     ARateLimitResetAll, ADenyMACCreate, ADenyMACDelete, ADenyMACDeleteAll, ADenylistExportCSV, ADenylistImportCSV,
     AIKuaiPolicyUpdate, AEventsQuery, AEventsExportCSV, AAdminCodes, AAdminMACs, AAdminState, AAdmin}"
  by (auto intro: api_handler.exhaust)

instantiation api_handler :: enum
begin

definition enum_api_handler :: "api_handler list" where
  "enum_api_handler =
     [ACodeCreate, ACodeBatch, ACodeDelete, ACodeDeleteInactive, ACodeDeleteBulk, ACodeEdit, ARateLimitStatus, ARateLimitReset,
      ARateLimitResetAll, ADenyMACCreate, ADenyMACDelete, ADenyMACDeleteAll, ADenylistExportCSV, ADenylistImportCSV,
      AIKuaiPolicyUpdate, AEventsQuery, AEventsExportCSV, AAdminCodes, AAdminMACs, AAdminState, AAdmin]"

definition enum_all_api_handler :: "(api_handler \<Rightarrow> bool) \<Rightarrow> bool" where
  "enum_all_api_handler P \<longleftrightarrow> list_all P enum_class.enum"

definition enum_ex_api_handler :: "(api_handler \<Rightarrow> bool) \<Rightarrow> bool" where
  "enum_ex_api_handler P \<longleftrightarrow> list_ex P enum_class.enum"

instance
  by standard (simp_all add: enum_api_handler_def enum_all_api_handler_def enum_ex_api_handler_def UNIV_api_handler list_all_iff list_ex_iff)

end

text \<open>Every handler has a route.\<close>

lemma handlers_routed:
  "\<forall>h. list_ex (\<lambda>e. snd e = SignIn h) routes" "\<forall>h. list_ex (\<lambda>e. snd e = ConsoleApi h) routes"
  by code_simp+


section \<open>Handling\<close>

definition from_app :: "portal \<Rightarrow> response \<Rightarrow> answer \<times> portal" where
  "from_app s resp =
     (case resp of (rep, cks, a) \<Rightarrow> (Handled rep cks, s\<lparr>po_server := (po_server s)\<lparr>sv_app := a\<rparr>\<rparr>))"

definition from_server :: "portal \<Rightarrow> server_response \<Rightarrow> answer \<times> portal" where
  "from_server s resp = (case resp of (rep, sv) \<Rightarrow> (Handled rep [], s\<lparr>po_server := sv\<rparr>))"

fun run_route :: "route \<Rightarrow> call \<Rightarrow> string \<Rightarrow> request \<Rightarrow> portal \<Rightarrow> answer \<times> portal" where
  "run_route Healthz c path r s = (Sent healthz, s)"
| "run_route Robots c path r s = (Sent robotsTxt, s)"
| "run_route (SignIn h) c path r s = from_app s (handle h (en_world (ca_env c)) r (sv_app (po_server s)))"
| "run_route (ConsoleApi h) c path r s =
     from_app s (api_handle h (en_world (ca_env c)) (ca_api c) r (sv_app (po_server s)))"
| "run_route SettingsApi c path r s = from_server s (handleAdminSettings (ca_env c) (ca_fields c) path r (po_server s))"
| "run_route TLSApi c path r s = from_server s (handleAdminTLS (ca_env c) (ca_pem c) path r (po_server s))"
| "run_route LocalLogin c path r s =
     (case handleLocalAdminLogin (en_world (ca_env c)) (ca_login c) r (sv_app (po_server s), po_admins s) of
        (rep, cks, a, tbl) \<Rightarrow> (Handled rep cks, s\<lparr>po_server := (po_server s)\<lparr>sv_app := a\<rparr>, po_admins := tbl\<rparr>))"
| "run_route StaticFiles c path r s = (Sent (ca_static c r (trim_prefix path ''/static/'')), s)"
| "run_route AssetFiles c path r s = (Sent (handleAssets (ca_zero c) (ca_bundle c) r path), s)"
| "run_route Challenges c path r s = (Handled (handleChallenge path (ca_challenges c)) [], s)"

definition mux_serve :: "call \<Rightarrow> string \<Rightarrow> request \<Rightarrow> portal \<Rightarrow> answer \<times> portal" where
  "mux_serve c path r s =
     (case mux_match path of
        RedirectTo p \<Rightarrow> (Moved p, s)
      | NoRoute \<Rightarrow> (Sent http_not_found, s)
      | Route h \<Rightarrow> run_route h c path r s)"

text \<open>The redirect of the plain listener; \<open>uri\<close> is the path with the query.\<close>

definition redirectToHTTPS :: "string \<Rightarrow> call \<Rightarrow> string \<Rightarrow> string \<Rightarrow> request \<Rightarrow> portal \<Rightarrow> answer \<times> portal" where
  "redirectToHTTPS domain c path uri r s =
     (if has_prefix path ''/.well-known/acme-challenge/'' then (Handled (handleChallenge path (ca_challenges c)) [], s)
      else if path = ''/healthz'' then mux_serve c path r s
      else (Handled (ReplyRedirect (''https://'' @ (if domain = [] then rq_host r else domain) @ uri)) [], s))"

definition ServeHTTP :: "call \<Rightarrow> string \<Rightarrow> string \<Rightarrow> request \<Rightarrow> portal \<Rightarrow> answer \<times> portal" where
  "ServeHTTP c path uri r s =
     (case sv_front (po_server s) of
        Some domain \<Rightarrow> redirectToHTTPS domain c path uri r s
      | None \<Rightarrow> mux_serve c path r s)"

text \<open>The listener of a request: the plain one, or the HTTPS one, which has no redirect.\<close>

definition listen :: "bool \<Rightarrow> call \<Rightarrow> string \<Rightarrow> string \<Rightarrow> request \<Rightarrow> portal \<Rightarrow> answer \<times> portal" where
  "listen tls c path uri r s = (if tls then mux_serve c path r s else ServeHTTP c path uri r s)"

definition quoted :: "string \<Rightarrow> string" where
  "quoted s = [CHR 0x27] @ s @ [CHR 0x27]"

definition securityHeaders :: "(string \<times> string) list" where
  "securityHeaders =
     [(''X-Frame-Options'', ''DENY''), (''X-Content-Type-Options'', ''nosniff''), (''Referrer-Policy'', ''no-referrer''),
      (''Content-Security-Policy'',
       ''default-src '' @ quoted ''self'' @ ''; style-src '' @ quoted ''self'' @ '' '' @ quoted ''unsafe-inline'' @
       ''; script-src '' @ quoted ''self'' @ ''; img-src '' @ quoted ''self'' @ '' data: https:; frame-ancestors '' @
       quoted ''none'' @ ''; base-uri '' @ quoted ''none'' @ ''; form-action '' @ quoted ''self'' @ ''; object-src '' @
       quoted ''none'')]"

text \<open>The line of the request log: status, client address, and address and MAC of the session.\<close>

definition logRequests :: "call \<Rightarrow> string \<Rightarrow> request \<Rightarrow> answer \<Rightarrow> portal \<Rightarrow> string \<times> string \<times> int \<times> string \<times> string \<times> string" where
  "logRequests c path r x s =
     (let w = en_world (ca_env c); a = sv_app (po_server s);
          (ip, mac) = (case read_session w a r of
             Inl _ \<Rightarrow> (''-'', ''-'')
           | Inr sess \<Rightarrow> (if s_UserIP sess \<noteq> [] then s_UserIP sess else ''-'', if s_MAC sess \<noteq> [] then s_MAC sess else ''-''))
      in (rq_method r, path, answer_status x, req_ip w a r, ip, mac))"

text \<open>One request: the headers of every answer, the answer, the line of the log unless the handler panics.\<close>

definition serve_request ::
  "bool \<Rightarrow> call \<Rightarrow> string \<Rightarrow> string \<Rightarrow> request \<Rightarrow> portal \<Rightarrow>
   (string \<times> string) list \<times> answer \<times> (string \<times> string \<times> int \<times> string \<times> string \<times> string) option \<times> portal" where
  "serve_request tls c path uri r s =
     (case listen tls c path uri r s of (x, s') \<Rightarrow>
        (securityHeaders, x, (case x of Handled ReplyPanic _ \<Rightarrow> None | _ \<Rightarrow> Some (logRequests c path r x s')), s'))"

definition shutdown_listeners :: "server \<Rightarrow> server" where
  "shutdown_listeners s = s\<lparr>sv_tlsAddr := None\<rparr>"

section \<open>What belongs to the administrators\<close>

text \<open>
  The configuration with its clients, the denylist, the policies and the codes (their redemptions are the
  visitors'), the settings, the certificates, the listeners with a pending change, and the accounts: the
  hash and the state of each, not its counters.
\<close>

definition owned :: "app \<Rightarrow> Config \<times> bool \<times> DuoClient option \<times> DuoUniversalClient option \<times> DeniedMAC list \<times> policyRow list \<times>
    IKuaiPolicyStore \<times> gcRow list" where
  "owned a = (ap_conf a, ap_oidc a, ap_duo a, ap_duoUniversal a, ap_denylist a, ap_policyTbl a, ap_policies a, db_codes (ap_codes a))"

definition accounts :: "localAdmin list \<Rightarrow> string \<Rightarrow> (string \<times> bool) option" where
  "accounts tbl u = map_option (\<lambda>r. (la_hash r, la_enabled r)) (find (\<lambda>r. la_user r = u) tbl)"

definition same_owned :: "portal \<Rightarrow> portal \<Rightarrow> bool" where
  "same_owned s s' \<longleftrightarrow> owned (sv_app (po_server s)) = owned (sv_app (po_server s')) \<and>
     (po_server s)\<lparr>sv_app := sv_app (po_server s')\<rparr> = po_server s' \<and> accounts (po_admins s) = accounts (po_admins s')"

named_theorems owned_steps

lemma owned_helpers [owned_steps]:
  "owned (snd (banned_ip w r se a)) = owned a" "owned (fail_request w r se a) = owned a"
  "owned (app_of (rate_limited w rule ip a)) = owned a" "owned (log_login w u re m mac ip d a) = owned a"
  "owned (log_admin w u ip re d a) = owned a" "owned (clear_success w r sess emails a) = owned a"
  "owned (snd (mark_state w st a)) = owned a"
  "owned (a\<lparr>ap_lim := l\<rparr>) = owned a" "owned (a\<lparr>ap_proceed := ps\<rparr>) = owned a"
  by (simp_all add: owned_def banned_ip_def fail_request_def rate_limited_def log_login_def log_admin_def
      clear_success_def mark_state_def case_prod_beta)

lemma owned_over_limit [owned_steps]: "owned (snd (snd (over_limit w r sess rule a))) = owned a"
  by (simp add: over_limit_def case_prod_beta owned_steps split: option.split)

lemma owned_open_request [owned_steps]:
  "open_request w r a = Inl resp \<Longrightarrow> owned (app_of resp) = owned a"
  "open_request w r a = Inr (sess, a1) \<Longrightarrow> owned a1 = owned a"
proof -
  have "owned (snd (banned_ip w r s a)) = owned a" for s by (simp add: owned_steps)
  then show "open_request w r a = Inl resp \<Longrightarrow> owned (app_of resp) = owned a"
    and "open_request w r a = Inr (sess, a1) \<Longrightarrow> owned a1 = owned a"
    by (auto simp: open_request_def case_prod_beta owned_steps split: sum.splits option.splits)
qed

lemma owned_start_attempt [owned_steps]: "owned (app_of (start_attempt w sess email a)) = owned a"
  by (simp add: start_attempt_def Let_def case_prod_beta owned_steps split: option.split)

lemma owned_grant [owned_steps]: "owned (app_of (grant_access w r se lang u m p a)) = owned a"
  by (simp add: grant_access_def owned_steps)

lemma owned_finish [owned_steps]: "owned (app_of (finish_entra w r se lang user a)) = owned a"
  by (simp add: finish_entra_def finishAdminLogin_def owned_steps)

lemma owned_redeemed [owned_steps]: "owned (a\<lparr>ap_codes := snd (Validate flt now code mac ip upn (ap_codes a))\<rparr>) = owned a"
  by (simp add: owned_def Validate_codes)

lemma owned_guest [owned_steps]:
  "owned (app_of (guest_success w r sess upn c a)) = owned a" "owned (app_of (guest_failure w r sess a)) = owned a"
  by (simp_all add: guest_success_def guest_failure_def Let_def owned_steps)

lemma owned_handleAuthStart: "owned (app_of (handleAuthStart w r a)) = owned a"
  by (auto simp: handleAuthStart_def Let_def case_prod_beta owned_steps split: sum.split)

lemma owned_handleAuthProceed: "owned (app_of (handleAuthProceed w r a)) = owned a"
  by (simp add: handleAuthProceed_def Let_def case_prod_beta owned_steps split: sum.split option.split)

lemma owned_callbacks:
  "owned (app_of (handleCallback w r a)) = owned a" "owned (app_of (handleDuoCallback w r a)) = owned a"
  by (simp_all add: handleCallback_def handleDuoCallback_def Let_def case_prod_beta owned_steps split: sum.split option.split)

lemma owned_handleGuestCode: "owned (app_of (handleGuestCode w r a)) = owned a"
  by (auto simp: handleGuestCode_def Let_def case_prod_beta owned_steps split: sum.split option.split)

text \<open>No sign-in handler touches it.\<close>

lemma owned_handle: "owned (app_of (handle h w r a)) = owned a"
  by (cases h) (simp_all add: wf_other_handlers owned_handleAuthStart owned_handleAuthProceed owned_callbacks owned_handleGuestCode)

lemma save_row_accounts:
  "find (\<lambda>r. la_user r = la_user row) tbl = Some old \<Longrightarrow> la_hash row = la_hash old \<Longrightarrow> la_enabled row = la_enabled old \<Longrightarrow>
     accounts (save_unless flt row tbl) u = accounts tbl u"
  by (auto simp: accounts_def save_unless_def find_save_row)

lemma authenticate_accounts: "accounts (snd (authenticateLocalAdmin argon fr fs now username password tbl)) = accounts tbl"
proof
  fix u
  have "accounts (save_unless fs (failed_row now row) tbl) u = accounts tbl u \<and>
      accounts (save_unless fs (login_row now row) tbl) u = accounts tbl u"
    if "find (\<lambda>r. la_user r = to_lower (trim_space username)) tbl = Some row" for row
    using that find_SomeD [OF that] by (auto intro!: save_row_accounts simp: failed_row_def login_row_def)
  then show "accounts (snd (authenticateLocalAdmin argon fr fs now username password tbl)) u = accounts tbl u"
    by (simp add: authenticateLocalAdmin_def Let_def split: option.split)
qed

lemma local_login_keeps:
  assumes "handleLocalAdminLogin w e r (a, tbl) = (rep, cks, a', tbl')"
  shows "owned a' = owned a" "accounts tbl' = accounts tbl"
  using assms authenticate_accounts [of "le_argon e" "le_fltRead e" "le_fltSave e" "w_now w"]
  by (auto simp: handleLocalAdminLogin_def Let_def case_prod_beta owned_steps split: if_splits option.splits sum.splits prod.splits)

section \<open>Guards\<close>

lemma settings_api_change:
  assumes "handleAdminSettings e body path r s = (rep, s')" "s' \<noteq> s"
  shows "rq_method r = ''POST'' \<and> (\<exists>admin. requireAdmin (en_world e) True r (sv_app s) = Inr admin)"
proof -
  have "snd (getSettingsSection e sec s) = s" for sec
    by (simp add: getSettingsSection_def server_error_def case_prod_beta split: sum.split)
  with assms have "rq_method r = ''POST''"
    by (auto simp: handleAdminSettings_def with_admin_def server_error_def Let_def split: sum.splits if_splits) (metis snd_conv)
  with server_guarded assms show ?thesis by blast
qed

lemma tls_api_change:
  assumes "handleAdminTLS e body path r s = (rep, s')" "s' \<noteq> s"
  shows "rq_method r = ''POST'' \<and> (\<exists>admin. requireAdmin (en_world e) True r (sv_app s) = Inr admin)"
proof -
  have "snd (writeTLSStatus e r s) = s"
    by (simp add: writeTLSStatus_def case_prod_beta Let_def)
  with assms have "rq_method r = ''POST''"
    by (auto simp: handleAdminTLS_def with_admin_def server_error_def Let_def split: sum.splits if_splits)
  with server_guarded assms show ?thesis by blast
qed

text \<open>Handlers of the console change nothing, whatever is owned, without an administrator.\<close>

definition guarded :: "world \<Rightarrow> request \<Rightarrow> app \<Rightarrow> bool" where
  "guarded w r a \<longleftrightarrow> rq_method r = ''POST'' \<and> (\<exists>admin. requireAdmin w True r a = Inr admin)"

lemma same_owned_refl [simp]: "same_owned s s"
  by (simp add: same_owned_def)

lemma from_app_owned: "owned (app_of resp) = owned (sv_app (po_server s)) \<Longrightarrow> same_owned s (snd (from_app s resp))"
  by (simp add: same_owned_def from_app_def case_prod_beta)

lemma run_route_guarded:
  assumes "run_route h c path r s = (x, s')" "\<not> same_owned s s'"
  shows "guarded (en_world (ca_env c)) r (sv_app (po_server s))"
proof (cases h)
  case (SignIn g)
  from owned_handle have "same_owned s (snd (run_route h c path r s))" by (simp add: SignIn from_app_owned)
  with assms show ?thesis by simp
next
  case (ConsoleApi g)
  let ?a = "sv_app (po_server s)"
  have "app_of (api_handle g (en_world (ca_env c)) (ca_api c) r ?a) \<noteq> ?a"
    using assms from_app_owned [of "api_handle g (en_world (ca_env c)) (ca_api c) r ?a" s] by (auto simp: ConsoleApi)
  then show ?thesis unfolding guarded_def by (rule changes_need_admin)
next
  case SettingsApi
  then have "snd (handleAdminSettings (ca_env c) (ca_fields c) path r (po_server s)) \<noteq> po_server s"
    using assms by (auto simp: from_server_def case_prod_beta)
  then show ?thesis unfolding guarded_def using settings_api_change by (metis prod.collapse)
next
  case TLSApi
  then have "snd (handleAdminTLS (ca_env c) (ca_pem c) path r (po_server s)) \<noteq> po_server s"
    using assms by (auto simp: from_server_def case_prod_beta)
  then show ?thesis unfolding guarded_def using tls_api_change by (metis prod.collapse)
next
  case LocalLogin
  obtain rep cks a tbl where run:
    "handleLocalAdminLogin (en_world (ca_env c)) (ca_login c) r (sv_app (po_server s), po_admins s) = (rep, cks, a, tbl)"
    by (metis prod_cases4)
  with local_login_keeps [OF run] assms show ?thesis by (auto simp: LocalLogin same_owned_def)
qed (use assms in auto)

lemma listen_guarded:
  "listen tls c path uri r s = (x, s') \<Longrightarrow> \<not> same_owned s s' \<Longrightarrow> guarded (en_world (ca_env c)) r (sv_app (po_server s))"
  using run_route_guarded
  by (auto simp: listen_def ServeHTTP_def redirectToHTTPS_def mux_serve_def split: if_splits option.splits target.splits)


section \<open>Runs of the server\<close>

text \<open>What happens to a running portal: requests, the timer of a pending change, the renewal, the sweeps.\<close>

datatype activity =
    Arrive bool call string string request
  | ConfirmTimer env
  | Renewal env
  | Sweep event
  | PruneLog "nat \<Rightarrow> bool" "nat \<Rightarrow> bool" time duration

definition renew_server :: "env \<Rightarrow> server \<Rightarrow> server" where
  "renew_server e s =
     (case renewIfNeeded (en_crypto e) (en_lib e) (en_lego e) (en_flt e) (w_now (en_world e)) (conf s) (sv_served s, sv_certs s) of
        (served, tbl) \<Rightarrow> s\<lparr>sv_served := served, sv_certs := tbl\<rparr>)"

definition on_app :: "(app \<Rightarrow> app) \<Rightarrow> portal \<Rightarrow> portal" where
  "on_app f s = s\<lparr>po_server := (po_server s)\<lparr>sv_app := f (sv_app (po_server s))\<rparr>\<rparr>"

fun portal_step :: "activity \<Rightarrow> portal \<Rightarrow> portal" where
  "portal_step (Arrive tls c path uri r) s = snd (listen tls c path uri r s)"
| "portal_step (ConfirmTimer e) s = s\<lparr>po_server := commit_tick e (po_server s)\<rparr>"
| "portal_step (Renewal e) s = s\<lparr>po_server := renew_server e (po_server s)\<rparr>"
| "portal_step (Sweep ev) s = on_app (app_step ev) s"
| "portal_step (PruneLog fs fd now retention) s =
     on_app (\<lambda>a. a\<lparr>ap_events := snd (Prune fs fd now retention (ap_events a))\<rparr>) s"

definition portal_run :: "activity list \<Rightarrow> portal \<Rightarrow> portal" where
  "portal_run acts s = fold portal_step acts s"

definition wf_server :: "server \<Rightarrow> bool" where
  "wf_server s \<longleftrightarrow> wf_app (sv_app s) \<and> unique_by setting_pk (sv_settings s) \<and> unique_by ce_domain (sv_certs s) \<and>
     (sv_front s \<noteq> None \<longrightarrow> sv_tlsAddr s \<noteq> None)"

definition wf_portal :: "portal \<Rightarrow> bool" where
  "wf_portal s \<longleftrightarrow> wf_server (po_server s) \<and> unique_by la_user (po_admins s)"

lemma wf_log_server [wf_intros]: "wf_server s \<Longrightarrow> wf_server (log_server e u ip re d s)"
  by (simp add: wf_server_def log_server_def)

lemma wf_audit_server [wf_intros]: "wf_server s \<Longrightarrow> wf_server (audit_server e r u re d s)"
  by (simp add: audit_server_def wf_log_server)

lemma wf_reload [wf_intros]: "wf_server s \<Longrightarrow> wf_server (snd (reload e flt s))"
  by (simp add: wf_server_def reload_def reloadRuntime_def case_prod_beta Let_def install_keeps_wf split: sum.split)

text \<open>The redirect is only installed while the HTTPS listener runs.\<close>

lemma apply_front: "sv_front (snd (apply_listeners e flt cfg s)) \<noteq> None \<Longrightarrow> sv_tlsAddr (snd (apply_listeners e flt cfg s)) \<noteq> None"
  by (auto simp: apply_listeners_def setFront_def stopTLS_def case_prod_beta split: if_splits)

lemma wf_apply [wf_intros]: "wf_server s \<Longrightarrow> wf_server (snd (apply_listeners e flt cfg s))"
  using apply_front [of e flt cfg s] by (simp add: wf_server_def)

lemma wf_change [wf_intros]: "wf_server s \<Longrightarrow> wf_server (snd (applyListenerChange e f p ps u s))"
  using wf_apply [of s e f "conf s"]
  by (auto simp: wf_server_def applyListenerChange_def case_prod_beta Let_def)

lemma wf_settings [wf_intros]:
  "wf_server s \<Longrightarrow> wf_server (s\<lparr>sv_settings := snd (Save flt st rnd now sec kvs author (sv_settings s))\<rparr>)"
  by (simp add: wf_server_def unique_Save)

lemma wf_certs [wf_intros]: "wf_server s \<Longrightarrow> unique_by ce_domain tbl \<Longrightarrow> wf_server (s\<lparr>sv_certs := tbl\<rparr>)"
  by (simp add: wf_server_def)

lemma unique_assign_cert: "unique_by ce_domain tbl \<Longrightarrow> unique_by ce_domain (assign_cert now domain f tbl)"
  by (simp add: assign_cert_def unique_by_upsert)

lemma unique_Save_cert: "unique_by ce_domain tbl \<Longrightarrow> unique_by ce_domain (snd (Save_cert c lib flt i now d src cert key tbl))"
  by (simp add: Save_cert_def unique_save_row split: sum.split option.split)

lemma unique_RecordFailure: "unique_by ce_domain tbl \<Longrightarrow> unique_by ce_domain (RecordFailure flt now d reason tbl)"
  by (simp add: RecordFailure_def unique_assign_cert)

lemma unique_Issue: "unique_by ce_domain tbl \<Longrightarrow> unique_by ce_domain (snd (Issue c lib client flt now req tbl))"
proof -
  assume tbl: "unique_by ce_domain tbl"
  then have "unique_by ce_domain (snd (acme_account c l f now d account tbl))" for l f d account
    by (simp add: acme_account_def saveAccount_def unique_assign_cert case_prod_beta split: sum.split option.split)
  with tbl show ?thesis
    by (auto simp: Issue_def Let_def unique_Save_cert split: sum.split option.split prod.split) (metis snd_conv unique_Save_cert)+
qed

lemma wf_saveSettingsSection: "wf_server s \<Longrightarrow> wf_server (snd (saveSettingsSection e body sec upn r s))"
  unfolding saveSettingsSection_def Let_def case_prod_beta server_error_def
  by (cases body) (auto simp: case_prod_beta split: sum.split option.split intro!: wf_intros)

lemma wf_handleAdminSettings: "wf_server s \<Longrightarrow> wf_server (snd (handleAdminSettings e body path r s))"
  by (simp add: handleAdminSettings_def with_admin_def getSettingsSection_def server_error_def wf_saveSettingsSection
      case_prod_beta Let_def split: sum.split)

lemma wf_served [wf_intros]: "wf_server s \<Longrightarrow> wf_server (s\<lparr>sv_served := p\<rparr>)"
  by (simp add: wf_server_def)

lemma wf_commit [wf_intros]: "wf_server s \<Longrightarrow> wf_server (s\<lparr>sv_commit := l\<rparr>)"
  by (simp add: wf_server_def)

lemma wf_server_certs: "wf_server s \<Longrightarrow> unique_by ce_domain (sv_certs s)"
  by (simp add: wf_server_def)

lemma wf_tlsIssue: "wf_server s \<Longrightarrow> wf_server (snd (tlsIssue e r upn s))"
  unfolding tlsIssue_def Let_def case_prod_beta server_error_def
  by (auto simp: case_prod_beta unique_Issue unique_RecordFailure wf_server_certs split: option.split intro!: wf_intros)

lemma wf_tlsUpload: "wf_server s \<Longrightarrow> wf_server (snd (tlsUpload e body r upn s))"
  unfolding tlsUpload_def Let_def case_prod_beta server_error_def
  by (auto simp: case_prod_beta unique_Save_cert wf_server_certs split: option.split intro!: wf_intros)

lemma wf_handleAdminTLS: "wf_server s \<Longrightarrow> wf_server (snd (handleAdminTLS e body path r s))"
proof -
  assume s: "wf_server s"
  then have "wf_server (snd (tlsConfirm e r upn s))" for upn
    unfolding tlsConfirm_def by (auto simp: case_prod_beta split: bool.split intro!: wf_intros)
  moreover have "snd (writeTLSStatus e r s) = s" by (simp add: writeTLSStatus_def case_prod_beta Let_def)
  ultimately show ?thesis
    using s by (simp add: handleAdminTLS_def with_admin_def server_error_def wf_tlsIssue wf_tlsUpload Let_def split: sum.split)
qed

lemma wf_do_rollback: "wf_server s \<Longrightarrow> wf_server (do_rollback e rb s)"
  unfolding do_rollback_def Let_def case_prod_beta
  by (auto simp: case_prod_beta split: option.split intro!: wf_intros)

lemma wf_commit_tick: "wf_server s \<Longrightarrow> wf_server (commit_tick e s)"
  by (auto simp: commit_tick_def Let_def split: option.split intro!: wf_intros wf_do_rollback)

lemma wf_renew_server: "wf_server s \<Longrightarrow> wf_server (renew_server e s)"
proof -
  assume s: "wf_server s"
  then have "unique_by ce_domain (snd (renewIfNeeded c lib cl flt now cfg (served, sv_certs s)))" for c lib cl flt now cfg served
    using unique_Issue [OF wf_server_certs [OF s]]
    by (auto simp: renewIfNeeded_def Let_def case_prod_beta unique_RecordFailure wf_server_certs split: option.split)
  with s show ?thesis by (simp add: renew_server_def case_prod_beta wf_server_def)
qed

lemma wf_Prune: "wf_events t \<Longrightarrow> wf_events (snd (Prune fs fd now retention t))"
proof -
  have "wf_events (snd (prune_loop fs fd n c d t))" if "wf_events t" for n c d t
    using that
  proof (induction fs fd n c d t rule: prune_loop.induct)
    case (2 fs fd i c d t)
    have "wf_events (t\<lparr>et_rows := snd (delete_where (\<lambda>ev. ev_id ev \<in> set (batch_ids c t)) (et_rows t))\<rparr>)"
      using 2(2) by (auto simp: wf_events_def delete_where_def distinct_map inj_on_def)
    with 2 show ?case by (auto simp: Let_def case_prod_beta)
  qed simp
  then show "wf_events t \<Longrightarrow> ?thesis" by (simp add: Prune_def)
qed

lemma wf_local_login:
  assumes "handleLocalAdminLogin w e r (a, tbl) = (rep, cks, a', tbl')" "wf_app a" "unique_by la_user tbl"
  shows "wf_app a' \<and> unique_by la_user tbl'"
proof -
  have "unique_by la_user (snd (authenticateLocalAdmin (le_argon e) (le_fltRead e) (le_fltSave e) (w_now w) u p tbl))" for u p
    using assms(3) by (simp add: authenticateLocalAdmin_def save_unless_def Let_def unique_save_row split: option.split)
  moreover have "wf_app (a\<lparr>ap_lim := l\<rparr>)" if "wf_limiter l" for l using that assms(2) by (simp add: wf_app_def)
  moreover have "wf_limiter (ap_lim a)" using assms(2) by (simp add: wf_app_def)
  ultimately show ?thesis
    using assms
    by (auto simp: handleLocalAdminLogin_def Let_def case_prod_beta wf_lim_isBanned wf_recordIPFailure
        split: if_splits option.splits sum.splits prod.splits)
qed

lemma wf_from_app: "wf_portal s \<Longrightarrow> wf_app (app_of resp) \<Longrightarrow> wf_portal (snd (from_app s resp))"
  by (simp add: wf_portal_def wf_server_def from_app_def case_prod_beta)

lemma wf_from_server: "wf_portal s \<Longrightarrow> wf_server (snd resp) \<Longrightarrow> wf_portal (snd (from_server s resp))"
  by (simp add: wf_portal_def from_server_def case_prod_beta)

lemma wf_portal_parts: "wf_portal s \<Longrightarrow> wf_app (sv_app (po_server s))" "wf_portal s \<Longrightarrow> wf_server (po_server s)"
  by (simp_all add: wf_portal_def wf_server_def)

lemma wf_run_route: "wf_portal s \<Longrightarrow> wf_portal (snd (run_route h c path r s))"
proof (cases h)
  case LocalLogin
  assume s: "wf_portal s"
  obtain rep cks a tbl where run:
    "handleLocalAdminLogin (en_world (ca_env c)) (ca_login c) r (sv_app (po_server s), po_admins s) = (rep, cks, a, tbl)"
    by (metis prod_cases4)
  from wf_local_login [OF run] s show ?thesis by (simp add: LocalLogin run wf_portal_def wf_server_def)
next
  case (SignIn g)
  assume s: "wf_portal s"
  then show ?thesis by (simp add: SignIn wf_from_app wf_handle wf_portal_parts)
next
  case (ConsoleApi g)
  assume s: "wf_portal s"
  then show ?thesis by (simp add: ConsoleApi wf_from_app wf_api_handle wf_portal_parts)
next
  case SettingsApi
  assume s: "wf_portal s"
  then show ?thesis by (simp add: SettingsApi wf_from_server wf_handleAdminSettings wf_portal_parts)
next
  case TLSApi
  assume s: "wf_portal s"
  then show ?thesis by (simp add: TLSApi wf_from_server wf_handleAdminTLS wf_portal_parts)
qed simp_all

lemma wf_listen: "wf_portal s \<Longrightarrow> wf_portal (snd (listen tls c path uri r s))"
  using wf_run_route
  by (auto simp: listen_def ServeHTTP_def redirectToHTTPS_def mux_serve_def split: option.split target.split)

lemma wf_on_app: "wf_portal s \<Longrightarrow> (\<And>a. wf_app a \<Longrightarrow> wf_app (f a)) \<Longrightarrow> wf_portal (on_app f s)"
  by (simp add: wf_portal_def wf_server_def on_app_def)

lemma wf_on_server: "wf_portal s \<Longrightarrow> (\<And>v. wf_server v \<Longrightarrow> wf_server (f v)) \<Longrightarrow> wf_portal (s\<lparr>po_server := f (po_server s)\<rparr>)"
  by (simp add: wf_portal_def)

lemma wf_portal_step: "wf_portal s \<Longrightarrow> wf_portal (portal_step act s)"
proof (cases act)
  case (PruneLog fs fd now retention)
  assume "wf_portal s"
  then show ?thesis unfolding PruneLog portal_step.simps by (rule wf_on_app) (simp add: wf_app_def wf_Prune)
qed (simp_all add: wf_listen wf_on_app wf_on_server wf_app_step wf_commit_tick wf_renew_server)

interpretation portal_runs: preserved portal_step wf_portal
  by unfold_locales (rule wf_portal_step)

lemma wf_portal_run: "wf_portal s \<Longrightarrow> wf_portal (portal_run acts s)"
  unfolding portal_run_def by (rule portal_runs.run_inv)

lemma started_wf:
  assumes "start w p = Started s" "wf_persisted p" "unique_by setting_pk (idb_settings (pd_import p))" "unique_by ce_domain (pd_certs p)"
  shows "wf_server s"
proof -
  obtain boot where boot: "start_app w boot p = Started s"
    using start_existing [of w p s] assms(1,2) by (metis wf_persisted_def)
  have app: "wf_app (sv_app s)" "sv_settings s = idb_settings (pd_import p)"
    by (rule start_app_Started [OF boot assms(2)], assumption)+
  obtain e f cfg a where "s = snd (apply_listeners e f cfg (server_of a p))"
    using boot by (auto simp: start_app_def Let_def split: option.splits reload_error.splits prod.splits if_splits)
  then have "sv_certs s = pd_certs p" "sv_front s \<noteq> None \<longrightarrow> sv_tlsAddr s \<noteq> None"
    using apply_front by (auto simp: server_of_def)
  with app assms(3,4) show ?thesis by (simp add: wf_server_def)
qed


section \<open>Properties\<close>

text \<open>C7: The invariant of the running server.  A portal that starts on a database it has written keeps, through
  any sequence of requests to any path on either listener, sweeps, prunings, certificate renewals and
  expired confirmations, with any faults and any answers of other services, the invariant of its stores and
  counters and one row per setting, per certificate and per account; and plain HTTP is redirected only while
  the HTTPS listener runs.\<close>

theorem server_invariant:
  assumes "start w p = Started sv" "wf_persisted p" "unique_by setting_pk (idb_settings (pd_import p))"
    and "unique_by ce_domain (pd_certs p)" "unique_by la_user admins"
    and "portal_run acts \<lparr>po_server = sv, po_admins = admins\<rparr> = s"
  shows "wf_app (sv_app (po_server s)) \<and> unique_by setting_pk (sv_settings (po_server s)) \<and>
    unique_by ce_domain (sv_certs (po_server s)) \<and> unique_by la_user (po_admins s) \<and>
    (sv_front (po_server s) \<noteq> None \<longrightarrow> sv_tlsAddr (po_server s) \<noteq> None)"
proof -
  have "wf_portal \<lparr>po_server = sv, po_admins = admins\<rparr>"
    using started_wf [OF assms(1-4)] assms(5) by (simp add: wf_portal_def)
  from wf_portal_run [OF this, of acts] show ?thesis by (simp add: assms(6) wf_portal_def wf_server_def)
qed

theorem server_invariant_witness:
  "\<exists>sv. start demo_start (demo_persisted (demo_setting secBrand ''name'' ''X'')) = Started sv \<and>
     wf_app (sv_app (po_server (portal_run [Sweep (SweepStates 5), ConfirmTimer (demo_env 5)] \<lparr>po_server = sv, po_admins = []\<rparr>)))"
proof -
  obtain sv where sv: "start demo_start (demo_persisted (demo_setting secBrand ''name'' ''X'')) = Started sv" using demo_started by blast
  have "unique_by setting_pk (idb_settings (pd_import (demo_persisted row)))" "unique_by ce_domain (pd_certs (demo_persisted row))" for row
    by (simp_all add: demo_persisted_def unique_by_def)
  from server_invariant [OF sv demo_persisted_wf this unique_by_Nil refl, of "[Sweep (SweepStates 5), ConfirmTimer (demo_env 5)]"] sv
  show ?thesis by blast
qed

text \<open>C6: Every route is guarded.  Whatever the path and the listener, a request changes what belongs to the
  administrators (the configuration, the denylist, the policies, the codes, the settings, the certificates,
  the listeners, the local accounts) only if it is a POST from the portal's own origin, with the console
  enabled and a valid admin cookie; no other route, and no redirect, does.\<close>

theorem routes_guarded:
  assumes "serve_request tls c path uri r s = (headers, x, line, s')" "\<not> same_owned s s'"
  shows "rq_method r = ''POST'' \<and> IsAdminEnabled (conf (po_server s)) \<and>
    isSameOriginRequest (w_parse_url (en_world (ca_env c))) (conf (po_server s)) r \<and>
    (\<exists>admin. read_admin (en_world (ca_env c)) (sv_app (po_server s)) r = Inr admin)"
proof -
  have "guarded (en_world (ca_env c)) r (sv_app (po_server s))"
    using assms listen_guarded by (auto simp: serve_request_def split: prod.splits)
  with requireAdminD show ?thesis by (fastforce simp: guarded_def conf_def)
qed

definition demo_call :: call where
  "demo_call =
     \<lparr>ca_env = demo_env second, ca_api = demo_api,
      ca_login = \<lparr>le_argon = demo_argon, le_is4 = (\<lambda>_. True), le_cidr = (\<lambda>_. None), le_fltRead = False, le_fltSave = False\<rparr>,
      ca_fields = None, ca_pem = None, ca_challenges = [(''tok'', ''tok.thumb'')], ca_bundle = demo_bundle,
      ca_zero = (\<lambda>_. False), ca_static = (\<lambda>_ _. http_not_found)\<rparr>"

definition demo_portal :: "string option \<Rightarrow> portal" where
  "demo_portal front =
     \<lparr>po_server = (demo_server (ap_conf demo_app))\<lparr>sv_front := front, sv_tlsAddr := front\<rparr>, po_admins = []\<rparr>"

lemma demo_portal_app: "sv_app (po_server (demo_portal f)) = demo_app"
  by (simp add: demo_portal_def demo_server_def)

theorem routes_guarded_witness:
  "\<exists>admin. read_admin (demo_world second) demo_app (demo_admin_req ''POST'' []) = Inr admin \<and>
     \<not> same_owned (demo_portal None)
         (snd (snd (snd (serve_request False demo_call ''/admin/denylist/import'' ''/admin/denylist/import'' (demo_admin_req ''POST'' []) (demo_portal None)))))"
proof -
  let ?r = "demo_admin_req ''POST'' []"
  let ?run = "serve_request False demo_call ''/admin/denylist/import'' ''/admin/denylist/import'' ?r (demo_portal None)"
  have front: "sv_front (po_server (demo_portal None)) = None" by (simp add: demo_portal_def)
  have route: "mux_match ''/admin/denylist/import'' = Route (ConsoleApi ADenylistImportCSV)" by code_simp
  have world: "en_world (ca_env demo_call) = demo_world second" "ca_api demo_call = demo_api"
    by (simp_all add: demo_call_def demo_env_def)
  have "snd (snd (snd ?run)) = snd (from_app (demo_portal None) (api_handle ADenylistImportCSV (demo_world second) demo_api ?r demo_app))"
    by (simp add: serve_request_def listen_def ServeHTTP_def front mux_serve_def route world demo_portal_app case_prod_beta)
  then have "ap_denylist (sv_app (po_server (snd (snd (snd ?run))))) \<noteq> []"
    using demo_deny by (simp add: from_app_def case_prod_beta)
  moreover have "ap_denylist (sv_app (po_server (demo_portal None))) = []" by (simp add: demo_portal_app) (simp add: demo_app_def)
  ultimately have changed: "\<not> same_owned (demo_portal None) (snd (snd (snd ?run)))" by (auto simp: same_owned_def owned_def)
  obtain h x l s' where run: "?run = (h, x, l, s')" by (metis prod_cases4)
  from routes_guarded [OF run] changed show ?thesis by (simp add: run world demo_portal_app)
qed

text \<open>Where the certificate authority looks for the answer to a challenge.\<close>

definition challenge_path :: string where "challenge_path = ''/.well-known/acme-challenge/''"

lemma apply_front_exact:
  "sv_front (snd (apply_listeners e flt cfg s)) =
     (if TLSMode cfg = TLSModeStandalone \<and> TLSRedirectHTTP cfg \<and> sv_tlsAddr (snd (apply_listeners e flt cfg s)) \<noteq> None
      then Some (TLSDomain cfg) else None)"
  by (simp add: apply_listeners_def setFront_def stopTLS_def case_prod_beta)

text \<open>C34: What plain HTTP serves while HTTPS is on.  After the listeners were brought into line with a
  configuration that redirects, without an error or with one, the plain listener serves the site as long as
  no HTTPS listener runs; and once one runs, no request to it changes anything: a challenge that is being
  presented to the certificate authority is answered with its key authorization and any other challenge
  path with 404, the health check is answered, and everything else, whatever its method, is sent to the
  configured domain over HTTPS.  So a renewal over HTTP-01 works under the redirect.\<close>

theorem plain_http_redirected:
  assumes "apply_listeners e flt cfg sv = (err, po_server s)" "TLSMode cfg = TLSModeStandalone" "TLSRedirectHTTP cfg"
    and "serve_request False c path uri r s = (hs, x, line, s')"
  shows "(sv_tlsAddr (po_server s) = None \<longrightarrow> (x, s') = mux_serve c path r s) \<and>
    (sv_tlsAddr (po_server s) \<noteq> None \<longrightarrow> s' = s \<and>
       (\<forall>token. path = challenge_path @ token \<longrightarrow>
          x = Handled (case map_of (ca_challenges c) token of
                None \<Rightarrow> ReplyText 404 ''404 page not found'' | Some keyAuth \<Rightarrow> ReplyText 200 keyAuth) [] \<and>
          (\<forall>keyAuth m. ca_challenges c = Present token keyAuth m \<longrightarrow> x = Handled (ReplyText 200 keyAuth) [])) \<and>
       (path = ''/healthz'' \<longrightarrow> x = Sent healthz) \<and>
       (path \<noteq> ''/healthz'' \<and> \<not> has_prefix path challenge_path \<longrightarrow>
          x = Handled (ReplyRedirect (''https://'' @ (if TLSDomain cfg = [] then rq_host r else TLSDomain cfg) @ uri)) []))"
proof -
  have front: "sv_front (po_server s) = (if sv_tlsAddr (po_server s) = None then None else Some (TLSDomain cfg))"
    using apply_front_exact [of e flt cfg sv] assms(1-3) by simp
  have served: "listen False c path uri r s = (x, s')"
    using assms(4) by (auto simp: serve_request_def case_prod_beta prod_eq_iff)
  have "mux_match ''/healthz'' = Route Healthz" by code_simp
  then have health: "mux_serve c ''/healthz'' r s = (Sent healthz, s)" by (simp add: mux_serve_def)
  have paths: "\<not> has_prefix ''/healthz'' challenge_path" by code_simp
  show ?thesis
  proof (cases "sv_tlsAddr (po_server s)")
    case None
    with front served show ?thesis by (simp add: listen_def ServeHTTP_def)
  next
    case (Some addr)
    then have "redirectToHTTPS (TLSDomain cfg) c path uri r s = (x, s')"
      using front served by (simp add: listen_def ServeHTTP_def)
    then show ?thesis
      using Some health paths
      by (auto simp: redirectToHTTPS_def handleChallenge_def Present_def update_conv'
          simp flip: challenge_path_def split: if_splits)
  qed
qed

theorem plain_http_redirected_witness:
  "\<exists>sv. apply_listeners (demo_env second) False demo_redirecting (demo_server demo_redirecting) = (None, sv) \<and>
     fst (snd (serve_request False demo_call ''/admin'' ''/admin?x=1'' (demo_get []) \<lparr>po_server = sv, po_admins = []\<rparr>)) =
       Handled (ReplyRedirect ''https://p.org/admin?x=1'') [] \<and>
     fst (snd (serve_request False demo_call ''/.well-known/acme-challenge/tok'' ''/'' (demo_get []) \<lparr>po_server = sv, po_admins = []\<rparr>)) =
       Handled (ReplyText 200 ''tok.thumb'') []"
proof -
  let ?apply = "apply_listeners (demo_env second) False demo_redirecting (demo_server demo_redirecting)"
  define sv where "sv = snd ?apply"
  define s where "s = \<lparr>po_server = sv, po_admins = []\<rparr>"
  have cfg: "TLSMode demo_redirecting = TLSModeStandalone" "TLSRedirectHTTP demo_redirecting" "TLSDomain demo_redirecting = ''p.org''"
    by (simp_all add: demo_redirecting_def demo_standalone_def)
  have "fst ?apply = None" by (intro apply_binds) simp
  then have applied: "?apply = (None, po_server s)" by (simp add: sv_def s_def prod_eq_iff)
  then have tls: "sv_tlsAddr (po_server s) \<noteq> None" using apply_wanted [OF applied] cfg(1) by (simp add: wanted_def)
  note res = plain_http_redirected [OF applied cfg(1,2)]
  obtain h1 x1 l1 s1 where one: "serve_request False demo_call ''/admin'' ''/admin?x=1'' (demo_get []) s = (h1, x1, l1, s1)"
    by (metis prod_cases4)
  have admin: "''/admin'' \<noteq> ''/healthz'' \<and> \<not> has_prefix ''/admin'' challenge_path" by code_simp
  have "x1 = Handled (ReplyRedirect ''https://p.org/admin?x=1'') []"
    using res [OF one, THEN conjunct2, THEN mp, OF tls, THEN conjunct2, THEN conjunct2, THEN conjunct2, THEN mp, OF admin] cfg(3)
    by simp
  moreover obtain h2 x2 l2 s2 where two:
    "serve_request False demo_call ''/.well-known/acme-challenge/tok'' ''/'' (demo_get []) s = (h2, x2, l2, s2)"
    by (metis prod_cases4)
  have tok: "''/.well-known/acme-challenge/tok'' = challenge_path @ ''tok''" by code_simp
  have "x2 = Handled (ReplyText 200 ''tok.thumb'') []"
    using res [OF two, THEN conjunct2, THEN mp, OF tls, THEN conjunct2, THEN conjunct1, THEN spec, THEN mp, OF tok]
    by (simp add: demo_call_def)
  ultimately show ?thesis using applied one two by (auto simp: s_def)
qed

end
