(* ===== verification/Process.thy ===== *)
theory Process
  imports Serve
begin

text \<open>
  The process: what \<open>main\<close> does with its arguments, and \<open>runInit\<close>, which writes the templates
  (\<open>portal/main.go\<close>).  The lines of advice on standard error are left out.  The disk is a map from paths to
  content and mode; \<open>filepath.Abs\<close>, \<open>filepath.Join\<close>, the embedded templates and the errors of the file system
  are parameters.
\<close>

section \<open>Flags\<close>

datatype flag_error = BadSyntax string | HelpWanted | NotDefined string | NeedsArgument string

text \<open>One argument that is a flag: its name, and the value after the equals sign.\<close>

definition flag_name :: "string \<Rightarrow> string \<times> string option" where
  "flag_name name =
     (case name of
        [] \<Rightarrow> ([], None)
      | c # cs \<Rightarrow> (case cut_first CHR ''='' cs of None \<Rightarrow> (name, None) | Some (n, v) \<Rightarrow> (c # n, Some v)))"

text \<open>\<open>FlagSet.Parse\<close> with string flags only: the values set and the arguments that are left.\<close>

fun parse_flags :: "(string \<times> string) list \<Rightarrow> string list \<Rightarrow> flag_error + (string \<times> string) list \<times> string list" where
  "parse_flags flags [] = Inr (flags, [])"
| "parse_flags flags (s # args) =
     (if length s < 2 \<or> hd s \<noteq> CHR ''-'' then Inr (flags, s # args)
      else if s = ''--'' then Inr (flags, args)
      else (let name = (if has_prefix s ''--'' then drop 2 s else tl s)
            in if name = [] \<or> hd name = CHR ''-'' \<or> hd name = CHR ''='' then Inl (BadSyntax s)
               else (case flag_name name of (n, v) \<Rightarrow>
                 if map_of flags n = None
                 then Inl (if n = ''help'' \<or> n = ''h'' then HelpWanted else NotDefined n)
                 else (case v of
                         Some x \<Rightarrow> parse_flags (AList.update n x flags) args
                       | None \<Rightarrow> (case args of
                             [] \<Rightarrow> Inl (NeedsArgument n)
                           | x # rest \<Rightarrow> parse_flags (AList.update n x flags) rest)))))"

definition init_flags :: "(string \<times> string) list" where
  "init_flags = [(''out-dir'', ''.''), (''conf-dir'', []), (''data-dir'', ''/var/lib/wifi-portal''),
     (''bin-path'', ''/usr/local/bin/wifi-portal'')]"


section \<open>Templates\<close>

type_synonym files = "string \<rightharpoonup> string \<times> nat"

record init_env =
  ie_abs :: "string \<Rightarrow> string option"
  ie_join :: "string \<Rightarrow> string \<Rightarrow> string"
  ie_envExample :: string
  ie_systemdUnit :: string
  ie_mkdir :: "string \<Rightarrow> bool"
  ie_write :: "string \<Rightarrow> bool"

text \<open>\<open>strings.ReplaceAll\<close>, for a text that is not empty.\<close>

function replace_all :: "string \<Rightarrow> string \<Rightarrow> string \<Rightarrow> string" where
  "replace_all old new [] = []"
| "replace_all old new (c # cs) =
     (if has_prefix (c # cs) old then new @ replace_all old new (drop (length old - 1) cs)
      else c # replace_all old new cs)"
  by pat_completeness auto
termination by (relation "measure (\<lambda>(old, new, s). length s)") auto

definition env_header :: "string \<Rightarrow> string \<Rightarrow> string \<Rightarrow> string" where
  "env_header confDir dataDir binPath =
     join nl
      [''# Generated by `wifi-portal init`. Actual deployment paths are aligned in this .env:'',
       ''#'',
       ''#   Config file       '' @ confDir @ ''/wifi-portal.env       (systemd EnvironmentFile=)'',
       ''#   Data directory    '' @ dataDir @ ''     (DATA_DIR + systemd ReadWritePaths=)'',
       ''#   Binary            '' @ binPath @ ''   (systemd ExecStart=)'',
       ''#'',
       ''# To change paths, rerun init with flags:'',
       ''#   wifi-portal init --conf-dir <path> --data-dir <path> --bin-path <path> --out-dir <path>'',
       ''#'',
       ''# Key overrides for bare binary / systemd:'',
       ''#   LISTEN_ADDR=127.0.0.1:28080    # loopback, reverse-proxy access'',
       ''#   DATA_DIR='' @ dataDir @ ''    # defaulted here, matches systemd ReadWritePaths'',
       ''#   TZ=UTC'',
       ''#   TRUST_PROXY=true               # set when a reverse proxy terminates connections'',
       ''# ----------------------------------------------------------------------'',
       [],
       ''DATA_DIR='' @ dataDir,
       []]"

definition unit_content :: "string \<Rightarrow> string \<Rightarrow> string \<Rightarrow> string \<Rightarrow> string" where
  "unit_content template confDir dataDir binPath =
     replace_all ''__BIN_PATH__'' binPath (replace_all ''__DATA_DIR__'' dataDir (replace_all ''__CONF_DIR__'' confDir template))"

datatype init_error =
    FlagError flag_error | PositionalArg string | AbsFailed string | MkdirFailed string | WriteFailed string

text \<open>An existing file is never overwritten; the first error of a write ends the command.\<close>

fun write_new :: "init_env \<Rightarrow> (string \<times> string \<times> nat) list \<Rightarrow> files \<Rightarrow> init_error option \<times> files" where
  "write_new e [] d = (None, d)"
| "write_new e ((dst, content, mode) # items) d =
     (if d dst \<noteq> None then write_new e items d
      else if ie_write e dst then (Some (WriteFailed dst), d)
      else write_new e items (d(dst \<mapsto> (content, mode))))"

definition runInit :: "init_env \<Rightarrow> string list \<Rightarrow> files \<Rightarrow> init_error option \<times> files" where
  "runInit e args d =
     (case parse_flags init_flags args of
        Inl err \<Rightarrow> (Some (FlagError err), d)
      | Inr (flags, rest) \<Rightarrow>
          (case rest of
             a # _ \<Rightarrow> (Some (PositionalArg a), d)
           | [] \<Rightarrow>
               (let value = get_value flags; outDir = value ''out-dir''; dataDir = value ''data-dir''; binPath = value ''bin-path''
                in case ie_abs e outDir of
                     None \<Rightarrow> (Some (AbsFailed outDir), d)
                   | Some absOut \<Rightarrow>
                       (let confDir = (if value ''conf-dir'' = [] then absOut else value ''conf-dir'')
                        in if ie_mkdir e absOut then (Some (MkdirFailed absOut), d)
                           else write_new e
                             [(ie_join e absOut ''wifi-portal.env'', env_header confDir dataDir binPath @ ie_envExample e, 384),
                              (ie_join e absOut ''wifi-portal.service'',
                               unit_content (ie_systemdUnit e) confDir dataDir binPath, 420)] d))))"


section \<open>The arguments of the process\<close>

datatype process = Command cli_result | Templates "init_error option" files | Portal outcome

text \<open>A subcommand, \<open>init\<close>, the templates of a first run, or the portal.\<close>

definition main_run ::
  "cli_env \<Rightarrow> init_env \<Rightarrow> start_world \<Rightarrow> string list \<Rightarrow> cli_db \<Rightarrow> files \<Rightarrow> persisted \<Rightarrow> process" where
  "main_run ce ie w args db d p =
     (case runCLI ce args db of
        Some res \<Rightarrow> Command res
      | None \<Rightarrow>
          if args \<noteq> [] \<and> hd args = ''init''
          then (case runInit ie (tl args) d of (err, d') \<Rightarrow> Templates err d')
          else if looksUninitialized (sw_getenv w)
          then (case runInit ie [] d of (err, d') \<Rightarrow> Templates err d')
          else Portal (start w p))"


section \<open>Lemmas\<close>

lemma write_new_keeps: "write_new e items d = (err, d') \<Longrightarrow> d f \<noteq> None \<Longrightarrow> d' f = d f"
  by (induction e items d arbitrary: err d' rule: write_new.induct) (auto split: if_splits)

lemma write_new_done: "write_new e items d = (None, d') \<Longrightarrow> (dst, content, mode) \<in> set items \<Longrightarrow> d' dst \<noteq> None"
proof (induction e items d arbitrary: d' rule: write_new.induct)
  case (2 e dst' content' mode' items d)
  show ?case
  proof (cases "dst = dst'")
    case True
    with 2(3) show ?thesis
      using write_new_keeps [of e items d None d' dst] write_new_keeps [of e items "d(dst' \<mapsto> (content', mode'))" None d' dst]
      by (auto split: if_splits)
  next
    case False
    with 2 show ?thesis by (auto simp del: fun_upd_apply split: if_splits)
  qed
qed simp

text \<open>No run of \<open>init\<close> changes a file that exists, and one that succeeds leaves both templates in place.\<close>

lemma runInit_keeps: "runInit e args d = (err, d') \<Longrightarrow> d f \<noteq> None \<Longrightarrow> d' f = d f"
  by (auto simp: runInit_def Let_def dest: write_new_keeps split: sum.splits prod.splits list.splits option.splits if_splits)

text \<open>The command that the usage text shows, \<open>init\<close> with a directory, is always refused.\<close>

lemma init_dir_refused:
  assumes "dir \<noteq> []" "hd dir \<noteq> CHR ''-''"
  shows "runInit e [dir] d = (Some (PositionalArg dir), d)"
  using assms by (simp add: runInit_def)

text \<open>With no variable of the start set, a process without arguments writes the templates and never starts the portal.\<close>

lemma first_run:
  "\<forall>k. getenv k = [] \<Longrightarrow> sw_getenv w = getenv \<Longrightarrow> \<exists>err d'. main_run ce ie w [] db d p = Templates err d'"
  by (auto simp: main_run_def runCLI_def looksUninitialized_def legacy_vars_def split: prod.split)

end
