(* ===== verification/DuoApi.thy ===== *)
theory DuoApi
  imports Duo Secret
begin

text \<open>
  The signed call of the Duo Auth API and its preauth, \<open>portal/duo.go\<close>.  The transport, the date and the
  decoding of the two JSON documents are parameters; an answer that is too large counts as an error.
\<close>

record http_request =
  hr_method :: string
  hr_url :: string
  hr_headers :: "(string \<times> string) list"
  hr_body :: string

datatype call_error = CallRequest | CallTransport | CallBody | CallJSON | CallAPI string int string | CallResponse

text \<open>The outer document: \<open>stat\<close>, \<open>code\<close>, \<open>message\<close> and the raw response.\<close>

record duoEnvelope =
  dv_Stat :: string
  dv_Code :: int
  dv_Message :: string
  dv_Response :: string

record duo_net =
  dn_date :: string
  dn_valid :: "string \<Rightarrow> bool"
  dn_do :: "http_request \<Rightarrow> string option"
  dn_envelope :: "string \<Rightarrow> duoEnvelope option"

definition signed_request ::
  "(string \<Rightarrow> string \<Rightarrow> string) \<Rightarrow> string \<Rightarrow> DuoClient \<Rightarrow> string \<Rightarrow> string \<Rightarrow> (string \<times> string list) list \<Rightarrow> http_request" where
  "signed_request hmac1 date c method path params =
     (let canonParams = canonicalParams params;
          auth = ''Basic '' @ std_encode (duo_credentials hmac1 c date method path canonParams);
          fullURL = ''https://'' @ dc_apiHost c @ path;
          common = [(''Date'', date), (''Authorization'', auth), (''User-Agent'', ''KazuhaHub-Portal/1.0'')]
      in if method = ''POST''
         then \<lparr>hr_method = method, hr_url = fullURL,
               hr_headers = (''Content-Type'', ''application/x-www-form-urlencoded'') # common, hr_body = canonParams\<rparr>
         else \<lparr>hr_method = method, hr_url = (if canonParams \<noteq> [] then fullURL @ ''?'' @ canonParams else fullURL),
               hr_headers = common, hr_body = []\<rparr>)"

text \<open>\<open>decode\<close> reads the response into the caller's structure, whose zero value is \<open>out\<close>.\<close>

definition duo_call ::
  "(string \<Rightarrow> string \<Rightarrow> string) \<Rightarrow> duo_net \<Rightarrow> (string \<Rightarrow> 'a option) \<Rightarrow> 'a \<Rightarrow> DuoClient \<Rightarrow> string \<Rightarrow> string \<Rightarrow>
   (string \<times> string list) list \<Rightarrow> call_error + 'a" where
  "duo_call hmac1 net decode out c method path params =
     (let req = signed_request hmac1 (dn_date net) c method path params
      in if \<not> dn_valid net (hr_url req) then Inl CallRequest
         else (case dn_do net req of
             None \<Rightarrow> Inl CallTransport
           | Some answer \<Rightarrow>
               (case readBoundedBody answer duoMaxResponseBytes of
                  None \<Rightarrow> Inl CallBody
                | Some body \<Rightarrow>
                    (case dn_envelope net body of
                       None \<Rightarrow> Inl CallJSON
                     | Some env \<Rightarrow>
                         if dv_Stat env \<noteq> ''OK'' then Inl (CallAPI (dv_Message env) (dv_Code env) (dv_Stat env))
                         else if dv_Response env = [] then Inr out
                         else (case decode (dv_Response env) of None \<Rightarrow> Inl CallResponse | Some x \<Rightarrow> Inr x)))))"

definition Preauth ::
  "(string \<Rightarrow> string \<Rightarrow> string) \<Rightarrow> duo_net \<Rightarrow> (string \<Rightarrow> PreauthResult option) \<Rightarrow> DuoClient \<Rightarrow> string \<Rightarrow> call_error + PreauthResult" where
  "Preauth hmac1 net decode c username =
     duo_call hmac1 net decode \<lparr>pre_Result = [], pre_Devices = 0\<rparr> c ''POST'' ''/auth/v2/preauth'' [(''username'', [username])]"

definition truncate_body :: "string \<Rightarrow> nat \<Rightarrow> string" where
  "truncate_body s n = (if length s \<le> n then s else take n s @ ''...'')"

text \<open>
  The parameters are escaped: whatever the name of a user is, the body of a preauth has exactly one
  parameter, so no name can add another, and the signature covers the body.
\<close>

lemma rfc3986_plain: "c \<in> set (rfc3986Escape s) \<Longrightarrow> c \<noteq> CHR ''&'' \<and> c \<noteq> CHR ''=''"
  using escape_no_delim [of _ s] by (fastforce simp: rfc3986Escape_def split: if_splits)

lemma preauth_body:
  "hr_body (signed_request hmac1 date c ''POST'' path [(''username'', [u])]) = ''username='' @ rfc3986Escape u \<and>
   split_on CHR ''&'' (hr_body (signed_request hmac1 date c ''POST'' path [(''username'', [u])])) = [''username='' @ rfc3986Escape u]"
proof -
  have "rfc3986Escape ''username'' = ''username''" by code_simp
  then have body: "hr_body (signed_request hmac1 date c ''POST'' path [(''username'', [u])]) = ''username='' @ rfc3986Escape u"
    by (simp add: signed_request_def canonicalParams_def Let_def)
  have "CHR ''&'' \<notin> set (''username='' @ rfc3986Escape u)" using rfc3986_plain by auto
  from split_on_no_sep [OF this] body show ?thesis by simp
qed

lemma preauth_ok:
  "Preauth hmac1 net decode c u = Inr pre \<Longrightarrow>
     \<exists>answer env. dn_do net (signed_request hmac1 (dn_date net) c ''POST'' ''/auth/v2/preauth'' [(''username'', [u])]) = Some answer \<and>
       int (length answer) \<le> duoMaxResponseBytes \<and> dn_envelope net answer = Some env \<and> dv_Stat env = ''OK''"
  by (auto simp: Preauth_def duo_call_def Let_def readBoundedBody_def split: if_splits option.splits)

end
