(* ===== verification/RenewalLoop.thy ===== *)
theory RenewalLoop
  imports Certs
begin

text \<open>
  The loop that renews the certificate (\<open>App.renewalLoop\<close> of \<open>portal/acme.go\<close>) and what it achieves over
  time.  The loop runs in a goroutine that nothing stops: the first check a minute after the start, the
  next one twelve hours after a check has ended.  A \<open>tick\<close> is one round of it: how late the goroutine is
  woken, how long the check takes, the answers of the certificate authority, the nonces of the encryption
  and the database statements that fail.  A finite list of ticks is a prefix of the endless run.
\<close>

section \<open>The loop\<close>

record tick =
  tk_late :: duration
  tk_took :: duration
  tk_client :: "string \<Rightarrow> bool \<Rightarrow> lego"
  tk_nonce :: "nat \<Rightarrow> string option"
  tk_flt :: "nat \<Rightarrow> bool"

definition renewalInterval :: duration where "renewalInterval = 12 * hour"

text \<open>When the timer first fires.\<close>

definition renewal_start :: "time \<Rightarrow> time" where "renewal_start now = now + minute"

text \<open>One check, at the time the goroutine runs.\<close>

definition renewal_check ::
  "crypto \<Rightarrow> tlslib \<Rightarrow> Config \<Rightarrow> time \<Rightarrow> tick \<Rightarrow> keypair option \<times> certRow list \<Rightarrow> keypair option \<times> certRow list" where
  "renewal_check c lib cfg fire k st =
     renewIfNeeded (c\<lparr>cr_nonce := tk_nonce k\<rparr>) lib (tk_client k) (tk_flt k) fire cfg st"

text \<open>The time of the next check and the state before it.\<close>

fun renewalLoop ::
  "crypto \<Rightarrow> tlslib \<Rightarrow> Config \<Rightarrow> time \<Rightarrow> tick list \<Rightarrow> keypair option \<times> certRow list \<Rightarrow>
   time \<times> keypair option \<times> certRow list" where
  "renewalLoop c lib cfg timer [] st = (timer, st)"
| "renewalLoop c lib cfg timer (k # ks) st =
     (let fire = timer + tk_late k
      in renewalLoop c lib cfg (fire + tk_took k + renewalInterval) ks (renewal_check c lib cfg fire k st))"


section \<open>What the loop may rely on\<close>

abbreviation day :: duration where "day \<equiv> 24 * hour"

definition tick_lego :: "Config \<Rightarrow> tick \<Rightarrow> lego" where
  "tick_lego cfg k = tk_client k (ACMEEmail cfg) (ACMEStaging cfg)"

text \<open>
  A tick keeps its time when waking and checking take at most twelve hours, the nonces have their size, an
  account key is PEM text, the certificate obtained, if any, is good for sixty days, and the read that
  installs it does not fail.
\<close>

definition usable_lego :: "tlslib \<Rightarrow> time \<Rightarrow> lego \<Rightarrow> bool" where
  "usable_lego lib fire l \<longleftrightarrow>
     (case lg_gen l of Inl _ \<Rightarrow> True | Inr key \<Rightarrow> \<not> has_prefix key Prefix) \<and>
     (case lg_obtain l of
        Inl _ \<Rightarrow> True
      | Inr (cert, key) \<Rightarrow> cert \<noteq> [] \<and> key \<noteq> [] \<and> \<not> has_prefix key Prefix \<and>
          (case tl_leaf lib cert of Inl _ \<Rightarrow> True | Inr leaf \<Rightarrow> fire + 60 * day \<le> lf_notAfter leaf))"

definition tick_ok :: "tlslib \<Rightarrow> Config \<Rightarrow> time \<Rightarrow> tick \<Rightarrow> bool" where
  "tick_ok lib cfg timer k \<longleftrightarrow>
     0 \<le> tk_late k \<and> 0 \<le> tk_took k \<and> tk_late k + tk_took k \<le> 12 * hour \<and>
     list_all (\<lambda>i. case tk_nonce k i of None \<Rightarrow> True | Some n \<Rightarrow> length n = nonce_size) [0, 1] \<and>
     usable_lego lib (timer + tk_late k) (tick_lego cfg k) \<and> \<not> tk_flt k 5"

text \<open>A tick whose check, should it order a certificate, gets one and stores it.\<close>

definition tick_issues :: "crypto \<Rightarrow> tlslib \<Rightarrow> Config \<Rightarrow> tick \<Rightarrow> bool" where
  "tick_issues c lib cfg k \<longleftrightarrow>
     (let l = tick_lego cfg k
      in lg_client l = None \<and> lg_resolve l = None \<and> \<not> tk_flt k 3 \<and> (cr_keys c = None \<or> tk_nonce k 1 \<noteq> None) \<and>
         (case lg_gen l of Inl _ \<Rightarrow> False | Inr _ \<Rightarrow> True) \<and> (case lg_register l of Inl _ \<Rightarrow> False | Inr _ \<Rightarrow> True) \<and>
         (case lg_obtain l of
            Inl _ \<Rightarrow> False
          | Inr (cert, key) \<Rightarrow> tl_pair lib cert key = None \<and> (case tl_leaf lib cert of Inl _ \<Rightarrow> False | Inr _ \<Rightarrow> True)))"

text \<open>No 28 ticks in a row fail, where \<open>j\<close> have failed before; every tick keeps its time.\<close>

fun steady :: "crypto \<Rightarrow> tlslib \<Rightarrow> Config \<Rightarrow> time \<Rightarrow> nat \<Rightarrow> tick list \<Rightarrow> bool" where
  "steady c lib cfg timer j [] = (j < 28)"
| "steady c lib cfg timer j (k # ks) =
     (j < 28 \<and> tick_ok lib cfg timer k \<and>
      steady c lib cfg (timer + tk_late k + tk_took k + renewalInterval)
        (if tick_issues c lib cfg k then 0 else Suc j) ks)"


section \<open>Lemmas\<close>

text \<open>The stored account is absent or can be decrypted to a key.\<close>

definition account_ok :: "crypto \<Rightarrow> certRow \<Rightarrow> bool" where
  "account_ok c row \<longleftrightarrow> ce_account row = [] \<or>
     (case Decrypt (cr_aead c) (cr_keys c) (ce_account row) of Inl _ \<Rightarrow> False | Inr key \<Rightarrow> \<not> has_prefix key Prefix)"

text \<open>What an order that fails leaves of a row.\<close>

definition same_cert :: "certRow \<Rightarrow> certRow \<Rightarrow> bool" where
  "same_cert r r' \<longleftrightarrow> ce_cert r' = ce_cert r \<and> ce_key r' = ce_key r \<and> ce_source r' = ce_source r \<and>
     ce_notAfter r' = ce_notAfter r"

lemma same_cert_refl [simp]: "same_cert r r" by (simp add: same_cert_def)

lemma same_cert_trans: "same_cert r r' \<Longrightarrow> same_cert r' r'' \<Longrightarrow> same_cert r r''" by (simp add: same_cert_def)

lemma loads_same_cert:
  assumes "Load_cert c lib False d tbl = (None, Some pair, Some row)" "cert_at tbl' d = Some row'" "same_cert row row'"
  shows "Load_cert c lib False d tbl' = (None, Some pair, Some row')"
  using assms by (auto simp: Load_cert_def same_cert_def split: option.splits sum.splits if_splits)

lemma loaded_row: "Load_cert c lib flt d tbl = (err, p, Some row) \<Longrightarrow> cert_at tbl d = Some row"
  by (auto simp: Load_cert_def split: option.splits sum.splits if_splits)

lemma RecordFailure_row:
  assumes "cert_at tbl d = Some row" "account_ok c row"
  shows "\<exists>row'. cert_at (RecordFailure flt now d reason tbl) d = Some row' \<and> same_cert row row' \<and> account_ok c row'"
  using assms by (auto simp: RecordFailure_def find_assign_cert same_cert_def account_ok_def)

lemma fresh_key_plain:
  assumes "loadOrCreateAccountKey c l flt d tbl = Inr (key, url)" "cert_at tbl d = Some row" "account_ok c row"
    and "usable_lego lib fire l"
  shows "\<not> has_prefix key Prefix"
  using assms
  by (auto simp: loadOrCreateAccountKey_def account_ok_def usable_lego_def Let_def split: sum.splits option.splits if_splits)

lemma saveAccount_row:
  assumes "aead_ok (cr_aead c)" "\<And>n. cr_nonce c i = Some n \<Longrightarrow> length n = nonce_size" "\<not> has_prefix key Prefix"
    and "cert_at tbl d = Some row" "account_ok c row"
  shows "\<exists>row'. cert_at (saveAccount c flt i now d key url tbl) d = Some row' \<and> same_cert row row' \<and> account_ok c row'"
proof (cases "Encrypt (cr_aead c) (cr_keys c) (cr_nonce c i) key")
  case (Inl e)
  with assms(4,5) show ?thesis by (simp add: saveAccount_def)
next
  case (Inr enc)
  have "Decrypt (cr_aead c) (cr_keys c) enc = Inr key"
    by (rule Decrypt_Encrypt [OF assms(1,3) _ Inr]) (rule assms(2))
  with assms(3-5) Inr show ?thesis
    by (auto simp: saveAccount_def find_assign_cert same_cert_def account_ok_def)
qed

lemma acme_account_row:
  assumes "acme_account c l flt now d acc tbl = (err, tbl1)" "\<not> has_prefix (fst acc) Prefix"
    and "aead_ok (cr_aead c)" "\<And>n. cr_nonce c 0 = Some n \<Longrightarrow> length n = nonce_size"
    and "cert_at tbl d = Some row" "account_ok c row"
  shows "\<exists>row'. cert_at tbl1 d = Some row' \<and> same_cert row row' \<and> account_ok c row'"
  using assms saveAccount_row [OF assms(3,4) _ assms(5,6)]
  by (cases acc) (auto simp: acme_account_def split: if_splits sum.splits option.splits)

lemma Save_cert_stored:
  assumes "Save_cert c lib flt i now d source cert key tbl = (None, tbl')" "aead_ok (cr_aead c)"
    and "\<And>n. cr_nonce c i = Some n \<Longrightarrow> length n = nonce_size" "cert \<noteq> []" "key \<noteq> []" "\<not> has_prefix key Prefix"
    and "tl_leaf lib cert = Inr leaf" "\<not> is_zero (lf_notAfter leaf)"
  shows "\<exists>row. Load_cert c lib False d tbl' = (None, Some (cert, key), Some row) \<and> ce_source row = source \<and>
    ce_notAfter row = lf_notAfter leaf \<and> account_ok c row"
proof -
  obtain leaf' enc where ok: "tl_leaf lib cert = Inr leaf'" "tl_pair lib cert key = None"
    "Encrypt (cr_aead c) (cr_keys c) (cr_nonce c i) key = Inr enc" "\<not> flt"
    "tbl' = save_row ce_domain (saved_cert now d source cert enc leaf') tbl"
    by (rule Save_cert_ok [OF assms(1)])
  have "Decrypt (cr_aead c) (cr_keys c) enc = Inr key"
    by (rule Decrypt_Encrypt [OF assms(2,6) _ ok(3)]) (rule assms(3))
  moreover from this have "enc \<noteq> []" using assms(5) by (auto simp: Decrypt_def)
  moreover have "ce_notAfter (saved_cert now d source cert enc leaf') = lf_notAfter leaf"
    using ok(1) assms(7,8) by (simp add: saved_cert_def cert_before_save_def)
  ultimately show ?thesis using assms(4) ok by (simp add: Load_cert_def find_save_row account_ok_def)
qed

text \<open>One order: either the certificate is kept with its key, source and end, or a new one is stored.\<close>

lemma Issue_run:
  assumes "Issue c lib client flt now req tbl = (err, tbl')" "aead_ok (cr_aead c)"
    and "list_all (\<lambda>i. case cr_nonce c i of None \<Rightarrow> True | Some n \<Rightarrow> length n = nonce_size) [0, 1]"
    and "usable_lego lib now (client (ar_email req) (ar_staging req))" "zero_time \<le> now"
    and "cert_at tbl (ar_domain req) = Some row" "account_ok c row"
  shows "err \<noteq> None \<and> (\<exists>row'. cert_at tbl' (ar_domain req) = Some row' \<and> same_cert row row' \<and> account_ok c row') \<or>
    err = None \<and> (\<exists>pair row'. Load_cert c lib False (ar_domain req) tbl' = (None, Some pair, Some row') \<and>
       ce_source row' = CertSourceACME \<and> now + 60 * day \<le> ce_notAfter row' \<and> account_ok c row')"
proof -
  have nonces: "cr_nonce c 0 = Some n \<Longrightarrow> length n = nonce_size" "cr_nonce c 1 = Some n \<Longrightarrow> length n = nonce_size" for n
    using assms(3) by (auto split: option.splits)
  show ?thesis
  using assms(1)
proof (cases rule: Issue_cases)
  case early
  with assms(6,7) show ?thesis by auto
next
  case (refused acc err')
  have "\<not> has_prefix (fst acc) Prefix"
    using fresh_key_plain [OF _ assms(6,7,4)] refused(3) by (cases acc) auto
  with acme_account_row [OF refused(2) _ assms(2) nonces(1) assms(6,7)] refused(1) show ?thesis by auto
next
  case (saved acc tbl1 cert key)
  have "\<not> has_prefix (fst acc) Prefix"
    using fresh_key_plain [OF _ assms(6,7,4)] saved(4) by (cases acc) auto
  then obtain row1 where row1: "cert_at tbl1 (ar_domain req) = Some row1" "same_cert row row1" "account_ok c row1"
    using acme_account_row [OF saved(1) _ assms(2) nonces(1) assms(6,7)] by auto
  show ?thesis
  proof (cases err)
    case None
    then obtain leaf where leaf: "tl_leaf lib cert = Inr leaf" using saved(3) by (auto elim: Save_cert_ok)
    with assms(4) saved(2) have usable: "cert \<noteq> []" "key \<noteq> []" "\<not> has_prefix key Prefix"
      "now + 60 * day \<le> lf_notAfter leaf" by (auto simp: usable_lego_def)
    then have "\<not> is_zero (lf_notAfter leaf)" using assms(5) by (auto simp: is_zero_def duration_defs)
    with Save_cert_stored [of c lib "flt 2" 1 now "ar_domain req" CertSourceACME cert key tbl1 tbl' leaf]
      saved(3) None assms(2) nonces(2) usable leaf show ?thesis by auto
  next
    case (Some e)
    with saved(3) Save_cert_error have "tbl' = tbl1" by blast
    with row1 Some show ?thesis by auto
  qed
qed
qed

text \<open>An order that meets no obstacle succeeds.\<close>

lemma Issue_succeeds:
  assumes "tick_issues c lib cfg k" "TLSDomain cfg \<noteq> []" "ACMEEmail cfg \<noteq> []"
    and "cert_at tbl (TLSDomain cfg) = Some row" "account_ok c row"
  shows "fst (Issue (c\<lparr>cr_nonce := tk_nonce k\<rparr>) lib (tk_client k) (\<lambda>i. tk_flt k (Suc i)) now
     \<lparr>ar_domain = TLSDomain cfg, ar_email = ACMEEmail cfg, ar_staging = ACMEStaging cfg\<rparr> tbl) = None"
proof -
  let ?c = "c\<lparr>cr_nonce := tk_nonce k\<rparr>" and ?l = "tick_lego cfg k" and ?d = "TLSDomain cfg"
  obtain gen uri cert key leaf where l: "lg_client ?l = None" "lg_resolve ?l = None" "lg_gen ?l = Inr gen"
    "lg_register ?l = Inr uri" "lg_obtain ?l = Inr (cert, key)" "tl_pair lib cert key = None" "tl_leaf lib cert = Inr leaf"
    and ok: "\<not> tk_flt k 3" "cr_keys c = None \<or> tk_nonce k 1 \<noteq> None"
    using assms(1) by (auto simp: tick_issues_def Let_def split: sum.splits)
  have "\<exists>acc. loadOrCreateAccountKey ?c ?l (tk_flt k 1) ?d tbl = Inr acc"
    using assms(4,5) l(3) by (auto simp: loadOrCreateAccountKey_def account_ok_def Let_def split: sum.splits)
  then obtain acc where acc: "loadOrCreateAccountKey ?c ?l (tk_flt k 1) ?d tbl = Inr acc" ..
  have "fst (acme_account ?c ?l (tk_flt k 2) now ?d acc tbl) = None"
    using l(2,4) by (cases acc) (simp add: acme_account_def)
  then obtain tbl1 where account: "acme_account ?c ?l (tk_flt k 2) now ?d acc tbl = (None, tbl1)" by (metis prod.collapse)
  have "\<exists>enc. Encrypt (cr_aead c) (cr_keys c) (tk_nonce k 1) key = Inr enc"
    using ok(2) by (cases "cr_keys c") (auto simp: Encrypt_def)
  then have "fst (Save_cert ?c lib (tk_flt k 3) 1 now ?d CertSourceACME cert key tbl1) = None"
    using l(6,7) ok(1) by (auto simp: Save_cert_def)
  then show ?thesis
    using assms(2,3) acc account l(1,5)
    by (simp add: Issue_def Let_def tick_lego_def numeral_2_eq_2 numeral_3_eq_3)
qed

lemma not_due: "\<not> needsRenewal fire (Some row) \<Longrightarrow> fire + 30 * day \<le> ce_notAfter row"
  by (auto simp: needsRenewal_def time_sub_def renewBefore_def duration_defs split: if_splits)

text \<open>One check: the certificate that is served is the stored one; it is kept, or good for sixty days.\<close>

lemma renewal_check_step:
  assumes "tick_ok lib cfg timer k" "aead_ok (cr_aead c)" "zero_time \<le> timer"
    and "TLSMode cfg = TLSModeStandalone" "ACMEEnabled cfg" "TLSDomain cfg \<noteq> []" "ACMEEmail cfg \<noteq> []"
    and "Load_cert c lib False (TLSDomain cfg) tbl = (None, Some pair, Some row)"
    and "ce_source row \<noteq> CertSourceManual" "account_ok c row"
    and "renewal_check c lib cfg (timer + tk_late k) k (Some pair, tbl) = (served', tbl')"
  shows "\<exists>pair' row'. Load_cert c lib False (TLSDomain cfg) tbl' = (None, Some pair', Some row') \<and> served' = Some pair' \<and>
    ce_source row' \<noteq> CertSourceManual \<and> account_ok c row' \<and>
    (timer + tk_late k + 60 * day \<le> ce_notAfter row' \<or>
     ce_notAfter row' = ce_notAfter row \<and> (tick_issues c lib cfg k \<longrightarrow> timer + tk_late k + 30 * day \<le> ce_notAfter row))"
proof -
  let ?c = "c\<lparr>cr_nonce := tk_nonce k\<rparr>" and ?d = "TLSDomain cfg" and ?fire = "timer + tk_late k"
  let ?req = "\<lparr>ar_domain = TLSDomain cfg, ar_email = ACMEEmail cfg, ar_staging = ACMEStaging cfg\<rparr>"
  have load_c: "Load_cert ?c lib f d t = Load_cert c lib f d t" for f d t
    by (simp add: Load_cert_def split: option.split sum.split)
  have account_c: "account_ok ?c r = account_ok c r" for r by (simp add: account_ok_def)
  have row: "cert_at tbl ?d = Some row" using assms(8) by (rule loaded_row)
  obtain err tbl1 where issue: "Issue ?c lib (tk_client k) (\<lambda>i. tk_flt k (Suc i)) ?fire ?req tbl = (err, tbl1)" by fastforce
  let ?idle = "(served', tbl') = (Some pair, tbl) \<and> \<not> needsRenewal ?fire (Some row)"
  let ?ran = "(served', tbl') = (case err of
      Some e \<Rightarrow> (Some pair, RecordFailure (tk_flt k 4) ?fire ?d e tbl1)
    | None \<Rightarrow> (install_cert ?c lib (tk_flt k 5) ?d tbl1 (Some pair), tbl1))"
  have "?idle \<or> ?ran"
  proof (cases "tk_flt k 0")
    case True
    with assms(4-7,11) issue show ?thesis
      by (auto simp: renewal_check_def renewIfNeeded_def Let_def load_c Load_cert_def needsRenewal_def split: option.splits)
  next
    case False
    with assms(4-9,11) issue show ?thesis
      by (auto simp: renewal_check_def renewIfNeeded_def Let_def load_c split: if_splits option.splits)
  qed
  then show ?thesis
  proof
    assume ?idle
    with assms(8-10) not_due show ?thesis by blast
  next
    assume ran: ?ran
    have "zero_time \<le> ?fire" using assms(1,3) by (simp add: tick_ok_def)
    with Issue_run [OF issue, of row] assms(1,2,10) row
    consider (failed) e row1 where "err = Some e" "cert_at tbl1 ?d = Some row1" "same_cert row row1" "account_ok c row1"
      | (stored) pair1 row1 where "err = None" "Load_cert c lib False ?d tbl1 = (None, Some pair1, Some row1)"
          "ce_source row1 = CertSourceACME" "?fire + 60 * day \<le> ce_notAfter row1" "account_ok c row1"
      by (auto simp: tick_ok_def tick_lego_def load_c account_c)
    then show ?thesis
    proof cases
      case failed
      then have no: "\<not> tick_issues c lib cfg k"
        using Issue_succeeds [OF _ assms(6,7) row assms(10), of lib k ?fire] issue by auto
      obtain row' where "cert_at tbl' ?d = Some row'" "same_cert row1 row'" "account_ok c row'" "served' = Some pair"
        using ran failed RecordFailure_row [OF failed(2,4), of "tk_flt k 4" ?fire e] by auto
      moreover from this(2) failed(3) have same: "same_cert row row'" by (rule same_cert_trans [rotated])
      ultimately have "Load_cert c lib False ?d tbl' = (None, Some pair, Some row')" using loads_same_cert [OF assms(8)] by blast
      with no same assms(9) \<open>account_ok c row'\<close> \<open>served' = Some pair\<close> show ?thesis by (auto simp: same_cert_def)
    next
      case stored
      then have "served' = Some pair1" "tbl' = tbl1"
        using ran assms(1) by (simp_all add: install_cert_def load_c tick_ok_def)
      with stored show ?thesis by (auto simp: CertSourceACME_def CertSourceManual_def)
    qed
  qed
qed

lemma steady_take: "steady c lib cfg timer j ticks \<Longrightarrow> steady c lib cfg timer j (take n ticks)"
proof (induction ticks arbitrary: timer j n)
  case (Cons k ks)
  then show ?case by (cases n) auto
qed simp

lemma renewalLoop_inv:
  assumes "aead_ok (cr_aead c)"
    and "TLSMode cfg = TLSModeStandalone" "ACMEEnabled cfg" "TLSDomain cfg \<noteq> []" "ACMEEmail cfg \<noteq> []"
    and "steady c lib cfg timer j ticks" "zero_time \<le> timer"
    and "Load_cert c lib False (TLSDomain cfg) tbl = (None, Some pair, Some row)"
    and "ce_source row \<noteq> CertSourceManual" "account_ok c row" "timer + 29 * day \<le> ce_notAfter row + int j * day"
    and "renewalLoop c lib cfg timer ticks (Some pair, tbl) = (timer', served, tbl')"
  shows "\<exists>pair' row'. Load_cert c lib False (TLSDomain cfg) tbl' = (None, Some pair', Some row') \<and>
    served = Some pair' \<and> timer' + 2 * day \<le> ce_notAfter row'"
  using assms(6-12)
proof (induction ticks arbitrary: timer j pair tbl row)
  case Nil
  then have "int j * day \<le> 27 * day" by (intro mult_right_mono) (auto simp: duration_defs)
  with Nil show ?case by (auto simp: algebra_simps)
next
  case (Cons k ks)
  let ?fire = "timer + tk_late k" and ?j = "if tick_issues c lib cfg k then 0 else Suc j"
  let ?timer = "timer + tk_late k + tk_took k + renewalInterval"
  have ok: "tick_ok lib cfg timer k" and rest: "steady c lib cfg ?timer ?j ks" using Cons.prems(1) by auto
  obtain served1 tbl1 where check: "renewal_check c lib cfg ?fire k (Some pair, tbl) = (served1, tbl1)" by fastforce
  from renewal_check_step [OF ok assms(1) Cons.prems(2) assms(2-5) Cons.prems(3-5) check]
  obtain pair1 row1 where one: "Load_cert c lib False (TLSDomain cfg) tbl1 = (None, Some pair1, Some row1)"
    "served1 = Some pair1" "ce_source row1 \<noteq> CertSourceManual" "account_ok c row1"
    and ends: "?fire + 60 * day \<le> ce_notAfter row1 \<or> ce_notAfter row1 = ce_notAfter row \<and>
      (tick_issues c lib cfg k \<longrightarrow> ?fire + 30 * day \<le> ce_notAfter row)"
    by blast
  have next_tick: "timer \<le> ?fire" "?timer \<le> ?fire + day" "?timer \<le> timer + day" "0 \<le> day"
    using ok by (auto simp: tick_ok_def renewalInterval_def duration_defs)
  define lost where "lost = int j * day"
  have "0 \<le> lost" "int (Suc j) * day = lost + day" by (simp_all add: lost_def duration_defs algebra_simps)
  moreover have "timer + 29 * day \<le> ce_notAfter row + lost" using Cons.prems(6) by (simp add: lost_def)
  ultimately have "?timer + 29 * day \<le> ce_notAfter row1 + int ?j * day"
    using ends next_tick by (cases "tick_issues c lib cfg k") auto
  moreover have "zero_time \<le> ?timer" using Cons.prems(2) ok by (auto simp: tick_ok_def renewalInterval_def duration_defs)
  moreover have "renewalLoop c lib cfg ?timer ks (Some pair1, tbl1) = (timer', served, tbl')"
    using Cons.prems(7) check one(2) by (simp add: Let_def add.assoc)
  ultimately show ?case using Cons.IH [OF rest] one by blast
qed


section \<open>Properties\<close>

text \<open>C8: The portal's own certificate never lapses.  The portal terminates TLS with ACME on, for a domain and with
  an account email, and the configuration stays; the stored certificate is served, is not one the operator
  uploaded (the loop leaves those alone and lets them end), its row can be read, and the ACME account in it is
  absent or can be decrypted; \<open>j\<close> days of its last thirty are lost already.  Each round of the loop keeps its
  time, being woken late and checking for at most twelve hours together, nonces have their size, a key obtained
  is stored encrypted, and each certificate obtained is good for sixty days.  Then, through any number of rounds
  of which no 28 in a row fail to get a certificate, counting the \<open>j\<close> before the start, the certificate served
  is the stored one and ends more than twelve hours after the time set for the next check.  A round may fail
  in any other way, at the certificate authority or in the database; only the read that installs a new
  certificate must not fail, for it is not tried again.\<close>

theorem certificate_never_lapses:
  assumes "aead_ok (cr_aead c)" "TLSMode cfg = TLSModeStandalone" "ACMEEnabled cfg" "TLSDomain cfg \<noteq> []"
    and "ACMEEmail cfg \<noteq> []" "zero_time \<le> now"
    and "Load_cert c lib False (TLSDomain cfg) tbl = (None, Some pair, Some row)"
    and "ce_source row \<noteq> CertSourceManual" "account_ok c row"
    and "renewal_start now + 29 * day \<le> ce_notAfter row + int j * day"
    and "steady c lib cfg (renewal_start now) j ticks"
    and "renewalLoop c lib cfg (renewal_start now) (take n ticks) (Some pair, tbl) = (timer, served, tbl')"
  shows "\<exists>pair' row'. Load_cert c lib False (TLSDomain cfg) tbl' = (None, Some pair', Some row') \<and>
    served = Some pair' \<and> timer + 12 * hour < ce_notAfter row'"
proof -
  have "zero_time \<le> renewal_start now" using assms(6) by (simp add: renewal_start_def duration_defs)
  from renewalLoop_inv [OF assms(1-5) steady_take [OF assms(11)] this assms(7-10,12)]
  show ?thesis by (fastforce simp: duration_defs)
qed

definition demo_tick :: "string + keypair \<Rightarrow> tick" where
  "demo_tick obtained = \<lparr>tk_late = 0, tk_took = minute, tk_client = (\<lambda>_ _. demo_lego\<lparr>lg_obtain := obtained\<rparr>),
     tk_nonce = (\<lambda>_. Some ''abcdefghijkl''), tk_flt = (\<lambda>_. False)\<rparr>"

definition demo_old_cert :: certRow where
  "demo_old_cert = (demo_cert CertSourceACME)\<lparr>ce_notAfter := 10 * day\<rparr>"

lemma demo_tick_simps [simp]:
  "tk_late (demo_tick x) = 0" "tk_took (demo_tick x) = minute" "tk_flt (demo_tick x) i = False"
  "tk_nonce (demo_tick x) i = Some ''abcdefghijkl''" "tick_lego cfg (demo_tick x) = demo_lego\<lparr>lg_obtain := x\<rparr>"
  by (simp_all add: demo_tick_def tick_lego_def)

lemma demo_ticks_ok:
  "tick_ok demo_lib cfg timer (demo_tick (Inl e))"
  "timer \<le> 30 * day \<Longrightarrow> tick_ok demo_lib cfg timer (demo_tick (Inr (''chain'', ''private'')))"
  "tick_issues demo_crypto demo_lib cfg (demo_tick (Inr (''chain'', ''private'')))"
  by (simp_all add: tick_ok_def tick_issues_def usable_lego_def demo_lego_def demo_lib_def demo_leaf_def demo_keys nonce_size_def
      duration_defs Let_def)

text \<open>Ten days are left; the first check gets no certificate, the second one does.\<close>

theorem certificate_never_lapses_witness:
  "\<exists>timer served tbl' row. renewalLoop demo_crypto demo_lib demo_standalone (renewal_start 0)
       [demo_tick (Inl ''rate limited''), demo_tick (Inr (''chain'', ''private''))]
       (Some (''old'', ''oldkey''), [demo_old_cert]) = (timer, served, tbl') \<and>
     cert_at tbl' ''p.org'' = Some row \<and> timer + 12 * hour < ce_notAfter row"
proof -
  let ?ticks = "[demo_tick (Inl ''rate limited''), demo_tick (Inr (''chain'', ''private''))]"
  let ?st = "(Some (''old'', ''oldkey''), [demo_old_cert])"
  obtain timer served tbl' where run:
    "renewalLoop demo_crypto demo_lib demo_standalone (renewal_start 0) (take 2 ?ticks) ?st = (timer, served, tbl')"
    by (metis prod_cases3)
  have load: "Load_cert demo_crypto demo_lib False (TLSDomain demo_standalone) [demo_old_cert] =
      (None, Some (''old'', ''oldkey''), Some demo_old_cert)"
    by (simp add: Load_cert_def demo_old_cert_def demo_cert_def demo_standalone_def demo_crypto_def demo_lib_def
        Decrypt_def has_prefix_def Prefix_def)
  have cfg: "TLSMode demo_standalone = TLSModeStandalone" "ACMEEnabled demo_standalone" "TLSDomain demo_standalone = ''p.org''"
    "ACMEEmail demo_standalone \<noteq> []"
    by (simp_all add: demo_standalone_def)
  have row: "ce_source demo_old_cert \<noteq> CertSourceManual" "account_ok demo_crypto demo_old_cert" "ce_notAfter demo_old_cert = 10 * day"
    by (simp_all add: demo_old_cert_def demo_cert_def account_ok_def CertSourceACME_def CertSourceManual_def)
  have "steady demo_crypto demo_lib demo_standalone (renewal_start 0) 20 ?ticks"
    using demo_ticks_ok by (simp add: renewal_start_def renewalInterval_def duration_defs)
  from certificate_never_lapses [OF _ cfg(1,2) _ cfg(4) _ load row(1,2) _ this run] cfg(3) row(3) demo_crypto_good
  obtain row' pair' where "Load_cert demo_crypto demo_lib False ''p.org'' tbl' = (None, Some pair', Some row')"
    "timer + 12 * hour < ce_notAfter row'"
    by (auto simp: good_crypto_def zero_time_def renewal_start_def duration_defs)
  with run loaded_row show ?thesis by force
qed

text \<open>Why that read must not fail: the new certificate is stored but not installed, and as the row is fresh the
  next check does not touch it, so the old certificate is served until it expires.\<close>

lemma install_fault_sticks:
  assumes "cert_at tbl (TLSDomain cfg) = Some row" "ce_cert row \<noteq> []" "renewBefore \<le> time_sub (ce_notAfter row) fire"
    and "\<not> tk_flt k 0"
  shows "renewal_check c lib cfg fire k (served, tbl) = (served, tbl)"
  using assms
  by (auto simp: renewal_check_def renewIfNeeded_def Let_def Load_cert_def needsRenewal_def
      split: option.splits sum.splits if_splits)

end
