(* ===== verification/CertRace.thy ===== *)
theory CertRace
  imports Certs
begin

text \<open>
  Orders that overlap.  The renewal loop, the button \<open>issue\<close> of the console and the upload of a certificate
  (\<open>portal/acme.go\<close>, \<open>portal/admin_tls.go\<close>) run in goroutines of their own on one table.  An order holds the
  mutex \<open>inFlight\<close> from its first statement to its last; the check whether a renewal is due, the upload, the
  record of a failure and the installation of the result run outside of it.  A \<open>job\<close> is one such goroutine
  with the answers it gets, \<open>advance\<close> lets one of them take its next step, and a schedule is the list of the
  jobs in the order in which they take their steps.
\<close>

section \<open>An order in its three parts\<close>

definition issue_account :: "crypto \<Rightarrow> lego \<Rightarrow> bool \<Rightarrow> acmeRequest \<Rightarrow> certRow list \<Rightarrow> string + (string \<times> string)" where
  "issue_account c l flt req tbl =
     (if ar_domain req = [] then Inl ''no domain configured''
      else if ar_email req = [] then Inl ''an account email is required for ACME''
      else loadOrCreateAccountKey c l flt (ar_domain req) tbl)"

definition issue_register ::
  "crypto \<Rightarrow> lego \<Rightarrow> bool \<Rightarrow> time \<Rightarrow> acmeRequest \<Rightarrow> string \<times> string \<Rightarrow> certRow list \<Rightarrow> string option \<times> certRow list" where
  "issue_register c l flt now req account tbl =
     (case lg_client l of
        Some e \<Rightarrow> (Some (''acme client: '' @ e), tbl)
      | None \<Rightarrow> acme_account c l flt now (ar_domain req) account tbl)"

definition issue_store ::
  "crypto \<Rightarrow> tlslib \<Rightarrow> lego \<Rightarrow> bool \<Rightarrow> time \<Rightarrow> acmeRequest \<Rightarrow> certRow list \<Rightarrow> string option \<times> certRow list" where
  "issue_store c lib l flt now req tbl =
     (case lg_obtain l of
        Inl e \<Rightarrow> (Some (''acme obtain: '' @ e), tbl)
      | Inr (cert, key) \<Rightarrow> Save_cert c lib flt 1 now (ar_domain req) CertSourceACME cert key tbl)"

lemma Issue_parts:
  "Issue c lib client flt now req tbl =
     (let l = client (ar_email req) (ar_staging req)
      in case issue_account c l (flt 0) req tbl of
           Inl e \<Rightarrow> (Some e, tbl)
         | Inr account \<Rightarrow>
             (case issue_register c l (flt 1) now req account tbl of
                (Some e, tbl1) \<Rightarrow> (Some e, tbl1)
              | (None, tbl1) \<Rightarrow> issue_store c lib l (flt 2) now req tbl1))"
  by (auto simp: Issue_def issue_account_def issue_register_def issue_store_def Let_def split: sum.split option.split prod.split)


section \<open>Jobs and schedules\<close>

datatype job_kind = Loop | Console | Upload

record job =
  jb_kind :: job_kind
  jb_now :: time
  jb_lego :: lego
  jb_nonce :: "nat \<Rightarrow> string option"
  jb_flt :: "nat \<Rightarrow> bool"
  jb_pair :: keypair

datatype job_pc =
    Waiting
  | Due
  | Holding
  | HasAccount "string \<times> string"
  | Registered
  | Failed string
  | Stored
  | Ended "string option"

record cert_state =
  cx_tbl :: "certRow list"
  cx_served :: "keypair option"
  cx_lock :: "nat option"
  cx_pcs :: "job_pc list"
  cx_orders :: "nat list"

definition set_job :: "nat \<Rightarrow> job_pc \<Rightarrow> cert_state \<Rightarrow> cert_state" where
  "set_job i p s = s\<lparr>cx_pcs := (cx_pcs s)[i := p]\<rparr>"

definition release :: "cert_state \<Rightarrow> cert_state" where
  "release s = s\<lparr>cx_lock := None\<rparr>"

text \<open>The first step of the loop: the check whether a renewal is due.\<close>

definition loop_check :: "crypto \<Rightarrow> tlslib \<Rightarrow> acmeRequest \<Rightarrow> job \<Rightarrow> nat \<Rightarrow> cert_state \<Rightarrow> cert_state" where
  "loop_check c lib req j i s =
     (if ar_domain req = [] then set_job i (Ended None) s
      else (case Load_cert c lib (jb_flt j 0) (ar_domain req) (cx_tbl s) of (_, _, row) \<Rightarrow>
        if (case row of None \<Rightarrow> False | Some r \<Rightarrow> ce_source r = CertSourceManual) then set_job i (Ended None) s
        else if \<not> needsRenewal (jb_now j) row then set_job i (Ended None) s
        else set_job i Due s))"

text \<open>That of the button: the settings an order needs.\<close>

definition console_check :: "acmeRequest \<Rightarrow> nat \<Rightarrow> cert_state \<Rightarrow> cert_state" where
  "console_check req i s =
     (if ar_domain req = [] then set_job i (Ended (Some ''no_domain'')) s
      else if ar_email req = [] then set_job i (Ended (Some ''no_acme_email'')) s
      else set_job i Due s)"

text \<open>That of an upload: the validated save of the pair, without the blanks around it.\<close>

definition upload_pair :: "job \<Rightarrow> keypair" where
  "upload_pair j = (trim_space (fst (jb_pair j)), trim_space (snd (jb_pair j)))"

definition upload_save :: "crypto \<Rightarrow> tlslib \<Rightarrow> acmeRequest \<Rightarrow> job \<Rightarrow> nat \<Rightarrow> cert_state \<Rightarrow> cert_state" where
  "upload_save c lib req j i s =
     (case upload_pair j of (cert, key) \<Rightarrow>
        if ar_domain req = [] then set_job i (Ended (Some ''no_domain'')) s
        else if cert = [] \<or> key = [] then set_job i (Ended (Some ''empty_pem'')) s
        else (case Save_cert c lib (jb_flt j 3) 1 (jb_now j) (ar_domain req) CertSourceManual cert key (cx_tbl s) of
            (None, tbl) \<Rightarrow> set_job i Stored (s\<lparr>cx_tbl := tbl\<rparr>)
          | (Some e, tbl) \<Rightarrow> set_job i (Ended (Some e)) (s\<lparr>cx_tbl := tbl\<rparr>)))"

definition first_step :: "crypto \<Rightarrow> tlslib \<Rightarrow> acmeRequest \<Rightarrow> job \<Rightarrow> nat \<Rightarrow> cert_state \<Rightarrow> cert_state" where
  "first_step c lib req j i s =
     (case jb_kind j of
        Loop \<Rightarrow> loop_check c lib req j i s
      | Console \<Rightarrow> console_check req i s
      | Upload \<Rightarrow> upload_save c lib req j i s)"

lemmas first_steps = first_step_def loop_check_def console_check_def upload_save_def

definition job_step :: "crypto \<Rightarrow> tlslib \<Rightarrow> acmeRequest \<Rightarrow> job \<Rightarrow> nat \<Rightarrow> cert_state \<Rightarrow> cert_state" where
  "job_step c lib req j i s =
     (case cx_pcs s ! i of
        Waiting \<Rightarrow> first_step c lib req j i s
      | Due \<Rightarrow> (if cx_lock s = None then set_job i Holding (s\<lparr>cx_lock := Some i\<rparr>) else s)
      | Holding \<Rightarrow>
          (case issue_account c (jb_lego j) (jb_flt j 1) req (cx_tbl s) of
             Inl e \<Rightarrow> set_job i (Failed e) (release s)
           | Inr account \<Rightarrow> set_job i (HasAccount account) s)
      | HasAccount account \<Rightarrow>
          (case issue_register c (jb_lego j) (jb_flt j 2) (jb_now j) req account (cx_tbl s) of
             (Some e, tbl) \<Rightarrow> set_job i (Failed e) (release (s\<lparr>cx_tbl := tbl\<rparr>))
           | (None, tbl) \<Rightarrow> set_job i Registered (s\<lparr>cx_tbl := tbl\<rparr>))
      | Registered \<Rightarrow>
          (case issue_store c lib (jb_lego j) (jb_flt j 3) (jb_now j) req (cx_tbl s) of
             (err, tbl) \<Rightarrow> set_job i (case err of None \<Rightarrow> Stored | Some e \<Rightarrow> Failed e)
               (release (s\<lparr>cx_tbl := tbl, cx_orders := cx_orders s @ [i]\<rparr>)))
      | Failed e \<Rightarrow>
          set_job i (Ended (Some e)) (s\<lparr>cx_tbl := RecordFailure (jb_flt j 4) (jb_now j) (ar_domain req) e (cx_tbl s)\<rparr>)
      | Stored \<Rightarrow>
          set_job i (Ended None) (s\<lparr>cx_served := install_cert c lib (jb_flt j 5) (ar_domain req) (cx_tbl s) (cx_served s)\<rparr>)
      | Ended err \<Rightarrow> s)"

definition advance :: "crypto \<Rightarrow> tlslib \<Rightarrow> acmeRequest \<Rightarrow> job list \<Rightarrow> nat \<Rightarrow> cert_state \<Rightarrow> cert_state" where
  "advance c lib req jobs i s =
     (if i < length jobs then job_step (c\<lparr>cr_nonce := jb_nonce (jobs ! i)\<rparr>) lib req (jobs ! i) i s else s)"

definition cert_run :: "crypto \<Rightarrow> tlslib \<Rightarrow> acmeRequest \<Rightarrow> job list \<Rightarrow> nat list \<Rightarrow> cert_state \<Rightarrow> cert_state" where
  "cert_run c lib req jobs sched s = fold (advance c lib req jobs) sched s"

definition cert_start :: "job list \<Rightarrow> keypair option \<Rightarrow> certRow list \<Rightarrow> cert_state" where
  "cert_start jobs served tbl =
     \<lparr>cx_tbl = tbl, cx_served = served, cx_lock = None, cx_pcs = replicate (length jobs) Waiting, cx_orders = []\<rparr>"

lemmas cert_steps = job_step_def first_steps set_job_def release_def

section \<open>Lemmas\<close>

lemma set_job_simps [simp]:
  "cx_tbl (set_job i p s) = cx_tbl s" "cx_served (set_job i p s) = cx_served s" "cx_lock (set_job i p s) = cx_lock s"
  "cx_orders (set_job i p s) = cx_orders s" "cx_pcs (set_job i p s) = (cx_pcs s)[i := p]"
  by (simp_all add: set_job_def)

lemma release_simps [simp]:
  "cx_tbl (release s) = cx_tbl s" "cx_served (release s) = cx_served s" "cx_lock (release s) = None"
  "cx_orders (release s) = cx_orders s" "cx_pcs (release s) = cx_pcs s"
  by (simp_all add: release_def)

text \<open>A job that has ended stays as it is.\<close>

lemma job_step_ended: "cx_pcs s ! i = Ended err \<Longrightarrow> job_step c lib req j i s = s"
  by (simp add: job_step_def)

text \<open>What is left to do from a point on, in a row.\<close>

lemma finish_steps:
  assumes "i < length (cx_pcs s)"
  shows "cx_pcs s ! i = Failed e \<Longrightarrow> job_step c lib req j i s =
      set_job i (Ended (Some e)) (s\<lparr>cx_tbl := RecordFailure (jb_flt j 4) (jb_now j) (ar_domain req) e (cx_tbl s)\<rparr>)"
    and "cx_pcs s ! i = Stored \<Longrightarrow> job_step c lib req j i s =
      set_job i (Ended None) (s\<lparr>cx_served := install_cert c lib (jb_flt j 5) (ar_domain req) (cx_tbl s) (cx_served s)\<rparr>)"
  by (simp_all add: job_step_def)

definition do_steps :: "crypto \<Rightarrow> tlslib \<Rightarrow> acmeRequest \<Rightarrow> job \<Rightarrow> nat \<Rightarrow> nat \<Rightarrow> cert_state \<Rightarrow> cert_state" where
  "do_steps c lib req j i n s = (job_step c lib req j i ^^ n) s"

lemma do_steps_0: "do_steps c lib req j i 0 s = s" by (simp add: do_steps_def)

lemma do_steps_Suc: "do_steps c lib req j i (Suc n) s = do_steps c lib req j i n (job_step c lib req j i s)"
  by (simp add: do_steps_def funpow_swap1)

lemma do_steps_ended: "cx_pcs s ! i = Ended err \<Longrightarrow> do_steps c lib req j i n s = s"
  by (induction n) (simp_all add: do_steps_def job_step_ended)

lemma cert_run_alone:
  "i < length jobs \<Longrightarrow> cert_run c lib req jobs (replicate n i) s =
     do_steps (c\<lparr>cr_nonce := jb_nonce (jobs ! i)\<rparr>) lib req (jobs ! i) i n s"
  by (induction n arbitrary: s) (simp_all add: cert_run_def do_steps_Suc advance_def, simp add: do_steps_def)

text \<open>The order of one job, from the mutex to the end, is \<open>Issue\<close> and what its caller does with the outcome.\<close>

lemma order_alone:
  assumes "i < length (cx_pcs s)" "cx_pcs s ! i = Holding"
    and "Issue c lib (\<lambda>_ _. jb_lego j) (\<lambda>n. jb_flt j (Suc n)) (jb_now j) req (cx_tbl s) = (err, tbl)"
    and "s' = do_steps c lib req j i 4 s"
  shows "cx_pcs s' ! i = Ended err \<and> cx_lock s' = None \<and> (err = None \<longrightarrow> cx_orders s' = cx_orders s @ [i]) \<and>
    (cx_served s', cx_tbl s') = (case err of
        Some e \<Rightarrow> (cx_served s, RecordFailure (jb_flt j 4) (jb_now j) (ar_domain req) e tbl)
      | None \<Rightarrow> (install_cert c lib (jb_flt j 5) (ar_domain req) tbl (cx_served s), tbl))"
proof -
  let ?l = "jb_lego j" and ?step = "job_step c lib req j i"
  have parts: "?step s = (case issue_account c ?l (jb_flt j 1) req (cx_tbl s) of
      Inl e \<Rightarrow> set_job i (Failed e) (release s) | Inr acc \<Rightarrow> set_job i (HasAccount acc) s)"
    using assms(2) by (simp add: job_step_def)
  note issue = assms(3) [unfolded Issue_parts Let_def]
  show ?thesis
  proof (cases "issue_account c ?l (jb_flt j 1) req (cx_tbl s)")
    case (Inl e)
    then have "?step s = set_job i (Failed e) (release s)" using parts by simp
    with Inl issue assms(1,4) show ?thesis
      by (auto simp: do_steps_Suc do_steps_0 finish_steps job_step_ended numeral_eq_Suc)
  next
    case (Inr acc)
    then have first: "?step s = set_job i (HasAccount acc) s" using parts by simp
    obtain e2 tbl2 where reg: "issue_register c ?l (jb_flt j 2) (jb_now j) req acc (cx_tbl s) = (e2, tbl2)" by fastforce
    obtain e3 tbl3 where sto: "issue_store c lib ?l (jb_flt j 3) (jb_now j) req tbl2 = (e3, tbl3)" by fastforce
    define s1 where "s1 = set_job i (HasAccount acc) s"
    have s1: "cx_pcs s1 ! i = HasAccount acc" "i < length (cx_pcs s1)" "cx_tbl s1 = cx_tbl s" "cx_served s1 = cx_served s"
      "cx_orders s1 = cx_orders s"
      using assms(1) by (simp_all add: s1_def)
    have s': "s' = do_steps c lib req j i 3 s1" using assms(4) first by (simp add: do_steps_Suc numeral_eq_Suc s1_def)
    show ?thesis
    proof (cases e2)
      case (Some e)
      then have "?step s1 = set_job i (Failed e) (release (s1\<lparr>cx_tbl := tbl2\<rparr>))" using s1 reg by (simp add: job_step_def)
      with Some Inr reg issue s1 s' show ?thesis
        by (auto simp: do_steps_Suc do_steps_0 finish_steps job_step_ended numeral_eq_Suc)
    next
      case None
      define s2 where "s2 = set_job i Registered (s1\<lparr>cx_tbl := tbl2\<rparr>)"
      have s2: "?step s1 = s2" "cx_pcs s2 ! i = Registered" "i < length (cx_pcs s2)" "cx_tbl s2 = tbl2" "cx_served s2 = cx_served s"
        "cx_orders s2 = cx_orders s"
        using s1 reg None by (simp_all add: job_step_def s2_def)
      have "?step s2 = set_job i (case e3 of None \<Rightarrow> Stored | Some e \<Rightarrow> Failed e)
          (release (s2\<lparr>cx_tbl := tbl3, cx_orders := cx_orders s2 @ [i]\<rparr>))"
        using s2 sto by (simp add: job_step_def)
      moreover have "s' = do_steps c lib req j i 2 s2" using s' s2(1) by (simp add: do_steps_Suc numeral_eq_Suc)
      ultimately show ?thesis
        using None Inr reg sto issue s2(2-6)
        by (cases e3) (auto simp: do_steps_Suc do_steps_0 finish_steps numeral_eq_Suc)
    qed
  qed
qed


lemma order_from_due:
  assumes "i < length jobs" "i < length (cx_pcs s)" "cx_pcs s ! i = Due" "cx_lock s = None"
    and "Issue (c\<lparr>cr_nonce := jb_nonce (jobs ! i)\<rparr>) lib (\<lambda>_ _. jb_lego (jobs ! i)) (\<lambda>n. jb_flt (jobs ! i) (Suc n))
      (jb_now (jobs ! i)) req (cx_tbl s) = (None, tbl)"
    and "s' = cert_run c lib req jobs (replicate 5 i) s"
  shows "cx_pcs s' ! i = Ended None \<and> cx_lock s' = None \<and> cx_tbl s' = tbl \<and> cx_orders s' = cx_orders s @ [i]"
proof -
  let ?c = "c\<lparr>cr_nonce := jb_nonce (jobs ! i)\<rparr>"
  define s1 where "s1 = set_job i Holding (s\<lparr>cx_lock := Some i\<rparr>)"
  have "job_step ?c lib req (jobs ! i) i s = s1" using assms(2-4) by (simp add: job_step_def s1_def)
  moreover have "s' = do_steps ?c lib req (jobs ! i) i 5 s" using assms(1,6) cert_run_alone by blast
  ultimately have "s' = do_steps ?c lib req (jobs ! i) i 4 s1" by (simp add: do_steps_Suc numeral_eq_Suc)
  moreover have "i < length (cx_pcs s1)" "cx_pcs s1 ! i = Holding" "cx_tbl s1 = cx_tbl s" "cx_orders s1 = cx_orders s"
    using assms(2) by (simp_all add: s1_def)
  ultimately show ?thesis using order_alone [of i s1 ?c lib "jobs ! i" req None tbl s'] assms(5) by auto
qed


section \<open>Mutual exclusion\<close>

definition in_order :: "job_pc \<Rightarrow> bool" where
  "in_order p = (case p of Holding \<Rightarrow> True | HasAccount _ \<Rightarrow> True | Registered \<Rightarrow> True | _ \<Rightarrow> False)"

lemma in_order_simps [simp]:
  "in_order Holding" "in_order (HasAccount a)" "in_order Registered" "\<not> in_order Waiting" "\<not> in_order Due"
  "\<not> in_order (Failed e)" "\<not> in_order Stored" "\<not> in_order (Ended err)"
  by (simp_all add: in_order_def)

text \<open>The holder of the mutex is the job whose order is under way.\<close>

definition lock_ok :: "cert_state \<Rightarrow> bool" where
  "lock_ok s \<longleftrightarrow> (\<forall>i<length (cx_pcs s). in_order (cx_pcs s ! i) \<longleftrightarrow> cx_lock s = Some i)"

lemma lock_ok_keep:
  assumes "lock_ok s" "cx_lock s' = cx_lock s" "cx_pcs s' = (cx_pcs s)[i := p]" "in_order p \<longleftrightarrow> in_order (cx_pcs s ! i)" "i < length (cx_pcs s)"
  shows "lock_ok s'"
  using assms by (auto simp: lock_ok_def nth_list_update)

lemma lock_ok_take:
  assumes "lock_ok s" "cx_lock s = None" "cx_lock s' = Some i" "cx_pcs s' = (cx_pcs s)[i := p]" "in_order p" "i < length (cx_pcs s)"
  shows "lock_ok s'"
  using assms by (auto simp: lock_ok_def nth_list_update)

lemma lock_ok_release:
  assumes "lock_ok s" "in_order (cx_pcs s ! i)" "i < length (cx_pcs s)" "cx_lock s' = None" "cx_pcs s' = (cx_pcs s)[i := p]"
    and "\<not> in_order p"
  shows "lock_ok s'"
  using assms by (auto simp: lock_ok_def nth_list_update)

lemma first_step_pc:
  "\<exists>p. cx_pcs (first_step c lib req j i s) = (cx_pcs s)[i := p] \<and> \<not> in_order p \<and> cx_lock (first_step c lib req j i s) = cx_lock s"
  by (auto simp: first_steps case_prod_beta split: job_kind.split option.split)

lemma lock_ok_step:
  assumes "lock_ok s" "i < length (cx_pcs s)"
  shows "lock_ok (job_step c lib req j i s) \<and> length (cx_pcs (job_step c lib req j i s)) = length (cx_pcs s)"
proof (cases "cx_pcs s ! i")
  case Waiting
  obtain p where "cx_pcs (first_step c lib req j i s) = (cx_pcs s)[i := p]" "\<not> in_order p"
    "cx_lock (first_step c lib req j i s) = cx_lock s"
    using first_step_pc by blast
  with lock_ok_keep [OF assms(1)] assms(2) Waiting show ?thesis by (simp add: job_step_def)
next
  case Due
  then show ?thesis
    using assms lock_ok_take [OF assms(1), of "set_job i Holding (s\<lparr>cx_lock := Some i\<rparr>)" i Holding]
    by (simp add: job_step_def)
next
  case Holding
  then show ?thesis
    using assms lock_ok_release [OF assms(1), of i] lock_ok_keep [OF assms(1)]
    by (auto simp: job_step_def split: sum.split)
next
  case (HasAccount acc)
  then show ?thesis
    using assms lock_ok_release [OF assms(1), of i] lock_ok_keep [OF assms(1)]
    by (auto simp: job_step_def split: prod.split option.split)
next
  case Registered
  then show ?thesis
    using assms lock_ok_release [OF assms(1), of i]
    by (auto simp: job_step_def split: prod.split option.split)
next
  case (Failed e)
  with lock_ok_keep [OF assms(1)] assms(2) show ?thesis by (simp add: job_step_def)
next
  case Stored
  with lock_ok_keep [OF assms(1)] assms(2) show ?thesis by (simp add: job_step_def)
next
  case (Ended err)
  with assms show ?thesis by (simp add: job_step_def)
qed

text \<open>A step of one job leaves the others where they are.\<close>

lemma advance_other: "i \<noteq> k \<Longrightarrow> cx_pcs (advance c lib req jobs i s) ! k = cx_pcs s ! k"
proof (cases "cx_pcs s ! i")
  case Waiting
  assume "i \<noteq> k"
  with first_step_pc [of "c\<lparr>cr_nonce := jb_nonce (jobs ! i)\<rparr>" lib req "jobs ! i" i s] Waiting show ?thesis
    by (auto simp: advance_def job_step_def)
qed (auto simp: advance_def job_step_def split: sum.split option.split prod.split)

lemma run_other: "i \<noteq> k \<Longrightarrow> cx_pcs (cert_run c lib req jobs (replicate n i) s) ! k = cx_pcs s ! k"
  by (induction n arbitrary: s) (simp_all add: cert_run_def advance_other)

lemma length_run: "length (cx_pcs (cert_run c lib req jobs sched s)) = length (cx_pcs s)"
proof (induction sched arbitrary: s)
  case (Cons i sched)
  have "length (cx_pcs (job_step c' lib req j i s)) = length (cx_pcs s)" for c' j
    using first_step_pc [of c' lib req j i s]
    by (cases "cx_pcs s ! i") (auto simp: job_step_def split: sum.split option.split prod.split)
  with Cons show ?case by (simp add: cert_run_def advance_def)
qed (simp add: cert_run_def)

lemma lock_ok_run:
  "lock_ok s \<Longrightarrow> length (cx_pcs s) = length jobs \<Longrightarrow>
     lock_ok (cert_run c lib req jobs sched s) \<and> length (cx_pcs (cert_run c lib req jobs sched s)) = length jobs"
  by (induction sched arbitrary: s) (simp_all add: cert_run_def advance_def lock_ok_step)

lemma lock_ok_start: "lock_ok (cert_start jobs served tbl)"
  by (simp add: lock_ok_def cert_start_def)


section \<open>What the table holds\<close>

definition loaded :: "crypto \<Rightarrow> tlslib \<Rightarrow> string \<Rightarrow> certRow list \<Rightarrow> keypair option" where
  "loaded c lib d tbl = fst (snd (Load_cert c lib False d tbl))"

definition usable_pair :: "keypair \<Rightarrow> bool" where
  "usable_pair p \<longleftrightarrow> fst p \<noteq> [] \<and> snd p \<noteq> [] \<and> \<not> has_prefix (snd p) Prefix"

text \<open>The certificates that a job can bring: the one it uploads, or the one it obtains.\<close>

definition job_pairs :: "job \<Rightarrow> keypair list" where
  "job_pairs j = (if jb_kind j = Upload then [upload_pair j] else []) @
     (case lg_obtain (jb_lego j) of Inl _ \<Rightarrow> [] | Inr p \<Rightarrow> [p])"

definition good_job :: "job \<Rightarrow> bool" where
  "good_job j \<longleftrightarrow> good_nonces (jb_nonce j) \<and> usable_pair (upload_pair j) \<and>
     (case lg_obtain (jb_lego j) of Inl _ \<Rightarrow> True | Inr p \<Rightarrow> usable_pair p)"

lemma loaded_nonce [simp]: "loaded (c\<lparr>cr_nonce := n\<rparr>) lib d tbl = loaded c lib d tbl"
  by (simp add: loaded_def Load_cert_def split: option.split sum.split)

lemma loaded_found: "loaded c lib d tbl = Some pair \<Longrightarrow> \<exists>row. cert_at tbl d = Some row"
  by (auto simp: loaded_def Load_cert_def split: option.splits)

lemma loaded_keep:
  assumes "loaded c lib d tbl = Some pair"
    and "\<And>row. cert_at tbl d = Some row \<Longrightarrow> \<exists>row'. cert_at tbl' d = Some row' \<and> ce_cert row' = ce_cert row \<and> ce_key row' = ce_key row"
  shows "loaded c lib d tbl' = Some pair"
proof -
  obtain row where row: "cert_at tbl d = Some row" using loaded_found [OF assms(1)] ..
  then obtain row' where "cert_at tbl' d = Some row'" "ce_cert row' = ce_cert row" "ce_key row' = ce_key row"
    using assms(2) by blast
  from Load_cert_row [OF row this] assms(1) show ?thesis by (simp add: loaded_def)
qed

lemma loaded_register:
  "loaded c lib (ar_domain req) tbl = Some pair \<Longrightarrow> issue_register c' l flt now req acc tbl = (err, tbl') \<Longrightarrow>
     loaded c lib (ar_domain req) tbl' = Some pair"
  by (rule loaded_keep) (auto simp: issue_register_def dest: acme_account_keeps split: option.splits)

lemma loaded_failure:
  "loaded c lib d tbl = Some pair \<Longrightarrow> loaded c lib d (RecordFailure flt now d reason tbl) = Some pair"
  by (rule loaded_keep) (auto simp: RecordFailure_def find_assign_cert)

lemma loaded_save:
  assumes "aead_ok (cr_aead c)" "good_nonces n" "usable_pair (cert, key)" "loaded c lib d tbl = Some pair"
    and "Save_cert (c\<lparr>cr_nonce := n\<rparr>) lib flt i now d source cert key tbl = (err, tbl')"
  shows "loaded c lib d tbl' = Some (if err = None then (cert, key) else pair)"
proof (cases err)
  case None
  have "good_crypto (c\<lparr>cr_nonce := n\<rparr>)" using assms(1,2) by (simp add: good_crypto_def)
  from Save_cert_loads [OF this _ _ _ assms(5) [unfolded None]] assms(3)
  have "loaded (c\<lparr>cr_nonce := n\<rparr>) lib d tbl' = Some (cert, key)" by (auto simp: usable_pair_def loaded_def)
  with None show ?thesis by simp
next
  case (Some e)
  with Save_cert_error [OF assms(5) [unfolded Some]] assms(4) show ?thesis by simp
qed

lemma loaded_install:
  "loaded c lib d tbl = Some pair \<Longrightarrow>
     install_cert c lib flt d tbl served = served \<or> install_cert c lib flt d tbl served = Some pair"
  by (cases flt) (auto simp: install_cert_def loaded_def Load_cert_def split: option.splits sum.splits if_splits)

lemma loaded_step:
  assumes "aead_ok (cr_aead c)" "good_job j" "loaded c lib (ar_domain req) (cx_tbl s) = Some pair"
    and "s' = job_step (c\<lparr>cr_nonce := jb_nonce j\<rparr>) lib req j i s"
  shows "\<exists>pair'. loaded c lib (ar_domain req) (cx_tbl s') = Some pair' \<and> (pair' = pair \<or> pair' \<in> set (job_pairs j)) \<and>
    (cx_served s' = cx_served s \<or> cx_served s' = Some pair')"
proof (cases "cx_pcs s ! i")
  case Waiting
  show ?thesis
  proof (cases "jb_kind j = Upload")
    case True
    obtain cert key where pair: "upload_pair j = (cert, key)" by fastforce
    obtain err tbl where save: "Save_cert (c\<lparr>cr_nonce := jb_nonce j\<rparr>) lib (jb_flt j 3) 1 (jb_now j) (ar_domain req)
        CertSourceManual cert key (cx_tbl s) = (err, tbl)" by fastforce
    have "loaded c lib (ar_domain req) tbl = Some (if err = None then (cert, key) else pair)"
      using loaded_save [OF assms(1) _ _ assms(3) save] assms(2) pair by (simp add: good_job_def)
    moreover have "(cx_tbl s' = cx_tbl s \<or> cx_tbl s' = tbl) \<and> cx_served s' = cx_served s"
      using assms(4) Waiting True pair save by (auto simp: job_step_def first_step_def upload_save_def split: option.split)
    ultimately show ?thesis using True pair assms(3) by (cases pair) (auto simp: job_pairs_def)
  next
    case False
    then have "cx_tbl s' = cx_tbl s \<and> cx_served s' = cx_served s"
      using assms(4) Waiting by (cases "jb_kind j") (auto simp: job_step_def first_steps case_prod_beta)
    with assms(3) show ?thesis by simp
  qed
next
  case Registered
  show ?thesis
  proof (cases "lg_obtain (jb_lego j)")
    case (Inl e)
    with assms(3,4) Registered show ?thesis by (simp add: job_step_def issue_store_def)
  next
    case (Inr p)
    obtain cert key where pair: "p = (cert, key)" by fastforce
    obtain err tbl where save: "Save_cert (c\<lparr>cr_nonce := jb_nonce j\<rparr>) lib (jb_flt j 3) 1 (jb_now j) (ar_domain req)
        CertSourceACME cert key (cx_tbl s) = (err, tbl)" by fastforce
    have "loaded c lib (ar_domain req) tbl = Some (if err = None then (cert, key) else pair)"
      using loaded_save [OF assms(1) _ _ assms(3) save] assms(2) Inr pair by (simp add: good_job_def)
    moreover have "cx_tbl s' = tbl" "cx_served s' = cx_served s"
      using assms(4) Registered Inr pair save by (simp_all add: job_step_def issue_store_def)
    ultimately show ?thesis using Inr pair by (simp add: job_pairs_def)
  qed
next
  case Stored
  with assms(3,4) loaded_install [of "c\<lparr>cr_nonce := jb_nonce j\<rparr>" lib "ar_domain req" "cx_tbl s" pair "jb_flt j 5" "cx_served s"]
  show ?thesis by (simp add: job_step_def)
qed (use assms(3,4) in \<open>auto simp: job_step_def loaded_failure simp del: split_paired_Ex
    split: sum.split option.split prod.split dest: loaded_register\<close>)

lemma loaded_run:
  assumes "aead_ok (cr_aead c)" "\<forall>j\<in>set jobs. good_job j"
    and "loaded c lib (ar_domain req) (cx_tbl s) = Some pair" "s' = cert_run c lib req jobs sched s"
  shows "\<exists>pair'. loaded c lib (ar_domain req) (cx_tbl s') = Some pair' \<and> pair' \<in> set (pair # concat (map job_pairs jobs)) \<and>
    (cx_served s' = cx_served s \<or> (\<exists>p\<in>set (pair # concat (map job_pairs jobs)). cx_served s' = Some p))"
  using assms(4)
proof (induction sched arbitrary: s' rule: rev_induct)
  case Nil
  with assms(3) show ?case by (simp add: cert_run_def)
next
  case (snoc i sched)
  let ?C = "set (pair # concat (map job_pairs jobs))"
  define s1 where "s1 = cert_run c lib req jobs sched s"
  obtain pair1 where one: "loaded c lib (ar_domain req) (cx_tbl s1) = Some pair1" "pair1 \<in> ?C"
    "cx_served s1 = cx_served s \<or> (\<exists>p\<in>?C. cx_served s1 = Some p)"
    using snoc.IH [OF s1_def] by blast
  have s': "s' = advance c lib req jobs i s1" using snoc.prems by (simp add: cert_run_def s1_def)
  show ?case
  proof (cases "i < length jobs")
    case True
    with s' have step: "s' = job_step (c\<lparr>cr_nonce := jb_nonce (jobs ! i)\<rparr>) lib req (jobs ! i) i s1" by (simp add: advance_def)
    have "good_job (jobs ! i)" "set (job_pairs (jobs ! i)) \<subseteq> ?C" using assms(2) True by auto
    with loaded_step [OF assms(1) _ one(1) step] obtain pair2 where
      two: "loaded c lib (ar_domain req) (cx_tbl s') = Some pair2" "pair2 = pair1 \<or> pair2 \<in> set (job_pairs (jobs ! i))"
        "cx_served s' = cx_served s1 \<or> cx_served s' = Some pair2"
      by blast
    then have "pair2 \<in> ?C" using one(2) \<open>set (job_pairs (jobs ! i)) \<subseteq> ?C\<close> by blast
    with two one(3) show ?thesis by metis
  next
    case False
    with s' one show ?thesis by (auto simp: advance_def)
  qed
qed


section \<open>Properties\<close>

text \<open>C9: Overlapping orders are safe.  In any schedule of renewals, orders from the console and uploads, whatever
  the certificate authority and the database answer, at most one order is under way at any time; the table
  always holds a certificate that loads, the one it held before or one that a job obtained or uploaded; and
  what the listener serves is what it served before or such a certificate.\<close>

theorem cert_race_safe:
  assumes "aead_ok (cr_aead c)" "\<forall>j\<in>set jobs. good_job j" "loaded c lib (ar_domain req) tbl = Some pair"
    and "s = cert_run c lib req jobs sched (cert_start jobs served tbl)"
  shows "(\<forall>i<length jobs. \<forall>k<length jobs. in_order (cx_pcs s ! i) \<and> in_order (cx_pcs s ! k) \<longrightarrow> i = k) \<and>
    (\<exists>pair'. loaded c lib (ar_domain req) (cx_tbl s) = Some pair' \<and> pair' \<in> set (pair # concat (map job_pairs jobs))) \<and>
    (cx_served s = served \<or> (\<exists>p\<in>set (pair # concat (map job_pairs jobs)). cx_served s = Some p))"
proof -
  have "lock_ok s \<and> length (cx_pcs s) = length jobs"
    using lock_ok_run [OF lock_ok_start [of jobs served tbl], of jobs c lib req sched] assms(4) by (simp add: cert_start_def)
  moreover have "loaded c lib (ar_domain req) (cx_tbl (cert_start jobs served tbl)) = Some pair"
    "cx_served (cert_start jobs served tbl) = served"
    using assms(3) by (simp_all add: cert_start_def)
  ultimately show ?thesis
    using loaded_run [OF assms(1,2) _ assms(4)] by (auto simp: lock_ok_def)
qed

definition demo_job :: "job_kind \<Rightarrow> job" where
  "demo_job kind = \<lparr>jb_kind = kind, jb_now = 5, jb_lego = demo_lego, jb_nonce = (\<lambda>_. Some ''abcdefghijkl''),
     jb_flt = (\<lambda>_. False), jb_pair = (''mine'', ''minekey'')\<rparr>"

lemma demo_job_simps [simp]:
  "jb_kind (demo_job k) = k" "jb_now (demo_job k) = 5" "jb_lego (demo_job k) = demo_lego"
  "jb_nonce (demo_job k) i = Some ''abcdefghijkl''" "jb_flt (demo_job k) i = False" "jb_pair (demo_job k) = (''mine'', ''minekey'')"
  by (simp_all add: demo_job_def)

lemma demo_job_crypto [simp]: "demo_crypto\<lparr>cr_nonce := jb_nonce (demo_job k)\<rparr> = demo_crypto"
  by (simp add: demo_crypto_def demo_job_def)

lemma demo_upload [simp]: "upload_pair (demo_job k) = (''mine'', ''minekey'')"
  by (simp add: upload_pair_def) code_simp

lemma demo_job_good: "good_job (demo_job k)"
  by (simp add: good_job_def usable_pair_def good_nonces_def nonce_size_def demo_lego_def demo_keys has_prefix_def Prefix_def)

text \<open>The loop checks, the operator uploads, the loop goes on: two jobs at once on the table of one certificate.\<close>

theorem cert_race_safe_witness:
  "\<exists>pair. loaded demo_crypto demo_lib ''p.org''
     (cx_tbl (cert_run demo_crypto demo_lib demo_acme [demo_job Loop, demo_job Upload] [0, 1, 0, 0, 1, 0]
        (cert_start [demo_job Loop, demo_job Upload] None [demo_cert CertSourceACME]))) = Some pair \<and>
     pair \<in> {(''old'', ''oldkey''), (''chain'', ''private''), (''mine'', ''minekey'')}"
proof -
  have "aead_ok (cr_aead demo_crypto)" using demo_crypto_good by (simp add: good_crypto_def)
  moreover have "\<forall>j\<in>set [demo_job Loop, demo_job Upload]. good_job j" using demo_job_good by simp
  moreover have "loaded demo_crypto demo_lib (ar_domain demo_acme) [demo_cert CertSourceACME] = Some (''old'', ''oldkey'')"
    by (simp add: loaded_def demo_acme_def demo_cert_loads)
  ultimately show ?thesis
    using cert_race_safe [of demo_crypto "[demo_job Loop, demo_job Upload]" demo_lib demo_acme "[demo_cert CertSourceACME]"
        "(''old'', ''oldkey'')" _ "[0, 1, 0, 0, 1, 0]" None]
    by (auto simp: demo_acme_def job_pairs_def demo_lego_def)
qed

text \<open>A check of the loop is one job run to its end.  Scheduled without interruption, the steps of a job of
  the loop are exactly \<open>renewIfNeeded\<close>, with the mutex free again; so the sequential model of the renewal is
  the schedule in which nothing overlaps.\<close>

lemma job_alone:
  assumes "i < length jobs" "length (cx_pcs s) = length jobs" "cx_pcs s ! i = Waiting" "cx_lock s = None"
    and "jb_kind (jobs ! i) = Loop" "TLSMode cfg = TLSModeStandalone" "ACMEEnabled cfg" "TLSDomain cfg \<noteq> []"
    and "req = \<lparr>ar_domain = TLSDomain cfg, ar_email = ACMEEmail cfg, ar_staging = ACMEStaging cfg\<rparr>"
    and "s' = cert_run c lib req jobs (replicate 6 i) s"
  shows "(cx_served s', cx_tbl s') =
      renewIfNeeded (c\<lparr>cr_nonce := jb_nonce (jobs ! i)\<rparr>) lib (\<lambda>_ _. jb_lego (jobs ! i)) (jb_flt (jobs ! i)) (jb_now (jobs ! i))
        cfg (cx_served s, cx_tbl s) \<and>
    (\<exists>err. cx_pcs s' ! i = Ended err) \<and> cx_lock s' = None"
proof -
  let ?j = "jobs ! i" and ?c = "c\<lparr>cr_nonce := jb_nonce (jobs ! i)\<rparr>" and ?d = "TLSDomain cfg"
  have s': "s' = do_steps ?c lib req ?j i 6 s" using assms(1,10) by (simp add: cert_run_alone)
  obtain e p row where load: "Load_cert ?c lib (jb_flt ?j 0) ?d (cx_tbl s) = (e, p, row)" by (metis prod_cases3)
  have dom: "ar_domain req = ?d" using assms(9) by simp
  have first: "job_step ?c lib req ?j i s =
      (if (case row of None \<Rightarrow> False | Some r \<Rightarrow> ce_source r = CertSourceManual) \<or> \<not> needsRenewal (jb_now ?j) row
       then set_job i (Ended None) s else set_job i Due s)"
    using assms(3,5,8) load dom by (simp add: job_step_def first_step_def loop_check_def)
  show ?thesis
  proof (cases "(case row of None \<Rightarrow> False | Some r \<Rightarrow> ce_source r = CertSourceManual) \<or> \<not> needsRenewal (jb_now ?j) row")
    case True
    with first have "job_step ?c lib req ?j i s = set_job i (Ended None) s" by argo
    then have "s' = do_steps ?c lib req ?j i 5 (set_job i (Ended None) s)" using s' by (simp add: do_steps_Suc numeral_eq_Suc)
    then have "s' = set_job i (Ended None) s" using assms(1,2) do_steps_ended [of "set_job i (Ended None) s" i None] by simp
    with True load assms(1,2,4,6-8) show ?thesis by (auto simp: renewIfNeeded_def Let_def)
  next
    case False
    define s1 where "s1 = set_job i Holding (s\<lparr>cx_lock := Some i\<rparr>)"
    have "job_step ?c lib req ?j i (set_job i Due s) = s1"
      using assms(1,2,4) by (simp add: job_step_def s1_def set_job_def)
    then have "s' = do_steps ?c lib req ?j i 4 s1" using s' first False by (simp add: do_steps_Suc numeral_eq_Suc)
    moreover obtain err tbl where issue:
      "Issue ?c lib (\<lambda>_ _. jb_lego ?j) (\<lambda>n. jb_flt ?j (Suc n)) (jb_now ?j) req (cx_tbl s) = (err, tbl)" by fastforce
    moreover have "i < length (cx_pcs s1)" "cx_pcs s1 ! i = Holding" "cx_tbl s1 = cx_tbl s" "cx_served s1 = cx_served s"
      using assms(1,2) by (simp_all add: s1_def)
    ultimately have "cx_pcs s' ! i = Ended err \<and> cx_lock s' = None \<and>
      (cx_served s', cx_tbl s') = (case err of
          Some e \<Rightarrow> (cx_served s, RecordFailure (jb_flt ?j 4) (jb_now ?j) (ar_domain req) e tbl)
        | None \<Rightarrow> (install_cert ?c lib (jb_flt ?j 5) (ar_domain req) tbl (cx_served s), tbl))"
      using order_alone [of i s1 ?c lib ?j req err tbl s'] by (cases err) auto
    moreover have "renewIfNeeded ?c lib (\<lambda>_ _. jb_lego ?j) (jb_flt ?j) (jb_now ?j) cfg (cx_served s, cx_tbl s) = (case err of
          Some e \<Rightarrow> (cx_served s, RecordFailure (jb_flt ?j 4) (jb_now ?j) (ar_domain req) e tbl)
        | None \<Rightarrow> (install_cert ?c lib (jb_flt ?j 5) (ar_domain req) tbl (cx_served s), tbl))"
      using False load issue dom assms(6-9) by (cases err) (simp_all add: renewIfNeeded_def Let_def)
    ultimately show ?thesis by simp
  qed
qed

lemma job_alone_witness:
  "\<exists>served tbl. renewIfNeeded demo_crypto demo_lib (\<lambda>_ _. demo_lego) (jb_flt (demo_job Loop)) 5 demo_standalone
       (None, [demo_cert CertSourceACME]) = (served, tbl) \<and>
     (cx_served (cert_run demo_crypto demo_lib demo_acme [demo_job Loop] (replicate 6 0)
        (cert_start [demo_job Loop] None [demo_cert CertSourceACME])) = served)"
proof -
  have "demo_acme = \<lparr>ar_domain = TLSDomain demo_standalone, ar_email = ACMEEmail demo_standalone,
      ar_staging = ACMEStaging demo_standalone\<rparr>"
    by (simp add: demo_acme_def demo_standalone_def demo_Config_def)
  moreover have "TLSMode demo_standalone = TLSModeStandalone" "ACMEEnabled demo_standalone" "TLSDomain demo_standalone \<noteq> []"
    by (simp_all add: demo_standalone_def)
  ultimately show ?thesis
    using job_alone [of 0 "[demo_job Loop]" "cert_start [demo_job Loop] None [demo_cert CertSourceACME]" demo_standalone
        demo_acme _ demo_crypto demo_lib]
    by (auto simp: cert_start_def prod_eq_iff)
qed

text \<open>The steps of an upload that was stored and of an order that is past its check, in any interleaving.\<close>

definition order_open :: "job_pc \<Rightarrow> bool" where
  "order_open p \<longleftrightarrow> p = Due \<or> in_order p"

definition acme_row :: "acmeRequest \<Rightarrow> job \<Rightarrow> certRow list \<Rightarrow> bool" where
  "acme_row req j tbl \<longleftrightarrow> (\<exists>row cert key. cert_at tbl (ar_domain req) = Some row \<and> ce_source row = CertSourceACME \<and>
     lg_obtain (jb_lego j) = Inr (cert, key) \<and> ce_cert row = cert)"

definition overlapping :: "acmeRequest \<Rightarrow> job \<Rightarrow> nat \<Rightarrow> nat \<Rightarrow> cert_state \<Rightarrow> bool" where
  "overlapping req j i k s \<longleftrightarrow> i < length (cx_pcs s) \<and> k < length (cx_pcs s) \<and> cx_pcs s ! k \<in> {Stored, Ended None} \<and>
     (order_open (cx_pcs s ! i) \<or> (\<exists>e. cx_pcs s ! i \<in> {Failed e, Ended (Some e)}) \<or>
      cx_pcs s ! i \<in> {Stored, Ended None} \<and> acme_row req j (cx_tbl s))"

lemma order_open_simps [simp]:
  "order_open Due" "in_order p \<Longrightarrow> order_open p" "\<not> order_open Waiting" "\<not> order_open (Failed e)" "\<not> order_open Stored"
  "\<not> order_open (Ended err)"
  by (simp_all add: order_open_def)

lemma stored_acme:
  assumes "issue_store c lib (jb_lego j) flt now req tbl = (None, tbl')"
  shows "acme_row req j tbl'"
proof -
  obtain cert key where pair: "lg_obtain (jb_lego j) = Inr (cert, key)"
    "Save_cert c lib flt 1 now (ar_domain req) CertSourceACME cert key tbl = (None, tbl')"
    using assms by (auto simp: issue_store_def split: sum.splits)
  from pair(2) show ?thesis
    by (rule Save_cert_ok) (use pair(1) in \<open>auto simp: acme_row_def find_save_row\<close>)
qed

lemma overlapping_order:
  assumes "overlapping req j i k s" "i \<noteq> k"
  shows "overlapping req j i k (job_step c lib req j i s)"
proof (cases "cx_pcs s ! i")
  case Registered
  obtain err tbl where "issue_store c lib (jb_lego j) (jb_flt j 3) (jb_now j) req (cx_tbl s) = (err, tbl)" by fastforce
  with assms Registered stored_acme [of c lib j "jb_flt j 3" "jb_now j" req "cx_tbl s" tbl] show ?thesis
    by (auto simp: overlapping_def job_step_def split: option.split)
qed (use assms in \<open>auto simp: overlapping_def job_step_def split: sum.split prod.split option.split\<close>)

lemma overlapping_upload:
  assumes "overlapping req j i k s" "i \<noteq> k"
  shows "overlapping req j i k (job_step c lib req j' k s)"
  using assms by (auto simp: overlapping_def job_step_def)

lemma overlapping_run:
  assumes "overlapping req (jobs ! i) i k s" "i \<noteq> k" "set sched \<subseteq> {i, k}"
  shows "overlapping req (jobs ! i) i k (cert_run c lib req jobs sched s)"
  using assms
proof (induction sched arbitrary: s)
  case (Cons m sched)
  then have "overlapping req (jobs ! i) i k (advance c lib req jobs m s)"
    using overlapping_order overlapping_upload by (auto simp: advance_def)
  with Cons show ?case by (simp add: cert_run_def)
qed (simp add: cert_run_def)

text \<open>A check finds the upload and leaves it alone, when it can read it.\<close>

lemma check_after_upload:
  assumes "aead_ok (cr_aead c)" "good_nonces (jb_nonce j)" "usable_pair (upload_pair j)"
    and "Save_cert (c\<lparr>cr_nonce := jb_nonce j\<rparr>) lib flt 1 now (ar_domain req) CertSourceManual
      (fst (upload_pair j)) (snd (upload_pair j)) tbl = (None, tbl1)"
    and "cx_tbl s = tbl1" "cx_pcs s ! m = Waiting" "jb_kind j' = Loop" "\<not> jb_flt j' 0"
  shows "job_step (c\<lparr>cr_nonce := nn\<rparr>) lib req j' m s = set_job m (Ended None) s"
proof -
  obtain row where row: "cert_at tbl1 (ar_domain req) = Some row" "ce_source row = CertSourceManual"
    using assms(4) by (rule Save_cert_ok) (auto simp: find_save_row)
  have "good_crypto (c\<lparr>cr_nonce := jb_nonce j\<rparr>)" using assms(1,2) by (simp add: good_crypto_def)
  from Save_cert_loads [OF this _ _ _ assms(4)] assms(3)
  have "loaded (c\<lparr>cr_nonce := jb_nonce j\<rparr>) lib (ar_domain req) tbl1 = Some (upload_pair j)"
    by (auto simp: usable_pair_def loaded_def)
  then have "loaded (c\<lparr>cr_nonce := nn\<rparr>) lib (ar_domain req) tbl1 = Some (upload_pair j)" by simp
  then have "snd (snd (Load_cert (c\<lparr>cr_nonce := nn\<rparr>) lib False (ar_domain req) tbl1)) = Some row"
    using row(1) by (auto simp: loaded_def Load_cert_def split: option.splits sum.splits)
  with assms(5-8) row(2) show ?thesis
    by (simp add: job_step_def first_step_def loop_check_def case_prod_beta)
qed

text \<open>C27: An upload during an order is lost.  The order of job \<open>i\<close> is past the check of the source and not yet
  stored, waiting for the mutex or holding it at any of its statements (the button
  makes no such check), when an operator's upload \<open>k\<close> is
  stored as the operator's own certificate.  In whatever order the two go on, the upload is reported as done;
  and when the order succeeds, the row of the domain holds the certificate the order obtained, which counts
  as the portal's own.  A check that starts right after the upload and can read the table would have left it
  alone.  This is for an uploaded pair and a cipher under which a stored key can be read back.\<close>

theorem upload_overwritten:
  assumes "i < length jobs" "k < length jobs" "i \<noteq> k" "length (cx_pcs s) = length jobs"
    and "order_open (cx_pcs s ! i)" "cx_pcs s ! k = Waiting" "jb_kind (jobs ! k) = Upload"
    and "s1 = cert_run c lib req jobs [k] s" "cx_pcs s1 ! k = Stored"
    and "set sched \<subseteq> {i, k}" "s' = cert_run c lib req jobs sched s1" "cx_pcs s' ! i = Ended None"
    and "aead_ok (cr_aead c)" "good_nonces (jb_nonce (jobs ! k))" "usable_pair (upload_pair (jobs ! k))"
  shows "(\<exists>row. cert_at (cx_tbl s1) (ar_domain req) = Some row \<and> ce_source row = CertSourceManual \<and>
       ce_cert row = fst (upload_pair (jobs ! k))) \<and>
    cx_pcs s' ! k \<in> {Stored, Ended None} \<and>
    (\<exists>row cert key. cert_at (cx_tbl s') (ar_domain req) = Some row \<and> ce_source row = CertSourceACME \<and>
       lg_obtain (jb_lego (jobs ! i)) = Inr (cert, key) \<and> ce_cert row = cert) \<and>
    (\<forall>m<length jobs. cx_pcs s ! m = Waiting \<and> jb_kind (jobs ! m) = Loop \<and> \<not> jb_flt (jobs ! m) 0 \<longrightarrow>
       cert_run c lib req jobs [m] s1 = set_job m (Ended None) s1)"
proof -
  let ?ck = "c\<lparr>cr_nonce := jb_nonce (jobs ! k)\<rparr>"
  obtain err tbl1 where save: "Save_cert ?ck lib (jb_flt (jobs ! k) 3) 1 (jb_now (jobs ! k)) (ar_domain req)
      CertSourceManual (fst (upload_pair (jobs ! k))) (snd (upload_pair (jobs ! k))) (cx_tbl s) = (err, tbl1)" by fastforce
  have s1: "s1 = upload_save ?ck lib req (jobs ! k) k s"
    using assms(2,6-8) by (simp add: cert_run_def advance_def job_step_def first_step_def)
  then have ok: "err = None" "s1 = set_job k Stored (s\<lparr>cx_tbl := tbl1\<rparr>)"
    using assms(2,4,9) save by (auto simp: upload_save_def case_prod_beta split: if_splits option.splits)
  note save = save [unfolded ok(1)]
  obtain row where row: "cert_at tbl1 (ar_domain req) = Some row" "ce_source row = CertSourceManual"
    "ce_cert row = fst (upload_pair (jobs ! k))"
    using save by (rule Save_cert_ok) (auto simp: find_save_row)
  have "overlapping req (jobs ! i) i k s1" using assms(1-5) by (simp add: overlapping_def ok(2))
  from overlapping_run [OF this assms(3,10), of c lib] have "overlapping req (jobs ! i) i k s'" by (simp add: assms(11))
  with assms(12) have "cx_pcs s' ! k \<in> {Stored, Ended None}" "acme_row req (jobs ! i) (cx_tbl s')" by (auto simp: overlapping_def)
  moreover have "cert_run c lib req jobs [m] s1 = set_job m (Ended None) s1"
    if "m < length jobs" "cx_pcs s ! m = Waiting" "jb_kind (jobs ! m) = Loop" "\<not> jb_flt (jobs ! m) 0" for m
  proof -
    have "m \<noteq> k" using that(3) assms(7) by auto
    with that check_after_upload [OF assms(13-15) save, of s1 m "jobs ! m" "jb_nonce (jobs ! m)"]
    show ?thesis by (simp add: cert_run_def advance_def ok(2))
  qed
  ultimately show ?thesis using row ok(2) by (auto simp: acme_row_def)
qed

definition demo_due :: cert_state where
  "demo_due = \<lparr>cx_tbl = [demo_cert CertSourceACME], cx_served = None, cx_lock = None, cx_pcs = [Due, Waiting], cx_orders = []\<rparr>"

lemma demo_save:
  "\<exists>row tbl'. Save_cert demo_crypto demo_lib False i 5 ''p.org'' source ''mine'' ''minekey'' tbl = (None, tbl') \<and>
     cert_at tbl' ''p.org'' = Some row \<and> ce_account row = []"
  by (simp add: Save_cert_def demo_lib_def demo_crypto_def Encrypt_def has_prefix_def Prefix_def find_save_row)

lemma demo_issue_ok:
  "cert_at tbl ''p.org'' = Some row \<Longrightarrow> ce_account row = [] \<Longrightarrow>
     fst (Issue demo_crypto demo_lib (\<lambda>_ _. demo_lego) (\<lambda>_. False) 5 demo_acme tbl) = None"
  by (simp add: Issue_def demo_acme_def loadOrCreateAccountKey_def demo_lego_def acme_account_def
      Save_cert_def demo_lib_def demo_crypto_def Encrypt_def demo_keys Let_def)

text \<open>The loop waits for the mutex, the upload is stored and installed, then the order runs to its end.\<close>

theorem upload_overwritten_witness:
  "\<exists>row. cert_at (cx_tbl (cert_run demo_crypto demo_lib demo_acme [demo_job Loop, demo_job Upload] (1 # replicate 5 0)
       (cert_run demo_crypto demo_lib demo_acme [demo_job Loop, demo_job Upload] [1] demo_due))) ''p.org'' = Some row \<and>
     ce_source row = CertSourceACME \<and> ce_cert row = ''chain''"
proof -
  let ?jobs = "[demo_job Loop, demo_job Upload]"
  define s1 where "s1 = cert_run demo_crypto demo_lib demo_acme ?jobs [1] demo_due"
  define s2 where "s2 = cert_run demo_crypto demo_lib demo_acme ?jobs [1] s1"
  define s' where "s' = cert_run demo_crypto demo_lib demo_acme ?jobs (replicate 5 0) s2"
  obtain row tbl1 where save: "Save_cert demo_crypto demo_lib False 1 5 ''p.org'' CertSourceManual ''mine'' ''minekey''
      [demo_cert CertSourceACME] = (None, tbl1)" "cert_at tbl1 ''p.org'' = Some row" "ce_account row = []"
    using demo_save [of 1 CertSourceManual "[demo_cert CertSourceACME]"] by blast
  obtain tbl2 where issue: "Issue demo_crypto demo_lib (\<lambda>_ _. demo_lego) (\<lambda>_. False) 5 demo_acme tbl1 = (None, tbl2)"
    using demo_issue_ok [OF save(2,3)] by (metis prod.collapse)
  have dom: "ar_domain demo_acme = ''p.org''" by (simp add: demo_acme_def)
  have usable: "usable_pair (''mine'', ''minekey'')" by (simp add: usable_pair_def has_prefix_def Prefix_def)
  have s1: "s1 = set_job 1 Stored (demo_due\<lparr>cx_tbl := tbl1\<rparr>)"
    using save(1) dom by (simp add: s1_def cert_run_def advance_def job_step_def first_step_def upload_save_def demo_due_def)
  then have s2: "cx_tbl s2 = tbl1" "cx_pcs s2 = [Due, Ended None]" "cx_lock s2 = None"
    by (simp_all add: s2_def cert_run_def advance_def job_step_def demo_due_def)
  have ended: "cx_pcs s' ! 0 = Ended None"
    using order_from_due [of 0 ?jobs s2 demo_crypto demo_lib demo_acme tbl2 s'] s2 issue by (simp add: s'_def)
  have run: "s' = cert_run demo_crypto demo_lib demo_acme ?jobs (1 # replicate 5 0) s1"
    by (simp add: s'_def s2_def cert_run_def)
  have crypto: "aead_ok (cr_aead demo_crypto)" "good_nonces (jb_nonce (?jobs ! 1))" "usable_pair (upload_pair (?jobs ! 1))"
    using demo_crypto_good demo_job_good [of Upload] usable by (simp_all add: good_crypto_def good_job_def)
  have at: "0 < length ?jobs" "1 < length ?jobs" "(0::nat) \<noteq> 1" "length (cx_pcs demo_due) = length ?jobs"
    "order_open (cx_pcs demo_due ! 0)" "cx_pcs demo_due ! 1 = Waiting" "jb_kind (?jobs ! 1) = Upload"
    "cx_pcs s1 ! 1 = Stored" "set (1 # replicate 5 0) \<subseteq> {0, 1::nat}"
    by (simp_all add: s1) (simp_all add: demo_due_def)
  from upload_overwritten [OF at(1-7) s1_def at(8,9) run ended crypto]
  obtain row cert key where "cert_at (cx_tbl s') ''p.org'' = Some row" "ce_source row = CertSourceACME"
    "lg_obtain (jb_lego (?jobs ! 0)) = Inr (cert, key)" "ce_cert row = cert"
    unfolding dom by blast
  then show ?thesis unfolding run s1_def by (simp add: demo_lego_def)
qed

text \<open>The mutex keeps two orders apart but not from both being placed: who has found a renewal due, or was asked
  for one, orders when its turn comes, whatever the order before it has stored in the meantime.\<close>

lemma duplicate_order:
  assumes "i < length jobs" "k < length jobs" "i \<noteq> k" "length (cx_pcs s) = length jobs" "cx_lock s = None"
    and "cx_pcs s ! i = Due" "cx_pcs s ! k = Due"
    and "Issue (c\<lparr>cr_nonce := jb_nonce (jobs ! k)\<rparr>) lib (\<lambda>_ _. jb_lego (jobs ! k)) (\<lambda>n. jb_flt (jobs ! k) (Suc n))
      (jb_now (jobs ! k)) req (cx_tbl s) = (None, tbl1)"
    and "Issue (c\<lparr>cr_nonce := jb_nonce (jobs ! i)\<rparr>) lib (\<lambda>_ _. jb_lego (jobs ! i)) (\<lambda>n. jb_flt (jobs ! i) (Suc n))
      (jb_now (jobs ! i)) req tbl1 = (None, tbl2)"
  shows "cx_orders (cert_run c lib req jobs (replicate 5 k @ replicate 5 i) s) = cx_orders s @ [k, i]"
proof -
  define s1 where "s1 = cert_run c lib req jobs (replicate 5 k) s"
  have first: "cx_lock s1 = None" "cx_tbl s1 = tbl1" "cx_orders s1 = cx_orders s @ [k]"
    using order_from_due [OF assms(2) _ assms(7,5,8) s1_def] assms(2,4) by simp_all
  have "cx_pcs s1 ! i = Due" using run_other [of k i] assms(3,6) by (simp add: s1_def)
  moreover have "length (cx_pcs s1) = length jobs" by (simp add: s1_def length_run assms(4))
  ultimately show ?thesis
    using order_from_due [OF assms(1) _ _ first(1) _ refl, of c lib req tbl2] first assms(1,9)
    by (simp add: cert_run_def s1_def)
qed

end
