(* ===== verification/CommitRace.thy ===== *)
theory CommitRace
  imports Listeners
begin

text \<open>
  The confirmation of a listener change as the goroutines run it (\<open>listenerCommit\<close> of \<open>portal/tls.go\<close>).
  The expiry of the timer starts the callback in a goroutine of its own; stopping or replacing the timer does
  not reach a callback that was started, and the callback finds out what to do only once it has the mutex.
  \<open>begin\<close>, \<open>confirm\<close> and the critical section of the callback are single steps under the mutex; what lies
  between the expiry and the critical section is time in which the other two may run.  The theory Listeners
  takes expiry and callback as one step.
\<close>

section \<open>The steps\<close>

text \<open>What has happened to the changes, numbered from 1 in the order of \<open>begin\<close>.\<close>

datatype commit_event = Begun nat rollback time | Confirmed nat | Replaced nat | RolledBack nat rollback time

record commits =
  cm_now :: time
  cm_lock :: listenerCommit
  cm_started :: nat
  cm_count :: nat
  cm_log :: "commit_event list"

definition commits_init :: "time \<Rightarrow> commits" where
  "commits_init now = \<lparr>cm_now = now, cm_lock = no_commit, cm_started = 0, cm_count = 0, cm_log = []\<rparr>"

text \<open>A change that is made while another is pending replaces it: the rollback of the other is given up.\<close>

definition do_begin :: "rollback \<Rightarrow> commits \<Rightarrow> commits" where
  "do_begin rb s =
     (case commit_begin (cm_now s) rb (cm_lock s) of
        (deadline, l) \<Rightarrow> s\<lparr>cm_lock := l, cm_count := Suc (cm_count s),
          cm_log := cm_log s @ (if lc_pending (cm_lock s) then [Replaced (cm_count s)] else []) @
            [Begun (Suc (cm_count s)) rb deadline]\<rparr>)"

definition do_confirm :: "commits \<Rightarrow> commits" where
  "do_confirm s =
     (case commit_confirm (cm_lock s) of
        (ok, l) \<Rightarrow> s\<lparr>cm_lock := l, cm_log := cm_log s @ (if ok then [Confirmed (cm_count s)] else [])\<rparr>)"

text \<open>The critical section of the callback; the rollback that it fetches then runs without the mutex.\<close>

definition do_callback :: "commits \<Rightarrow> commits" where
  "do_callback s =
     (let l = cm_lock s; s1 = s\<lparr>cm_started := cm_started s - 1\<rparr>
      in if \<not> lc_pending l then s1
         else s1\<lparr>cm_lock := l\<lparr>lc_pending := False\<rparr>,
                cm_log := cm_log s @ (case lc_rollback l of None \<Rightarrow> [] | Some rb \<Rightarrow> [RolledBack (cm_count s) rb (cm_now s)])\<rparr>)"

text \<open>With \<open>prompt\<close>, no change is made between the expiry of a timer and its callback.\<close>

inductive commit_step :: "bool \<Rightarrow> commits \<Rightarrow> commits \<Rightarrow> bool" for prompt :: bool where
  wait: "cm_now s \<le> t \<Longrightarrow> commit_step prompt s (s\<lparr>cm_now := t\<rparr>)"
| start: "prompt \<longrightarrow> cm_started s = 0 \<Longrightarrow> commit_step prompt s (do_begin rb s)"
| confirm: "commit_step prompt s (do_confirm s)"
| expire: "lc_timer (cm_lock s) = Some t \<Longrightarrow> t \<le> cm_now s \<Longrightarrow>
    commit_step prompt s (s\<lparr>cm_lock := (cm_lock s)\<lparr>lc_timer := None\<rparr>, cm_started := Suc (cm_started s)\<rparr>)"
| callback: "0 < cm_started s \<Longrightarrow> commit_step prompt s (do_callback s)"

inductive commits_reach :: "bool \<Rightarrow> time \<Rightarrow> commits \<Rightarrow> bool" for prompt :: bool and t0 :: time where
  init: "commits_reach prompt t0 (commits_init t0)"
| step: "commits_reach prompt t0 s \<Longrightarrow> commit_step prompt s s' \<Longrightarrow> commits_reach prompt t0 s'"

inductive_cases commit_stepE: "commit_step prompt s s'"

lemmas commit_ops = do_begin_def do_confirm_def do_callback_def commit_begin_def commit_confirm_def Let_def

text \<open>Without a gap between expiry and callback this is the timer of Listeners.\<close>

lemma do_rollback_commit: "sv_commit (do_rollback e rb s) = sv_commit s"
  by (simp add: do_rollback_def Let_def split: prod.split option.split)

lemma tick_is_expire_callback:
  assumes "lc_timer (sv_commit sv) = Some t" "t \<le> w_now (en_world e)"
    and "cm_lock s = sv_commit sv" "cm_now s = w_now (en_world e)" "cm_started s = 0"
  shows "\<exists>mid s'. commit_step True s mid \<and> commit_step True mid s' \<and> cm_lock s' = sv_commit (commit_tick e sv)"
proof -
  let ?mid = "s\<lparr>cm_lock := (cm_lock s)\<lparr>lc_timer := None\<rparr>, cm_started := Suc (cm_started s)\<rparr>"
  have "commit_step True s ?mid" using assms by (intro expire) auto
  moreover have "commit_step True ?mid (do_callback ?mid)" by (intro callback) simp
  moreover have "cm_lock (do_callback ?mid) = sv_commit (commit_tick e sv)"
    using assms by (simp add: do_callback_def commit_tick_def do_rollback_commit Let_def split: option.split)
  ultimately show ?thesis by blast
qed


section \<open>The invariant\<close>

text \<open>How a change ended, if it did.\<close>

definition outcome_of :: "nat \<Rightarrow> commit_event \<Rightarrow> bool" where
  "outcome_of n ev = (case ev of Begun _ _ _ \<Rightarrow> False | Confirmed m \<Rightarrow> m = n | Replaced m \<Rightarrow> m = n
     | RolledBack m _ _ \<Rightarrow> m = n)"

definition outcomes :: "nat \<Rightarrow> commits \<Rightarrow> commit_event list" where
  "outcomes n s = filter (outcome_of n) (cm_log s)"

lemma outcome_of_simps [simp]:
  "\<not> outcome_of n (Begun m rb d)" "outcome_of n (Confirmed m) \<longleftrightarrow> m = n" "outcome_of n (Replaced m) \<longleftrightarrow> m = n"
  "outcome_of n (RolledBack m rb t) \<longleftrightarrow> m = n"
  by (simp_all add: outcome_of_def)

definition numbered :: "commits \<Rightarrow> bool" where
  "numbered s \<longleftrightarrow> (\<forall>n rb d. Begun n rb d \<in> set (cm_log s) \<longrightarrow> 0 < n \<and> n \<le> cm_count s) \<and>
     (\<forall>n rb d rb' d'. Begun n rb d \<in> set (cm_log s) \<and> Begun n rb' d' \<in> set (cm_log s) \<longrightarrow> rb = rb' \<and> d = d') \<and>
     (\<forall>n>cm_count s. outcomes n s = [])"

definition pending_ok :: "commits \<Rightarrow> bool" where
  "pending_ok s \<longleftrightarrow> (lc_pending (cm_lock s) \<longrightarrow> outcomes (cm_count s) s = [] \<and>
     (\<exists>rb. lc_rollback (cm_lock s) = Some rb \<and> Begun (cm_count s) rb (lc_deadline (cm_lock s)) \<in> set (cm_log s)))"

text \<open>An outcome is that of a change that was made, a rollback restores what was recorded then.\<close>

definition explained :: "commit_event list \<Rightarrow> commit_event \<Rightarrow> bool" where
  "explained log ev = (case ev of
      Begun _ _ _ \<Rightarrow> True
    | Confirmed n \<Rightarrow> \<exists>rb d. Begun n rb d \<in> set log
    | Replaced n \<Rightarrow> \<exists>rb d. Begun n rb d \<in> set log
    | RolledBack n rb _ \<Rightarrow> \<exists>d. Begun n rb d \<in> set log)"

definition recorded :: "commits \<Rightarrow> bool" where
  "recorded s \<longleftrightarrow> (\<forall>n. length (outcomes n s) \<le> 1) \<and> (\<forall>ev\<in>set (cm_log s). explained (cm_log s) ev)"

lemma explained_more [intro]: "explained log ev \<Longrightarrow> explained (log @ evs) ev"
  by (auto simp: explained_def split: commit_event.splits)

lemma explained_Begun [simp]: "explained log (Begun n rb d)" by (simp add: explained_def)

definition on_time :: "commits \<Rightarrow> bool" where
  "on_time s \<longleftrightarrow> (lc_pending (cm_lock s) \<and> 0 < cm_started s \<longrightarrow> lc_deadline (cm_lock s) \<le> cm_now s) \<and>
     (\<forall>t. lc_timer (cm_lock s) = Some t \<longrightarrow> t = lc_deadline (cm_lock s)) \<and>
     (\<forall>n rb t d. RolledBack n rb t \<in> set (cm_log s) \<and> Begun n rb d \<in> set (cm_log s) \<longrightarrow> d \<le> t)"

lemma numbered_step:
  assumes "commit_step prompt s s'" "pending_ok s" "numbered s"
  shows "numbered s'"
proof -
  have "Begun (Suc (cm_count s)) rb d \<notin> set (cm_log s)" for rb d
    using assms(3) unfolding numbered_def by (metis not_less_eq_eq order_refl)
  moreover have "n \<le> cm_count s" if "Begun n rb d \<in> set (cm_log s)" for n rb d
    using assms(3) that unfolding numbered_def by blast
  ultimately have begun: "numbered (do_begin rb s)" for rb
    using assms(3) unfolding numbered_def do_begin_def commit_begin_def
    by (auto simp: outcomes_def le_SucI simp del: split_paired_All split_paired_Ex) (metis prod.inject)+
  from assms(1) show ?thesis
  proof cases
    case start
    with begun show ?thesis by simp
  next
    case confirm
    with assms(3) show ?thesis by (simp add: numbered_def outcomes_def commit_ops del: split_paired_All)
  next
    case callback
    with assms(3) show ?thesis
      by (simp add: numbered_def outcomes_def commit_ops del: split_paired_All split: option.split)
  qed (use assms(3) in \<open>simp_all add: numbered_def outcomes_def del: split_paired_All\<close>)
qed

lemma pending_step:
  assumes "commit_step prompt s s'" "numbered s" "pending_ok s"
  shows "pending_ok s'"
  using assms(1)
proof cases
  case start
  with assms(2) show ?thesis by (auto simp: numbered_def pending_ok_def outcomes_def commit_ops)
next
  case confirm
  with assms(3) show ?thesis by (simp add: pending_ok_def outcomes_def commit_ops)
next
  case callback
  with assms(3) show ?thesis by (simp add: pending_ok_def outcomes_def commit_ops)
qed (use assms(3) in \<open>simp_all add: pending_ok_def outcomes_def\<close>)

lemma recorded_step:
  assumes "commit_step prompt s s'" "numbered s" "pending_ok s" "recorded s"
  shows "recorded s'"
proof -
  have now: "explained (cm_log s @ evs) (Confirmed (cm_count s))" "explained (cm_log s @ evs) (Replaced (cm_count s))"
    "lc_rollback (cm_lock s) = Some rb \<Longrightarrow> explained (cm_log s @ evs) (RolledBack (cm_count s) rb t)"
    "outcomes (cm_count s) s = []"
    if "lc_pending (cm_lock s)" for evs rb t
    using assms(3) that by (auto simp: pending_ok_def explained_def)
  from assms(1) show ?thesis
  proof cases
    case start
    with assms(4) now show ?thesis by (auto simp: recorded_def outcomes_def commit_ops)
  next
    case confirm
    with assms(4) now show ?thesis by (auto simp: recorded_def outcomes_def commit_ops)
  next
    case callback
    with assms(4) now show ?thesis by (auto simp: recorded_def outcomes_def commit_ops split: option.split)
  qed (use assms(4) in \<open>simp_all add: recorded_def outcomes_def\<close>)
qed

text \<open>Every change but a pending one has come to an end.\<close>

definition begun :: "nat \<Rightarrow> commit_event list \<Rightarrow> bool" where
  "begun n log \<longleftrightarrow> list_ex (\<lambda>ev. case ev of Begun m _ _ \<Rightarrow> m = n | _ \<Rightarrow> False) log"

lemma begun_simps [simp]:
  "\<not> begun n []" "begun n (evs @ evs') \<longleftrightarrow> begun n evs \<or> begun n evs'" "begun n (Begun m rb d # evs) \<longleftrightarrow> m = n \<or> begun n evs"
  "begun n (Confirmed m # evs) \<longleftrightarrow> begun n evs" "begun n (Replaced m # evs) \<longleftrightarrow> begun n evs"
  "begun n (RolledBack m rb t # evs) \<longleftrightarrow> begun n evs"
  by (simp_all add: begun_def)

lemma begunI: "Begun n rb d \<in> set evs \<Longrightarrow> begun n evs"
  unfolding begun_def list_ex_iff by force

definition settled :: "commits \<Rightarrow> bool" where
  "settled s \<longleftrightarrow> (\<forall>n. begun n (cm_log s) \<longrightarrow> outcomes n s \<noteq> [] \<or> n = cm_count s \<and> lc_pending (cm_lock s))"

lemma settled_step:
  assumes "commit_step prompt s s'" "pending_ok s" "settled s"
  shows "settled s'"
  using assms(1)
proof cases
  case start
  with assms(3) show ?thesis by (auto simp: settled_def outcomes_def commit_ops)
next
  case confirm
  with assms(3) show ?thesis by (auto simp: settled_def outcomes_def commit_ops)
next
  case callback
  show ?thesis
  proof (cases "lc_rollback (cm_lock s)")
    case None
    with assms(2,3) callback show ?thesis by (auto simp: settled_def pending_ok_def commit_ops outcomes_def)
  next
    case (Some rb)
    with assms(3) callback show ?thesis by (auto simp: settled_def commit_ops outcomes_def)
  qed
qed (use assms(3) in \<open>simp_all add: settled_def outcomes_def\<close>)

lemma recorded_begun: "recorded s \<Longrightarrow> RolledBack n rb t \<in> set (cm_log s) \<Longrightarrow> \<exists>d. Begun n rb d \<in> set (cm_log s)"
  unfolding recorded_def explained_def by fastforce

lemma on_time_step:
  assumes "commit_step True s s'" "numbered s" "pending_ok s" "recorded s" "on_time s"
  shows "on_time s'"
proof -
  have fresh: "RolledBack (Suc (cm_count s)) rb t \<notin> set (cm_log s)" "Begun (Suc (cm_count s)) rb t \<notin> set (cm_log s)" for rb t
    using assms(2) recorded_begun [OF assms(4)] unfolding numbered_def by (metis not_less_eq_eq order_refl)+
  have due: "d = lc_deadline (cm_lock s)"
    if "lc_pending (cm_lock s)" "lc_rollback (cm_lock s) = Some rb" "Begun (cm_count s) rb d \<in> set (cm_log s)" for rb d
    using assms(2,3) that unfolding numbered_def pending_ok_def by blast
  from assms(1) show ?thesis
  proof cases
    case start
    with assms(5) fresh show ?thesis by (auto simp: on_time_def commit_ops simp del: split_paired_All)
  next
    case confirm
    with assms(5) show ?thesis by (auto simp: on_time_def commit_ops simp del: split_paired_All)
  next
    case callback
    with assms(5) due show ?thesis
      by (cases "lc_rollback (cm_lock s)") (auto simp: on_time_def commit_ops simp del: split_paired_All)
  qed (use assms(5) in \<open>auto simp: on_time_def simp del: split_paired_All\<close>)
qed

lemma late_rollback: "on_time s \<Longrightarrow> RolledBack n rb t \<in> set (cm_log s) \<Longrightarrow> Begun n rb d \<in> set (cm_log s) \<Longrightarrow> d \<le> t"
  unfolding on_time_def by blast

lemma commits_reach_inv: "commits_reach prompt t0 s \<Longrightarrow> numbered s \<and> pending_ok s \<and> recorded s \<and> settled s"
proof (induction rule: commits_reach.induct)
  case init
  show ?case by (simp add: numbered_def pending_ok_def recorded_def settled_def outcomes_def commits_init_def no_commit_def)
next
  case (step s s')
  then show ?case using numbered_step pending_step recorded_step settled_step by blast
qed

lemma commits_reach_on_time: "commits_reach True t0 s \<Longrightarrow> on_time s"
proof (induction rule: commits_reach.induct)
  case init
  show ?case by (simp add: on_time_def commits_init_def no_commit_def)
next
  case (step s s')
  then show ?case using commits_reach_inv on_time_step by blast
qed


section \<open>Properties\<close>

lemma outcome_once:
  assumes "length (outcomes n s) \<le> 1" "ev \<in> set (cm_log s)" "ev' \<in> set (cm_log s)" "outcome_of n ev" "outcome_of n ev'"
  shows "ev = ev'"
proof -
  have "{ev, ev'} \<subseteq> set (outcomes n s)" using assms(2-5) by (simp add: outcomes_def)
  then have "card {ev, ev'} \<le> length (outcomes n s)"
    by (meson List.finite_set card_length card_mono order_trans)
  with assms(1) show ?thesis by (cases "ev = ev'") simp_all
qed

text \<open>C10: A change is confirmed, rolled back or replaced, exactly one of them.  In any interleaving of changes,
  confirmations, the expiry of timers and their callbacks, each change has exactly one of the three outcomes,
  except that the last one has none as long as it is pending; so a change that was confirmed or replaced by a
  later one is never rolled back.  A rollback restores what was recorded when that very change was made, and
  when no change is made between the expiry of a timer and its callback, it comes at the deadline or later.\<close>

theorem commit_outcomes:
  assumes "commits_reach prompt t0 s"
  shows "length (outcomes n s) \<le> 1 \<and>
    (Begun n rb d \<in> set (cm_log s) \<longrightarrow> (outcomes n s = [] \<longleftrightarrow> n = cm_count s \<and> lc_pending (cm_lock s))) \<and>
    \<not> (Confirmed n \<in> set (cm_log s) \<and> Replaced n \<in> set (cm_log s)) \<and>
    (Confirmed n \<in> set (cm_log s) \<or> Replaced n \<in> set (cm_log s) \<longrightarrow> (\<forall>rb t. RolledBack n rb t \<notin> set (cm_log s))) \<and>
    (RolledBack n rb' t \<in> set (cm_log s) \<longrightarrow> (\<exists>d. Begun n rb' d \<in> set (cm_log s) \<and> (prompt \<longrightarrow> d \<le> t)))"
proof -
  note inv = commits_reach_inv [OF assms]
  have once: "length (outcomes n s) \<le> 1" using inv by (simp add: recorded_def)
  have "outcomes n s = [] \<longleftrightarrow> n = cm_count s \<and> lc_pending (cm_lock s)" if "Begun n rb d \<in> set (cm_log s)"
    using inv begunI [OF that] unfolding settled_def pending_ok_def by blast
  moreover have "\<exists>d. Begun n rb' d \<in> set (cm_log s) \<and> (prompt \<longrightarrow> d \<le> t)" if rolled: "RolledBack n rb' t \<in> set (cm_log s)"
  proof -
    obtain d where d: "Begun n rb' d \<in> set (cm_log s)" using inv recorded_begun [OF _ rolled] by blast
    moreover have "d \<le> t" if prompt
      using late_rollback [OF commits_reach_on_time [of t0 s]] assms that d rolled by simp
    ultimately show ?thesis by blast
  qed
  moreover have "\<not> (Confirmed n \<in> set (cm_log s) \<and> Replaced n \<in> set (cm_log s))"
    using outcome_once [OF once, of "Confirmed n" "Replaced n"] by auto
  moreover have "RolledBack n rb'' t' \<notin> set (cm_log s)"
    if "Confirmed n \<in> set (cm_log s) \<or> Replaced n \<in> set (cm_log s)" for rb'' t'
    using that outcome_once [OF once, of "Confirmed n" "RolledBack n rb'' t'"]
      outcome_once [OF once, of "Replaced n" "RolledBack n rb'' t'"] by auto
  ultimately show ?thesis using once by blast
qed

definition demo_changes :: "nat \<Rightarrow> commits" where
  "demo_changes k =
     (let s1 = do_begin ([], ''a@x.org'') (commits_init 0);
          s2 = s1\<lparr>cm_now := 2 * minute\<rparr>;
          s3 = s2\<lparr>cm_lock := (cm_lock s2)\<lparr>lc_timer := None\<rparr>, cm_started := Suc (cm_started s2)\<rparr>;
          s4 = do_begin ([(''mode'', ''standalone'')], ''b@x.org'') s3
      in if k = 0 then s1 else if k = 1 then s2 else if k = 2 then s3 else if k = 3 then s4 else do_callback s4)"

lemma demo_changes_reach: "commits_reach False 0 (demo_changes k)"
proof -
  have one: "commits_reach False 0 (demo_changes 0)"
    unfolding demo_changes_def Let_def by (simp add: commits_reach.step [OF commits_reach.init start])
  have two: "commits_reach False 0 (demo_changes 1)"
    using commits_reach.step [OF one wait [where t = "2 * minute"]]
    by (simp add: demo_changes_def commits_init_def commit_ops duration_defs)
  have three: "commits_reach False 0 (demo_changes 2)"
    using commits_reach.step [OF two expire [where t = "2 * minute"]]
    by (simp add: demo_changes_def commits_init_def commit_ops listenerConfirmWindow_def duration_defs)
  have four: "commits_reach False 0 (demo_changes 3)"
    using commits_reach.step [OF three start [where rb = "([(''mode'', ''standalone'')], ''b@x.org'')"]]
    by (simp add: demo_changes_def Let_def)
  have five: "commits_reach False 0 (demo_changes 4)"
    using commits_reach.step [OF four callback] by (simp add: demo_changes_def commits_init_def commit_ops)
  show ?thesis
  proof (cases "k < 4")
    case True
    with one two three four show ?thesis by (auto simp: less_Suc_eq numeral_eq_Suc)
  next
    case False
    with five show ?thesis by (simp add: demo_changes_def)
  qed
qed

theorem commit_outcomes_witness:
  "length (outcomes 1 (demo_changes 4)) \<le> 1 \<and> outcomes 1 (demo_changes 4) = [Replaced 1] \<and>
   outcomes 2 (demo_changes 4) = [RolledBack 2 ([(''mode'', ''standalone'')], ''b@x.org'') (2 * minute)]"
  using commit_outcomes [OF demo_changes_reach, of 1 4]
  by (simp add: demo_changes_def outcomes_def commits_init_def commit_ops)

text \<open>The gap is real: a callback that was started for one change and gets the mutex after the next one was made
  rolls that one back at once, two minutes before its deadline, and a confirmation then finds nothing pending.\<close>

lemma stale_callback_rolls_back:
  "\<exists>s rb. commits_reach False 0 s \<and> Begun 2 rb (4 * minute) \<in> set (cm_log s) \<and>
     RolledBack 2 rb (2 * minute) \<in> set (cm_log s) \<and> \<not> fst (commit_confirm (cm_lock s))"
proof (intro exI conjI)
  show "commits_reach False 0 (demo_changes 4)" by (rule demo_changes_reach)
qed (simp_all add: demo_changes_def commits_init_def commit_ops listenerConfirmWindow_def duration_defs)

end
