(* ===== verification/Lifecycle.thy ===== *)
theory Lifecycle
  imports Serve
begin

text \<open>
  How long things last: the loop that keeps the event log within its retention (\<open>EventLog.gcLoop\<close> of
  \<open>portal/store_eventlog.go\<close>), and the end of \<open>main\<close> (\<open>portal/main.go\<close>), which waits for a signal or for the
  plain listener to fail and then shuts the listeners down within ten seconds.
\<close>

section \<open>The sweep of the event log\<close>

text \<open>Events that are written, and ticks, each with the delay after which its sweep runs and its faults.\<close>

datatype log_act = Logged bool time Event | Tick duration "nat \<Rightarrow> bool" "nat \<Rightarrow> bool"

text \<open>
  The ticker fires every hour from the time it was made, however long a sweep takes; the first component is the
  time of the last sweep, the second that of the next tick.
\<close>

fun log_ticks :: "duration \<Rightarrow> log_act list \<Rightarrow> time \<times> time \<times> eventTable \<Rightarrow> time \<times> time \<times> eventTable" where
  "log_ticks retention [] st = st"
| "log_ticks retention (Logged flt now ev # acts) (swept, nxt, t) =
     log_ticks retention acts (swept, nxt, Append flt now ev t)"
| "log_ticks retention (Tick late fs fd # acts) (swept, nxt, t) =
     log_ticks retention acts (nxt + late, nxt + hour, snd (Prune fs fd (nxt + late) retention t))"

text \<open>Only the writes, for a log without retention.\<close>

definition log_writes :: "log_act list \<Rightarrow> eventTable \<Rightarrow> eventTable" where
  "log_writes acts t = fold (\<lambda>act t. case act of Logged flt now ev \<Rightarrow> Append flt now ev t | Tick _ _ _ \<Rightarrow> t) acts t"

text \<open>The loop, started at \<open>t0\<close>, with a first sweep that takes \<open>took\<close>; without a retention it returns at once.\<close>

definition gcLoop ::
  "duration \<Rightarrow> time \<Rightarrow> duration \<Rightarrow> (nat \<Rightarrow> bool) \<Rightarrow> (nat \<Rightarrow> bool) \<Rightarrow> log_act list \<Rightarrow> eventTable \<Rightarrow> time \<times> time \<times> eventTable" where
  "gcLoop retention t0 took fs fd acts t =
     (if retention \<le> 0 then (t0, t0, log_writes acts t)
      else log_ticks retention acts (t0, t0 + took + hour, snd (Prune fs fd t0 retention t)))"


section \<open>The end of main\<close>

text \<open>What ends the wait: a signal, or the plain listener, with an error or closed.\<close>

datatype ending = GotSignal | ServeError string | ServeClosed

text \<open>When the last request that is under way on either listener ends, counted from the start of the shutdown.\<close>

record drain =
  dr_plain :: duration
  dr_tls :: duration

definition shutdownTimeout :: duration where "shutdownTimeout = 10 * second"

text \<open>\<open>Server.Shutdown\<close> at \<open>now\<close>, under a context that ends at \<open>deadline\<close>: whether it gave up, and when.\<close>

definition server_Shutdown :: "duration \<Rightarrow> duration \<Rightarrow> duration \<Rightarrow> bool \<times> duration" where
  "server_Shutdown deadline now idle =
     (if idle \<le> now then (False, now) else if idle \<le> deadline then (False, idle) else (True, max now deadline))"

record stopped =
  st_code :: int
  st_plainCut :: bool
  st_tlsCut :: bool
  st_took :: duration
  st_server :: server

text \<open>An error of the plain listener ends the process at once; the other two endings share the ten seconds.\<close>

definition main_end :: "ending \<Rightarrow> drain \<Rightarrow> server \<Rightarrow> stopped" where
  "main_end ending d s =
     (case ending of
        ServeError e \<Rightarrow> \<lparr>st_code = 1, st_plainCut = True, st_tlsCut = sv_tlsAddr s \<noteq> None, st_took = 0, st_server = s\<rparr>
      | _ \<Rightarrow>
          (case server_Shutdown shutdownTimeout 0 (dr_plain d) of (plainCut, t) \<Rightarrow>
             (case (if sv_tlsAddr s = None then (False, t) else server_Shutdown shutdownTimeout t (dr_tls d)) of (tlsCut, t') \<Rightarrow>
                \<lparr>st_code = 0, st_plainCut = plainCut, st_tlsCut = tlsCut, st_took = t', st_server = shutdown_listeners s\<rparr>)))"

text \<open>A stop by a signal takes at most ten seconds and cuts only requests that need longer; both listeners are given up.\<close>

lemma main_end_graceful:
  assumes "0 \<le> dr_plain d" "0 \<le> dr_tls d" "\<forall>e. ending \<noteq> ServeError e" "x = main_end ending d s"
  shows "st_code x = 0 \<and> st_took x \<le> 10 * second \<and> (st_plainCut x \<longleftrightarrow> 10 * second < dr_plain d) \<and>
    (st_tlsCut x \<longleftrightarrow> sv_tlsAddr s \<noteq> None \<and> 10 * second < dr_tls d) \<and> sv_tlsAddr (st_server x) = None"
  using assms
  by (cases ending) (auto simp: main_end_def server_Shutdown_def shutdownTimeout_def shutdown_listeners_def second_def)

text \<open>When the plain listener fails, for instance because its port is taken, nothing is shut down in order.\<close>

lemma main_end_fatal: "st_code (main_end (ServeError e) d s) = 1 \<and> st_server (main_end (ServeError e) d s) = s"
  by (simp add: main_end_def)


section \<open>Lemmas\<close>

lemma log_writes_simps [simp]:
  "log_writes [] t = t" "log_writes (Logged flt now ev # acts) t = log_writes acts (Append flt now ev t)"
  "log_writes (Tick late fs fd # acts) t = log_writes acts t"
  by (simp_all add: log_writes_def)

text \<open>
  The acts are in order after a sweep at \<open>swept\<close>: events carry the time at which they are written, which is not
  before the last sweep; sweeps run within the hour of their tick, and the database works.
\<close>

fun orderly :: "time \<Rightarrow> time \<Rightarrow> log_act list \<Rightarrow> bool" where
  "orderly swept nxt [] = True"
| "orderly swept nxt (Logged flt now ev # acts) = (swept \<le> (if is_zero (ev_time ev) then now else ev_time ev) \<and> orderly swept nxt acts)"
| "orderly swept nxt (Tick late fs fd # acts) =
     (0 \<le> late \<and> late \<le> hour \<and> (\<forall>i < pruneMaxBatches. \<not> fs i \<and> \<not> fd i) \<and> orderly (nxt + late) (nxt + hour) acts)"

fun writes :: "log_act list \<Rightarrow> nat" where
  "writes [] = 0"
| "writes (Logged flt now ev # acts) = Suc (writes acts)"
| "writes (Tick late fs fd # acts) = writes acts"

lemma prune_loop_cong:
  "\<forall>i<n. \<not> fs i \<and> \<not> fd i \<Longrightarrow> prune_loop fs fd n c d t = prune_loop (\<lambda>_. False) (\<lambda>_. False) n c d t"
  by (induction n arbitrary: d t) (simp_all add: Let_def case_prod_beta)

text \<open>What the log holds is what the writes alone would leave, cut at a time.\<close>

definition cut_at :: "time \<Rightarrow> eventTable \<Rightarrow> eventTable" where
  "cut_at c t = t\<lparr>et_rows := filter (\<lambda>ev. c \<le> ev_time ev) (et_rows t)\<rparr>"

lemma Prune_works:
  assumes "\<forall>i < pruneMaxBatches. \<not> fs i \<and> \<not> fd i" "wf_events t" "0 < retention" "length (et_rows t) \<le> 5000000"
  shows "snd (Prune fs fd now retention t) = cut_at (now - retention) t"
proof -
  have "length (filter (\<lambda>ev. ev_time ev < now - retention) (et_rows t)) \<le> 5000000"
    using assms(4) length_filter_le order_trans by blast
  moreover have "Prune fs fd now retention t = Prune (\<lambda>_. False) (\<lambda>_. False) now retention t"
    using prune_loop_cong [OF assms(1)] by (simp add: Prune_def)
  ultimately show ?thesis using Prune_exact [OF assms(2,3)] by (simp add: cut_at_def)
qed

lemma cut_Append:
  "c \<le> (if is_zero (ev_time ev) then now else ev_time ev) \<Longrightarrow> Append flt now ev (cut_at c t) = cut_at c (Append flt now ev t)"
  by (auto simp: cut_at_def Append_def Let_def split: if_splits)

lemma cut_cut:
  assumes "c \<le> c'"
  shows "cut_at c' (cut_at c t) = cut_at c' t"
proof -
  have "filter (\<lambda>ev. c' \<le> ev_time ev) (filter (\<lambda>ev. c \<le> ev_time ev) evs) = filter (\<lambda>ev. c' \<le> ev_time ev) evs"
    for evs :: "Event list"
    using assms by (induction evs) auto
  then show ?thesis by (simp add: cut_at_def del: filter_filter)
qed

lemma wf_cut: "wf_events t \<Longrightarrow> wf_events (cut_at c t)"
  by (auto simp: cut_at_def wf_events_def distinct_map_filter)

lemma cut_length: "length (et_rows (cut_at c t)) \<le> length (et_rows t)"
  by (simp add: cut_at_def)

lemma Append_length: "length (et_rows (Append flt now ev t)) \<le> Suc (length (et_rows t))"
  by (simp add: Append_def Let_def)

lemma log_ticks_exact:
  assumes "log_ticks retention acts (swept, nxt, cut_at (swept - retention) t) = (swept', nxt', t')"
    and "orderly swept nxt acts" "0 < retention" "swept \<le> nxt" "nxt \<le> swept + hour + slack" "0 \<le> slack"
    and "wf_events t" "length (et_rows t) + writes acts \<le> 5000000"
  shows "t' = cut_at (swept' - retention) (log_writes acts t) \<and> swept' \<le> nxt' \<and> nxt' \<le> swept' + hour + slack"
  using assms
proof (induction acts arbitrary: swept nxt t)
  case Nil
  then show ?case by auto
next
  case (Cons act acts)
  show ?case
  proof (cases act)
    case (Logged flt now ev)
    with Cons.prems(2,3) have "swept - retention \<le> (if is_zero (ev_time ev) then now else ev_time ev)" by simp
    with Cons.prems(1) Logged have "log_ticks retention acts (swept, nxt, cut_at (swept - retention) (Append flt now ev t)) = (swept', nxt', t')"
      by (simp add: cut_Append)
    from Cons.IH [OF this] Cons.prems Logged Append_length [of flt now ev t] show ?thesis by (simp add: wf_Append)
  next
    case (Tick late fs fd)
    let ?s = "nxt + late"
    have "snd (Prune fs fd ?s retention (cut_at (swept - retention) t)) = cut_at (?s - retention) (cut_at (swept - retention) t)"
      using Prune_works [OF _ wf_cut [OF Cons.prems(7)] Cons.prems(3), of fs fd "swept - retention" ?s]
        Cons.prems(2,8) Tick cut_length [of "swept - retention" t]
      by simp
    also have "\<dots> = cut_at (?s - retention) t" using Cons.prems(2,4) Tick by (intro cut_cut) simp
    finally have "log_ticks retention acts (?s, nxt + hour, cut_at (?s - retention) t) = (swept', nxt', t')"
      using Cons.prems(1) Tick by simp
    from Cons.IH [OF this] Cons.prems Tick show ?thesis by simp
  qed
qed


section \<open>Properties\<close>


definition demo_logged :: "time \<Rightarrow> Event" where
  "demo_logged at = \<lparr>ev_id = 0, ev_time = at, ev_kind = KindLogin, ev_subject = [], ev_result = [], ev_method = [],
     ev_mac = [], ev_ip = [], ev_detail = []\<rparr>"


end
