(* ===== verification/DenySafety.thy ===== *)
theory DenySafety
  imports Serve PortalSafety AdminEffects
begin

text \<open>
  A denied device stays out.  The entry that the console makes (\<open>handleDenyMACCreate\<close> of \<open>portal/main.go\<close>,
  \<open>AddMAC\<close> of \<open>portal/store_denylist.go\<close>) is followed through whatever visitors send and the timers do to the
  handlers that let a device on, each of which asks \<open>IsMACDenied\<close> at its own place.
\<close>

section \<open>The entry\<close>

lemma normalized_length:
  assumes "isNormalizedMAC (normalizeMAC mac)"
  shows "length (mac_digits mac) = 12"
proof (rule ccontr)
  assume other: "length (mac_digits mac) \<noteq> 12"
  then have low: "isNormalizedMAC (to_lower mac)" using assms by (simp add: normalizeMAC_alt)
  define s where "s = to_lower mac"
  have "length s = 17" using low by (simp add: isNormalizedMAC_def s_def)
  then obtain a b c d e f g h i j k l m n p q r where s: "s = [a,b,c,d,e,f,g,h,i,j,k,l,m,n,p,q,r]"
    by (auto simp: length_Suc_conv numeral_eq_Suc)
  have digit: "\<not> mac_separator x" if "lower_hex_digit x" for x
    using that by (auto simp: mac_separator_def lower_hex_digit_def is_digit_def in_range_def)
  have "length (mac_digits s) = 12"
    using low [folded s_def] digit unfolding s by (simp add: isNormalizedMAC_def mac_digits_def) (simp add: mac_separator_def to_lower_def)
  with other show False by (simp add: s_def)
qed

text \<open>Whatever spelling the entry was made with, every spelling of the address is found.\<close>

lemma AddMAC_found:
  assumes "AddMAC fi fs now m tbl = (Inr res, tbl')" "mac_digits mac = mac_digits (mi_mac m)"
  shows "\<exists>row. IsMACDenied False mac tbl' = Some row"
proof -
  have valid: "isNormalizedMAC (normalizeMAC (mi_mac m))" using assms(1) by (auto simp: AddMAC_def split: if_splits)
  then have norm: "normalizeMAC mac = normalizeMAC (mi_mac m)"
    using normalized_length assms(2) by (intro normalizeMAC_spelling) simp_all
  have "tbl' = fst (insert_nothing dm_mac (mac_row now m) tbl)"
    using assms(1) by (auto simp: AddMAC_def case_prod_beta split: if_splits option.splits)
  then have "find (\<lambda>r. dm_mac r = normalizeMAC (mi_mac m)) tbl' \<noteq> None"
    by (simp add: find_insert_nothing mac_row_def split: option.split)
  moreover have "normalizeMAC (mi_mac m) \<noteq> []" using valid by (auto simp: isNormalizedMAC_def)
  ultimately show ?thesis using norm by (auto simp: IsMACDenied_def Let_def)
qed

lemma DenyMACCreate_found:
  assumes "handleDenyMACCreate w x r a = (ReplyJSON 200 kvs, cks, a1)"
    and "mac_digits mac = mac_digits (trim_space (form_value r ''mac''))"
  shows "\<exists>row. IsMACDenied False mac (ap_denylist a1) = Some row"
proof -
  obtain admin where "requireAdmin w True r a = Inr admin" "rq_method r = ''POST''"
    using assms(1) by (auto simp: handleDenyMACCreate_def admin_post_def admin_any_def json_error_def reply_error_def
        requireAdmin_def split: if_splits sum.splits)
  then show ?thesis
    using assms AddMAC_found [of "x_flt x 0" "x_flt x 1" "w_now w"
        "\<lparr>mi_mac = trim_space (form_value r ''mac''), mi_reason = cap_len (trim_space (form_value r ''reason'')) 256,
          mi_by = a_UPN admin\<rparr>" "ap_denylist a"]
    by (auto simp: handleDenyMACCreate_def admin_post_def admin_any_def json_error_def reply_error_def json_ok_def
        audit_def log_admin_def Let_def split: if_splits sum.splits prod.splits)
qed

section \<open>The gates\<close>

text \<open>Visitors and timers leave the list alone.\<close>

lemma owned_app_run: "owned (app_run evs a) = owned a"
proof (induction evs arbitrary: a)
  case (Cons ev evs)
  have "owned (app_step ev a) = owned a" using owned_handle by (cases ev) (simp_all add: owned_def)
  with Cons show ?case by simp
qed simp

lemma denylist_app_run: "ap_denylist (app_run evs a) = ap_denylist a"
  using owned_app_run [of evs a] by (simp add: owned_def)

text \<open>What lets a device on or sends it further.\<close>

fun lets_through :: "reply \<Rightarrow> bool" where
  "lets_through (ReplyRedirect url) = True"
| "lets_through (ReplyJSON status kvs) = (status = 200)"
| "lets_through _ = False"

lemma refusals [simp]:
  "\<not> lets_through (reply_of (page_error lang key code a))" "code \<noteq> 200 \<Longrightarrow> \<not> lets_through (reply_of (json_error code err a))"
  "\<not> lets_through permanent_reply" "\<not> lets_through (reply_of (replay_reply lang st a))"
  "\<not> lets_through (reply_of (rate_limited w rule ip a))"
  by (simp_all add: page_error_def renderError_def json_error_def reply_error_def permanent_reply_def replay_reply_def
      rate_limited_def writeRateLimited_def Let_def split: prod.split limit_rule.split option.split)

lemma open_request_refusal: "open_request w r a = Inl resp \<Longrightarrow> \<not> lets_through (reply_of resp)"
  by (auto simp: open_request_def split: sum.splits prod.splits option.splits)

lemma denied_grant: "mac_denied w (s_MAC sess) a \<Longrightarrow> \<not> lets_through (reply_of (grant_access w r sess lang u m p a))"
  by (simp add: grant_access_def)

lemma denied_handle:
  assumes "mac_denied w (s_MAC sess) a" "read_session w a r = Inr sess"
    and "h \<in> {HAuthStart, HAuthProceed, HCallback, HDuoCallback, HGuestCode}" "h = HCallback \<longrightarrow> s_Purpose sess \<noteq> ''admin''"
  shows "\<not> lets_through (reply_of (handle h w r a))"
proof -
  have opened: "sess' = sess \<and> mac_denied w (s_MAC sess) a1" if "open_request w r a = Inr (sess', a1)" for sess' a1
    using that assms(1,2) by (auto simp: open_request_Inr)
  have gates: "\<not> lets_through (reply_of (handleAuthStart w r a))" "\<not> lets_through (reply_of (handleGuestCode w r a))"
    using opened open_request_refusal [of w r a]
    by (auto simp: handleAuthStart_def handleGuestCode_def split: sum.split)
  have callbacks: "\<not> lets_through (reply_of (handleAuthProceed w r a))" "\<not> lets_through (reply_of (handleDuoCallback w r a))"
    using assms(1,2) denied_grant
    by (auto simp: handleAuthProceed_def handleDuoCallback_def case_prod_beta Let_def split: option.split sum.split)
  have entra: "\<not> lets_through (reply_of (handleCallback w r a))" if "s_Purpose sess \<noteq> ''admin''"
    using assms(1,2) denied_grant that
    by (auto simp: handleCallback_def finish_entra_def case_prod_beta Let_def split: sum.split)
  from assms(3,4) gates callbacks entra show ?thesis by auto
qed

section \<open>Properties\<close>

text \<open>C13: A denied device stays out.  Once the console has answered a denial with success, the device gets no
  further at any gate: with a session for its address, in whatever spelling, the start of a sign-in, the
  token that leads to the identity provider, both callbacks and the guest code all answer with a refusal,
  whatever visitors have sent and the timers have done since, and also when the session, the token or the
  state is older than the denial.  This holds while the database answers the look-up.\<close>

theorem denied_locked_out:
  assumes "handleDenyMACCreate w0 x r0 a0 = (ReplyJSON 200 kvs, cks, a1)"
    and "mac_digits (s_MAC sess) = mac_digits (trim_space (form_value r0 ''mac''))"
    and "read_session w (app_run evs a1) r = Inr sess" "\<not> w_flt_deny w"
    and "h \<in> {HAuthStart, HAuthProceed, HCallback, HDuoCallback, HGuestCode}" "h = HCallback \<longrightarrow> s_Purpose sess \<noteq> ''admin''"
  shows "\<not> lets_through (reply_of (handle h w r (app_run evs a1)))"
proof -
  have "mac_denied w (s_MAC sess) (app_run evs a1)"
    using DenyMACCreate_found [OF assms(1,2)] assms(4) by (auto simp: mac_denied_def denylist_app_run)
  from denied_handle [OF this assms(3,5,6)] show ?thesis .
qed

text \<open>The address is denied as \<open>AA-BB-CC-DD-EE-FF\<close>; then a sweep runs and the device redeems a code.\<close>

theorem denied_locked_out_witness:
  "\<exists>kvs cks a1. handleDenyMACCreate (demo_world second) demo_api
       (demo_admin_req ''POST'' [(''mac'', ''AA-BB-CC-DD-EE-FF'')]) demo_app = (ReplyJSON 200 kvs, cks, a1) \<and>
     \<not> lets_through (reply_of (handleGuestCode (demo_world second) (demo_req demo_session ''POST'' [] [])
       (app_run [SweepTokens second] a1)))"
proof -
  let ?r = "demo_admin_req ''POST'' [(''mac'', ''AA-BB-CC-DD-EE-FF'')]"
  have valid: "isNormalizedMAC (normalizeMAC ''AA-BB-CC-DD-EE-FF'')" by code_simp
  have trim: "trim_space (get_value [(''mac'', ''AA-BB-CC-DD-EE-FF'')] ''mac'') = ''AA-BB-CC-DD-EE-FF''" by code_simp
  have "\<exists>kvs cks a1. handleDenyMACCreate (demo_world second) demo_api ?r demo_app = (ReplyJSON 200 kvs, cks, a1) \<and>
      ap_conf a1 = demo_Config"
    using valid
    by (simp add: handleDenyMACCreate_def demo_admin_post trim AddMAC_def demo_api_def insert_nothing_def json_ok_def
        audit_def log_admin_def demo_app_def Let_def)
  then obtain kvs cks a1 where deny: "handleDenyMACCreate (demo_world second) demo_api ?r demo_app = (ReplyJSON 200 kvs, cks, a1)"
    "ap_conf a1 = demo_Config" by blast
  have "mac_digits (s_MAC demo_session) = mac_digits (trim_space (form_value ?r ''mac''))"
    by (simp only: demo_form trim) (simp add: demo_session_def, code_simp)
  moreover have "read_session (demo_world second) (app_run [SweepTokens second] a1) (demo_req demo_session ''POST'' [] []) =
      Inr demo_session"
    using deny(2) by (intro demo_read_session) (simp_all add: app_run_conf)
  moreover have "\<not> w_flt_deny (demo_world second)" by (simp add: demo_world_def)
  ultimately show ?thesis
    using denied_locked_out [OF deny(1), of demo_session "demo_world second" "[SweepTokens second]"
        "demo_req demo_session ''POST'' [] []" HGuestCode] deny(1) by auto
qed

end
